(* ===== verification/Prelude.thy ===== *)
theory Prelude
  imports Main "HOL-Library.Word" "HOL-Library.Multiset"
begin

text \<open>
  Shared vocabulary of the development.

  \<^item> \<open>run\<close> is the result of a C call: it returns a value, it never returns because a
    mutex it waits for is never released, or its behaviour is undefined (a read through a
    dangling or out-of-range pointer, a signed overflow).
  \<^item> \<open>mutex\<close> is a default (non-recursive) \<open>pthread_mutex_t\<close> as one thread sees it while
    no other thread runs: a lock that is already held when the thread asks for it is never
    released.
  \<^item> the \<open>str...\<close> functions are the routines of the C library the sources call, on strings
    without their terminating zero.
\<close>

named_theorems run_simps \<open>evaluation of \<open>run\<close> programs\<close>
named_theorems lock_simps \<open>effect of locking and unlocking\<close>
named_theorems op_defs \<open>definitions of the operations\<close>

section \<open>Results of calls\<close>

datatype 'a run = Ret 'a | Blocked | Undef

primrec bind_run :: "'a run \<Rightarrow> ('a \<Rightarrow> 'b run) \<Rightarrow> 'b run" where
  "bind_run (Ret x) f = f x"
| "bind_run Blocked f = Blocked"
| "bind_run Undef f = Undef"

primrec map_ret :: "('a \<Rightarrow> 'b) \<Rightarrow> 'a run \<Rightarrow> 'b run" where
  "map_ret f (Ret x) = Ret (f x)"
| "map_ret f Blocked = Blocked"
| "map_ret f Undef = Undef"

primrec ret_sat :: "('a \<Rightarrow> bool) \<Rightarrow> 'a run \<Rightarrow> bool" where
  "ret_sat P (Ret x) = P x"
| "ret_sat P Blocked = False"
| "ret_sat P Undef = False"

lemma bind_run_eq_Ret_iff [run_simps]:
  "bind_run m f = Ret y \<longleftrightarrow> (\<exists>x. m = Ret x \<and> f x = Ret y)"
  by (cases m) auto

lemma bind_run_cong [fundef_cong]:
  "m = m' \<Longrightarrow> (\<And>x. m' = Ret x \<Longrightarrow> f x = f' x) \<Longrightarrow> bind_run m f = bind_run m' f'"
  by (cases m') auto

lemma bind_run_assoc [run_simps]:
  "bind_run (bind_run m f) g = bind_run m (\<lambda>x. bind_run (f x) g)"
  by (cases m) auto

lemma bind_run_Ret_right [simp]: "bind_run m Ret = m"
  by (cases m) auto

lemma bind_RetE: "bind_run m f = Ret y \<Longrightarrow> (\<And>x. m = Ret x \<Longrightarrow> f x = Ret y \<Longrightarrow> P) \<Longrightarrow> P"
  by (cases m) auto

lemma ret_satI: "m = Ret x \<Longrightarrow> P x \<Longrightarrow> ret_sat P m"
  by simp

lemma ret_satE: "ret_sat P m \<Longrightarrow> (\<And>x. m = Ret x \<Longrightarrow> P x \<Longrightarrow> Q) \<Longrightarrow> Q"
  by (cases m) auto

lemma ret_sat_bind: "ret_sat P m \<Longrightarrow> (\<And>x. P x \<Longrightarrow> ret_sat Q (f x)) \<Longrightarrow> ret_sat Q (bind_run m f)"
  by (cases m) auto

lemma ret_sat_mono: "ret_sat P m \<Longrightarrow> (\<And>x. P x \<Longrightarrow> Q x) \<Longrightarrow> ret_sat Q m"
  by (cases m) auto

lemma ret_sat_branches:
  "(b \<Longrightarrow> ret_sat P x) \<Longrightarrow> (\<not> b \<Longrightarrow> ret_sat P y) \<Longrightarrow> ret_sat P (if b then x else y)"
  "(m = None \<Longrightarrow> ret_sat P x) \<Longrightarrow> (\<And>a. m = Some a \<Longrightarrow> ret_sat P (f a)) \<Longrightarrow> ret_sat P (case m of None \<Rightarrow> x | Some a \<Rightarrow> f a)"
  "(\<And>a b. q = (a, b) \<Longrightarrow> ret_sat P (g a b)) \<Longrightarrow> ret_sat P (case q of (a, b) \<Rightarrow> g a b)"
  by (auto split: option.split prod.split)

section \<open>Mutexes\<close>

datatype mutex = Destroyed | Unlocked | Locked

abbreviation (input) EPERM :: int where "EPERM \<equiv> 1"
abbreviation (input) EBUSY :: int where "EBUSY \<equiv> 16"
abbreviation (input) EINVAL :: int where "EINVAL \<equiv> 22"

text \<open>The result of the C call is the error number, with the mutex after the call.\<close>

fun pthread_mutex_lock :: "mutex \<Rightarrow> (int \<times> mutex) run" where
  "pthread_mutex_lock Destroyed = Ret (EINVAL, Destroyed)"
| "pthread_mutex_lock Unlocked = Ret (0, Locked)"
| "pthread_mutex_lock Locked = Blocked"

fun pthread_mutex_unlock :: "mutex \<Rightarrow> int \<times> mutex" where
  "pthread_mutex_unlock Destroyed = (EINVAL, Destroyed)"
| "pthread_mutex_unlock Unlocked = (EPERM, Unlocked)"
| "pthread_mutex_unlock Locked = (0, Unlocked)"

fun pthread_mutex_destroy :: "mutex \<Rightarrow> int \<times> mutex" where
  "pthread_mutex_destroy Locked = (EBUSY, Locked)"
| "pthread_mutex_destroy _ = (0, Destroyed)"

lemma lock_unlock [lock_simps]:
  "pthread_mutex_lock m = Ret (0, m') \<Longrightarrow> pthread_mutex_unlock m' = (0, m)"
  by (cases m) auto

section \<open>C strings\<close>

definition strncmp_eq :: "string \<Rightarrow> string \<Rightarrow> nat \<Rightarrow> bool" where
  "strncmp_eq a b n \<longleftrightarrow> take n a = take n b"

definition strchr :: "string \<Rightarrow> char \<Rightarrow> string option" where
  "strchr s c = (let r = dropWhile (\<lambda>x. x \<noteq> c) s in if r = [] then None else Some r)"

text \<open>The character at an offset up to and including the terminating zero.\<close>

definition char_at :: "string \<Rightarrow> nat \<Rightarrow> char" where
  "char_at s i = (if i < length s then s ! i else CHR 0x00)"

lemma strchr_None_iff: "strchr s c = None \<longleftrightarrow> c \<notin> set s"
  by (auto simp: strchr_def Let_def dropWhile_eq_Nil_conv)

lemma strchr_append: "c \<notin> set k \<Longrightarrow> strchr (k @ c # v) c = Some (c # v)"
  by (induction k) (auto simp: strchr_def)

section \<open>Lists\<close>

lemma takeWhile_not_mem: "c \<notin> set k \<Longrightarrow> takeWhile (\<lambda>x. x \<noteq> c) (k @ c # v) = k"
  by (induction k) auto

lemma map_of_append_notin: "x \<notin> fst ` set xs \<Longrightarrow> map_of (xs @ ys) x = map_of ys x"
  by (induction xs) auto

lemma map_of_map_pair_update:
  assumes "distinct (map k xs)" "i < length xs" "k y = k (xs ! i)"
  shows "map_of (map (\<lambda>x. (k x, f x)) (xs[i := y])) =
         (map_of (map (\<lambda>x. (k x, f x)) xs))(k y \<mapsto> f y)"
  using assms
proof (induction xs arbitrary: i)
  case (Cons x xs)
  show ?case
  proof (cases i)
    case 0
    then show ?thesis using Cons.prems by (auto simp: fun_eq_iff)
  next
    case (Suc j)
    then have "xs ! j \<in> set xs" using Cons.prems by auto
    then have "k y \<noteq> k x" using Cons.prems Suc by (metis distinct.simps(2) image_eqI list.set_map list.simps(9) nth_Cons_Suc)
    then show ?thesis using Cons Suc by (auto simp: fun_eq_iff)
  qed
qed simp

lemma map_of_map_pair_snoc:
  assumes "k y \<notin> k ` set xs"
  shows "map_of (map (\<lambda>x. (k x, f x)) (xs @ [y])) = (map_of (map (\<lambda>x. (k x, f x)) xs))(k y \<mapsto> f y)"
  using assms by (induction xs) (auto simp: fun_eq_iff)

lemma map_update_key:
  "i < length xs \<Longrightarrow> k y = k (xs ! i) \<Longrightarrow> map k (xs[i := y]) = map k xs"
  by (metis list_update_id map_update)

lemma list_all2_in_set1: "list_all2 P xs ys \<Longrightarrow> x \<in> set xs \<Longrightarrow> \<exists>y \<in> set ys. P x y"
  by (induction rule: list_all2_induct) auto

text \<open>
  Removal from an unordered array: the last element takes the place of the removed one.
\<close>

definition swap_remove :: "nat \<Rightarrow> 'a list \<Rightarrow> 'a list" where
  "swap_remove i xs = butlast (xs[i := last xs])"

lemma length_swap_remove [simp]: "length (swap_remove i xs) = length xs - 1"
  by (simp add: swap_remove_def)

lemma swap_remove_last: "swap_remove (length xs) (xs @ [x]) = xs"
  by (simp add: swap_remove_def)

lemma swap_remove_middle: "swap_remove (length xs) (xs @ x # ys @ [y]) = xs @ y # ys"
  by (simp add: swap_remove_def butlast_append)

lemma swap_remove_cases:
  assumes "i < length xs"
  obtains "i = length xs - 1" "swap_remove i xs = take i xs" "xs = take i xs @ [xs ! i]"
  | ys where "xs = take i xs @ xs ! i # ys @ [last xs]" "swap_remove i xs = take i xs @ last xs # ys"
proof (cases "i = length xs - 1")
  case True
  then have "xs = take i xs @ [xs ! i]" using id_take_nth_drop [OF assms] by simp
  moreover have "length (take i xs) = i" using assms by simp
  ultimately have "swap_remove i xs = take i xs" using swap_remove_last by metis
  from True this \<open>xs = take i xs @ [xs ! i]\<close> show thesis by (rule that(1))
next
  case False
  then have "drop (Suc i) xs \<noteq> []" using assms by simp
  then have d: "drop (Suc i) xs = butlast (drop (Suc i) xs) @ [last xs]"
    by (metis append_butlast_last_id last_drop drop_eq_Nil leI)
  then have "xs = take i xs @ xs ! i # butlast (drop (Suc i) xs) @ [last xs]"
    using id_take_nth_drop [OF assms] by metis
  moreover have "length (take i xs) = i" using assms by simp
  ultimately have "swap_remove i xs = take i xs @ last xs # butlast (drop (Suc i) xs)"
    using swap_remove_middle by metis
  from \<open>xs = take i xs @ xs ! i # butlast (drop (Suc i) xs) @ [last xs]\<close> this show thesis by (rule that(2))
qed

lemma mset_swap_remove:
  assumes "i < length xs"
  shows "mset xs = add_mset (xs ! i) (mset (swap_remove i xs))"
  using assms by (rule swap_remove_cases) (metis add.right_neutral mset.simps mset_append union_mset_add_mset_right,
    metis add.commute add_mset_commute mset.simps mset_append union_mset_add_mset_left union_mset_add_mset_right add.right_neutral add_mset_add_single)

end
