(* ===== verification/EnvSet.thy ===== *)
theory EnvSet
  imports Prelude
begin

text \<open>
  Environment sets, \<open>src/src/envset.c\<close>: a growable array of strings \<open>NAME=value\<close> closed
  by a null pointer. The first boolean arguments of an operation are the outcomes of the
  allocations and of the formatting it makes, in the order it makes them. The operations
  are shown to implement a finite map, and to keep the array closed by a null pointer,
  which is what makes the unchecked scans of the code safe.
\<close>

section \<open>Data and operations\<close>

record crinitEnvSet =
  envp :: "string option list option"
  allocSz :: nat
  allocInc :: nat

definition crinitEnvSetInit :: "bool \<Rightarrow> crinitEnvSet \<Rightarrow> nat \<Rightarrow> nat \<Rightarrow> int \<times> crinitEnvSet" where
  "crinitEnvSetInit callocOk es initSize sizeIncrement =
     (if \<not> callocOk then (-1, es)
      else (0, es\<lparr>envp := Some (replicate initSize None), allocSz := initSize,
                 allocInc := sizeIncrement\<rparr>))"

text \<open>The strings up to the first null pointer; without one the scan leaves the array.\<close>

fun env_scan :: "string option list \<Rightarrow> string list run" where
  "env_scan [] = Undef"
| "env_scan (None # xs) = Ret []"
| "env_scan (Some e # xs) = map_ret ((#) e) (env_scan xs)"

definition crinitEnvSetDestroy :: "crinitEnvSet \<Rightarrow> (int \<times> crinitEnvSet) run" where
  "crinitEnvSetDestroy es =
     (case envp es of
        None \<Rightarrow> Ret (0, es)
      | Some xs \<Rightarrow> bind_run (env_scan xs)
          (\<lambda>_. Ret (0, es\<lparr>envp := None, allocSz := 0, allocInc := 0\<rparr>)))"

definition crinitEnvSetDup ::
  "bool \<Rightarrow> bool \<Rightarrow> crinitEnvSet \<Rightarrow> crinitEnvSet \<Rightarrow> (int \<times> crinitEnvSet) run" where
  "crinitEnvSetDup callocOk strdupOk copy orig =
     (case envp orig of
        None \<Rightarrow> Ret (-1, copy)
      | Some xs \<Rightarrow>
          (case crinitEnvSetInit callocOk copy (allocSz orig) (allocInc orig) of
             (r, copy) \<Rightarrow>
               if r = -1 then Ret (-1, copy)
               else bind_run (env_scan xs) (\<lambda>es.
                 if es \<noteq> [] \<and> \<not> strdupOk
                 then Ret (-1, copy\<lparr>envp := None, allocSz := 0, allocInc := 0\<rparr>)
                 else if length es > allocSz orig then Undef
                 else Ret (0, copy\<lparr>envp :=
                   Some (map Some es @ replicate (allocSz orig - length es) None)\<rparr>))))"

definition crinitEnvSetValid :: "crinitEnvSet \<Rightarrow> bool" where
  "crinitEnvSetValid es \<longleftrightarrow> envp es \<noteq> None \<and> allocSz es > 0"

text \<open>The comparison of \<open>crinitEnvSetSearch\<close>: the name, then \<open>=\<close>.\<close>

definition env_match :: "string \<Rightarrow> string \<Rightarrow> bool" where
  "env_match e envName \<longleftrightarrow>
     strncmp_eq e envName (length envName) \<and> char_at e (length envName) = CHR ''=''"

fun env_search_from :: "string option list \<Rightarrow> string \<Rightarrow> nat" where
  "env_search_from [] envName = 0"
| "env_search_from (None # xs) envName = 0"
| "env_search_from (Some e # xs) envName =
     (if env_match e envName then 0 else Suc (env_search_from xs envName))"

definition crinitEnvSetSearch :: "crinitEnvSet \<Rightarrow> string \<Rightarrow> int" where
  "crinitEnvSetSearch es envName =
     (if \<not> crinitEnvSetValid es then -1
      else if strchr envName (CHR ''='') \<noteq> None then -1
      else int (env_search_from (take (allocSz es) (the (envp es))) envName))"

definition crinitEnvSetGrow :: "bool \<Rightarrow> crinitEnvSet \<Rightarrow> int \<times> crinitEnvSet" where
  "crinitEnvSetGrow reallocOk es =
     (if allocInc es = 0 then (-1, es)
      else if \<not> reallocOk then (-1, es)
      else (0, es\<lparr>envp := map_option (\<lambda>xs. take (allocSz es) xs @ replicate (allocInc es) None) (envp es),
                 allocSz := allocSz es + allocInc es\<rparr>))"

definition crinitEnvSetGetVal :: "string \<Rightarrow> string option" where
  "crinitEnvSetGetVal e = map_option tl (strchr e (CHR ''=''))"

definition crinitEnvSetGet :: "crinitEnvSet \<Rightarrow> string \<Rightarrow> string option run" where
  "crinitEnvSetGet es envName =
     (if \<not> crinitEnvSetValid es then Ret None
      else let idx = crinitEnvSetSearch es envName; xs = the (envp es) in
        if idx = -1 then Ret None
        else if nat idx \<ge> length xs then Undef
        else case xs ! nat idx of
               None \<Rightarrow> Ret None
             | Some e \<Rightarrow> Ret (crinitEnvSetGetVal e))"

text \<open>
  \<open>crinitEnvSetSet\<close>. After a failed search (\<open>idx = -1\<close>) the code only prints a message and
  goes on to format into \<open>es->envp[-1]\<close>.
\<close>

definition env_store :: "bool \<Rightarrow> crinitEnvSet \<Rightarrow> nat \<Rightarrow> string \<Rightarrow> string \<Rightarrow> int \<times> crinitEnvSet" where
  "env_store fmtOk es idx envName envVal =
     (let xs = the (envp es) in
      if fmtOk then (0, es\<lparr>envp := Some (xs[idx := Some (envName @ ''='' @ envVal)])\<rparr>)
      else (-1, es\<lparr>envp := Some (xs[idx := None])\<rparr>))"

definition crinitEnvSetSet ::
  "bool \<Rightarrow> bool \<Rightarrow> bool \<Rightarrow> crinitEnvSet \<Rightarrow> string \<Rightarrow> string \<Rightarrow> (int \<times> crinitEnvSet) run" where
  "crinitEnvSetSet growOk mallocOk fmtOk es envName envVal =
     (if \<not> crinitEnvSetValid es then Ret (-1, es)
      else let newSize = length envName + length envVal + 2;
               idx = crinitEnvSetSearch es envName in
        if idx = -1 then Undef
        else if nat idx \<ge> length (the (envp es)) then Undef
        else case the (envp es) ! nat idx of
               None \<Rightarrow>
                 (case (if nat idx \<ge> allocSz es - 1 then crinitEnvSetGrow growOk es else (0, es)) of
                    (r, es) \<Rightarrow>
                      if r = -1 then Ret (-1, es)
                      else if \<not> mallocOk then Ret (-1, es)
                      else Ret (env_store fmtOk es (nat idx) envName envVal))
             | Some e \<Rightarrow>
                 if newSize \<noteq> length e + 1 \<and> \<not> mallocOk then Ret (-1, es)
                 else Ret (env_store fmtOk es (nat idx) envName envVal))"

section \<open>Well-formedness and the map an environment set stands for\<close>

definition env_key :: "string \<Rightarrow> string" where
  "env_key e = takeWhile (\<lambda>c. c \<noteq> CHR ''='') e"

definition env_val :: "string \<Rightarrow> string" where
  "env_val e = tl (dropWhile (\<lambda>c. c \<noteq> CHR ''='') e)"

fun env_entries :: "string option list \<Rightarrow> string list" where
  "env_entries (Some e # xs) = e # env_entries xs"
| "env_entries _ = []"

definition env_wf :: "crinitEnvSet \<Rightarrow> bool" where
  "env_wf es \<longleftrightarrow>
     (case envp es of
        None \<Rightarrow> False
      | Some xs \<Rightarrow>
          let ents = env_entries xs in
          length xs = allocSz es \<and> length ents < length xs \<and>
          xs = map Some ents @ replicate (length xs - length ents) None \<and>
          distinct (map env_key ents) \<and> (\<forall>e \<in> set ents. CHR ''='' \<in> set e))"

definition env_map :: "crinitEnvSet \<Rightarrow> string \<rightharpoonup> string" where
  "env_map es =
     (case envp es of
        None \<Rightarrow> Map.empty
      | Some xs \<Rightarrow> map_of (map (\<lambda>e. (env_key e, env_val e)) (env_entries xs)))"

section \<open>Library lemmas\<close>

lemma env_entries_app [simp]: "env_entries (map Some es @ replicate n None) = es"
  by (induction es) (cases n; simp)+

lemma env_entries_append: "env_entries (map Some es @ xs) = es @ env_entries xs"
  by (induction es) auto

lemma env_wfE:
  assumes "env_wf es"
  obtains ents k where
    "envp es = Some (map Some ents @ replicate k None)" "k > 0" "allocSz es = length ents + k"
    "distinct (map env_key ents)" "\<forall>e \<in> set ents. CHR ''='' \<in> set e"
    "env_map es = map_of (map (\<lambda>e. (env_key e, env_val e)) ents)"
proof -
  from assms obtain xs where xs: "envp es = Some xs" by (auto simp: env_wf_def split: option.splits)
  define ents where "ents = env_entries xs"
  show thesis
    by (rule that [of ents "length xs - length ents"])
       (use assms in \<open>auto simp: env_wf_def env_map_def Let_def xs ents_def\<close>)
qed

lemma env_wfI:
  assumes "envp es = Some (map Some ents @ replicate k None)" "k > 0" "allocSz es = length ents + k"
    "distinct (map env_key ents)" "\<forall>e \<in> set ents. CHR ''='' \<in> set e"
  shows "env_wf es" "env_map es = map_of (map (\<lambda>e. (env_key e, env_val e)) ents)"
  using assms by (auto simp: env_wf_def env_map_def)

lemma env_match_split: "env_match e n \<longleftrightarrow> (\<exists>v. e = n @ CHR ''='' # v)"
proof
  assume m: "env_match e n"
  then have "length n < length e" by (auto simp: env_match_def char_at_def split: if_splits)
  then have "e = n @ CHR ''='' # drop (Suc (length n)) e"
    using m id_take_nth_drop [of "length n" e]
    by (auto simp: env_match_def char_at_def strncmp_eq_def)
  then show "\<exists>v. e = n @ CHR ''='' # v" ..
qed (auto simp: env_match_def char_at_def strncmp_eq_def)

lemma env_key_split: "CHR ''='' \<in> set e \<Longrightarrow> e = env_key e @ CHR ''='' # env_val e"
  by (induction e) (auto simp: env_key_def env_val_def)

lemma env_match_key: "CHR ''='' \<notin> set n \<Longrightarrow> CHR ''='' \<in> set e \<Longrightarrow> env_match e n \<longleftrightarrow> env_key e = n"
  using env_key_split [of e] by (auto simp: env_match_split env_key_def takeWhile_not_mem)

lemma env_key_pair [simp]: "CHR ''='' \<notin> set n \<Longrightarrow> env_key (n @ CHR ''='' # v) = n"
  by (simp add: env_key_def takeWhile_not_mem)

lemma env_val_pair [simp]: "CHR ''='' \<notin> set n \<Longrightarrow> env_val (n @ CHR ''='' # v) = v"
  by (induction n) (auto simp: env_val_def)

lemma GetVal_env_val: "CHR ''='' \<in> set e \<Longrightarrow> crinitEnvSetGetVal e = Some (env_val e)"
  by (auto simp: crinitEnvSetGetVal_def env_val_def strchr_def Let_def)

lemma env_scan_closed: "k > 0 \<Longrightarrow> env_scan (map Some ents @ replicate k None) = Ret ents"
  by (induction ents) (cases k; simp)+

text \<open>The search finds the entry of the name, or the first null pointer.\<close>

lemma env_search_from_split:
  assumes "\<forall>e \<in> set ents. CHR ''='' \<in> set e" "CHR ''='' \<notin> set n"
  shows "env_search_from (map Some ents @ replicate k None) n =
         length (takeWhile (\<lambda>e. env_key e \<noteq> n) ents)"
  using assms by (induction ents) (cases k; simp add: env_match_key)+

lemma Search_wf:
  assumes "env_wf es" "CHR ''='' \<notin> set n"
  shows "crinitEnvSetSearch es n =
         int (length (takeWhile (\<lambda>e. env_key e \<noteq> n) (env_entries (the (envp es)))))"
  using assms(1)
  by (rule env_wfE)
     (use assms(2) in \<open>auto simp: crinitEnvSetSearch_def crinitEnvSetValid_def strchr_None_iff env_search_from_split\<close>)

lemma takeWhile_length_found:
  assumes "x \<in> set xs" "k x = n"
  shows "length (takeWhile (\<lambda>e. k e \<noteq> n) xs) < length xs"
        "k (xs ! length (takeWhile (\<lambda>e. k e \<noteq> n) xs)) = n"
  using assms by (induction xs) auto

lemma takeWhile_notin: "n \<notin> k ` set xs \<Longrightarrow> takeWhile (\<lambda>e. k e \<noteq> n) xs = xs"
  by (induction xs) auto

section \<open>The operations implement a finite map\<close>

text \<open>
  The interface a client of environment sets relies on: \<open>get\<close> and \<open>set\<close> act on a map, on
  every name the store accepts.
\<close>

fun set_all :: "('s \<Rightarrow> 'k \<Rightarrow> 'v \<Rightarrow> (int \<times> 's) run) \<Rightarrow> 's \<Rightarrow> ('k \<times> 'v) list \<Rightarrow> 's run" where
  "set_all put s [] = Ret s"
| "set_all put s ((k, v) # kvs) = bind_run (put s k v) (\<lambda>(r, s'). set_all put s' kvs)"

locale var_store =
  fixes get :: "'s \<Rightarrow> 'k \<Rightarrow> 'v option run"
    and put :: "'s \<Rightarrow> 'k \<Rightarrow> 'v \<Rightarrow> (int \<times> 's) run"
    and inv :: "'s \<Rightarrow> bool"
    and ok :: "'k \<Rightarrow> bool"
    and abs :: "'s \<Rightarrow> 'k \<rightharpoonup> 'v"
  assumes get_abs: "inv s \<Longrightarrow> ok k \<Longrightarrow> get s k = Ret (abs s k)"
    and set_abs: "inv s \<Longrightarrow> ok k \<Longrightarrow>
      ret_sat (\<lambda>(r, s'). r = 0 \<and> inv s' \<and> abs s' = (abs s)(k \<mapsto> v)) (put s k v)"
begin

lemma get_after_set:
  assumes "inv s" "ok k" "ok k'"
  shows "bind_run (put s k v) (\<lambda>(r, s'). get s' k') = (if k = k' then Ret (Some v) else get s k')"
  by (rule ret_satE [OF set_abs [OF assms(1,2), of v]]) (use assms in \<open>auto simp: get_abs\<close>)

lemma set_all_abs:
  assumes "inv s" "\<forall>(k, v) \<in> set kvs. ok k"
  shows "ret_sat (\<lambda>s'. inv s' \<and> abs s' = abs s ++ map_of (rev kvs)) (set_all put s kvs)"
  using assms
proof (induction kvs arbitrary: s)
  case (Cons kv kvs)
  obtain k v where [simp]: "kv = (k, v)" by (cases kv)
  have k: "ok k" and kvs: "\<forall>(k, v) \<in> set kvs. ok k" using Cons.prems by auto
  have m: "abs s ++ map_of (rev (kv # kvs)) = (abs s)(k \<mapsto> v) ++ map_of (rev kvs)"
    by (simp add: map_add_assoc [symmetric])
  show ?case
    unfolding m unfolding \<open>kv = (k, v)\<close> set_all.simps
  proof (rule ret_sat_bind [OF set_abs [OF Cons.prems(1) k, of v]])
    fix p :: "int \<times> 's"
    assume p: "case p of (r, s') \<Rightarrow> r = 0 \<and> inv s' \<and> abs s' = (abs s)(k \<mapsto> v)"
    obtain r s' where [simp]: "p = (r, s')" by (cases p)
    from p have i: "inv s'" and a: "abs s' = (abs s)(k \<mapsto> v)" by simp_all
    show "ret_sat (\<lambda>s'. inv s' \<and> abs s' = (abs s)(k \<mapsto> v) ++ map_of (rev kvs))
            (case p of (r, s') \<Rightarrow> set_all put s' kvs)"
      using Cons.IH [OF i kvs] unfolding a by (simp add: fun_upd_def)
  qed
qed simp

end

definition env_inv :: "crinitEnvSet \<Rightarrow> bool" where
  "env_inv es \<longleftrightarrow> env_wf es \<and> allocInc es > 0"

lemma Get_wf:
  assumes "env_wf es" "CHR ''='' \<notin> set n"
  shows "crinitEnvSetGet es n = Ret (env_map es n)"
  using assms(1)
proof (rule env_wfE)
  fix ents k
  assume e: "envp es = Some (map Some ents @ replicate k None)" "k > 0" "allocSz es = length ents + k"
    "distinct (map env_key ents)" "\<forall>e \<in> set ents. CHR ''='' \<in> set e"
    "env_map es = map_of (map (\<lambda>e. (env_key e, env_val e)) ents)"
  define i where "i = length (takeWhile (\<lambda>e. env_key e \<noteq> n) ents)"
  have s: "crinitEnvSetSearch es n = int i"
    using Search_wf [OF assms] e by (simp add: i_def)
  have v: "crinitEnvSetValid es" using e by (simp add: crinitEnvSetValid_def)
  show ?thesis
  proof (cases "n \<in> env_key ` set ents")
    case True
    then have i: "i < length ents" "env_key (ents ! i) = n"
      using takeWhile_length_found [of _ ents env_key n] by (auto simp: i_def)
    then have "map_of (map (\<lambda>e. (env_key e, env_val e)) ents) n = Some (env_val (ents ! i))"
      using e(4) by (intro map_of_is_SomeI) (auto simp: comp_def in_set_conv_nth intro!: exI [of _ i])
    then show ?thesis using i e(5) by (simp add: crinitEnvSetGet_def v s e nth_append GetVal_env_val)
  next
    case False
    then have "i = length ents" by (simp add: i_def takeWhile_notin)
    moreover have "map_of (map (\<lambda>e. (env_key e, env_val e)) ents) n = None"
      using False by (auto simp: map_of_eq_None_iff)
    ultimately show ?thesis using e(2) by (simp add: crinitEnvSetGet_def v s e nth_append)
  qed
qed

lemma Set_present:
  fixes v :: string
  assumes "envp es = Some (map Some ents @ replicate k None)" "k > 0" "allocSz es = length ents + k"
    "distinct (map env_key ents)" "\<forall>e \<in> set ents. CHR ''='' \<in> set e"
    "CHR ''='' \<notin> set n" "crinitEnvSetSearch es n = int i" "i < length ents" "env_key (ents ! i) = n"
  defines "es' \<equiv> es\<lparr>envp := Some (map Some (ents[i := n @ CHR ''='' # v]) @ replicate k None)\<rparr>"
  shows "crinitEnvSetSet True True True es n v = Ret (0, es')"
    and "env_wf es'" and "env_map es' = (env_map es)(n \<mapsto> v)"
proof -
  let ?e = "n @ CHR ''='' # v"
  have "(map Some ents @ replicate k None)[i := Some ?e] = map Some (ents[i := ?e]) @ replicate k None"
    using assms by (simp add: list_update_append map_update)
  then show "crinitEnvSetSet True True True es n v = Ret (0, es')"
    using assms by (simp add: crinitEnvSetSet_def crinitEnvSetValid_def nth_append env_store_def es'_def)
  have ok: "distinct (map env_key (ents[i := ?e]))" "\<forall>e \<in> set (ents[i := ?e]). CHR ''='' \<in> set e"
    using assms set_update_subset_insert [of ents i ?e] by (auto simp: map_update_key)
  then show "env_wf es'" using assms env_wfI(1) [of es' "ents[i := ?e]" k] by (simp add: es'_def)
  show "env_map es' = (env_map es)(n \<mapsto> v)"
    using assms ok env_wfI(2) [of es' "ents[i := ?e]" k] env_wfI(2) [of es ents k]
      map_of_map_pair_update [of env_key ents i ?e env_val] by (simp add: es'_def)
qed

lemma Set_absent:
  fixes v :: string
  assumes "envp es = Some (map Some ents @ replicate k None)" "k > 0" "allocSz es = length ents + k"
    "distinct (map env_key ents)" "\<forall>e \<in> set ents. CHR ''='' \<in> set e" "allocInc es > 0"
    "CHR ''='' \<notin> set n" "crinitEnvSetSearch es n = int (length ents)" "n \<notin> env_key ` set ents"
  defines "k' \<equiv> if k = 1 then allocInc es else k - 1"
  defines "es' \<equiv> es\<lparr>envp := Some (map Some (ents @ [n @ CHR ''='' # v]) @ replicate k' None),
                    allocSz := length ents + 1 + k'\<rparr>"
  shows "crinitEnvSetSet True True True es n v = Ret (0, es')"
    and "env_wf es'" and "env_map es' = (env_map es)(n \<mapsto> v)"
proof -
  let ?e = "n @ CHR ''='' # v"
  show "crinitEnvSetSet True True True es n v = Ret (0, es')"
    using assms
    by (cases k) (auto simp: crinitEnvSetSet_def crinitEnvSetValid_def nth_append env_store_def
        crinitEnvSetGrow_def list_update_append)
  have k': "k' > 0" using assms by (simp add: k'_def)
  have ok: "distinct (map env_key (ents @ [?e]))" "\<forall>e \<in> set (ents @ [?e]). CHR ''='' \<in> set e"
    using assms by auto
  then show "env_wf es'" using assms k' env_wfI(1) [of es' "ents @ [?e]" k'] by (simp add: es'_def)
  show "env_map es' = (env_map es)(n \<mapsto> v)"
    using assms ok k' env_wfI(2) [of es' "ents @ [?e]" k'] env_wfI(2) [of es ents k]
      map_of_map_pair_snoc [of env_key ?e ents env_val] by (simp add: es'_def)
qed

lemma Set_wf:
  assumes "env_inv es" "CHR ''='' \<notin> set n"
  shows "ret_sat (\<lambda>(r, es'). r = 0 \<and> env_inv es' \<and> env_map es' = (env_map es)(n \<mapsto> v))
           (crinitEnvSetSet True True True es n v)"
proof -
  have wf: "env_wf es" and inc: "allocInc es > 0" using assms(1) by (auto simp: env_inv_def)
  from wf show ?thesis
  proof (rule env_wfE)
    fix ents k
    assume e: "envp es = Some (map Some ents @ replicate k None)" "k > 0" "allocSz es = length ents + k"
      "distinct (map env_key ents)" "\<forall>e \<in> set ents. CHR ''='' \<in> set e"
    define i where "i = length (takeWhile (\<lambda>e. env_key e \<noteq> n) ents)"
    have s: "crinitEnvSetSearch es n = int i" using Search_wf [OF wf assms(2)] e by (simp add: i_def)
    show ?thesis
    proof (cases "n \<in> env_key ` set ents")
      case True
      then have i: "i < length ents" "env_key (ents ! i) = n"
        using takeWhile_length_found [of _ ents env_key n] by (auto simp: i_def)
      show ?thesis
        using Set_present [OF e assms(2) s i, of v] inc by (simp add: env_inv_def)
    next
      case False
      then have "crinitEnvSetSearch es n = int (length ents)" using s by (simp add: i_def takeWhile_notin)
      from Set_absent [OF e inc assms(2) this False, of v] inc show ?thesis by (simp add: env_inv_def)
    qed
  qed
qed

interpretation es: var_store crinitEnvSetGet "crinitEnvSetSet True True True" env_inv
    "\<lambda>n. CHR ''='' \<notin> set n" env_map
proof unfold_locales
  fix es :: crinitEnvSet and n v :: string
  assume "env_inv es" "CHR ''='' \<notin> set n"
  then show "crinitEnvSetGet es n = Ret (env_map es n)" by (simp add: env_inv_def Get_wf)
next
  fix es :: crinitEnvSet and n v :: string
  assume "env_inv es" "CHR ''='' \<notin> set n"
  then show "ret_sat (\<lambda>(r, es'). r = 0 \<and> env_inv es' \<and> env_map es' = (env_map es)(n \<mapsto> v))
           (crinitEnvSetSet True True True es n v)" by (rule Set_wf)
qed

end
