(* ===== verification/Task.thy ===== *)
theory Task
  imports EnvSet
begin

unbundle bit_operations_syntax

text \<open>
  Tasks, \<open>src/inc/task.h\<close>, \<open>src/src/task.c\<close>, \<open>src/src/ioredir.c\<close> and the data of
  \<open>src/inc/cgroup.h\<close>: the task structure, its deep copy and its destruction. An array and
  its size field are one list. The ghost field \<open>freed\<close> says that heap members of the
  structure have been released, so that reading or releasing them again is undefined.
\<close>

section \<open>Data\<close>

type_synonym crinitTaskState = "64 word"
type_synonym crinitTaskOpts = "64 word"

abbreviation (input) CRINIT_TASK_STATE_LOADED :: crinitTaskState where "CRINIT_TASK_STATE_LOADED \<equiv> 0"
abbreviation (input) CRINIT_TASK_STATE_STARTING :: crinitTaskState where "CRINIT_TASK_STATE_STARTING \<equiv> 1"
abbreviation (input) CRINIT_TASK_STATE_RUNNING :: crinitTaskState where "CRINIT_TASK_STATE_RUNNING \<equiv> 2"
abbreviation (input) CRINIT_TASK_STATE_DONE :: crinitTaskState where "CRINIT_TASK_STATE_DONE \<equiv> 4"
abbreviation (input) CRINIT_TASK_STATE_FAILED :: crinitTaskState where "CRINIT_TASK_STATE_FAILED \<equiv> 8"
abbreviation (input) CRINIT_TASK_STATE_NOTIFIED :: crinitTaskState where "CRINIT_TASK_STATE_NOTIFIED \<equiv> 16"
abbreviation (input) CRINIT_TASK_OPT_RESPAWN :: crinitTaskOpts where "CRINIT_TASK_OPT_RESPAWN \<equiv> 1"
abbreviation (input) CRINIT_TASK_OPT_TRIGGER_REARM :: crinitTaskOpts where "CRINIT_TASK_OPT_TRIGGER_REARM \<equiv> 2"

abbreviation (input) CRINIT_TASK_EVENT_RUNNING :: string where "CRINIT_TASK_EVENT_RUNNING \<equiv> ''spawn''"
abbreviation (input) CRINIT_TASK_EVENT_DONE :: string where "CRINIT_TASK_EVENT_DONE \<equiv> ''wait''"
abbreviation (input) CRINIT_TASK_EVENT_FAILED :: string where "CRINIT_TASK_EVENT_FAILED \<equiv> ''fail''"
abbreviation (input) CRINIT_TASK_EVENT_NOTIFY_SUFFIX :: string where
  "CRINIT_TASK_EVENT_NOTIFY_SUFFIX \<equiv> ''-notified''"

abbreviation (input) INT_MAX :: int where "INT_MAX \<equiv> 2147483647"

record timespec =
  tv_sec :: int
  tv_nsec :: int

record crinitTaskCmd =
  argv :: "string list"

abbreviation argc :: "crinitTaskCmd \<Rightarrow> nat" where "argc c \<equiv> length (argv c)"

record crinitTaskDep =
  depName :: string
  event :: string

record crinitTaskPrv =
  prvName :: string
  stateReq :: crinitTaskState

record crinitIoRedir =
  newFd :: int
  oldFd :: int
  path :: "string option"
  oflags :: int
  redirMode :: int
  fifo :: bool

record crinitCgroupParam =
  filename :: string
  cgOption :: string

text \<open>The parent of a cgroup is another structure, identified by its name.\<close>

record crinitCgroup =
  cgName :: string
  groupFd :: int
  parent :: "string option"
  config :: "crinitCgroupParam list option"

record crinitTask =
  name :: string
  cmds :: "crinitTaskCmd list"
  stopCmds :: "crinitTaskCmd list"
  taskEnv :: crinitEnvSet
  elosFilters :: crinitEnvSet
  deps :: "crinitTaskDep list"
  trig :: "crinitTaskDep list"
  triggered :: bool
  prv :: "crinitTaskPrv list"
  opts :: crinitTaskOpts
  state :: crinitTaskState
  pid :: int
  redirs :: "crinitIoRedir list"
  maxRetries :: int
  failCount :: int
  inhibitRespawn :: bool
  createTime :: timespec
  startTime :: timespec
  endTime :: timespec
  user :: nat
  group :: nat
  supGroups :: "nat list"
  username :: "string option"
  groupname :: "string option"
  capabilitiesSet :: "64 word"
  capabilitiesClear :: "64 word"
  cgroup :: "crinitCgroup option"
  freed :: bool

section \<open>Destruction and copies\<close>

text \<open>
  \<open>crinitDestroyTask\<close> releases every heap member and does not reset the pointers to them
  (those of the two environment sets apart), so a second call on the same structure releases
  them again.
\<close>

definition crinitDestroyTask :: "crinitTask \<Rightarrow> crinitTask run" where
  "crinitDestroyTask t =
     (if freed t then Undef
      else bind_run (crinitEnvSetDestroy (taskEnv t)) (\<lambda>(_, env).
           bind_run (crinitEnvSetDestroy (elosFilters t)) (\<lambda>(_, flt).
           Ret (t\<lparr>taskEnv := env, elosFilters := flt, cgroup := None, freed := True\<rparr>))))"

definition crinitFreeTask :: "crinitTask \<Rightarrow> unit run" where
  "crinitFreeTask t = bind_run (crinitDestroyTask t) (\<lambda>_. Ret ())"

text \<open>A command without arguments cannot be copied.\<close>

fun copy_cmds :: "crinitTaskCmd list \<Rightarrow> crinitTaskCmd list option" where
  "copy_cmds [] = Some []"
| "copy_cmds (c # cs) =
     (if argc c < 1 then None else map_option ((#) \<lparr>argv = argv c\<rparr>) (copy_cmds cs))"

definition crinitCopyCommandBlock ::
  "bool \<Rightarrow> crinitTaskCmd list \<Rightarrow> int \<times> crinitTaskCmd list" where
  "crinitCopyCommandBlock memOk origCmds =
     (if origCmds = [] then (0, [])
      else if \<not> memOk then (-1, [])
      else case copy_cmds origCmds of None \<Rightarrow> (-1, []) | Some cs \<Rightarrow> (0, cs))"

definition crinitIoRedirCpy :: "bool \<Rightarrow> crinitIoRedir \<Rightarrow> int \<times> crinitIoRedir" where
  "crinitIoRedirCpy memOk src = (if path src \<noteq> None \<and> \<not> memOk then (-1, src) else (0, src))"

text \<open>
  Where the first failing call of a copy is: nowhere, at the duplication of the name, in the
  copy of the commands, in that of the stop commands, at the two environment sets, or at a
  later member (dependencies, triggers, features, redirections, credentials, cgroup).
\<close>

datatype copyFault = NoFault | AtName | AtCmds | AtStopCmds | AtEnv | AtFilters | AtMembers

text \<open>
  The failure path. The structure was filled by \<open>memcpy\<close> and \<open>stopCmds\<close> is not reset before
  its own copy, so until that copy has started the structure being destroyed still points to
  the stop commands of the original, which are then released (second component).
\<close>

definition copy_fail :: "bool \<Rightarrow> crinitTask \<Rightarrow> int \<times> crinitTask \<times> crinitTask" where
  "copy_fail aliased orig =
     (-1, orig\<lparr>freed := True\<rparr>,
      (if aliased \<and> stopCmds orig \<noteq> [] then orig\<lparr>freed := True\<rparr> else orig))"

text \<open>
  Result code, the copy, and the original after the call. Whether a cgroup is a global one is read from the options under
  their lock, which is free again afterwards; a copy that is made while another thread holds the lock waits for it.
\<close>

definition crinitTaskCopy :: "copyFault \<Rightarrow> crinitTask \<Rightarrow> (int \<times> crinitTask \<times> crinitTask) run" where
  "crinitTaskCopy f orig =
     (if freed orig then Undef
      else if f = AtName then Ret (copy_fail True orig)
      else case crinitCopyCommandBlock (f \<noteq> AtCmds) (cmds orig) of (rc, cs) \<Rightarrow>
        if rc \<noteq> 0 then Ret (copy_fail True orig)
        else case crinitCopyCommandBlock (f \<noteq> AtStopCmds) (stopCmds orig) of (rs, scs) \<Rightarrow>
          if rs \<noteq> 0 then Ret (copy_fail False orig)
          else bind_run (crinitEnvSetDup (f \<noteq> AtEnv) True ((taskEnv orig)\<lparr>envp := None\<rparr>) (taskEnv orig))
            (\<lambda>(re, env). if re = -1 then Ret (copy_fail False orig)
             else bind_run (crinitEnvSetDup (f \<noteq> AtFilters) True ((elosFilters orig)\<lparr>envp := None\<rparr>) (elosFilters orig))
               (\<lambda>(rf, flt). if rf = -1 then Ret (copy_fail False orig)
                else if f = AtMembers then Ret (copy_fail False orig)
                else Ret (0, orig\<lparr>cmds := cs, stopCmds := scs, taskEnv := env, elosFilters := flt\<rparr>, orig))))"

text \<open>
  \<open>crinitTaskDup\<close>. After a failed \<open>crinitTaskCopy\<close>, which has already destroyed the copy,
  \<open>crinitFreeTask\<close> destroys it again; only when the duplication of the name was the first
  thing to fail does the copy own nothing yet (unless the stop commands are shared).
\<close>

definition crinitTaskDup ::
  "bool \<Rightarrow> copyFault \<Rightarrow> crinitTask \<Rightarrow> (int \<times> crinitTask option \<times> crinitTask) run" where
  "crinitTaskDup mallocOk f orig =
     (if \<not> mallocOk then Ret (-1, None, orig)
      else bind_run (crinitTaskCopy f orig) (\<lambda>(r, out, orig').
        if r = 0 then Ret (0, Some out, orig')
        else if f = AtName \<and> stopCmds orig = [] then Ret (-1, None, orig')
        else Undef))"

section \<open>Lemmas\<close>

definition task_wf :: "crinitTask \<Rightarrow> bool" where
  "task_wf t \<longleftrightarrow> \<not> freed t \<and> env_wf (taskEnv t) \<and> env_wf (elosFilters t) \<and>
     (\<forall>c \<in> set (cmds t). argv c \<noteq> []) \<and> (\<forall>c \<in> set (stopCmds t). argv c \<noteq> [])"

lemma copy_cmds_same: "\<forall>c \<in> set cs. argv c \<noteq> [] \<Longrightarrow> copy_cmds cs = Some cs"
  by (induction cs) auto

lemma copy_cmds_None: "copy_cmds cs = None \<longleftrightarrow> (\<exists>c \<in> set cs. argv c = [])"
  by (induction cs) auto

lemma CopyCommandBlock_same:
  "\<forall>c \<in> set cs. argv c \<noteq> [] \<Longrightarrow> crinitCopyCommandBlock True cs = (0, cs)"
  by (simp add: crinitCopyCommandBlock_def copy_cmds_same)

lemma CopyCommandBlock_empty_command:
  "\<exists>c \<in> set cs. argv c = [] \<Longrightarrow> fst (crinitCopyCommandBlock m cs) = -1"
  using copy_cmds_None [of cs] by (auto simp: crinitCopyCommandBlock_def split: option.splits)

lemma EnvSetDup_same:
  assumes "env_wf es"
  shows "crinitEnvSetDup True True (es\<lparr>envp := x\<rparr>) es = Ret (0, es)"
  using assms
  by (rule env_wfE) (auto simp: crinitEnvSetDup_def crinitEnvSetInit_def env_scan_closed)

lemma EnvSetDup_calloc_fails: "crinitEnvSetDup False b copy es = Ret (-1, copy)"
  by (auto simp: crinitEnvSetDup_def crinitEnvSetInit_def split: option.splits)

lemma TaskCopy_same: "task_wf t \<Longrightarrow> crinitTaskCopy NoFault t = Ret (0, t, t)"
  by (simp add: crinitTaskCopy_def task_wf_def CopyCommandBlock_same EnvSetDup_same)

lemma TaskDup_same: "task_wf t \<Longrightarrow> crinitTaskDup True NoFault t = Ret (0, Some t, t)"
  by (simp add: crinitTaskDup_def TaskCopy_same)

text \<open>Every copy that fails leaves a structure whose members have been released.\<close>

lemma TaskCopy_wf_cases:
  assumes "task_wf t"
  shows "crinitTaskCopy f t = Ret (0, t, t) \<or> (\<exists>t'. crinitTaskCopy f t = Ret (-1, t\<lparr>freed := True\<rparr>, t'))"
proof (cases f)
  case AtCmds
  then show ?thesis using assms
    by (auto simp: crinitTaskCopy_def crinitCopyCommandBlock_def copy_fail_def task_wf_def copy_cmds_same EnvSetDup_same)
next
  case AtStopCmds
  then show ?thesis using assms
    by (auto simp: crinitTaskCopy_def crinitCopyCommandBlock_def copy_fail_def task_wf_def copy_cmds_same EnvSetDup_same)
qed (use assms in \<open>auto simp: crinitTaskCopy_def copy_fail_def task_wf_def CopyCommandBlock_same
       EnvSetDup_same EnvSetDup_calloc_fails\<close>)

lemma TaskCopy_empty_command:
  assumes "\<not> freed t" "\<exists>c \<in> set (cmds t). argv c = []"
  shows "crinitTaskCopy f t = Ret (copy_fail True t)"
  using assms CopyCommandBlock_empty_command [of "cmds t" "f \<noteq> AtCmds"]
  by (auto simp: crinitTaskCopy_def split: prod.splits)

end
