(* ===== verification/Timer.thy ===== *)
theory Timer
  imports Task
begin

text \<open>
  Timer definitions, \<open>src/src/timer.c\<close> and \<open>src/inc/timer.h\<close>: the check of a definition,
  the check of a point in time against a definition, and the search for the next point in
  time. Interval bounds keep their widths (\<open>uint8_t\<close>, \<open>uint16_t\<close>, \<open>int8_t\<close>); arithmetic on
  \<open>int\<close> and \<open>long long\<close> stays far from its limits and is done on \<open>int\<close>. \<open>gmtime_r\<close> of the C
  library is defined by counting years and months from 1970.
\<close>

section \<open>Data\<close>

record crinitTimerDef =
  wDay :: "8 word"
  years :: "16 word \<times> 16 word"
  month :: "8 word \<times> 8 word"
  days :: "8 word \<times> 8 word"
  hours :: "8 word \<times> 8 word"
  minutes :: "8 word \<times> 8 word"
  seconds :: "8 word \<times> 8 word"
  timezone :: "8 word \<times> 8 word"

definition crinitTimerSetDefault :: "crinitTimerDef" where
  "crinitTimerSetDefault =
     \<lparr>wDay = 0x7f, years = (0, 0xffff), month = (1, 12), days = (1, 31), hours = (0, 0),
      minutes = (0, 0), seconds = (0, 0), timezone = (0, 0)\<rparr>"

definition CO_RANGE :: "int \<Rightarrow> int \<Rightarrow> int \<Rightarrow> bool" where
  "CO_RANGE start test end \<longleftrightarrow> start \<le> test \<and> test < end"

definition CC_RANGE :: "int \<Rightarrow> int \<Rightarrow> int \<Rightarrow> bool" where
  "CC_RANGE start test end \<longleftrightarrow> start \<le> test \<and> test \<le> end"

definition OC_RANGE :: "int \<Rightarrow> int \<Rightarrow> int \<Rightarrow> bool" where
  "OC_RANGE start test end \<longleftrightarrow> start < test \<and> test \<le> end"

lemmas range_defs = CO_RANGE_def CC_RANGE_def OC_RANGE_def

section \<open>Calendar\<close>

definition crinitIsLeapYear :: "16 word \<Rightarrow> bool" where
  "crinitIsLeapYear year \<longleftrightarrow>
     uint year mod 4 = 0 \<and> (\<not> uint year mod 100 = 0 \<or> uint year mod 400 = 0)"

definition crinitMonthLength :: "8 word \<Rightarrow> 16 word \<Rightarrow> int" where
  "crinitMonthLength m year =
     (if m = 1 \<or> m = 3 \<or> m = 5 \<or> m = 7 \<or> m = 8 \<or> m = 10 \<or> m = 12 then 31
      else if m = 4 \<or> m = 6 \<or> m = 9 \<or> m = 11 then 30
      else if m = 2 then (if crinitIsLeapYear year then 29 else 28)
      else -1)"

text \<open>The table has a zero in its unused first entry.\<close>

definition crinitDayToMonthLookup :: "int list" where
  "crinitDayToMonthLookup = [0, 0, 31, 59, 90, 120, 151, 181, 212, 243, 273, 304, 334]"

definition crinitDaysToMonth :: "8 word \<Rightarrow> 16 word \<Rightarrow> int" where
  "crinitDaysToMonth m year =
     (if m \<noteq> 0 \<and> m \<le> 2 then crinitDayToMonthLookup ! unat m
      else if m \<le> 12 then crinitDayToMonthLookup ! unat m + (if crinitIsLeapYear year then 1 else 0)
      else -1)"

definition crinitMonthLookup :: "string list" where
  "crinitMonthLookup = ['''', ''Jan'', ''Feb'', ''Mar'', ''Apr'', ''May'', ''Jun'', ''Jul'',
     ''Aug'', ''Sep'', ''Oct'', ''Nov'', ''Dec'']"

definition crinitMonthToStr :: "8 word \<Rightarrow> string" where
  "crinitMonthToStr m = (if m \<le> 12 then crinitMonthLookup ! unat m else '''')"

section \<open>Broken-down time\<close>

record tm =
  tm_sec :: int
  tm_min :: int
  tm_hour :: int
  tm_mday :: int
  tm_mon :: int
  tm_year :: int
  tm_wday :: int
  tm_gmtoff :: int

definition year_len :: "int \<Rightarrow> int" where
  "year_len y = (if y mod 4 = 0 \<and> (y mod 100 \<noteq> 0 \<or> y mod 400 = 0) then 366 else 365)"

lemma year_len_bounds: "365 \<le> year_len y" "year_len y \<le> 366"
  by (auto simp: year_len_def)

function gm_year :: "int \<Rightarrow> int \<Rightarrow> int \<times> int" where
  "gm_year y d =
     (if d < 0 then gm_year (y - 1) (d + year_len (y - 1))
      else if d < year_len y then (y, d)
      else gm_year (y + 1) (d - year_len y))"
  by pat_completeness auto
termination
proof (relation "measure (\<lambda>(y, d). if d < 0 then nat (- d) + 800 else nat d)")
  fix y d :: int
  assume "d < 0"
  then show "((y - 1, d + year_len (y - 1)), y, d) \<in> measure (\<lambda>(y, d). if d < 0 then nat (- d) + 800 else nat d)"
    using year_len_bounds [of "y - 1"] by auto
next
  fix y d :: int
  assume "\<not> d < 0" "\<not> d < year_len y"
  then show "((y + 1, d - year_len y), y, d) \<in> measure (\<lambda>(y, d). if d < 0 then nat (- d) + 800 else nat d)"
    using year_len_bounds [of y] by auto
qed simp

declare gm_year.simps [simp del]

definition gm_month_len :: "int \<Rightarrow> int \<Rightarrow> int" where
  "gm_month_len y m =
     (if m = 1 then (if year_len y = 366 then 29 else 28)
      else if m = 3 \<or> m = 5 \<or> m = 8 \<or> m = 10 then 30 else 31)"

fun gm_month :: "int \<Rightarrow> int list \<Rightarrow> int \<Rightarrow> int \<times> int" where
  "gm_month y [] d = (11, d + gm_month_len y 11)"
| "gm_month y (m # ms) d =
     (if d < gm_month_len y m then (m, d) else gm_month y ms (d - gm_month_len y m))"

definition gmtime_r :: "int \<Rightarrow> tm" where
  "gmtime_r t =
     (let d = t div 86400; s = t mod 86400;
          (y, yd) = gm_year 1970 d;
          (m, md) = gm_month y [0, 1, 2, 3, 4, 5, 6, 7, 8, 9, 10, 11] yd
      in \<lparr>tm_sec = s mod 60, tm_min = s div 60 mod 60, tm_hour = s div 3600,
          tm_mday = md + 1, tm_mon = m, tm_year = y - 1900, tm_wday = (d + 4) mod 7,
          tm_gmtoff = 0\<rparr>)"

definition crinitZonedTimeR :: "int \<Rightarrow> 8 word \<times> 8 word \<Rightarrow> tm" where
  "crinitZonedTimeR time tz =
     (let off = sint (fst tz) * 3600 + sint (snd tz) * 60
      in (gmtime_r (time + off))\<lparr>tm_gmtoff := off\<rparr>)"

section \<open>Checks\<close>

definition crinitCheckTimerDef :: "crinitTimerDef \<Rightarrow> bool" where
  "crinitCheckTimerDef td =
     (let both = (\<lambda>P p. P (fst p) \<and> P (snd p));
          r0 = both (\<lambda>m. \<not> (m = 0 \<or> m > 12)) (month td) \<and> both (\<lambda>d. \<not> d > 31) (days td) \<and>
               both (\<lambda>h. \<not> h > 23) (hours td) \<and> both (\<lambda>m. \<not> m > 59) (minutes td) \<and>
               both (\<lambda>s. \<not> s > 59) (seconds td);
          r1 = \<not> (0 > sint (snd (timezone td)) \<or> 59 < sint (snd (timezone td)));
          m = fst (month td); single = (fst (month td) = snd (month td));
          r2 = \<not> (single \<and> (4 = m \<or> 6 = m \<or> 9 = m \<or> 11 = m) \<and>
                  (31 = fst (days td) \<or> 31 = snd (days td)));
          minWrong = (if fst (years td) = snd (years td) \<and> crinitIsLeapYear (fst (years td))
                      then 29 else 30 :: 8 word);
          r3 = \<not> (single \<and> 2 = m) \<or> both (\<lambda>d. \<not> (minWrong \<le> d \<and> 31 > d)) (days td)
      in r0 \<and> r1 \<and> r2 \<and> r3)"

text \<open>
  A field against its interval. The bounds and the value are promoted to \<open>int\<close>; the minutes
  call the third test with its first two arguments exchanged.
\<close>

definition in_interval :: "int \<Rightarrow> int \<Rightarrow> int \<Rightarrow> bool" where
  "in_interval lo v hi \<longleftrightarrow> CC_RANGE lo v hi \<or> CO_RANGE v hi lo \<or> OC_RANGE hi lo v"

definition in_minutes :: "int \<Rightarrow> int \<Rightarrow> int \<Rightarrow> bool" where
  "in_minutes lo v hi \<longleftrightarrow> CC_RANGE lo v hi \<or> CO_RANGE v hi lo \<or> OC_RANGE lo hi v"

definition crinitCheckTimerTime :: "timespec \<Rightarrow> crinitTimerDef \<Rightarrow> bool" where
  "crinitCheckTimerTime ts td =
     (let t = crinitZonedTimeR (tv_sec ts) (timezone td);
          mon = word_of_int (tm_mon t + 1) :: 8 word;
          year = word_of_int (tm_year t + 1900) :: 16 word;
          wday = push_bit (nat ((tm_wday t + 6) mod 7)) 1 :: 8 word
      in in_interval (uint (fst (seconds td))) (tm_sec t) (uint (snd (seconds td))) \<and>
         in_minutes (uint (fst (minutes td))) (tm_min t) (uint (snd (minutes td))) \<and>
         in_interval (uint (fst (hours td))) (tm_hour t) (uint (snd (hours td))) \<and>
         in_interval (uint (fst (days td))) (tm_mday t) (uint (snd (days td))) \<and>
         in_interval (uint (fst (month td))) (uint mon) (uint (snd (month td))) \<and>
         in_interval (uint (fst (years td))) (uint year) (uint (snd (years td))) \<and>
         wday AND wDay td \<noteq> 0)"

section \<open>The next point in time\<close>

text \<open>Whether a value was found without roll-over, the new value and the offset to it.\<close>

definition crinitNext :: "int \<Rightarrow> 8 word \<times> 8 word \<Rightarrow> int \<Rightarrow> int \<Rightarrow> bool \<times> int \<times> int" where
  "crinitNext lastV interval start limit =
     (let lo = uint (word_of_int (if start \<le> uint (fst interval) then uint (fst interval) else start) :: 8 word);
          hi = uint (word_of_int (if uint (snd interval) \<le> limit then uint (snd interval) else limit) :: 8 word);
          off = (if lo = hi then lo - lastV
                 else if lo < hi then (if CO_RANGE lo lastV hi then 1 else lo - lastV)
                 else if CO_RANGE hi lastV lo then lo - lastV
                 else if lastV = limit then - (limit - start)
                 else 1)
      in (off > 0, lastV + off, off))"

text \<open>The year keeps its value and the offset its previous one where the code does not set them.\<close>

definition crinitNextYear :: "int \<Rightarrow> 16 word \<times> 16 word \<Rightarrow> int \<Rightarrow> int \<Rightarrow> bool \<times> int \<times> int" where
  "crinitNextYear lastV interval res offs =
     (let lo = uint (fst interval); hi = uint (snd interval) in
      if lo = hi then (False, res, offs)
      else if lo < hi then (if CO_RANGE lo lastV hi then (True, lastV + 1, 1) else (False, res, offs))
      else if lastV < hi then (True, lastV + 1, 1)
      else if lastV \<ge> lo then (True, lastV + 1, 1)
      else (False, lo, lo - lastV))"

record nextState =
  nsDone :: bool
  nsDay :: int
  nsMonth :: int
  nsYear :: int
  nsOffDays :: int
  nsOff :: int

definition next_day :: "crinitTimerDef \<Rightarrow> nextState \<Rightarrow> nextState" where
  "next_day td s =
     (if \<not> nsDone s \<or> \<not> CC_RANGE (uint (fst (days td))) (nsDay s) (uint (snd (days td))) then
        if days td = (29, 29) \<and> month td = (2, 2) \<and> nsDay s = 29 then s\<lparr>nsDone := False\<rparr>
        else let ml = crinitMonthLength (word_of_int (nsMonth s)) (word_of_int (nsYear s));
                 (done, day, off) = crinitNext (nsDay s) (days td) 1 ml
             in s\<lparr>nsDone := done, nsDay := day, nsOff := off, nsOffDays := nsOffDays s + off\<rparr>
      else s)"

definition next_month :: "crinitTimerDef \<Rightarrow> nextState \<Rightarrow> nextState" where
  "next_month td s =
     (if \<not> nsDone s \<or> \<not> CC_RANGE (uint (fst (month td))) (nsMonth s) (uint (snd (month td))) then
        let (done, mon, off) = crinitNext (nsMonth s) (month td) 1 12;
            y = word_of_int (nsYear s)
        in s\<lparr>nsDone := done, nsMonth := mon, nsOff := off, nsOffDays := nsOffDays s +
              crinitDaysToMonth (word_of_int mon) y - crinitDaysToMonth (word_of_int (nsMonth s)) y\<rparr>
      else s)"

definition next_year :: "crinitTimerDef \<Rightarrow> nextState \<Rightarrow> nextState" where
  "next_year td s =
     (if \<not> nsDone s \<or> \<not> CC_RANGE (uint (fst (years td))) (nsYear s) (uint (snd (years td))) then
        let (done, y, off) = crinitNextYear (nsYear s) (years td) (nsYear s) (nsOff s)
        in s\<lparr>nsDone := done, nsYear := y, nsOff := off, nsOffDays := nsOffDays s +
              off * (365 + (if crinitIsLeapYear (word_of_int (nsYear s)) then 1 else 0))\<rparr>
      else s)"

text \<open>
  The loop over days, months and years; \<open>base\<close> is the time with the offsets of the smaller
  units. \<open>None\<close> stands for leaving the loop without a result.
\<close>

function next_loop :: "crinitTimerDef \<Rightarrow> int \<Rightarrow> int \<Rightarrow> nat \<Rightarrow> nextState \<Rightarrow> timespec option" where
  "next_loop td base nsec tries s =
     (let s = next_year td (next_month td (next_day td s)) in
      if \<not> nsDone s then None
      else let next = \<lparr>tv_sec = base + nsOffDays s * 86400, tv_nsec = nsec\<rparr> in
        if crinitCheckTimerTime next td then Some next
        else if tries \<le> 40 then next_loop td base nsec (Suc tries) (s\<lparr>nsDone := False\<rparr>)
        else None)"
  by pat_completeness auto
termination by (relation "measure (\<lambda>(td, base, nsec, tries, s). 41 - tries)") auto

declare next_loop.simps [simp del]

definition crinitTimerNextTime :: "timespec \<Rightarrow> crinitTimerDef \<Rightarrow> timespec" where
  "crinitTimerNextTime lastV td =
     (let t = crinitZonedTimeR (tv_sec lastV) (timezone td);
          (d1, _, offSec) = crinitNext (tm_sec t) (seconds td) 0 59;
          (d2, offMin) =
            (if \<not> d1 \<or> \<not> CC_RANGE (uint (fst (minutes td))) (tm_min t) (uint (snd (minutes td)))
             then (let (d, _, o1) = crinitNext (tm_min t) (minutes td) 0 59 in (d, o1)) else (d1, 0));
          (d3, offHour) =
            (if \<not> d2 \<or> \<not> CC_RANGE (uint (fst (hours td))) (tm_hour t) (uint (snd (hours td)))
             then (let (d, _, o1) = crinitNext (tm_hour t) (hours td) 0 23 in (d, o1)) else (d2, 0));
          s0 = \<lparr>nsDone = d3, nsDay = tm_mday t, nsMonth = tm_mon t + 1, nsYear = tm_year t + 1900,
                nsOffDays = 0, nsOff = 0\<rparr>
      in case next_loop td (tv_sec lastV + offSec + offMin * 60 + offHour * 3600) (tv_nsec lastV) 0 s0 of
           None \<Rightarrow> \<lparr>tv_sec = 0, tv_nsec = 0\<rparr>
         | Some next \<Rightarrow> next)"

section \<open>Lemmas\<close>

text \<open>An interval of the configuration is cyclic: a lower bound above the upper one wraps around.\<close>

definition cyclic :: "int \<Rightarrow> int \<Rightarrow> int \<Rightarrow> bool" where
  "cyclic lo v hi \<longleftrightarrow> (if lo \<le> hi then lo \<le> v \<and> v \<le> hi else v \<le> hi \<or> lo \<le> v)"

lemma in_interval_cyclic: "in_interval lo v hi \<longleftrightarrow> cyclic lo v hi"
  by (auto simp: in_interval_def cyclic_def range_defs)

lemma in_minutes_cyclic: "v \<le> 59 \<Longrightarrow> lo = hi \<or> lo < hi \<and> hi = 59 \<Longrightarrow> in_minutes lo v hi \<longleftrightarrow> cyclic lo v hi"
  by (auto simp: in_minutes_def cyclic_def range_defs)

lemma gmtime_min_bound: "0 \<le> tm_min (gmtime_r t)" "tm_min (gmtime_r t) \<le> 59"
  by (simp_all add: gmtime_r_def Let_def split: prod.splits)

text \<open>The years of a definition that lies wholly in the future are never reached.\<close>

lemma next_year_future:
  assumes "nsYear s < uint (fst (years td))" "fst (years td) \<le> snd (years td)"
  shows "\<not> nsDone (next_year td s)"
  using assms by (auto simp: next_year_def crinitNextYear_def range_defs Let_def word_le_def)

lemma next_month_year [simp]: "nsYear (next_month td s) = nsYear s"
  by (simp add: next_month_def Let_def split: prod.splits)

lemma next_day_year [simp]: "nsYear (next_day td s) = nsYear s"
  by (simp add: next_day_def Let_def split: prod.splits)

lemma next_loop_future:
  "nsYear s < uint (fst (years td)) \<Longrightarrow> fst (years td) \<le> snd (years td) \<Longrightarrow>
   next_loop td base nsec tries s = None"
  by (subst next_loop.simps) (simp add: Let_def next_year_future)

section \<open>Properties\<close>

text \<open>
  A definition whose first year is later than the current one has no next time: the timer
  is never armed, although its first year is still to come.
\<close>

lemma TimerNextTime_future_year:
  assumes "tm_year (crinitZonedTimeR (tv_sec lastV) (timezone td)) + 1900 < uint (fst (years td))"
    and "fst (years td) \<le> snd (years td)"
  shows "crinitTimerNextTime lastV td = \<lparr>tv_sec = 0, tv_nsec = 0\<rparr>"
  using assms by (auto simp: crinitTimerNextTime_def Let_def next_loop_future split: prod.splits option.splits)

text \<open>
  With a minute interval that is a single minute or reaches to the end of the hour,
  \<open>crinitCheckTimerTime\<close> accepts exactly the times whose fields all lie in their cyclic
  intervals and whose weekday is selected.
\<close>

lemma CheckTimerTime_exact:
  assumes "fst (minutes td) = snd (minutes td) \<or> fst (minutes td) < snd (minutes td) \<and> snd (minutes td) = 59"
  shows "crinitCheckTimerTime ts td \<longleftrightarrow>
    (let t = crinitZonedTimeR (tv_sec ts) (timezone td); within = (\<lambda>p v. cyclic (uint (fst p)) v (uint (snd p)))
     in within (seconds td) (tm_sec t) \<and> within (minutes td) (tm_min t) \<and> within (hours td) (tm_hour t) \<and>
        within (days td) (tm_mday t) \<and> within (month td) ((tm_mon t + 1) mod 256) \<and>
        cyclic (uint (fst (years td))) ((tm_year t + 1900) mod 65536) (uint (snd (years td))) \<and>
        push_bit (nat ((tm_wday t + 6) mod 7)) 1 AND wDay td \<noteq> 0)"
proof -
  let ?t = "crinitZonedTimeR (tv_sec ts) (timezone td)"
  have "tm_min ?t \<le> 59" by (simp add: crinitZonedTimeR_def Let_def gmtime_min_bound)
  moreover have "uint (fst (minutes td)) = uint (snd (minutes td)) \<or>
      uint (fst (minutes td)) < uint (snd (minutes td)) \<and> uint (snd (minutes td)) = 59"
    using assms by (auto simp: word_less_def)
  ultimately have "in_minutes (uint (fst (minutes td))) (tm_min ?t) (uint (snd (minutes td))) \<longleftrightarrow>
      cyclic (uint (fst (minutes td))) (tm_min ?t) (uint (snd (minutes td)))"
    by (rule in_minutes_cyclic)
  then show ?thesis
    unfolding crinitCheckTimerTime_def Let_def in_interval_cyclic uint_word_of_int by simp
qed

text \<open>
  The minute interval 10..20 also accepts 00:30, and the wrapping interval 50..10 does not
  accept 00:55, because the third range test of the minutes has its arguments exchanged.
\<close>

lemma CheckTimerTime_minutes:
  "crinitCheckTimerTime \<lparr>tv_sec = 1800, tv_nsec = 0\<rparr> (crinitTimerSetDefault\<lparr>minutes := (10, 20)\<rparr>) \<and>
   \<not> crinitCheckTimerTime \<lparr>tv_sec = 3300, tv_nsec = 0\<rparr> (crinitTimerSetDefault\<lparr>minutes := (50, 10)\<rparr>)"
  by code_simp

text \<open>
  \<open>crinitCheckTimerDef\<close> rejects 29 February of a leap year, and accepts 29 February of a
  common year and 31 February of every year.
\<close>

lemma CheckTimerDef_february:
  "\<not> crinitCheckTimerDef (crinitTimerSetDefault\<lparr>years := (2028, 2028), month := (2, 2), days := (29, 29)\<rparr>) \<and>
   crinitCheckTimerDef (crinitTimerSetDefault\<lparr>years := (2027, 2027), month := (2, 2), days := (29, 29)\<rparr>) \<and>
   crinitCheckTimerDef (crinitTimerSetDefault\<lparr>month := (2, 2), days := (31, 31)\<rparr>)"
  by code_simp

text \<open>The table of \<open>crinitDaysToMonth\<close> holds the sums of the lengths of the months before.\<close>

lemma DaysToMonth_sum:
  assumes "m \<in> {1..12}"
  shows "crinitDaysToMonth (of_nat m) y = (\<Sum>k \<leftarrow> [1..<m]. crinitMonthLength (of_nat k) y)"
proof -
  have "m = 1 \<or> m = 2 \<or> m = 3 \<or> m = 4 \<or> m = 5 \<or> m = 6 \<or> m = 7 \<or> m = 8 \<or> m = 9 \<or> m = 10 \<or> m = 11 \<or> m = 12"
    using assms by (simp add: atLeastAtMost_iff) arith
  then show ?thesis
    by (elim disjE) (simp_all add: crinitDaysToMonth_def crinitMonthLength_def crinitDayToMonthLookup_def upt_rec)
qed

end
