(* ===== verification/TimerDB.thy ===== *)
theory TimerDB
  imports Timer
begin

text \<open>
  The timer pool, \<open>src/src/timerdb.c\<close> and \<open>src/inc/timerdb.h\<close>: initialisation, insertion and
  removal of timers. Slot 0 of the two parallel arrays holds only the event descriptor that
  wakes the polling thread; \<open>slots\<close> are the slots from 1 to \<open>size - 1\<close>, a timer with its poll
  entry. Failing system calls are boolean arguments. The addition of a timer and the polling
  thread are in the theory \<open>TimerPool\<close>.
\<close>

section \<open>Data and operations\<close>

record crinitTimer =
  timerDef :: crinitTimerDef
  timerName :: string
  refs :: nat
  it_value :: timespec

text \<open>
  \<open>slotArmed\<close> is the timer of the kernel behind the descriptor: the time at which it expires, or \<open>None\<close> when it is not armed. A time of
  zero disarms it, and so does its expiration, since it has no interval.
\<close>

record timerSlot =
  slotTimer :: crinitTimer
  slotFd :: int
  slotRevents :: bool
  slotArmed :: "timespec option"

record crinitTimerDB =
  cap :: nat
  slots :: "timerSlot list"
  poolLock :: mutex

definition timerfd_settime :: "timespec \<Rightarrow> timespec option" where
  "timerfd_settime t = (if t = \<lparr>tv_sec = 0, tv_nsec = 0\<rparr> then None else Some t)"

abbreviation (input) TIMER_DB_INITIAL_CAP :: nat where "TIMER_DB_INITIAL_CAP \<equiv> 256"

abbreviation poolSize :: "crinitTimerDB \<Rightarrow> nat" where "poolSize db \<equiv> Suc (length (slots db))"

text \<open>A pool whose initialisation failed has no arrays and an uninitialised mutex.\<close>

definition crinitTimerDBInit :: "bool \<Rightarrow> bool \<Rightarrow> bool \<Rightarrow> bool \<Rightarrow> int \<times> crinitTimerDB option" where
  "crinitTimerDBInit timerListOk pollListOk eventfdOk mutexOk =
     (if timerListOk \<and> pollListOk \<and> eventfdOk \<and> mutexOk
      then (0, Some \<lparr>cap = TIMER_DB_INITIAL_CAP, slots = [], poolLock = Unlocked\<rparr>)
      else (-1, None))"

definition pool_unlock :: "crinitTimerDB \<Rightarrow> crinitTimerDB" where
  "pool_unlock db = db\<lparr>poolLock := snd (pthread_mutex_unlock (poolLock db))\<rparr>"

definition crinitTimerDBInsertTimer ::
  "bool \<Rightarrow> bool \<Rightarrow> bool \<Rightarrow> int \<Rightarrow> crinitTimerDB \<Rightarrow> crinitTimer \<Rightarrow> (int \<times> crinitTimerDB) run" where
  "crinitTimerDBInsertTimer createOk settimeOk writeOk fd db timer =
     bind_run (pthread_mutex_lock (poolLock db)) (\<lambda>(e, m).
       if e \<noteq> 0 then Ret (-1, db)
       else let db = db\<lparr>poolLock := m\<rparr> in
         if poolSize db \<ge> cap db then Ret (-1, pool_unlock db)
         else if \<not> createOk then Ret (-1, pool_unlock db)
         else if \<not> settimeOk then Ret (-1, pool_unlock db)
         else let db = db\<lparr>slots := slots db @ [\<lparr>slotTimer = timer, slotFd = fd, slotRevents = False,
                slotArmed = timerfd_settime (it_value timer)\<rparr>]\<rparr>
              in Ret (if writeOk then 0 else -1, pool_unlock db))"

text \<open>The loop of \<open>crinitTimerDBRemoveTimer\<close>.\<close>

function remove_timer_loop :: "string \<Rightarrow> nat \<Rightarrow> timerSlot list \<Rightarrow> timerSlot list" where
  "remove_timer_loop timerStr i ss =
     (if i < length ss then
        if timerName (slotTimer (ss ! i)) = timerStr then
          let r = (if refs (slotTimer (ss ! i)) > 0 then refs (slotTimer (ss ! i)) - 1 else 0) in
          if r = 0 then remove_timer_loop timerStr (Suc i) (swap_remove i ss)
          else remove_timer_loop timerStr (Suc i)
                 (ss[i := (ss ! i)\<lparr>slotTimer := (slotTimer (ss ! i))\<lparr>refs := r\<rparr>\<rparr>])
        else remove_timer_loop timerStr (Suc i) ss
      else ss)"
  by pat_completeness auto
termination by (relation "measure (\<lambda>(n, i, ss). length ss - i)") auto

declare remove_timer_loop.simps [simp del]

definition crinitTimerDBRemoveTimer :: "crinitTimerDB \<Rightarrow> string \<Rightarrow> crinitTimerDB run" where
  "crinitTimerDBRemoveTimer db timerStr =
     bind_run (pthread_mutex_lock (poolLock db)) (\<lambda>(e, m).
       if e \<noteq> 0 then Ret db
       else Ret (pool_unlock (db\<lparr>poolLock := m, slots := remove_timer_loop timerStr 0 (slots db)\<rparr>)))"

section \<open>Lemmas\<close>

abbreviation slot_name :: "timerSlot \<Rightarrow> string" where "slot_name s \<equiv> timerName (slotTimer s)"

definition pool_ok :: "crinitTimerDB \<Rightarrow> bool" where
  "pool_ok db \<longleftrightarrow> poolLock db = Unlocked \<and> poolSize db \<le> cap db \<and>
     distinct (map slot_name (slots db)) \<and> (\<forall>s \<in> set (slots db). refs (slotTimer s) > 0)"

text \<open>The reference count of each timer of the pool.\<close>

definition pool_refs :: "crinitTimerDB \<Rightarrow> string \<rightharpoonup> nat" where
  "pool_refs db = map_of (map (\<lambda>s. (slot_name s, refs (slotTimer s))) (slots db))"

lemma remove_timer_loop_end: "length ss \<le> i \<Longrightarrow> remove_timer_loop n i ss = ss"
  by (subst remove_timer_loop.simps) simp

lemma remove_timer_loop_step:
  "i < length ss \<Longrightarrow> slot_name (ss ! i) \<noteq> n \<Longrightarrow> remove_timer_loop n i ss = remove_timer_loop n (Suc i) ss"
  by (subst remove_timer_loop.simps) simp

lemma remove_timer_loop_skip:
  "j \<le> length ss \<Longrightarrow> i \<le> j \<Longrightarrow> \<forall>s \<in> set (drop i (take j ss)). slot_name s \<noteq> n \<Longrightarrow>
   remove_timer_loop n i ss = remove_timer_loop n j ss"
proof (induction "j - i" arbitrary: i)
  case (Suc d)
  then have i: "i < j" by simp
  then have d: "drop i (take j ss) = ss ! i # drop (Suc i) (take j ss)"
    using Suc.prems by (subst Cons_nth_drop_Suc [symmetric]) auto
  then have "remove_timer_loop n i ss = remove_timer_loop n (Suc i) ss"
    using Suc.prems i by (intro remove_timer_loop_step) auto
  also have "\<dots> = remove_timer_loop n j ss" using Suc i d by (intro Suc.hyps) auto
  finally show ?case .
qed simp

lemma remove_timer_loop_absent:
  "\<forall>s \<in> set (drop i ss). slot_name s \<noteq> n \<Longrightarrow> remove_timer_loop n i ss = ss"
  using remove_timer_loop_skip [of "length ss" ss i n] remove_timer_loop_end [of ss]
  by (cases "i \<le> length ss") auto

lemma map_of_perm:
  assumes "mset xs = mset ys" "distinct (map fst xs)"
  shows "map_of xs = map_of ys"
proof -
  have "distinct (map fst ys)" using assms by (metis mset_map mset_eq_imp_distinct_iff)
  then show ?thesis using assms by (metis map_of_inject_set mset_eq_setD)
qed

lemma swap_remove_names:
  assumes "i < length ss" "distinct (map slot_name ss)"
  shows "distinct (map slot_name (swap_remove i ss))"
    and "slot_name (ss ! i) \<notin> slot_name ` set (swap_remove i ss)"
    and "set (swap_remove i ss) \<subseteq> set ss"
proof -
  have m: "mset ss = add_mset (ss ! i) (mset (swap_remove i ss))" by (rule mset_swap_remove [OF assms(1)])
  then have "mset (map slot_name ss) = mset (map slot_name (ss ! i # swap_remove i ss))"
    by simp
  then have "distinct (map slot_name (ss ! i # swap_remove i ss))"
    using assms(2) mset_eq_imp_distinct_iff by blast
  then show "distinct (map slot_name (swap_remove i ss))"
    and "slot_name (ss ! i) \<notin> slot_name ` set (swap_remove i ss)" by auto
  show "set (swap_remove i ss) \<subseteq> set ss"
    using m by (metis set_mset_mset set_mset_add_mset_insert subset_insertI)
qed

lemma map_of_swap_remove:
  assumes "i < length ss" "distinct (map slot_name ss)"
  shows "map_of (map (\<lambda>s. (slot_name s, f s)) (swap_remove i ss)) =
         (map_of (map (\<lambda>s. (slot_name s, f s)) ss))(slot_name (ss ! i) := None)"
proof -
  let ?p = "\<lambda>s. (slot_name s, f s)"
  have "mset (map ?p ss) = mset (map ?p (ss ! i # swap_remove i ss))"
    using mset_swap_remove [OF assms(1)] by simp
  then have "map_of (map ?p ss) = map_of (map ?p (ss ! i # swap_remove i ss))"
    using assms(2) by (intro map_of_perm) (simp_all add: comp_def)
  moreover have "map_of (map ?p (swap_remove i ss)) (slot_name (ss ! i)) = None"
    using swap_remove_names(2) [OF assms] by (auto simp: map_of_eq_None_iff)
  ultimately show ?thesis by (auto simp: fun_eq_iff)
qed

text \<open>One reference less; the last one removes the timer.\<close>

definition unref :: "nat option \<Rightarrow> nat option" where
  "unref r = (case r of None \<Rightarrow> None | Some k \<Rightarrow> if k \<le> 1 then None else Some (k - 1))"

lemma remove_timer_loop_found:
  assumes "i < length ss" "distinct (map slot_name ss)" "slot_name (ss ! i) = n"
    "refs (slotTimer (ss ! i)) > 0"
  shows "remove_timer_loop n 0 ss =
    (if refs (slotTimer (ss ! i)) = 1 then swap_remove i ss
     else ss[i := (ss ! i)\<lparr>slotTimer := (slotTimer (ss ! i))\<lparr>refs := refs (slotTimer (ss ! i)) - 1\<rparr>\<rparr>])"
proof -
  have uniq: "slot_name (ss ! k) \<noteq> n" if "k < length ss" "k \<noteq> i" for k
    using assms that nth_eq_iff_index_eq [OF assms(2), of k i] by auto
  have before: "\<forall>s \<in> set (drop 0 (take i ss)). slot_name s \<noteq> n"
  proof
    fix s
    assume "s \<in> set (drop 0 (take i ss))"
    then obtain k where "k < i" "s = ss ! k" using assms(1) by (auto simp: in_set_conv_nth)
    then show "slot_name s \<noteq> n" using uniq [of k] assms(1) by simp
  qed
  have "remove_timer_loop n 0 ss = remove_timer_loop n i ss"
    by (rule remove_timer_loop_skip [OF _ _ before]) (use assms(1) in simp_all)
  moreover have "remove_timer_loop n (Suc i) (swap_remove i ss) = swap_remove i ss"
    using swap_remove_names(2) [OF assms(1,2)] assms(3)
    by (intro remove_timer_loop_absent) (metis imageI in_set_dropD)
  moreover have "remove_timer_loop n (Suc i) (ss[i := s]) = ss[i := s]" for s
  proof (rule remove_timer_loop_absent, rule ballI)
    fix t
    assume "t \<in> set (drop (Suc i) (ss[i := s]))"
    then obtain k where "i < k" "k < length ss" "t = ss ! k"
      by (auto simp: in_set_conv_nth) (metis add_Suc_right less_add_Suc1 less_diff_conv add.commute)
    then show "slot_name t \<noteq> n" using uniq [of k] by simp
  qed
  ultimately show ?thesis using assms by (subst (asm) (2) remove_timer_loop.simps) (auto simp: Let_def)
qed

lemma RemoveTimer_ok:
  assumes "pool_ok db"
  shows "ret_sat (\<lambda>db'. pool_ok db' \<and> cap db' = cap db \<and>
           pool_refs db' = (pool_refs db)(n := unref (pool_refs db n))) (crinitTimerDBRemoveTimer db n)"
proof -
  let ?ss = "slots db" and ?p = "\<lambda>s. (slot_name s, refs (slotTimer s))"
  have d: "distinct (map slot_name ?ss)" and r: "\<forall>s \<in> set ?ss. refs (slotTimer s) > 0"
    and l: "poolLock db = Unlocked" "poolSize db \<le> cap db"
    using assms by (auto simp: pool_ok_def)
  have run: "crinitTimerDBRemoveTimer db n =
      Ret (db\<lparr>poolLock := Unlocked, slots := remove_timer_loop n 0 ?ss\<rparr>)"
    by (simp add: crinitTimerDBRemoveTimer_def l pool_unlock_def)
  show ?thesis
  proof (cases "n \<in> slot_name ` set ?ss")
    case False
    then have "remove_timer_loop n 0 ?ss = ?ss" by (intro remove_timer_loop_absent) auto
    moreover have "pool_refs db n = None" using False by (auto simp: pool_refs_def map_of_eq_None_iff)
    ultimately show ?thesis using assms l run by (auto simp: unref_def pool_refs_def pool_ok_def)
  next
    case True
    then obtain i where i: "i < length ?ss" "slot_name (?ss ! i) = n"
      by (auto simp: in_set_conv_nth)
    let ?s = "?ss ! i"
    let ?s' = "?s\<lparr>slotTimer := (slotTimer ?s)\<lparr>refs := refs (slotTimer ?s) - 1\<rparr>\<rparr>"
    have pos: "refs (slotTimer ?s) > 0" using r i by auto
    have val: "pool_refs db n = Some (refs (slotTimer ?s))"
      unfolding pool_refs_def using d i by (intro map_of_is_SomeI) (auto simp: comp_def intro!: image_eqI [of _ _ ?s])
    note loop = remove_timer_loop_found [OF i(1) d i(2) pos]
    show ?thesis
    proof (cases "refs (slotTimer ?s) = 1")
      case True
      then show ?thesis
        using loop run l d r i val swap_remove_names [OF i(1) d] map_of_swap_remove [OF i(1) d, of "\<lambda>s. refs (slotTimer s)"]
        by (auto simp: unref_def pool_refs_def pool_ok_def)
    next
      case False
      then have set': "\<forall>s \<in> set (?ss[i := ?s']). refs (slotTimer s) > 0"
        using r pos set_update_subset_insert [of ?ss i ?s'] by auto
      have "map slot_name (?ss[i := ?s']) = map slot_name ?ss" using i by (simp add: map_update_key)
      moreover have "map_of (map ?p (?ss[i := ?s'])) = (map_of (map ?p ?ss))(n \<mapsto> refs (slotTimer ?s) - 1)"
        using map_of_map_pair_update [OF d i(1), of ?s' "\<lambda>s. refs (slotTimer s)"] i by simp
      ultimately show ?thesis using False loop run l d pos val set'
        by (auto simp: unref_def pool_refs_def pool_ok_def)
    qed
  qed
qed

lemma InsertTimer_ok:
  assumes "pool_ok db" "poolSize db < cap db" "pool_refs db (timerName t) = None" "refs t > 0"
  shows "ret_sat (\<lambda>(r, db'). r = 0 \<and> pool_ok db' \<and> cap db' = cap db \<and>
           pool_refs db' = (pool_refs db)(timerName t \<mapsto> refs t))
         (crinitTimerDBInsertTimer True True True fd db t)"
proof -
  have "timerName t \<notin> slot_name ` set (slots db)"
    using assms(3) by (auto simp: pool_refs_def map_of_eq_None_iff image_image)
  then show ?thesis
    using assms map_of_map_pair_snoc [of slot_name "\<lparr>slotTimer = t, slotFd = fd, slotRevents = False, slotArmed = timerfd_settime (it_value t)\<rparr>"
        "slots db" "\<lambda>s. refs (slotTimer s)"]
    by (simp add: crinitTimerDBInsertTimer_def pool_ok_def pool_unlock_def pool_refs_def)
qed

end
