(* ===== verification/GlobOpt.thy ===== *)
theory GlobOpt
  imports Task
begin

text \<open>
  The global option storage, \<open>src/src/globopt.c\<close> and \<open>src/inc/globopt.h\<close>, and the feature
  hooks of \<open>src/src/optfeat.c\<close> in a build without elos. A member of the storage, which the
  code addresses by its offset, is a value of \<open>strMember\<close>, \<open>boolMember\<close>, \<open>ullMember\<close> or
  \<open>envMember\<close>. The mutex of the storage is part of its state; the ghost
  \<open>optFreed\<close> says that the heap members have been released. The default directories, the
  launcher and the polling interval come from the build (\<open>buildDefaults\<close>).
\<close>

section \<open>Data\<close>

record crinitGlobOptStore =
  debug :: bool
  useSyslog :: bool
  useElos :: bool
  signatures :: bool
  sigKeyDir :: "string option"
  elosEventPollInterval :: nat
  elosPort :: int
  elosServer :: "string option"
  inclDir :: "string option"
  inclSuffix :: "string option"
  tasks :: "string list option"
  taskDir :: "string option"
  taskDirFollowSl :: bool
  taskFileSuffix :: "string option"
  launcherCmd :: "string option"
  shdGraceP :: nat
  globEnv :: crinitEnvSet
  globFilters :: crinitEnvSet
  defaultCaps :: "string option"
  rootCgroup :: "crinitCgroup option"
  globCgroups :: "crinitCgroup list"
  globCgroupsRoom :: nat
  optLock :: mutex
  optFreed :: bool

datatype strMember = SigKeyDir | ElosServer | InclDir | InclSuffix | TaskDir | TaskFileSuffix
  | LauncherCmd | DefaultCaps

datatype boolMember = Debug | UseSyslog | UseElos | Signatures | TaskDirFollowSl

datatype ullMember = ElosEventPollInterval | ShdGraceP

datatype envMember = GlobEnv | GlobFilters

primrec get_str :: "strMember \<Rightarrow> crinitGlobOptStore \<Rightarrow> string option" where
  "get_str SigKeyDir g = sigKeyDir g"
| "get_str ElosServer g = elosServer g"
| "get_str InclDir g = inclDir g"
| "get_str InclSuffix g = inclSuffix g"
| "get_str TaskDir g = taskDir g"
| "get_str TaskFileSuffix g = taskFileSuffix g"
| "get_str LauncherCmd g = launcherCmd g"
| "get_str DefaultCaps g = defaultCaps g"

primrec put_str :: "strMember \<Rightarrow> string option \<Rightarrow> crinitGlobOptStore \<Rightarrow> crinitGlobOptStore" where
  "put_str SigKeyDir v g = g\<lparr>sigKeyDir := v\<rparr>"
| "put_str ElosServer v g = g\<lparr>elosServer := v\<rparr>"
| "put_str InclDir v g = g\<lparr>inclDir := v\<rparr>"
| "put_str InclSuffix v g = g\<lparr>inclSuffix := v\<rparr>"
| "put_str TaskDir v g = g\<lparr>taskDir := v\<rparr>"
| "put_str TaskFileSuffix v g = g\<lparr>taskFileSuffix := v\<rparr>"
| "put_str LauncherCmd v g = g\<lparr>launcherCmd := v\<rparr>"
| "put_str DefaultCaps v g = g\<lparr>defaultCaps := v\<rparr>"

primrec get_bool :: "boolMember \<Rightarrow> crinitGlobOptStore \<Rightarrow> bool" where
  "get_bool Debug g = debug g"
| "get_bool UseSyslog g = useSyslog g"
| "get_bool UseElos g = useElos g"
| "get_bool Signatures g = signatures g"
| "get_bool TaskDirFollowSl g = taskDirFollowSl g"

primrec put_bool :: "boolMember \<Rightarrow> bool \<Rightarrow> crinitGlobOptStore \<Rightarrow> crinitGlobOptStore" where
  "put_bool Debug v g = g\<lparr>debug := v\<rparr>"
| "put_bool UseSyslog v g = g\<lparr>useSyslog := v\<rparr>"
| "put_bool UseElos v g = g\<lparr>useElos := v\<rparr>"
| "put_bool Signatures v g = g\<lparr>signatures := v\<rparr>"
| "put_bool TaskDirFollowSl v g = g\<lparr>taskDirFollowSl := v\<rparr>"

primrec get_ull :: "ullMember \<Rightarrow> crinitGlobOptStore \<Rightarrow> nat" where
  "get_ull ElosEventPollInterval g = elosEventPollInterval g"
| "get_ull ShdGraceP g = shdGraceP g"

primrec put_ull :: "ullMember \<Rightarrow> nat \<Rightarrow> crinitGlobOptStore \<Rightarrow> crinitGlobOptStore" where
  "put_ull ElosEventPollInterval v g = g\<lparr>elosEventPollInterval := v\<rparr>"
| "put_ull ShdGraceP v g = g\<lparr>shdGraceP := v\<rparr>"

primrec get_env :: "envMember \<Rightarrow> crinitGlobOptStore \<Rightarrow> crinitEnvSet" where
  "get_env GlobEnv g = globEnv g"
| "get_env GlobFilters g = globFilters g"

primrec put_env :: "envMember \<Rightarrow> crinitEnvSet \<Rightarrow> crinitGlobOptStore \<Rightarrow> crinitGlobOptStore" where
  "put_env GlobEnv v g = g\<lparr>globEnv := v\<rparr>"
| "put_env GlobFilters v g = g\<lparr>globFilters := v\<rparr>"

text \<open>The storage is a static variable, zero before its initialisation.\<close>

definition crinitGlobOpts :: crinitGlobOptStore where
  "crinitGlobOpts =
     (let noEnv = \<lparr>envp = None, allocSz = 0, allocInc = 0\<rparr> in
      \<lparr>debug = False, useSyslog = False, useElos = False, signatures = False, sigKeyDir = None,
       elosEventPollInterval = 0, elosPort = 0, elosServer = None, inclDir = None, inclSuffix = None,
       tasks = None, taskDir = None, taskDirFollowSl = False, taskFileSuffix = None, launcherCmd = None,
       shdGraceP = 0, globEnv = noEnv, globFilters = noEnv, defaultCaps = None, rootCgroup = None,
       globCgroups = [], globCgroupsRoom = 0, optLock = Unlocked, optFreed = False\<rparr>)"

section \<open>Locking\<close>

text \<open>
  The code compares the result of the lock with -1, which \<open>pthread_mutex_lock\<close> never returns:
  borrowing the storage never fails.
\<close>

definition crinitGlobOptBorrow :: "crinitGlobOptStore \<Rightarrow> crinitGlobOptStore run" where
  "crinitGlobOptBorrow g = map_ret (\<lambda>(e, m). g\<lparr>optLock := m\<rparr>) (pthread_mutex_lock (optLock g))"

definition crinitGlobOptRemit :: "crinitGlobOptStore \<Rightarrow> int \<times> crinitGlobOptStore" where
  "crinitGlobOptRemit g =
     (case pthread_mutex_unlock (optLock g) of
        (e, m) \<Rightarrow> (if e \<noteq> 0 then -1 else 0, g\<lparr>optLock := m\<rparr>))"

text \<open>Unlock and return \<open>r\<close>, or -1 when the unlocking fails (\<open>crinitGlobOptCommonUnlock\<close>).\<close>

definition remit_with :: "int \<Rightarrow> crinitGlobOptStore \<Rightarrow> int \<times> crinitGlobOptStore" where
  "remit_with r g = (case crinitGlobOptRemit g of (e, g) \<Rightarrow> (if e = -1 then -1 else r, g))"

section \<open>Access\<close>

definition crinitGlobOptSetString ::
  "bool \<Rightarrow> strMember \<Rightarrow> crinitGlobOptStore \<Rightarrow> string \<Rightarrow> (int \<times> crinitGlobOptStore) run" where
  "crinitGlobOptSetString strdupOk m g val =
     bind_run (crinitGlobOptBorrow g) (\<lambda>g.
       if \<not> strdupOk then Ret (remit_with (-1) (put_str m None g))
       else Ret (remit_with 0 (put_str m (Some val) g)))"

text \<open>The member is read before the lock is taken; duplicating a null pointer is undefined.\<close>

definition crinitGlobOptGetString ::
  "bool \<Rightarrow> strMember \<Rightarrow> crinitGlobOptStore \<Rightarrow> (int \<times> string option \<times> crinitGlobOptStore) run" where
  "crinitGlobOptGetString strdupOk m g =
     bind_run (crinitGlobOptBorrow g) (\<lambda>g'.
       case get_str m g of
         None \<Rightarrow> Undef
       | Some s \<Rightarrow>
           if \<not> strdupOk then Ret (-1, None, snd (crinitGlobOptRemit g'))
           else case remit_with 0 g' of (r, g') \<Rightarrow> Ret (r, Some s, g'))"

definition crinitGlobOptSetBoolean ::
  "boolMember \<Rightarrow> crinitGlobOptStore \<Rightarrow> bool \<Rightarrow> (int \<times> crinitGlobOptStore) run" where
  "crinitGlobOptSetBoolean m g val =
     bind_run (crinitGlobOptBorrow g) (\<lambda>g. Ret (remit_with 0 (put_bool m val g)))"

definition crinitGlobOptGetBoolean ::
  "boolMember \<Rightarrow> crinitGlobOptStore \<Rightarrow> (int \<times> bool \<times> crinitGlobOptStore) run" where
  "crinitGlobOptGetBoolean m g =
     bind_run (crinitGlobOptBorrow g) (\<lambda>g. case remit_with 0 g of (r, g') \<Rightarrow> Ret (r, get_bool m g, g'))"

definition crinitGlobOptSetInteger ::
  "crinitGlobOptStore \<Rightarrow> int \<Rightarrow> (int \<times> crinitGlobOptStore) run" where
  "crinitGlobOptSetInteger g val =
     bind_run (crinitGlobOptBorrow g) (\<lambda>g. Ret (remit_with 0 (g\<lparr>elosPort := val\<rparr>)))"

definition crinitGlobOptGetInteger ::
  "crinitGlobOptStore \<Rightarrow> (int \<times> int \<times> crinitGlobOptStore) run" where
  "crinitGlobOptGetInteger g =
     bind_run (crinitGlobOptBorrow g) (\<lambda>g. case remit_with 0 g of (r, g') \<Rightarrow> Ret (r, elosPort g, g'))"

definition crinitGlobOptSetUnsignedLL ::
  "ullMember \<Rightarrow> crinitGlobOptStore \<Rightarrow> nat \<Rightarrow> (int \<times> crinitGlobOptStore) run" where
  "crinitGlobOptSetUnsignedLL m g val =
     bind_run (crinitGlobOptBorrow g) (\<lambda>g. Ret (remit_with 0 (put_ull m val g)))"

definition crinitGlobOptGetUnsignedLL ::
  "ullMember \<Rightarrow> crinitGlobOptStore \<Rightarrow> (int \<times> nat \<times> crinitGlobOptStore) run" where
  "crinitGlobOptGetUnsignedLL m g =
     bind_run (crinitGlobOptBorrow g) (\<lambda>g. case remit_with 0 g of (r, g') \<Rightarrow> Ret (r, get_ull m g, g'))"

definition crinitGlobOptSetEnvSet ::
  "bool \<Rightarrow> bool \<Rightarrow> envMember \<Rightarrow> crinitGlobOptStore \<Rightarrow> crinitEnvSet \<Rightarrow> (int \<times> crinitGlobOptStore) run" where
  "crinitGlobOptSetEnvSet callocOk strdupOk m g val =
     bind_run (crinitGlobOptBorrow g) (\<lambda>g.
     bind_run (crinitEnvSetDestroy (get_env m g)) (\<lambda>(r, es).
       if r = -1 then Ret (remit_with (-1) (put_env m es g))
       else bind_run (crinitEnvSetDup callocOk strdupOk es val) (\<lambda>(r, es).
         Ret (remit_with (if r = -1 then -1 else 0) (put_env m es g)))))"

definition crinitGlobOptGetEnvSet ::
  "bool \<Rightarrow> bool \<Rightarrow> envMember \<Rightarrow> crinitGlobOptStore \<Rightarrow> crinitEnvSet \<Rightarrow>
   (int \<times> crinitEnvSet \<times> crinitGlobOptStore) run" where
  "crinitGlobOptGetEnvSet callocOk strdupOk m g val =
     bind_run (crinitGlobOptBorrow g) (\<lambda>g.
     bind_run (crinitEnvSetDup callocOk strdupOk val (get_env m g)) (\<lambda>(r, es).
       case remit_with (if r = -1 then -1 else 0) g of (r, g) \<Rightarrow> Ret (r, es, g)))"

section \<open>Destruction and defaults\<close>

text \<open>The pointers are not reset: destroying the storage twice releases them twice.\<close>

definition crinitGlobOptDestroy :: "crinitGlobOptStore \<Rightarrow> crinitGlobOptStore run" where
  "crinitGlobOptDestroy g =
     bind_run (crinitGlobOptBorrow g) (\<lambda>g.
       if optFreed g then Undef
       else bind_run (crinitEnvSetDestroy (globEnv g)) (\<lambda>(_, env).
            bind_run (crinitEnvSetDestroy (globFilters g)) (\<lambda>(_, flt).
            Ret (snd (crinitGlobOptRemit (g\<lparr>globEnv := env, globFilters := flt, optFreed := True\<rparr>))))))"

record buildDefaults =
  dfltInclDir :: string
  dfltTaskDir :: string
  dfltSigKeyDir :: string
  dfltLauncherCmd :: string
  dfltElosPoll :: nat

definition default_strings :: "buildDefaults \<Rightarrow> (strMember \<times> string) list" where
  "default_strings b =
     [(DefaultCaps, []), (InclDir, dfltInclDir b), (InclSuffix, ''.crincl''), (TaskDir, dfltTaskDir b),
      (TaskFileSuffix, ''.crinit''), (SigKeyDir, dfltSigKeyDir b), (ElosServer, ''127.0.0.1''),
      (LauncherCmd, dfltLauncherCmd b)]"

text \<open>
  The allocations of \<open>crinitGlobOptInitDefault\<close>: the strings in order, then the two
  environment sets. \<open>fault\<close> counts the allocations that succeed before the first one that
  fails (\<open>None\<close>: all succeed).
\<close>

fun init_strings ::
  "nat option \<Rightarrow> (strMember \<times> string) list \<Rightarrow> crinitGlobOptStore \<Rightarrow> bool \<times> nat option \<times> crinitGlobOptStore" where
  "init_strings f [] g = (True, f, g)"
| "init_strings f ((m, s) # ms) g =
     (if f = Some 0 then (False, f, put_str m None g)
      else init_strings (map_option (\<lambda>n. n - 1) f) ms (put_str m (Some s) g))"

abbreviation (input) CRINIT_ENVSET_INITIAL_SIZE :: nat where "CRINIT_ENVSET_INITIAL_SIZE \<equiv> 128"
abbreviation (input) CRINIT_ENVSET_SIZE_INCREMENT :: nat where "CRINIT_ENVSET_SIZE_INCREMENT \<equiv> 64"

definition init_members ::
  "buildDefaults \<Rightarrow> nat option \<Rightarrow> crinitGlobOptStore \<Rightarrow> bool \<times> crinitGlobOptStore" where
  "init_members b fault g =
     (case init_strings fault (default_strings b) g of (ok, f, g) \<Rightarrow>
        if \<not> ok then (False, g)
        else case crinitEnvSetInit (f \<noteq> Some 0) (globEnv g) CRINIT_ENVSET_INITIAL_SIZE CRINIT_ENVSET_SIZE_INCREMENT of
          (r, env) \<Rightarrow> if r = -1 then (False, g)
          else case crinitEnvSetInit (f \<noteq> Some 1) (globFilters g) CRINIT_ENVSET_INITIAL_SIZE CRINIT_ENVSET_SIZE_INCREMENT of
            (r, flt) \<Rightarrow> if r = -1 then (False, g\<lparr>globEnv := env\<rparr>)
                       else (True, g\<lparr>globEnv := env, globFilters := flt\<rparr>))"

definition crinitGlobOptInitDefault ::
  "buildDefaults \<Rightarrow> nat option \<Rightarrow> crinitGlobOptStore \<Rightarrow> (int \<times> crinitGlobOptStore) run" where
  "crinitGlobOptInitDefault b fault g =
     bind_run (crinitGlobOptBorrow g) (\<lambda>g.
       let g = g\<lparr>debug := False, useSyslog := False, useElos := False,
                 elosEventPollInterval := dfltElosPoll b, elosPort := 54321, shdGraceP := 100000,
                 taskDirFollowSl := True, signatures := False, tasks := None, rootCgroup := None,
              globCgroups := [], globCgroupsRoom := 0\<rparr>
       in case init_members b fault g of (ok, g) \<Rightarrow>
            if ok then Ret (remit_with 0 g)
            else bind_run (crinitGlobOptDestroy g) (\<lambda>g. Ret (remit_with (-1) g)))"

section \<open>Feature hooks\<close>

datatype crinitHookType = CRINIT_HOOK_INIT | CRINIT_HOOK_EXIT | CRINIT_HOOK_START | CRINIT_HOOK_STOP
  | CRINIT_HOOK_TASK_ADDED

text \<open>
  The table has the single entry \<open>syslog\<close>; its hook turns logging to syslog on (last
  component). \<open>None\<close> as feature name matches every entry.
\<close>

definition crinitFeatureHook ::
  "crinitGlobOptStore \<Rightarrow> bool \<Rightarrow> string option \<Rightarrow> crinitHookType \<Rightarrow> (int \<times> crinitGlobOptStore \<times> bool) run" where
  "crinitFeatureHook g sysLog sysFeatName type =
     (if (sysFeatName = None \<or> sysFeatName = Some ''syslog'') \<and> type = CRINIT_HOOK_START then
        bind_run (crinitGlobOptGetBoolean UseSyslog g) (\<lambda>(r, armed, g).
          if r = -1 then Ret (-1, g, sysLog)
          else Ret (0, g, sysLog \<or> armed))
      else Ret (0, g, sysLog))"

section \<open>Lemmas\<close>

lemma Borrow_Unlocked [simp]: "optLock g = Unlocked \<Longrightarrow> crinitGlobOptBorrow g = Ret (g\<lparr>optLock := Locked\<rparr>)"
  by (simp add: crinitGlobOptBorrow_def)

lemma Borrow_Locked [simp]: "optLock g = Locked \<Longrightarrow> crinitGlobOptBorrow g = Blocked"
  by (simp add: crinitGlobOptBorrow_def)

lemma Remit_Locked [simp]: "optLock g = Locked \<Longrightarrow> crinitGlobOptRemit g = (0, g\<lparr>optLock := Unlocked\<rparr>)"
  by (simp add: crinitGlobOptRemit_def)

lemma remit_with_Locked [simp]: "optLock g = Locked \<Longrightarrow> remit_with r g = (r, g\<lparr>optLock := Unlocked\<rparr>)"
  by (simp add: remit_with_def)

lemma put_str_lock [simp]: "optLock (put_str m v g) = optLock g" "optFreed (put_str m v g) = optFreed g"
  by (cases m; simp)+

lemma get_put_str: "get_str m (put_str m' v g) = (if m = m' then v else get_str m g)"
  by (cases m; cases m'; simp)

lemma get_str_lock [simp]: "get_str m (g\<lparr>optLock := l\<rparr>) = get_str m g"
  by (cases m) auto

lemma relock_same [simp]: "optLock g = l \<Longrightarrow> g\<lparr>optLock := l\<rparr> = g"
  by (cases g) simp

lemma GetString_ok:
  "optLock g = Unlocked \<Longrightarrow> get_str m g = Some s \<Longrightarrow> crinitGlobOptGetString True m g = Ret (0, Some s, g)"
  by (simp add: crinitGlobOptGetString_def)

lemma FeatureHook_ok:
  "optLock g = Unlocked \<Longrightarrow> \<exists>s'. crinitFeatureHook g s n t = Ret (0, g, s')"
  by (auto simp: crinitFeatureHook_def crinitGlobOptGetBoolean_def)

lemma init_strings_lock: "optLock (snd (snd (init_strings f ms g))) = optLock g"
  by (induction f ms g rule: init_strings.induct) auto

lemma init_members_lock: "init_members b f g = (ok, g') \<Longrightarrow> optLock g' = optLock g"
  using init_strings_lock [of f "default_strings b" g]
  by (auto simp: init_members_def split: prod.splits if_splits)

lemma init_members_fault:
  assumes "n < 10"
  obtains g' where "init_members b (Some n) g = (False, g')" "optLock g' = optLock g"
proof -
  have "n = 0 \<or> n = 1 \<or> n = 2 \<or> n = 3 \<or> n = 4 \<or> n = 5 \<or> n = 6 \<or> n = 7 \<or> n = 8 \<or> n = 9"
    using assms by arith
  then have "\<not> fst (init_members b (Some n) g)"
    by (elim disjE) (simp_all add: init_members_def default_strings_def crinitEnvSetInit_def)
  then have "init_members b (Some n) g = (False, snd (init_members b (Some n) g))"
    by (cases "init_members b (Some n) g") simp
  from that [OF this init_members_lock [OF this]] show thesis .
qed

section \<open>Properties\<close>

text \<open>
  If an allocation of \<open>crinitGlobOptInitDefault\<close> fails, its clean-up never returns:
  \<open>crinitGlobOptDestroy\<close> waits for the mutex that the function itself holds.
\<close>

lemma GlobOptInitDefault_failure_blocks:
  assumes "optLock g = Unlocked" "n < 10"
  shows "crinitGlobOptInitDefault b (Some n) g = Blocked"
proof -
  let ?g = "g\<lparr>optLock := Locked, debug := False, useSyslog := False, useElos := False,
              elosEventPollInterval := dfltElosPoll b, elosPort := 54321, shdGraceP := 100000,
              taskDirFollowSl := True, signatures := False, tasks := None, rootCgroup := None,
              globCgroups := [], globCgroupsRoom := 0\<rparr>"
  obtain g' where "init_members b (Some n) ?g = (False, g')" "optLock g' = optLock ?g"
    by (rule init_members_fault [OF assms(2)])
  then show ?thesis
    using assms(1) by (simp add: crinitGlobOptInitDefault_def crinitGlobOptDestroy_def Let_def)
qed

end
