(* ===== verification/CLib.thy ===== *)
theory CLib
  imports Prelude
begin

text \<open>
  Routines of the C library the sources call: \<open>strtol\<close> with base 10, the conversion of its
  result to \<open>int\<close>, the integer conversions of \<open>printf\<close>, and \<open>strtok_r\<close>. Strings are without their
  terminating zero.
\<close>

section \<open>Reading numbers\<close>

definition c_isspace :: "char \<Rightarrow> bool" where
  "c_isspace c \<longleftrightarrow> of_char c \<in> {32 :: nat, 9, 10, 11, 12, 13}"

definition c_isdigit :: "char \<Rightarrow> bool" where
  "c_isdigit c \<longleftrightarrow> 48 \<le> (of_char c :: nat) \<and> (of_char c :: nat) \<le> 57"

definition is_digit :: "int \<Rightarrow> char \<Rightarrow> bool" where
  "is_digit base c \<longleftrightarrow> 48 \<le> (of_char c :: int) \<and> (of_char c :: int) < 48 + base"

definition digits_value :: "int \<Rightarrow> string \<Rightarrow> int" where
  "digits_value base ds = foldl (\<lambda>n c. base * n + (of_char c - 48)) 0 ds"

text \<open>
  What the \<open>strto...\<close> functions read with a base up to 10: white space, a sign, digits. The value is
  not yet fitted into a type; the second component is the text at \<open>endptr\<close>, the whole string
  when there are no digits.
\<close>

definition strto_raw :: "int \<Rightarrow> string \<Rightarrow> int \<times> string" where
  "strto_raw base s =
     (let t = dropWhile c_isspace s;
          neg = (t \<noteq> [] \<and> hd t = CHR ''-'');
          u = (if t \<noteq> [] \<and> (hd t = CHR ''-'' \<or> hd t = CHR ''+'') then tl t else t);
          ds = takeWhile (is_digit base) u;
          v = digits_value base ds
      in if ds = [] then (0, s) else (if neg then - v else v, drop (length ds) u))"

abbreviation (input) LONG_MAX :: int where "LONG_MAX \<equiv> 9223372036854775807"
abbreviation (input) LONG_MIN :: int where "LONG_MIN \<equiv> -9223372036854775808"
abbreviation (input) ULONG_MAX :: int where "ULONG_MAX \<equiv> 18446744073709551615"

text \<open>
  \<open>strtol\<close> and \<open>strtoul\<close> (equally \<open>strtoll\<close> and \<open>strtoull\<close>): the value, whether it was out of range,
  and the text at \<open>endptr\<close>. An unsigned conversion negates in the unsigned type.
\<close>

definition strtol :: "int \<Rightarrow> string \<Rightarrow> int \<times> bool \<times> string" where
  "strtol base s =
     (case strto_raw base s of (v, r) \<Rightarrow>
        (max LONG_MIN (min LONG_MAX v), v < LONG_MIN \<or> LONG_MAX < v, r))"

definition strtoul :: "int \<Rightarrow> string \<Rightarrow> int \<times> bool \<times> string" where
  "strtoul base s =
     (case strto_raw base s of (v, r) \<Rightarrow>
        if ULONG_MAX < \<bar>v\<bar> then (ULONG_MAX, True, r) else (v mod (ULONG_MAX + 1), False, r))"

abbreviation strtol10 :: "string \<Rightarrow> int" where "strtol10 s \<equiv> fst (strtol 10 s)"

text \<open>Conversion of a \<open>long\<close> to \<open>int\<close>: the low 32 bits.\<close>

definition to_int :: "int \<Rightarrow> int" where
  "to_int v = sint (word_of_int v :: 32 word)"

text \<open>Conversion to \<open>unsigned int\<close>.\<close>

definition to_uint :: "int \<Rightarrow> nat" where
  "to_uint v = nat (v mod 4294967296)"

section \<open>Printing numbers\<close>

fun digits_of :: "nat \<Rightarrow> string" where
  "digits_of n = (if n < 10 then [char_of (48 + n)] else digits_of (n div 10) @ [char_of (48 + n mod 10)])"

declare digits_of.simps [simp del]

definition show_int :: "int \<Rightarrow> string" where
  "show_int v = (if v < 0 then CHR ''-'' # digits_of (nat (- v)) else digits_of (nat v))"

text \<open>\<open>%.9ld\<close>: at least nine digits.\<close>

definition show_int9 :: "int \<Rightarrow> string" where
  "show_int9 v =
     (let ds = digits_of (nat \<bar>v\<bar>); ds = replicate (9 - length ds) (CHR ''0'') @ ds
      in if v < 0 then CHR ''-'' # ds else ds)"

text \<open>\<open>%lx\<close>.\<close>

fun show_hex :: "nat \<Rightarrow> string" where
  "show_hex n =
     (let d = n mod 16; c = char_of (if d < 10 then 48 + d else 87 + d)
      in if n < 16 then [c] else show_hex (n div 16) @ [c])"

declare show_hex.simps [simp del]

section \<open>Numbers in memory\<close>

text \<open>A \<open>size_t\<close> in memory, the lowest byte first.\<close>

definition bytes_of_size :: "nat \<Rightarrow> string" where
  "bytes_of_size n = map (\<lambda>i. char_of (n div 256 ^ i)) [0..<8]"

fun size_of_bytes :: "string \<Rightarrow> nat" where
  "size_of_bytes [] = 0"
| "size_of_bytes (c # s) = of_char c + 256 * size_of_bytes s"

lemma length_bytes_of_size [simp]: "length (bytes_of_size n) = 8"
  by (simp add: bytes_of_size_def)

lemma size_of_bytes_map:
  "size_of_bytes (map (\<lambda>i. char_of (n div 256 ^ i)) [a..<a + k]) = (n div 256 ^ a) mod 256 ^ k"
proof (induction k arbitrary: a)
  case (Suc k)
  have "[a..<a + Suc k] = a # [Suc a..<Suc a + k]" using upt_conv_Cons by simp
  then show ?case
    using Suc.IH [of "Suc a"] by (simp add: mod_mult2_eq mult.commute del: upt_Suc flip: div_mult2_eq)
qed simp

lemma size_of_bytes_of_size: "n < 2 ^ 64 \<Longrightarrow> size_of_bytes (bytes_of_size n) = n"
  using size_of_bytes_map [of n 0 8] by (simp add: bytes_of_size_def)

section \<open>Tokens\<close>

text \<open>\<open>strtok_r\<close> with one delimiter, called until it gives no more tokens.\<close>

function strtok_all :: "char \<Rightarrow> string \<Rightarrow> string list" where
  "strtok_all d s =
     (let s = dropWhile (\<lambda>c. c = d) s
      in if s = [] then [] else takeWhile (\<lambda>c. c \<noteq> d) s # strtok_all d (dropWhile (\<lambda>c. c \<noteq> d) s))"
  by pat_completeness auto
termination
proof (relation "measure (\<lambda>(d, s). length s)")
  fix d :: char and s x :: string
  assume "x = dropWhile (\<lambda>c. c = d) s" "x \<noteq> []"
  then have "hd x \<noteq> d" using hd_dropWhile [of "\<lambda>c. c = d" s] by simp
  then have "length (dropWhile (\<lambda>c. c \<noteq> d) x) < length x"
    using \<open>x \<noteq> []\<close> length_dropWhile_le [of "\<lambda>c. c \<noteq> d" "tl x"] by (cases x) simp_all
  also have "\<dots> \<le> length s" using \<open>x = _\<close> by (simp add: length_dropWhile_le)
  finally show "((d, dropWhile (\<lambda>c. c \<noteq> d) x), (d, s)) \<in> measure (\<lambda>(d, s). length s)" by simp
qed simp

declare strtok_all.simps [simp del]

section \<open>Lemmas\<close>

lemma of_char_digit: "d < 10 \<Longrightarrow> of_char (char_of (48 + d)) = (48 + d :: nat)"
  by simp

lemma of_char_digit_int: "d < 10 \<Longrightarrow> (of_char (char_of (48 + d) :: char) :: int) = 48 + int d"
  using of_char_digit [of d] by (metis of_char_digit of_nat_add of_nat_numeral of_nat_of_char)

lemma digits_of_isdigit: "c \<in> set (digits_of n) \<Longrightarrow> c_isdigit c"
proof (induction n rule: digits_of.induct)
  case (1 n)
  then show ?case
    by (subst (asm) (2) digits_of.simps) (auto simp: c_isdigit_def split: if_splits)
qed

lemma digits_of_Nil [simp]: "digits_of n \<noteq> []"
  by (simp add: digits_of.simps [of n])

lemma is_digit_isdigit: "is_digit 10 c = c_isdigit c"
proof -
  have "(of_char c :: int) = int (of_char c)" by (metis of_nat_of_char)
  then show ?thesis by (auto simp: is_digit_def c_isdigit_def)
qed

lemma digits_value_digits_of: "digits_value 10 (digits_of n) = int n"
proof (induction n rule: digits_of.induct)
  case (1 n)
  show ?case
  proof (cases "n < 10")
    case True
    then show ?thesis by (simp add: digits_of.simps [of n] digits_value_def of_char_digit_int)
  next
    case False
    then have "digits_value 10 (digits_of (n div 10)) = int (n div 10)" using 1 by simp
    with False show ?thesis
      by (simp add: digits_of.simps [of n] digits_value_def of_char_digit_int zmod_int zdiv_int)
  qed
qed

lemma digit_not_space: "c_isdigit c \<Longrightarrow> \<not> c_isspace c \<and> c \<noteq> CHR ''-'' \<and> c \<noteq> CHR ''+''"
  by (auto simp: c_isdigit_def c_isspace_def)

lemma length_digits_of: "n < 10 ^ k \<Longrightarrow> 0 < k \<Longrightarrow> length (digits_of n) \<le> k"
proof (induction k arbitrary: n)
  case (Suc k)
  show ?case
  proof (cases "n < 10")
    case False
    with Suc.prems have "n div 10 < 10 ^ k" by (simp add: less_mult_imp_div_less mult.commute)
    moreover from this False have "0 < k" by (cases k) auto
    ultimately show ?thesis using Suc.IH [of "n div 10"] False by (simp add: digits_of.simps [of n])
  qed (simp add: digits_of.simps [of n])
qed simp

lemma digits_value_zeros: "digits_value 10 (replicate k (CHR ''0'') @ ds) = digits_value 10 ds"
  by (induction k) (simp_all add: digits_value_def)

text \<open>Reading back a printed number, whatever follows it that is not a digit.\<close>

lemma strto_raw_show_int:
  assumes "rest = [] \<or> \<not> c_isdigit (hd rest)"
  shows "strto_raw 10 (show_int v @ rest) = (v, rest)"
proof -
  have isd: "is_digit 10 = c_isdigit" by (simp add: fun_eq_iff is_digit_isdigit)
  have tw: "takeWhile c_isdigit (digits_of n @ rest) = digits_of n" for n
    using assms digits_of_isdigit [of _ n] by (cases rest) (auto simp: takeWhile_append)
  obtain d ds where d: "digits_of (nat v) = d # ds" by (metis digits_of_Nil list.exhaust)
  then have nd: "\<not> c_isspace d \<and> d \<noteq> CHR ''-'' \<and> d \<noteq> CHR ''+''"
    using digits_of_isdigit [of d "nat v"] digit_not_space by auto
  show ?thesis
  proof (cases "v < 0")
    case True
    then show ?thesis
      by (simp add: strto_raw_def show_int_def c_isspace_def isd tw digits_value_digits_of)
  next
    case False
    then have "dropWhile c_isspace (show_int v @ rest) = digits_of (nat v) @ rest"
      using nd by (simp add: show_int_def d)
    moreover have "hd (digits_of (nat v) @ rest) = d" by (simp add: d)
    ultimately show ?thesis using False nd by (simp add: strto_raw_def isd tw digits_value_digits_of)
  qed
qed

lemma strtol_show_int:
  assumes "LONG_MIN \<le> v" "v \<le> LONG_MAX" "rest = [] \<or> \<not> c_isdigit (hd rest)"
  shows "strtol 10 (show_int v @ rest) = (v, False, rest)"
  using assms by (simp add: strtol_def strto_raw_show_int)

lemma to_int_id: "- (2 ^ 31) \<le> v \<Longrightarrow> v < 2 ^ 31 \<Longrightarrow> to_int v = v"
  unfolding to_int_def sint_sbintrunc' by (rule signed_take_bit_int_eq_self) simp_all

lemma show_int_no_newline: "CHR 0x0A \<notin> set (show_int v)"
proof -
  have "\<not> c_isdigit (CHR 0x0A)" by (simp add: c_isdigit_def)
  then show ?thesis using digits_of_isdigit by (auto simp: show_int_def)
qed

lemma show_int9_no_newline: "CHR 0x0A \<notin> set (show_int9 v)"
proof -
  have "\<not> c_isdigit (CHR 0x0A)" by (simp add: c_isdigit_def)
  then show ?thesis using digits_of_isdigit by (auto simp: show_int9_def Let_def)
qed

end
