(* ===== verification/Cgroup.thy ===== *)
theory Cgroup
  imports GlobOpt CLib
begin

text \<open>
  Control groups, \<open>src/src/cgroup.c\<close>: copies, the parameters of a configuration, and what the
  daemon does below the mount point of the cgroup file system. The parent of a cgroup is
  identified by its name. \<open>cgroupEnv\<close> is what the kernel answers: which directories and files
  (named by their path below the mount point) can be opened, the error code of \<open>mkdirat\<close>,
  which texts are written completely, and what is read. The operations performed are returned
  as a list.
\<close>

section \<open>Copies\<close>

definition crinitCopyCgroupParam :: "bool \<Rightarrow> crinitCgroupParam \<Rightarrow> crinitCgroupParam option" where
  "crinitCopyCgroupParam memOk orig =
     (if \<not> memOk then None else Some \<lparr>filename = filename orig, cgOption = cgOption orig\<rparr>)"

text \<open>\<open>mem i\<close> is the outcome of the allocations for the \<open>i\<close>-th parameter.\<close>

fun copy_params :: "(nat \<Rightarrow> bool) \<Rightarrow> nat \<Rightarrow> crinitCgroupParam list \<Rightarrow> crinitCgroupParam list option" where
  "copy_params mem i [] = Some []"
| "copy_params mem i (p # ps) =
     (case crinitCopyCgroupParam (mem i) p of
        None \<Rightarrow> None
      | Some q \<Rightarrow> map_option ((#) q) (copy_params mem (Suc i) ps))"

definition crinitCopyCgroupConfiguration ::
  "bool \<Rightarrow> (nat \<Rightarrow> bool) \<Rightarrow> crinitCgroupParam list \<Rightarrow> crinitCgroupParam list option" where
  "crinitCopyCgroupConfiguration callocOk mem orig =
     (if orig = [] then Some [] else if \<not> callocOk then None else copy_params mem 0 orig)"

definition crinitCopyCgroup ::
  "bool \<Rightarrow> bool \<Rightarrow> (nat \<Rightarrow> bool) \<Rightarrow> bool \<Rightarrow> crinitCgroup \<Rightarrow> crinitCgroup option" where
  "crinitCopyCgroup confOk callocOk mem nameOk orig =
     (case (case config orig of
              None \<Rightarrow> Some None
            | Some ps \<Rightarrow> if \<not> confOk then None
                        else map_option Some (crinitCopyCgroupConfiguration callocOk mem ps)) of
        None \<Rightarrow> None
      | Some c \<Rightarrow>
          if \<not> nameOk then None
          else Some \<lparr>cgName = cgName orig, groupFd = groupFd orig, parent = parent orig, config = c\<rparr>)"

section \<open>Parameters\<close>

text \<open>The two duplications of text are not checked by the code; they succeed.\<close>

definition crinitCgroupConvertSingleParamToObject :: "string \<Rightarrow> crinitCgroupParam option" where
  "crinitCgroupConvertSingleParamToObject s =
     (case strchr s (CHR ''='') of
        None \<Rightarrow> None
      | Some delim \<Rightarrow> Some \<lparr>filename = take (length s - length delim) s, cgOption = tl delim\<rparr>)"

text \<open>
  The array is allocated with the size of a pointer per element, while an element is a
  parameter of two pointers. \<open>room\<close> is the number of bytes allocated; an access beyond it is
  undefined, whether an element is filled in or, after a bad element, released.
\<close>

abbreviation (input) sizeof_ptr :: nat where "sizeof_ptr \<equiv> 8"
abbreviation (input) sizeof_param :: nat where "sizeof_param \<equiv> 16"

fun convert_params :: "nat \<Rightarrow> nat \<Rightarrow> nat \<Rightarrow> string list \<Rightarrow> crinitCgroupParam list option run" where
  "convert_params room n i [] = Ret (Some [])"
| "convert_params room n i (s # ss) =
     (case crinitCgroupConvertSingleParamToObject s of
        None \<Rightarrow> if n * sizeof_param > room then Undef else Ret None
      | Some p \<Rightarrow>
          if Suc i * sizeof_param > room then Undef
          else map_ret (map_option ((#) p)) (convert_params room n (Suc i) ss))"

definition crinitConvertConfigArrayToCGroupConfiguration ::
  "bool \<Rightarrow> string list \<Rightarrow> crinitCgroupParam list option run" where
  "crinitConvertConfigArrayToCGroupConfiguration callocOk confArray =
     (if \<not> callocOk then Ret None
      else convert_params (length confArray * sizeof_ptr) (length confArray) 0 confArray)"

definition crinitCgroupGlobalParamSplitNameAndParam ::
  "bool \<Rightarrow> bool \<Rightarrow> string \<Rightarrow> (string \<times> string) option" where
  "crinitCgroupGlobalParamSplitNameAndParam nameOk paramOk val =
     (case strchr val (CHR '':'') of
        None \<Rightarrow> None
      | Some delim \<Rightarrow>
          if \<not> nameOk \<or> \<not> paramOk then None
          else Some (take (length val - length delim) val, tl delim))"

section \<open>Global cgroups\<close>

text \<open>
  The index of a global cgroup and the array after the search: a group that is found gets an
  empty configuration if it had none.
\<close>

fun find_cgroup :: "nat \<Rightarrow> crinitCgroup list \<Rightarrow> string \<Rightarrow> nat option" where
  "find_cgroup i [] n = None"
| "find_cgroup i (c # cs) n = (if cgName c = n then Some i else find_cgroup (Suc i) cs n)"

definition crinitFindCgroupByName :: "crinitCgroup list \<Rightarrow> string \<Rightarrow> nat option \<times> crinitCgroup list" where
  "crinitFindCgroupByName cgroups n =
     (case find_cgroup 0 cgroups n of
        None \<Rightarrow> (None, cgroups)
      | Some i \<Rightarrow>
          (Some i, if config (cgroups ! i) = None then cgroups[i := (cgroups ! i)\<lparr>config := Some []\<rparr>] else cgroups))"

definition crinitCgroupNameIsGlobalCgroup ::
  "crinitGlobOptStore \<Rightarrow> string \<Rightarrow> (int \<times> bool \<times> crinitGlobOptStore) run" where
  "crinitCgroupNameIsGlobalCgroup g n =
     bind_run (crinitGlobOptBorrow g) (\<lambda>g.
       case crinitFindCgroupByName (globCgroups g) n of
         (r, cs) \<Rightarrow> Ret (0, r \<noteq> None, snd (crinitGlobOptRemit (g\<lparr>globCgroups := cs\<rparr>))))"

section \<open>The cgroup file system\<close>

datatype cgOp = CgMkdir string | CgWrite string string string

record cgroupEnv =
  cgBase :: bool
  cgDir :: "string \<Rightarrow> int option"
  cgMkdirErr :: "string \<Rightarrow> int"
  cgFile :: "string \<Rightarrow> string \<Rightarrow> bool"
  cgWriteOk :: "string \<Rightarrow> string \<Rightarrow> string \<Rightarrow> bool"
  cgRead :: "string \<Rightarrow> string option"
  cgMemOk :: bool

abbreviation (input) EEXIST :: int where "EEXIST \<equiv> 17"

text \<open>The path of a cgroup below the mount point.\<close>

definition cg_path :: "crinitCgroup \<Rightarrow> string" where
  "cg_path cg = (case parent cg of None \<Rightarrow> [] | Some p \<Rightarrow> p @ ''/'') @ cgName cg"

definition crinitCgroupOpen :: "cgroupEnv \<Rightarrow> crinitCgroup \<Rightarrow> bool \<Rightarrow> int \<times> crinitCgroup \<times> cgOp list" where
  "crinitCgroupOpen e cg createDir =
     (let cg = cg\<lparr>groupFd := -1\<rparr> in
      if \<not> cgBase e then (-1, cg, [])
      else if (case parent cg of None \<Rightarrow> False | Some p \<Rightarrow> cgDir e p = None) then (-1, cg, [])
      else if createDir \<and> cgMkdirErr e (cg_path cg) \<noteq> 0 \<and> cgMkdirErr e (cg_path cg) \<noteq> EEXIST then (-1, cg, [])
      else let made = (if createDir \<and> cgMkdirErr e (cg_path cg) = 0 then [CgMkdir (cg_path cg)] else []) in
        case cgDir e (cg_path cg) of
          None \<Rightarrow> (-1, cg, made)
        | Some fd \<Rightarrow> (0, cg\<lparr>groupFd := fd\<rparr>, made))"

definition crinitCgroupClose :: "crinitCgroup \<Rightarrow> crinitCgroup" where
  "crinitCgroupClose cg = (if groupFd cg \<ge> 0 then cg\<lparr>groupFd := -1\<rparr> else cg)"

text \<open>The descriptor of the directory is stood for by its path.\<close>

definition crinitCgroupSetParam :: "cgroupEnv \<Rightarrow> string \<Rightarrow> crinitCgroupParam \<Rightarrow> int \<times> cgOp list" where
  "crinitCgroupSetParam e dir param =
     (if \<not> cgFile e dir (filename param) then (-1, [])
      else if \<not> cgWriteOk e dir (filename param) (cgOption param @ [CHR 0x0A]) then (-1, [])
      else (0, [CgWrite dir (filename param) (cgOption param @ [CHR 0x0A])]))"

fun set_params :: "cgroupEnv \<Rightarrow> string \<Rightarrow> crinitCgroupParam list \<Rightarrow> int \<times> cgOp list" where
  "set_params e dir [] = (0, [])"
| "set_params e dir (p # ps) =
     (case crinitCgroupSetParam e dir p of (r, ops) \<Rightarrow>
        if r = -1 then (-1, ops)
        else case set_params e dir ps of (r, ops') \<Rightarrow> (r, ops @ ops'))"

text \<open>
  The code first compares the array of parameters with its number: one of them may not be empty without the other. Here
  both are one list. No function of the program gives a configuration an array of no elements: an array is made by
  enlarging it for a parameter, or by a copy of one that has some.
\<close>

definition crinitCGroupConfigure :: "cgroupEnv \<Rightarrow> crinitCgroup \<Rightarrow> int \<times> crinitCgroup \<times> cgOp list" where
  "crinitCGroupConfigure e cg =
     (case crinitCgroupOpen e cg True of (r, cg, ops) \<Rightarrow>
        if r = -1 then (-1, crinitCgroupClose cg, ops)
        else case set_params e (cg_path cg) (case config cg of None \<Rightarrow> [] | Some ps \<Rightarrow> ps) of
          (r, ops') \<Rightarrow> (r, crinitCgroupClose cg, ops @ ops'))"

definition crinitCGroupAssignPID :: "cgroupEnv \<Rightarrow> crinitCgroup \<Rightarrow> int \<Rightarrow> int \<times> crinitCgroup \<times> cgOp list" where
  "crinitCGroupAssignPID e cg p =
     (if p \<le> 0 then (-1, cg, [])
      else case crinitCgroupOpen e cg False of (r, cg, ops) \<Rightarrow>
        if r = -1 then (-1, crinitCgroupClose cg, ops)
        else case crinitCgroupSetParam e (cg_path cg) \<lparr>filename = ''cgroup.procs'', cgOption = show_int p\<rparr> of
          (r, ops') \<Rightarrow> (r, crinitCgroupClose cg, ops @ ops'))"

section \<open>Setting up the global cgroups\<close>

text \<open>
  The controllers listed in a file, each with a plus sign before it and a space after it.
  \<open>Some None\<close> is success without any controller. The file is read up to a zero byte.
\<close>

definition crinitReadAvailableCgroupControllers :: "cgroupEnv \<Rightarrow> string \<Rightarrow> string option option" where
  "crinitReadAvailableCgroupControllers e infile =
     (case cgRead e infile of
        None \<Rightarrow> None
      | Some s \<Rightarrow>
          if s = [] \<or> \<not> cgMemOk e then None
          else let toks = strtok_all (CHR '' '') (takeWhile (\<lambda>c. c \<noteq> CHR 0x00) s)
               in Some (if toks = [] then None else Some (concat (map (\<lambda>t. ''+'' @ t @ '' '') toks))))"

text \<open>Writing the controllers to the control file of a directory.\<close>

definition write_controllers :: "cgroupEnv \<Rightarrow> string \<Rightarrow> string \<Rightarrow> int \<times> cgOp list" where
  "write_controllers e dir ctrls =
     (if \<not> cgFile e dir ''cgroup.subtree_control'' then (-1, [])
      else if \<not> cgWriteOk e dir ''cgroup.subtree_control'' ctrls then (-1, [])
      else (0, [CgWrite dir ''cgroup.subtree_control'' ctrls]))"

definition setup_root :: "cgroupEnv \<Rightarrow> string \<Rightarrow> crinitCgroup \<Rightarrow> int \<times> crinitCgroup \<times> cgOp list" where
  "setup_root e ctrls root =
     (case crinitCGroupConfigure e root of (r, root, ops) \<Rightarrow>
        if r \<noteq> 0 then (-1, root, ops)
        else case crinitCgroupOpen e root False of (r, root, ops2) \<Rightarrow>
          if r \<noteq> 0 then (-1, root, ops @ ops2)
          else if \<not> cgFile e (cg_path root) ''cgroup.subtree_control'' then (-1, root, ops @ ops2)
          else case write_controllers e (cg_path root) ctrls of
            (r, ops3) \<Rightarrow> (r, crinitCgroupClose root, ops @ ops2 @ ops3))"

fun setup_globals :: "cgroupEnv \<Rightarrow> string option \<Rightarrow> crinitCgroup list \<Rightarrow> int \<times> crinitCgroup list \<times> cgOp list" where
  "setup_globals e root [] = (0, [], [])"
| "setup_globals e root (c # cs) =
     (case crinitCGroupConfigure e (c\<lparr>parent := root\<rparr>) of (r, c, ops) \<Rightarrow>
        if r \<noteq> 0 then (-1, c # cs, ops)
        else case setup_globals e root cs of (r, cs, ops') \<Rightarrow> (r, c # cs, ops @ ops'))"

definition crinitCreateGlobalCGroups ::
  "cgroupEnv \<Rightarrow> crinitGlobOptStore \<Rightarrow> (int \<times> crinitGlobOptStore \<times> cgOp list) run" where
  "crinitCreateGlobalCGroups e g =
     bind_run (crinitGlobOptBorrow g) (\<lambda>g.
       let finish = (\<lambda>r g ops. Ret (r, snd (crinitGlobOptRemit g), ops)) in
       if \<not> cgBase e then finish (-1) g []
       else case crinitReadAvailableCgroupControllers e ''cgroup.controllers'' of
         None \<Rightarrow> finish (-1) g []
       | Some None \<Rightarrow> finish (-1) g []
       | Some (Some ctrls) \<Rightarrow>
           (case write_controllers e [] ctrls of (r, ops) \<Rightarrow>
              if r = -1 then finish (-1) g ops
              else case (case rootCgroup g of
                           None \<Rightarrow> (0, None, [])
                         | Some root \<Rightarrow> (case setup_root e ctrls root of (r, root, ops) \<Rightarrow> (r, Some root, ops))) of
                (r, root, ops2) \<Rightarrow>
                  let g = g\<lparr>rootCgroup := root\<rparr> in
                  if r = -1 then finish (-1) g (ops @ ops2)
                  else case setup_globals e (map_option cgName root) (globCgroups g) of
                    (r, cs, ops3) \<Rightarrow> finish r (g\<lparr>globCgroups := cs\<rparr>) (ops @ ops2 @ ops3)))"

section \<open>Lemmas\<close>

lemma CopyCgroup_same: "crinitCopyCgroup True True (\<lambda>_. True) True cg = Some cg"
proof -
  have "copy_params (\<lambda>_. True) i ps = Some ps" for i ps
    by (induction ps arbitrary: i) (auto simp: crinitCopyCgroupParam_def)
  then show ?thesis
    by (auto simp: crinitCopyCgroup_def crinitCopyCgroupConfiguration_def split: option.splits)
qed

lemma ConvertSingleParam_text:
  "CHR ''='' \<notin> set f \<Longrightarrow> crinitCgroupConvertSingleParamToObject (f @ ''='' @ v) = Some \<lparr>filename = f, cgOption = v\<rparr>"
  by (simp add: crinitCgroupConvertSingleParamToObject_def strchr_def dropWhile_append)

text \<open>Any parameter at all makes the conversion leave the array.\<close>

lemma convert_params_overrun:
  assumes "ss \<noteq> []" and "n = i + length ss" and "room < n * sizeof_param"
  shows "convert_params room n i ss = Undef"
  using assms
proof (induction ss arbitrary: i)
  case (Cons s ss)
  show ?case
  proof (cases "ss = []")
    case True
    with Cons.prems show ?thesis by (auto split: option.splits)
  next
    case False
    with Cons.prems Cons.IH [of "Suc i"] show ?thesis by (auto split: option.splits)
  qed
qed simp

lemma ConvertConfigArray_overrun:
  "ss \<noteq> [] \<Longrightarrow> crinitConvertConfigArrayToCGroupConfiguration True ss = Undef"
  by (simp add: crinitConvertConfigArrayToCGroupConfiguration_def convert_params_overrun)

lemma find_cgroup_Some:
  "find_cgroup i cs n = Some j \<Longrightarrow> i \<le> j \<and> j - i < length cs \<and> cgName (cs ! (j - i)) = n"
  by (induction cs arbitrary: i) (auto split: if_splits simp: nth_Cons' dest!: meta_spec, fastforce+)

lemma find_cgroup_None: "find_cgroup i cs n = None \<longleftrightarrow> n \<notin> cgName ` set cs"
  by (induction cs arbitrary: i) auto

lemma FindCgroup_names: "map cgName (snd (crinitFindCgroupByName cs n)) = map cgName cs"
proof -
  have "map cgName (cs[i := (cs ! i)\<lparr>config := c\<rparr>]) = map cgName cs" for i c
    by (cases "i < length cs") (simp_all add: map_update list_update_same_conv list_update_beyond)
  then show ?thesis by (auto simp: crinitFindCgroupByName_def split: option.splits)
qed

text \<open>What configuring a cgroup writes: its parameters, each in a line.\<close>

abbreviation param_write :: "string \<Rightarrow> crinitCgroupParam \<Rightarrow> cgOp" where
  "param_write dir p \<equiv> CgWrite dir (filename p) (cgOption p @ [CHR 0x0A])"

definition params_of :: "crinitCgroup \<Rightarrow> crinitCgroupParam list" where
  "params_of cg = (case config cg of None \<Rightarrow> [] | Some ps \<Rightarrow> ps)"

lemma set_params_writes: "set_params e dir ps = (0, ops) \<Longrightarrow> ops = map (param_write dir) ps"
  by (induction ps arbitrary: ops) (auto simp: crinitCgroupSetParam_def split: if_splits prod.splits)

lemma set_params_result: "fst (set_params e dir ps) = 0 \<or> fst (set_params e dir ps) = -1"
  by (induction ps) (auto simp: crinitCgroupSetParam_def split: prod.splits)

lemma CgroupOpen_path: "crinitCgroupOpen e cg b = (r, cg', ops) \<Longrightarrow>
    cg_path cg' = cg_path cg \<and> params_of cg' = params_of cg \<and> cgName cg' = cgName cg \<and> parent cg' = parent cg"
  by (auto simp: crinitCgroupOpen_def Let_def cg_path_def params_of_def split: if_splits option.splits)

lemma CgroupClose_path [simp]:
  "cg_path (crinitCgroupClose cg) = cg_path cg" "params_of (crinitCgroupClose cg) = params_of cg"
  "cgName (crinitCgroupClose cg) = cgName cg" "parent (crinitCgroupClose cg) = parent cg"
  by (simp_all add: crinitCgroupClose_def cg_path_def params_of_def)

text \<open>What setting up a cgroup does: its directory, if it is not there yet, then its parameters, each in a line.\<close>

definition cg_setup :: "cgroupEnv \<Rightarrow> crinitCgroup \<Rightarrow> cgOp list" where
  "cg_setup e cg = (if cgMkdirErr e (cg_path cg) = 0 then [CgMkdir (cg_path cg)] else []) @ map (param_write (cg_path cg)) (params_of cg)"

definition cg_exists :: "cgroupEnv \<Rightarrow> crinitCgroup \<Rightarrow> bool" where
  "cg_exists e cg \<longleftrightarrow> cgMkdirErr e (cg_path cg) \<in> {0, EEXIST} \<and> cgDir e (cg_path cg) \<noteq> None"

lemma CgroupOpen_made:
  "crinitCgroupOpen e cg True = (0, cg', ops) \<Longrightarrow>
     cg_exists e cg \<and> ops = (if cgMkdirErr e (cg_path cg) = 0 then [CgMkdir (cg_path cg)] else [])"
  "crinitCgroupOpen e cg False = (0, cg', ops) \<Longrightarrow> ops = []"
  by (auto simp: crinitCgroupOpen_def Let_def cg_path_def cg_exists_def split: if_splits option.splits)

lemma CgroupOpen_result: "fst (crinitCgroupOpen e cg b) = 0 \<or> fst (crinitCgroupOpen e cg b) = -1"
  by (auto simp: crinitCgroupOpen_def Let_def split: option.splits)

lemma CGroupConfigure_exact:
  assumes "crinitCGroupConfigure e cg = (0, cg', ops)"
  shows "ops = cg_setup e cg" "cg_exists e cg"
    and "cgName cg' = cgName cg" "parent cg' = parent cg" "params_of cg' = params_of cg" "cg_path cg' = cg_path cg"
proof -
  obtain r c o1 where op: "crinitCgroupOpen e cg True = (r, c, o1)" by (cases "crinitCgroupOpen e cg True")
  have r: "r = 0" using CgroupOpen_result [of e cg True] assms op by (auto simp: crinitCGroupConfigure_def)
  note path = CgroupOpen_path [OF op] and made = CgroupOpen_made(1) [OF op [unfolded r]]
  obtain o2 where "set_params e (cg_path cg) (params_of cg) = (0, o2)" "cg' = crinitCgroupClose c" "ops = o1 @ o2"
    using assms path by (auto simp: crinitCGroupConfigure_def op r params_of_def split: prod.splits)
  then show "ops = cg_setup e cg" "cg_exists e cg" "cgName cg' = cgName cg" "parent cg' = parent cg" "params_of cg' = params_of cg"
    "cg_path cg' = cg_path cg"
    using made path set_params_writes by (auto simp: cg_setup_def)
qed

lemma cg_setup_path:
  "cg_path c' = cg_path c \<Longrightarrow> params_of c' = params_of c \<Longrightarrow> cg_setup e c' = cg_setup e c \<and> cg_exists e c' = cg_exists e c"
  by (simp add: cg_setup_def cg_exists_def)

lemma setup_globals_exact:
  "setup_globals e root cs = (0, cs', ops) \<Longrightarrow>
     map cgName cs' = map cgName cs \<and> map params_of cs' = map params_of cs \<and> (\<forall>c \<in> set cs'. parent c = root \<and> cg_exists e c) \<and>
     ops = concat (map (cg_setup e) cs')"
proof (induction cs arbitrary: cs' ops)
  case (Cons c cs)
  obtain r c1 o1 where conf: "crinitCGroupConfigure e (c\<lparr>parent := root\<rparr>) = (r, c1, o1)"
    by (cases "crinitCGroupConfigure e (c\<lparr>parent := root\<rparr>)")
  then have "r = 0" using Cons.prems by (auto split: if_splits)
  note x = CGroupConfigure_exact [OF conf [unfolded this]]
  obtain cs1 o2 where "setup_globals e root cs = (0, cs1, o2)" "cs' = c1 # cs1" "ops = o1 @ o2"
    using Cons.prems conf \<open>r = 0\<close> by (auto split: prod.splits)
  then show ?case using Cons.IH [of cs1 o2] x cg_setup_path [OF x(6,5), of e] by (auto simp: params_of_def)
qed simp

lemma setup_root_exact:
  assumes "setup_root e ctrls root = (r, root', ops)" "r \<noteq> -1"
  shows "cgName root' = cgName root" "cg_exists e root"
    "ops = cg_setup e root @ [CgWrite (cg_path root) ''cgroup.subtree_control'' ctrls]"
proof -
  obtain r1 c1 o1 where conf: "crinitCGroupConfigure e root = (r1, c1, o1)" by (cases "crinitCGroupConfigure e root")
  obtain r2 c2 o2 where op: "crinitCgroupOpen e c1 False = (r2, c2, o2)" by (cases "crinitCgroupOpen e c1 False")
  have "r1 = 0" "r2 = 0" using assms conf op by (auto simp: setup_root_def split: if_splits)
  note c = CGroupConfigure_exact [OF conf [unfolded \<open>r1 = 0\<close>]] and p = CgroupOpen_path [OF op] and m = CgroupOpen_made(2) [OF op [unfolded \<open>r2 = 0\<close>]]
  show "cgName root' = cgName root" "cg_exists e root" "ops = cg_setup e root @ [CgWrite (cg_path root) ''cgroup.subtree_control'' ctrls]"
    using assms c p m by (auto simp: setup_root_def conf op write_controllers_def split: if_splits)
qed

text \<open>
  C33: when the global cgroups have been created, the directory of the root cgroup, if there is one, and of each of them exists,
  the latter below the root. What was done to the file system is exactly this, in this order: the controllers are
  enabled at the top; the root is made if it was missing, its parameters are written and the controllers are enabled in
  it; then each of the others, in the order of the configuration, is made if it was missing and its parameters are
  written. The option storage is unlocked again.
\<close>

theorem CreateGlobalCGroups_complete:
  assumes "crinitCreateGlobalCGroups e g = Ret (0, g', ops)" "optLock g = Unlocked"
  shows "optLock g' = Unlocked \<and>
    map cgName (globCgroups g') = map cgName (globCgroups g) \<and>
    map params_of (globCgroups g') = map params_of (globCgroups g) \<and>
    (\<forall>c \<in> set (globCgroups g'). parent c = map_option cgName (rootCgroup g)) \<and>
    (\<forall>c \<in> set (globCgroups g') \<union> set_option (rootCgroup g). cg_exists e c) \<and>
    (\<exists>ctrls. crinitReadAvailableCgroupControllers e ''cgroup.controllers'' = Some (Some ctrls) \<and>
       ops = CgWrite [] ''cgroup.subtree_control'' ctrls #
         (case rootCgroup g of None \<Rightarrow> []
          | Some root \<Rightarrow> cg_setup e root @ [CgWrite (cg_path root) ''cgroup.subtree_control'' ctrls]) @
         concat (map (cg_setup e) (globCgroups g')))"
proof -
  let ?g = "g\<lparr>optLock := Locked\<rparr>"
  have b: "crinitGlobOptBorrow g = Ret ?g" using assms(2) by (simp add: crinitGlobOptBorrow_def)
  obtain ctrls o1 root r2 o2 cs o3 where
    c: "crinitReadAvailableCgroupControllers e ''cgroup.controllers'' = Some (Some ctrls)" and
    w: "write_controllers e [] ctrls = (0, o1)" and
    r: "(case rootCgroup g of None \<Rightarrow> (0, None, [])
         | Some x \<Rightarrow> (case setup_root e ctrls x of (r, x, ops) \<Rightarrow> (r, Some x, ops))) = (r2, root, o2)" "r2 \<noteq> -1" and
    s: "setup_globals e (map_option cgName root) (globCgroups g) = (0, cs, o3)" and
    g': "g' = snd (crinitGlobOptRemit (?g\<lparr>rootCgroup := root, globCgroups := cs\<rparr>))" and o: "ops = o1 @ o2 @ o3"
    using assms(1) unfolding crinitCreateGlobalCGroups_def b
    by (auto simp: Let_def write_controllers_def split: if_splits option.splits prod.splits)
  have o1: "o1 = [CgWrite [] ''cgroup.subtree_control'' ctrls]" using w by (auto simp: write_controllers_def split: if_splits)
  have root: "map_option cgName root = map_option cgName (rootCgroup g) \<and> (\<forall>c \<in> set_option (rootCgroup g). cg_exists e c) \<and>
      o2 = (case rootCgroup g of None \<Rightarrow> []
            | Some root \<Rightarrow> cg_setup e root @ [CgWrite (cg_path root) ''cgroup.subtree_control'' ctrls])"
  proof (cases "rootCgroup g")
    case (Some x)
    then obtain x' where "setup_root e ctrls x = (r2, x', o2)" "root = Some x'" using r(1) by (auto split: prod.splits)
    then show ?thesis using setup_root_exact [of e ctrls x r2 x' o2] r(2) Some by simp
  qed (use r in auto)
  show ?thesis
    using setup_globals_exact [OF s] root c by (auto simp: g' crinitGlobOptRemit_def o o1)
qed

definition sampleCgroup :: crinitCgroup where
  "sampleCgroup = \<lparr>cgName = ''a'', groupFd = 0, parent = None, config = Some [\<lparr>filename = ''m'', cgOption = ''1''\<rparr>]\<rparr>"

definition sampleCgroupEnv :: cgroupEnv where
  "sampleCgroupEnv = \<lparr>cgBase = True, cgDir = (\<lambda>_. Some 5), cgMkdirErr = (\<lambda>_. 0), cgFile = (\<lambda>_ _. True),
     cgWriteOk = (\<lambda>_ _ _. True), cgRead = (\<lambda>_. Some ''cpu''), cgMemOk = True\<rparr>"

theorem CreateGlobalCGroups_complete_witness:
  "\<exists>g' ops. crinitCreateGlobalCGroups sampleCgroupEnv
       (crinitGlobOpts\<lparr>rootCgroup := Some (sampleCgroup\<lparr>cgName := ''r'', config := None\<rparr>), globCgroups := [sampleCgroup]\<rparr>) =
     Ret (0, g', ops) \<and> ops ! 1 = CgMkdir ''r'' \<and> last ops = CgWrite ''r/a'' ''m'' [CHR ''1'', CHR 0x0A]"
proof -
  let ?g = "crinitGlobOpts\<lparr>rootCgroup := Some (sampleCgroup\<lparr>cgName := ''r'', config := None\<rparr>), globCgroups := [sampleCgroup]\<rparr>"
  obtain g' ops where r: "crinitCreateGlobalCGroups sampleCgroupEnv ?g = Ret (0, g', ops)"
    by (simp add: crinitCreateGlobalCGroups_def sampleCgroupEnv_def sampleCgroup_def crinitGlobOpts_def crinitGlobOptBorrow_def
        crinitReadAvailableCgroupControllers_def strtok_all.simps write_controllers_def setup_root_def crinitCGroupConfigure_def
        crinitCgroupOpen_def crinitCgroupSetParam_def Let_def cg_path_def crinitCgroupClose_def)
  have "optLock ?g = Unlocked" by (simp add: crinitGlobOpts_def Let_def)
  from CreateGlobalCGroups_complete [OF r this] obtain ctrls where g':
    "map cgName (globCgroups g') = [''a'']" "map params_of (globCgroups g') = [[\<lparr>filename = ''m'', cgOption = ''1''\<rparr>]]"
    "\<forall>c \<in> set (globCgroups g'). parent c = Some ''r''"
    and ops: "ops = CgWrite [] ''cgroup.subtree_control'' ctrls # (cg_setup sampleCgroupEnv (sampleCgroup\<lparr>cgName := ''r'', config := None\<rparr>) @
       [CgWrite (cg_path (sampleCgroup\<lparr>cgName := ''r'', config := None\<rparr>)) ''cgroup.subtree_control'' ctrls]) @
       concat (map (cg_setup sampleCgroupEnv) (globCgroups g'))"
    by (auto simp: sampleCgroup_def params_of_def)
  obtain c where c: "globCgroups g' = [c]" "cg_path c = ''r/a''" "params_of c = [\<lparr>filename = ''m'', cgOption = ''1''\<rparr>]"
    using g' by (auto simp: map_eq_Cons_conv cg_path_def)
  have "ops ! 1 = CgMkdir ''r''" "last ops = CgWrite ''r/a'' ''m'' [CHR ''1'', CHR 0x0A]"
    using ops c by (simp_all add: cg_setup_def sampleCgroupEnv_def cg_path_def sampleCgroup_def params_of_def)
  then show ?thesis using r by blast
qed

end
