(* ===== verification/TaskDB.thy ===== *)
theory TaskDB
  imports TimerDB Cgroup
begin

unbundle bit_operations_syntax

text \<open>
  The task database, \<open>src/src/taskdb.c\<close> and \<open>src/inc/taskdb.h\<close>: every function of the file in
  a build without elos. \<open>taskSet\<close> are the first \<open>taskSetItems\<close> entries of the array,
  \<open>taskSetSize\<close> its capacity. A pointer to an entry is its index. The condition variable is
  the number of broadcasts it has received. The function pointer \<open>spawnFunc\<close> is its result for
  each task and mode; the tasks it was called for are returned by \<open>crinitTaskDBSpawnReady\<close>.

  Operations that reach other global variables take and return the \<open>world\<close>, the global state
  of the daemon; the others take the database alone. Outcomes of allocations and the clock are
  arguments.
\<close>

section \<open>Data\<close>

datatype crinitDispatchThreadMode =
  CRINIT_DISPATCH_THREAD_MODE_START | CRINIT_DISPATCH_THREAD_MODE_STOP

record crinitTaskDB =
  taskSet :: "crinitTask list"
  taskSetSize :: nat
  spawnFunc :: "(crinitTask \<Rightarrow> crinitDispatchThreadMode \<Rightarrow> int) option"
  spawnInhibit :: bool
  lock :: mutex
  changed :: nat

abbreviation (input) CRINIT_TASKDB_INITIAL_SIZE :: nat where "CRINIT_TASKDB_INITIAL_SIZE \<equiv> 256"
abbreviation (input) CRINIT_PROVIDE_DEP_NAME :: string where "CRINIT_PROVIDE_DEP_NAME \<equiv> ''@provided''"

text \<open>
  The global state of the daemon. \<open>trace\<close> lists what the daemon has asked the operating
  system for, in order: signals, threads, processes (program, arguments, environment and file
  actions), reaped children, pauses, and the final steps of a shutdown.
\<close>

datatype fileAction = AddOpen int string int int | AddDup2 int int

datatype sysEvent =
  SignalSent int int | ThreadStarted string crinitDispatchThreadMode | ShutdownStarted int
  | ProcessStarted string "string list" "string list" "fileAction list"
  | CgroupChanged cgOp
  | Reaped int | Slept timespec | Unmounted string | RemountedRo | Synced | Rebooted int

record world =
  taskDB :: crinitTaskDB
  timerPool :: crinitTimerDB
  globOpts :: crinitGlobOptStore
  sysLog :: bool
  inhibitWait :: bool
  waitInhibitLock :: mutex
  trace :: "sysEvent list"

section \<open>Helpers\<close>

definition db_lock :: "crinitTaskDB \<Rightarrow> (int \<times> crinitTaskDB) run" where
  "db_lock ctx = map_ret (\<lambda>(e, m). (e, ctx\<lparr>lock := m\<rparr>)) (pthread_mutex_lock (lock ctx))"

definition db_unlock :: "crinitTaskDB \<Rightarrow> crinitTaskDB" where
  "db_unlock ctx = ctx\<lparr>lock := snd (pthread_mutex_unlock (lock ctx))\<rparr>"

definition pthread_cond_broadcast :: "crinitTaskDB \<Rightarrow> crinitTaskDB" where
  "pthread_cond_broadcast ctx = ctx\<lparr>changed := Suc (changed ctx)\<rparr>"

definition upd_task :: "nat \<Rightarrow> (crinitTask \<Rightarrow> crinitTask) \<Rightarrow> crinitTaskDB \<Rightarrow> crinitTaskDB" where
  "upd_task i f ctx = ctx\<lparr>taskSet := (taskSet ctx)[i := f (taskSet ctx ! i)]\<rparr>"

definition on_db :: "(crinitTaskDB \<Rightarrow> (int \<times> crinitTaskDB) run) \<Rightarrow> world \<Rightarrow> (int \<times> world) run" where
  "on_db f w = map_ret (\<lambda>(r, ctx). (r, w\<lparr>taskDB := ctx\<rparr>)) (f (taskDB w))"

fun find_from :: "nat \<Rightarrow> string \<Rightarrow> crinitTask list \<Rightarrow> nat option run" where
  "find_from i taskName [] = Ret None"
| "find_from i taskName (t # ts) =
     (if freed t then Undef
      else if taskName = name t then Ret (Some i)
      else find_from (Suc i) taskName ts)"

definition crinitFindTask :: "crinitTaskDB \<Rightarrow> string \<Rightarrow> nat option run" where
  "crinitFindTask ctx taskName = find_from 0 taskName (taskSet ctx)"

definition crinitTaskIsReady :: "crinitTask \<Rightarrow> bool" where
  "crinitTaskIsReady t =
     (if deps t \<noteq> [] then False
      else if \<not> triggered t then False
      else if state t AND (CRINIT_TASK_STATE_RUNNING OR CRINIT_TASK_STATE_STARTING) \<noteq> 0 then False
      else if opts t AND CRINIT_TASK_OPT_RESPAWN \<noteq> 0 \<and> inhibitRespawn t then False
      else if state t AND (CRINIT_TASK_STATE_FAILED OR CRINIT_TASK_STATE_DONE) \<noteq> 0 then
        if \<not> (opts t AND CRINIT_TASK_OPT_RESPAWN \<noteq> 0) then False
        else if maxRetries t \<noteq> -1 \<and> failCount t > maxRetries t then False
        else True
      else True)"

section \<open>Initialisation and destruction\<close>

definition crinitTaskDBInitWithSize ::
  "bool \<Rightarrow> bool \<Rightarrow> bool \<Rightarrow> (crinitTask \<Rightarrow> crinitDispatchThreadMode \<Rightarrow> int) option \<Rightarrow> nat \<Rightarrow>
   int \<times> crinitTaskDB option" where
  "crinitTaskDBInitWithSize callocOk mutexOk condOk f initialSize =
     (if initialSize < 1 then (-1, None)
      else if \<not> callocOk then (-1, None)
      else if \<not> mutexOk then (-1, None)
      else if \<not> condOk then (-1, None)
      else (0, Some \<lparr>taskSet = [], taskSetSize = initialSize, spawnFunc = f, spawnInhibit = False,
                     lock = Unlocked, changed = 0\<rparr>))"

fun destroy_tasks :: "crinitTask list \<Rightarrow> unit run" where
  "destroy_tasks [] = Ret ()"
| "destroy_tasks (t # ts) = bind_run (crinitDestroyTask t) (\<lambda>_. destroy_tasks ts)"

definition crinitTaskDBDestroy :: "crinitTaskDB \<Rightarrow> (int \<times> crinitTaskDB) run" where
  "crinitTaskDBDestroy ctx =
     bind_run (destroy_tasks (taskSet ctx)) (\<lambda>_.
       case pthread_mutex_destroy (lock ctx) of (e, m) \<Rightarrow>
         Ret (if e \<noteq> 0 then -1 else 0,
              ctx\<lparr>spawnFunc := None, taskSetSize := 0, taskSet := [], lock := m\<rparr>))"

section \<open>Insertion\<close>

text \<open>
  The entry to fill: an existing one is destroyed first, otherwise a new one is appended after
  growing the array if it is full. \<open>None\<close> for the index stands for a failure.
\<close>

definition insert_slot :: "bool \<Rightarrow> bool \<Rightarrow> crinitTaskDB \<Rightarrow> crinitTask \<Rightarrow> (nat option \<times> crinitTaskDB) run" where
  "insert_slot growOk overwrite ctx t =
     bind_run (crinitFindTask ctx (name t)) (\<lambda>r. case r of
       Some i \<Rightarrow>
         if overwrite
         then bind_run (crinitDestroyTask (taskSet ctx ! i)) (\<lambda>old. Ret (Some i, upd_task i (\<lambda>_. old) ctx))
         else Ret (None, ctx)
     | None \<Rightarrow>
         if length (taskSet ctx) = taskSetSize ctx \<and> \<not> growOk then Ret (None, ctx)
         else let ctx = (if length (taskSet ctx) = taskSetSize ctx
                         then ctx\<lparr>taskSetSize := taskSetSize ctx * 2\<rparr> else ctx)
              in Ret (Some (length (taskSet ctx)), ctx\<lparr>taskSet := taskSet ctx @ [t\<lparr>freed := True\<rparr>]\<rparr>))"

text \<open>Result code, the given task after the call (see \<open>crinitTaskCopy\<close>), and the world.\<close>

definition crinitTaskDBInsert ::
  "bool \<Rightarrow> copyFault \<Rightarrow> world \<Rightarrow> crinitTask \<Rightarrow> bool \<Rightarrow> (int \<times> crinitTask \<times> world) run" where
  "crinitTaskDBInsert growOk fault w t overwrite =
     bind_run (db_lock (taskDB w)) (\<lambda>(e, ctx).
       if e \<noteq> 0 then Ret (-1, t, w\<lparr>taskDB := ctx\<rparr>)
       else bind_run (insert_slot growOk overwrite ctx t) (\<lambda>(r, ctx). case r of
         None \<Rightarrow> Ret (-1, t, w\<lparr>taskDB := db_unlock ctx\<rparr>)
       | Some i \<Rightarrow> bind_run (crinitTaskCopy fault t) (\<lambda>(rc, copy, t').
           let ctx = upd_task i (\<lambda>_. copy) ctx in
           if rc = -1 then Ret (-1, t', w\<lparr>taskDB := db_unlock ctx\<rparr>)
           else bind_run (crinitFeatureHook (globOpts w) (sysLog w) None CRINIT_HOOK_TASK_ADDED) (\<lambda>(rh, g, sl).
             let w = w\<lparr>globOpts := g, sysLog := sl\<rparr> in
             if rh = -1 then Ret (-1, t', w\<lparr>taskDB := db_unlock ctx\<rparr>)
             else Ret (0, t', w\<lparr>taskDB := db_unlock (pthread_cond_broadcast ctx)\<rparr>)))))"

section \<open>Scheduling\<close>

text \<open>
  The loop of \<open>crinitTaskDBSpawnReady\<close>, with the tasks after the loop and those
  \<open>spawnFunc\<close> was called for.
\<close>

fun spawn_loop ::
  "(crinitTask \<Rightarrow> crinitDispatchThreadMode \<Rightarrow> int) \<Rightarrow> crinitDispatchThreadMode \<Rightarrow> crinitTask list \<Rightarrow>
   (int \<times> crinitTask list \<times> crinitTask list) run" where
  "spawn_loop f mode [] = Ret (0, [], [])"
| "spawn_loop f mode (t # ts) =
     (if crinitTaskIsReady t then
        if freed t then Undef
        else let t = t\<lparr>state := CRINIT_TASK_STATE_STARTING\<rparr> in
          if f t mode = -1
          then Ret (-1, t\<lparr>state := state t AND NOT CRINIT_TASK_STATE_STARTING\<rparr> # ts, [t])
          else map_ret (\<lambda>(r, ts', sp). (r, t # ts', t # sp)) (spawn_loop f mode ts)
      else map_ret (\<lambda>(r, ts', sp). (r, t # ts', sp)) (spawn_loop f mode ts))"

definition crinitTaskDBSpawnReady ::
  "crinitTaskDB \<Rightarrow> crinitDispatchThreadMode \<Rightarrow> (int \<times> crinitTaskDB \<times> crinitTask list) run" where
  "crinitTaskDBSpawnReady ctx mode =
     bind_run (db_lock ctx) (\<lambda>(e, ctx).
       if e \<noteq> 0 then Ret (-1, ctx, [])
       else if spawnInhibit ctx then Ret (0, db_unlock ctx, [])
       else case spawnFunc ctx of
         None \<Rightarrow> Ret (-1, db_unlock ctx, [])
       | Some f \<Rightarrow> bind_run (spawn_loop f mode (taskSet ctx)) (\<lambda>(r, ts, sp).
           Ret (r, db_unlock (ctx\<lparr>taskSet := ts\<rparr>), sp)))"

definition crinitTaskDBSetSpawnInhibit :: "crinitTaskDB \<Rightarrow> bool \<Rightarrow> (int \<times> crinitTaskDB) run" where
  "crinitTaskDBSetSpawnInhibit ctx inh =
     bind_run (db_lock ctx) (\<lambda>(e, ctx).
       if e \<noteq> 0 then Ret (-1, ctx)
       else let ctx = (if inh \<noteq> spawnInhibit ctx
                       then if \<not> inh then pthread_cond_broadcast (ctx\<lparr>spawnInhibit := inh\<rparr>)
                            else ctx\<lparr>spawnInhibit := inh\<rparr>
                       else ctx)
            in Ret (0, db_unlock ctx))"

section \<open>Access to single tasks\<close>

text \<open>Result code, the duplicate, and the database.\<close>

definition crinitTaskDBGetTaskByName ::
  "bool \<Rightarrow> copyFault \<Rightarrow> crinitTaskDB \<Rightarrow> string \<Rightarrow> (int \<times> crinitTask option \<times> crinitTaskDB) run" where
  "crinitTaskDBGetTaskByName mallocOk fault ctx taskName =
     bind_run (db_lock ctx) (\<lambda>(e, ctx).
       if e \<noteq> 0 then Ret (-1, None, ctx)
       else bind_run (crinitFindTask ctx taskName) (\<lambda>r. case r of
         None \<Rightarrow> Ret (-1, None, db_unlock ctx)
       | Some i \<Rightarrow> bind_run (crinitTaskDup mallocOk fault (taskSet ctx ! i)) (\<lambda>(rd, out, orig).
           let ctx = upd_task i (\<lambda>_. orig) ctx in
           if rd \<noteq> 0 then Ret (-1, out, db_unlock ctx) else Ret (0, out, db_unlock ctx))))"

definition crinitTaskRearmTrigger :: "crinitTaskDB \<Rightarrow> string \<Rightarrow> (int \<times> crinitTaskDB) run" where
  "crinitTaskRearmTrigger ctx taskName =
     bind_run (db_lock ctx) (\<lambda>(e, ctx).
       if e \<noteq> 0 then Ret (-1, ctx)
       else bind_run (crinitFindTask ctx taskName) (\<lambda>r.
         let (res, ctx) = (case r of
             None \<Rightarrow> (-1, ctx)
           | Some i \<Rightarrow> (0, upd_task i (\<lambda>t. t\<lparr>triggered := trig t = [], state := CRINIT_TASK_STATE_LOADED\<rparr>) ctx))
         in Ret (res, db_unlock (pthread_cond_broadcast ctx))))"

abbreviation zero_time :: timespec where "zero_time \<equiv> \<lparr>tv_sec = 0, tv_nsec = 0\<rparr>"

text \<open>
  The change of one task by \<open>crinitTaskDBSetTaskState\<close>. Counting one failure more than an
  \<open>int\<close> holds is a signed overflow.
\<close>

definition set_state :: "timespec \<Rightarrow> crinitTaskState \<Rightarrow> crinitTask \<Rightarrow> crinitTask run" where
  "set_state timestamp s t =
     (let t = t\<lparr>state := s\<rparr>; s' = s AND NOT CRINIT_TASK_STATE_NOTIFIED in
      if s' = CRINIT_TASK_STATE_FAILED then
        if failCount t = INT_MAX then Undef
        else Ret (t\<lparr>failCount := failCount t + 1, endTime := timestamp\<rparr>)
      else if s' = CRINIT_TASK_STATE_DONE then Ret (t\<lparr>failCount := 0, endTime := timestamp\<rparr>)
      else if s' = CRINIT_TASK_STATE_RUNNING then Ret (t\<lparr>startTime := timestamp\<rparr>)
      else Ret t)"

definition crinitTaskDBSetTaskState ::
  "timespec option \<Rightarrow> crinitTaskDB \<Rightarrow> crinitTaskState \<Rightarrow> string \<Rightarrow> (int \<times> crinitTaskDB) run" where
  "crinitTaskDBSetTaskState now ctx s taskName =
     (let timestamp =
        (if s AND (CRINIT_TASK_STATE_RUNNING OR CRINIT_TASK_STATE_DONE OR CRINIT_TASK_STATE_FAILED) \<noteq> 0
         then (case now of None \<Rightarrow> zero_time | Some ts \<Rightarrow> ts) else zero_time)
      in bind_run (db_lock ctx) (\<lambda>(e, ctx).
        if e \<noteq> 0 then Ret (-1, ctx)
        else bind_run (crinitFindTask ctx taskName) (\<lambda>r. case r of
          None \<Rightarrow> Ret (-1, db_unlock ctx)
        | Some i \<Rightarrow> bind_run (set_state timestamp s (taskSet ctx ! i)) (\<lambda>t.
            Ret (0, db_unlock (pthread_cond_broadcast (upd_task i (\<lambda>_. t) ctx)))))))"

definition crinitTaskDBGetTaskState ::
  "crinitTaskDB \<Rightarrow> string \<Rightarrow> (int \<times> crinitTaskState \<times> crinitTaskDB) run" where
  "crinitTaskDBGetTaskState ctx taskName =
     bind_run (db_lock ctx) (\<lambda>(e, ctx).
       if e \<noteq> 0 then Ret (-1, 0, ctx)
       else bind_run (crinitFindTask ctx taskName) (\<lambda>r. case r of
         None \<Rightarrow> Ret (-1, 0, db_unlock ctx)
       | Some i \<Rightarrow> Ret (0, state (taskSet ctx ! i), db_unlock ctx)))"

definition crinitTaskDBSetTaskPID :: "crinitTaskDB \<Rightarrow> int \<Rightarrow> string \<Rightarrow> (int \<times> crinitTaskDB) run" where
  "crinitTaskDBSetTaskPID ctx p taskName =
     bind_run (db_lock ctx) (\<lambda>(e, ctx).
       if e \<noteq> 0 then Ret (-1, ctx)
       else bind_run (crinitFindTask ctx taskName) (\<lambda>r. case r of
         None \<Rightarrow> Ret (-1, db_unlock ctx)
       | Some i \<Rightarrow> Ret (0, db_unlock (upd_task i (\<lambda>t. t\<lparr>pid := p\<rparr>) ctx))))"

definition crinitTaskDBGetTaskPID :: "crinitTaskDB \<Rightarrow> string \<Rightarrow> (int \<times> int \<times> crinitTaskDB) run" where
  "crinitTaskDBGetTaskPID ctx taskName =
     bind_run (db_lock ctx) (\<lambda>(e, ctx).
       if e \<noteq> 0 then Ret (-1, -1, ctx)
       else bind_run (crinitFindTask ctx taskName) (\<lambda>r. case r of
         None \<Rightarrow> Ret (-1, -1, db_unlock ctx)
       | Some i \<Rightarrow> Ret (0, pid (taskSet ctx ! i), db_unlock ctx)))"

definition crinitTaskDBGetTaskStateAndPID ::
  "crinitTaskDB \<Rightarrow> string \<Rightarrow> (int \<times> crinitTaskState \<times> int \<times> crinitTaskDB) run" where
  "crinitTaskDBGetTaskStateAndPID ctx taskName =
     bind_run (db_lock ctx) (\<lambda>(e, ctx).
       if e \<noteq> 0 then Ret (-1, 0, 0, ctx)
       else bind_run (crinitFindTask ctx taskName) (\<lambda>r. case r of
         None \<Rightarrow> Ret (-1, 0, 0, db_unlock ctx)
       | Some i \<Rightarrow> Ret (0, state (taskSet ctx ! i), pid (taskSet ctx ! i), db_unlock ctx)))"

definition crinitTaskDBSetTaskRespawnInhibit ::
  "crinitTaskDB \<Rightarrow> bool \<Rightarrow> string \<Rightarrow> (int \<times> crinitTaskDB) run" where
  "crinitTaskDBSetTaskRespawnInhibit ctx inhibit taskName =
     bind_run (db_lock ctx) (\<lambda>(e, ctx).
       if e \<noteq> 0 then Ret (-1, ctx)
       else bind_run (crinitFindTask ctx taskName) (\<lambda>r. case r of
         None \<Rightarrow> Ret (-1, db_unlock ctx)
       | Some i \<Rightarrow> Ret (0, db_unlock (upd_task i (\<lambda>t. t\<lparr>inhibitRespawn := inhibit\<rparr>) ctx))))"

text \<open>The result of the lock is compared with -1, so an error of the lock goes unnoticed.\<close>

definition crinitTaskDBBorrowTask :: "crinitTaskDB \<Rightarrow> string \<Rightarrow> (nat option \<times> crinitTaskDB) run" where
  "crinitTaskDBBorrowTask ctx taskName =
     bind_run (db_lock ctx) (\<lambda>(e, ctx).
       if e = -1 then Ret (None, ctx)
       else bind_run (crinitFindTask ctx taskName) (\<lambda>r. case r of
         None \<Rightarrow> Ret (None, db_unlock ctx)
       | Some i \<Rightarrow> Ret (Some i, ctx)))"

definition crinitTaskDBRemit :: "crinitTaskDB \<Rightarrow> int \<times> crinitTaskDB" where
  "crinitTaskDBRemit ctx =
     (case pthread_mutex_unlock (lock ctx) of (e, m) \<Rightarrow> (if e \<noteq> 0 then -1 else 0, ctx\<lparr>lock := m\<rparr>))"

section \<open>Dependencies\<close>

definition crinitTaskDBAddDepToTask ::
  "bool \<Rightarrow> bool \<Rightarrow> crinitTaskDB \<Rightarrow> crinitTaskDep \<Rightarrow> string \<Rightarrow> (int \<times> crinitTaskDB) run" where
  "crinitTaskDBAddDepToTask reallocOk mallocOk ctx dep taskName =
     bind_run (db_lock ctx) (\<lambda>(e, ctx).
       if e \<noteq> 0 then Ret (-1, ctx)
       else bind_run (crinitFindTask ctx taskName) (\<lambda>r. case r of
         None \<Rightarrow> Ret (-1, db_unlock ctx)
       | Some i \<Rightarrow>
           if dep \<in> set (deps (taskSet ctx ! i)) then Ret (0, db_unlock ctx)
           else if \<not> reallocOk then Ret (-1, db_unlock ctx)
           else if \<not> mallocOk then Ret (-1, db_unlock ctx)
           else Ret (0, db_unlock (upd_task i (\<lambda>t. t\<lparr>deps := deps t @ [dep]\<rparr>) ctx))))"

text \<open>
  The first loop of \<open>crinitTaskDBRemoveDepFromTaskStruct\<close>: a matching entry is overwritten
  with the last one, and the index advances also then.
\<close>

function remove_dep_loop ::
  "crinitTaskDep \<Rightarrow> nat \<Rightarrow> crinitTaskDep list \<Rightarrow> crinitTimerDB \<Rightarrow> (crinitTaskDep list \<times> crinitTimerDB) run" where
  "remove_dep_loop dep j ds pool =
     (if j < length ds then
        if ds ! j = dep then
          bind_run (if depName dep = ''@timer'' then crinitTimerDBRemoveTimer pool (event dep) else Ret pool)
            (\<lambda>pool. remove_dep_loop dep (Suc j) (swap_remove j ds) pool)
        else remove_dep_loop dep (Suc j) ds pool
      else Ret (ds, pool))"
  by pat_completeness auto
termination by (relation "measure (\<lambda>(dep, j, ds, pool). length ds - j)") auto

declare remove_dep_loop.simps [simp del]

definition crinitTaskDBRemoveDepFromTaskStruct ::
  "crinitTask \<Rightarrow> crinitTaskDep \<Rightarrow> crinitTimerDB \<Rightarrow> (crinitTask \<times> crinitTimerDB) run" where
  "crinitTaskDBRemoveDepFromTaskStruct pTask dep pool =
     (if freed pTask then Undef
      else bind_run (remove_dep_loop dep 0 (deps pTask) pool) (\<lambda>(ds, pool).
        Ret (pTask\<lparr>deps := ds, triggered := triggered pTask \<or> dep \<in> set (trig pTask)\<rparr>, pool)))"

definition crinitTaskDBRemoveDepFromTask ::
  "world \<Rightarrow> crinitTaskDep \<Rightarrow> string \<Rightarrow> (int \<times> world) run" where
  "crinitTaskDBRemoveDepFromTask w dep taskName =
     bind_run (db_lock (taskDB w)) (\<lambda>(e, ctx).
       if e \<noteq> 0 then Ret (-1, w\<lparr>taskDB := ctx\<rparr>)
       else bind_run (crinitFindTask ctx taskName) (\<lambda>r. case r of
         None \<Rightarrow> Ret (-1, w\<lparr>taskDB := db_unlock ctx\<rparr>)
       | Some i \<Rightarrow> bind_run (crinitTaskDBRemoveDepFromTaskStruct (taskSet ctx ! i) dep (timerPool w)) (\<lambda>(t, pool).
           Ret (0, w\<lparr>taskDB := db_unlock (pthread_cond_broadcast (upd_task i (\<lambda>_. t) ctx)), timerPool := pool\<rparr>))))"

fun fulfill_all ::
  "crinitTaskDep \<Rightarrow> crinitTask list \<Rightarrow> crinitTimerDB \<Rightarrow> (crinitTask list \<times> crinitTimerDB) run" where
  "fulfill_all dep [] pool = Ret ([], pool)"
| "fulfill_all dep (t # ts) pool =
     bind_run (crinitTaskDBRemoveDepFromTaskStruct t dep pool) (\<lambda>(t, pool).
     bind_run (fulfill_all dep ts pool) (\<lambda>(ts, pool). Ret (t # ts, pool)))"

text \<open>\<open>target\<close> is the index of a single task; without it the dependency is fulfilled in all tasks.\<close>

definition crinitTaskDBFulfillDep ::
  "world \<Rightarrow> crinitTaskDep \<Rightarrow> nat option \<Rightarrow> (int \<times> world) run" where
  "crinitTaskDBFulfillDep w dep target =
     bind_run (db_lock (taskDB w)) (\<lambda>(e, ctx).
       if e \<noteq> 0 then Ret (-1, w\<lparr>taskDB := ctx\<rparr>)
       else bind_run
         (case target of
            Some i \<Rightarrow> bind_run (crinitTaskDBRemoveDepFromTaskStruct (taskSet ctx ! i) dep (timerPool w))
                       (\<lambda>(t, pool). Ret ((taskSet ctx)[i := t], pool))
          | None \<Rightarrow> fulfill_all dep (taskSet ctx) (timerPool w))
         (\<lambda>(ts, pool). Ret (0, w\<lparr>taskDB := db_unlock (pthread_cond_broadcast (ctx\<lparr>taskSet := ts\<rparr>)),
                                timerPool := pool\<rparr>)))"

definition run_hook :: "world \<Rightarrow> string \<Rightarrow> crinitHookType \<Rightarrow> (int \<times> world) run" where
  "run_hook w feature type =
     map_ret (\<lambda>(r, g, sl). (r, w\<lparr>globOpts := g, sysLog := sl\<rparr>))
       (crinitFeatureHook (globOpts w) (sysLog w) (Some feature) type)"

fun provide_loop :: "crinitTaskState \<Rightarrow> crinitTaskPrv list \<Rightarrow> world \<Rightarrow> (int \<times> world) run" where
  "provide_loop newState [] w = Ret (0, w)"
| "provide_loop newState (p # ps) w =
     (if stateReq p = newState then
        bind_run (crinitTaskDBFulfillDep w \<lparr>depName = CRINIT_PROVIDE_DEP_NAME, event = prvName p\<rparr> None) (\<lambda>(r, w).
          if r = -1 then Ret (-1, w)
          else bind_run (run_hook w (prvName p) CRINIT_HOOK_START) (\<lambda>(r, w).
            if r = -1 then Ret (-1, w) else provide_loop newState ps w))
      else
        bind_run (run_hook w (prvName p) CRINIT_HOOK_STOP) (\<lambda>(r, w).
          if r = -1 then Ret (-1, w) else provide_loop newState ps w))"

definition crinitTaskDBProvideFeature :: "world \<Rightarrow> crinitTask \<Rightarrow> crinitTaskState \<Rightarrow> (int \<times> world) run" where
  "crinitTaskDBProvideFeature w provider newState =
     (if freed provider then Undef else provide_loop newState (prv provider) w)"

text \<open>The early return for an unknown task does not unlock the database.\<close>

definition crinitTaskDBProvideFeatureByTaskName ::
  "world \<Rightarrow> string \<Rightarrow> crinitTaskState \<Rightarrow> (int \<times> world) run" where
  "crinitTaskDBProvideFeatureByTaskName w taskName newState =
     bind_run (db_lock (taskDB w)) (\<lambda>(e, ctx).
       if e \<noteq> 0 then Ret (-1, w\<lparr>taskDB := ctx\<rparr>)
       else bind_run (crinitFindTask ctx taskName) (\<lambda>r. case r of
         None \<Rightarrow> Ret (-1, w\<lparr>taskDB := ctx\<rparr>)
       | Some i \<Rightarrow> crinitTaskDBProvideFeature (w\<lparr>taskDB := db_unlock ctx\<rparr>) (taskSet ctx ! i) newState))"

text \<open>
  \<open>strdupFail\<close> is the number of names duplicated before the first failing duplication. The
  clean-up loop releases the null pointer at the failing index over and over instead of the
  names already duplicated, which are lost but not released twice.
\<close>

definition crinitTaskDBExportTaskNamesToArray ::
  "bool \<Rightarrow> nat option \<Rightarrow> crinitTaskDB \<Rightarrow> (int \<times> string list option \<times> crinitTaskDB) run" where
  "crinitTaskDBExportTaskNamesToArray callocOk strdupFail ctx =
     bind_run (db_lock ctx) (\<lambda>(e, ctx).
       if e \<noteq> 0 then Ret (-1, None, ctx)
       else if \<not> callocOk then Ret (-1, None, db_unlock ctx)
       else case strdupFail of
         Some i \<Rightarrow> if i < length (taskSet ctx)
                   then if \<exists>t \<in> set (take (Suc i) (taskSet ctx)). freed t then Undef
                        else Ret (-1, None, db_unlock ctx)
                   else if \<exists>t \<in> set (taskSet ctx). freed t then Undef
                   else Ret (0, Some (map name (taskSet ctx)), db_unlock ctx)
       | None \<Rightarrow> if \<exists>t \<in> set (taskSet ctx). freed t then Undef
                 else Ret (0, Some (map name (taskSet ctx)), db_unlock ctx))"

end
