(* ===== verification/TaskDBProps.thy ===== *)
theory TaskDBProps
  imports TaskDB
begin

unbundle bit_operations_syntax

text \<open>
  What the task database promises. A database in a consistent state (\<open>db_ok\<close>) stands for a
  finite map from task names to tasks (\<open>task_map\<close>); the locale \<open>task_update\<close> is the contract
  of the operations that change one named task, interpreted for each of them. Then the
  scheduling step, the removal of dependencies and the insertion of tasks.
\<close>

section \<open>Consistent databases\<close>

definition db_wf :: "crinitTaskDB \<Rightarrow> bool" where
  "db_wf ctx \<longleftrightarrow> 0 < taskSetSize ctx \<and> length (taskSet ctx) \<le> taskSetSize ctx \<and>
     distinct (map name (taskSet ctx)) \<and> (\<forall>t \<in> set (taskSet ctx). task_wf t)"

definition db_ok :: "crinitTaskDB \<Rightarrow> bool" where
  "db_ok ctx \<longleftrightarrow> db_wf ctx \<and> lock ctx = Unlocked"

definition task_map :: "crinitTaskDB \<Rightarrow> string \<rightharpoonup> crinitTask" where
  "task_map ctx = map_of (map (\<lambda>t. (name t, t)) (taskSet ctx))"

lemma db_okD [dest]:
  assumes "db_ok ctx"
  shows "lock ctx = Unlocked" "distinct (map name (taskSet ctx))"
    "\<And>t. t \<in> set (taskSet ctx) \<Longrightarrow> task_wf t" "length (taskSet ctx) \<le> taskSetSize ctx" "0 < taskSetSize ctx"
  using assms by (auto simp: db_ok_def db_wf_def)

lemma task_wf_not_freed [dest]: "task_wf t \<Longrightarrow> \<not> freed t"
  by (simp add: task_wf_def)

lemma db_lock_free [simp]: "lock ctx = Unlocked \<Longrightarrow> db_lock ctx = Ret (0, ctx\<lparr>lock := Locked\<rparr>)"
  by (simp add: db_lock_def)

lemma db_lock_held [simp]: "lock ctx = Locked \<Longrightarrow> db_lock ctx = Blocked"
  by (simp add: db_lock_def)

lemma db_unlock_held [simp]: "lock ctx = Locked \<Longrightarrow> db_unlock ctx = ctx\<lparr>lock := Unlocked\<rparr>"
  by (simp add: db_unlock_def)

lemma lock_broadcast [simp]: "lock (pthread_cond_broadcast ctx) = lock ctx"
  and lock_upd_task [simp]: "lock (upd_task i f ctx) = lock ctx"
  and taskSet_broadcast [simp]: "taskSet (pthread_cond_broadcast ctx) = taskSet ctx"
  and taskSet_upd_task [simp]: "taskSet (upd_task i f ctx) = (taskSet ctx)[i := f (taskSet ctx ! i)]"
  by (simp_all add: pthread_cond_broadcast_def upd_task_def)

lemma find_from_absent:
  "\<forall>t \<in> set ts. \<not> freed t \<Longrightarrow> n \<notin> name ` set ts \<Longrightarrow> find_from k n ts = Ret None"
  by (induction ts arbitrary: k) auto

lemma find_from_present:
  "\<forall>t \<in> set ts. \<not> freed t \<Longrightarrow> distinct (map name ts) \<Longrightarrow> i < length ts \<Longrightarrow>
   find_from k (name (ts ! i)) ts = Ret (Some (k + i))"
proof (induction ts arbitrary: k i)
  case (Cons t ts)
  then show ?case by (cases i) (auto simp: image_iff, metis nth_mem)
qed simp

lemma FindTask_present:
  "db_wf ctx \<Longrightarrow> i < length (taskSet ctx) \<Longrightarrow> name (taskSet ctx ! i) = n \<Longrightarrow> crinitFindTask ctx n = Ret (Some i)"
  using find_from_present [of "taskSet ctx" i 0] by (auto simp: crinitFindTask_def db_wf_def)

lemma FindTask_absent:
  "db_wf ctx \<Longrightarrow> n \<notin> name ` set (taskSet ctx) \<Longrightarrow> crinitFindTask ctx n = Ret None"
  using find_from_absent [of "taskSet ctx" n 0] by (auto simp: crinitFindTask_def db_wf_def)

lemma db_wf_lock [simp]: "db_wf (ctx\<lparr>lock := m\<rparr>) = db_wf ctx"
  and db_wf_changed [simp]: "db_wf (ctx\<lparr>changed := c\<rparr>) = db_wf ctx"
  and db_wf_inhibit [simp]: "db_wf (ctx\<lparr>spawnInhibit := b\<rparr>) = db_wf ctx"
  by (simp_all add: db_wf_def)

lemma task_map_lock [simp]: "task_map (ctx\<lparr>lock := m\<rparr>) = task_map ctx"
  and task_map_changed [simp]: "task_map (ctx\<lparr>changed := c\<rparr>) = task_map ctx"
  and task_map_inhibit [simp]: "task_map (ctx\<lparr>spawnInhibit := b\<rparr>) = task_map ctx"
  by (simp_all add: task_map_def)

lemma task_map_Some:
  assumes "db_wf ctx" "task_map ctx n = Some t"
  obtains i where "i < length (taskSet ctx)" "taskSet ctx ! i = t" "name t = n"
  using assms by (auto simp: task_map_def in_set_conv_nth dest!: map_of_SomeD)

lemma task_map_nth:
  assumes "db_wf ctx" "i < length (taskSet ctx)"
  shows "task_map ctx (name (taskSet ctx ! i)) = Some (taskSet ctx ! i)"
  unfolding task_map_def
  using assms by (intro map_of_is_SomeI) (auto simp: db_wf_def comp_def)

lemma task_map_None: "task_map ctx n = None \<longleftrightarrow> n \<notin> name ` set (taskSet ctx)"
  by (simp add: task_map_def map_of_eq_None_iff image_image)

text \<open>A call that leaves everything but the tasks as it was, and the lock released.\<close>

definition released :: "crinitTaskDB \<Rightarrow> crinitTaskDB \<Rightarrow> bool" where
  "released ctx ctx' \<longleftrightarrow> lock ctx' = Unlocked \<and> taskSetSize ctx' = taskSetSize ctx \<and>
     spawnFunc ctx' = spawnFunc ctx \<and> spawnInhibit ctx' = spawnInhibit ctx"

lemma task_update_ok:
  assumes "db_ok ctx" "i < length (taskSet ctx)" "name t' = name (taskSet ctx ! i)" "task_wf t'"
    "released ctx ctx'" "taskSet ctx' = (taskSet ctx)[i := t']"
  shows "db_ok ctx'" and "task_map ctx' = (task_map ctx)(name (taskSet ctx ! i) \<mapsto> t')"
proof -
  have m: "map name ((taskSet ctx)[i := t']) = map name (taskSet ctx)"
    using assms by (intro map_update_key) auto
  then show "db_ok ctx'"
    using assms set_update_subset_insert [of "taskSet ctx" i t']
    by (auto simp: db_ok_def db_wf_def released_def)
  show "task_map ctx' = (task_map ctx)(name (taskSet ctx ! i) \<mapsto> t')"
    using map_of_map_pair_update [of name "taskSet ctx" i t' "\<lambda>t. t"] assms
    by (simp add: task_map_def db_ok_def db_wf_def)
qed

lemma same_tasks_ok:
  "db_ok ctx \<Longrightarrow> released ctx ctx' \<Longrightarrow> taskSet ctx' = taskSet ctx \<Longrightarrow> db_ok ctx' \<and> task_map ctx' = task_map ctx"
  by (simp add: db_ok_def db_wf_def released_def task_map_def)

section \<open>Operations on one named task\<close>

locale task_update =
  fixes op :: "crinitTaskDB \<Rightarrow> string \<Rightarrow> (int \<times> crinitTaskDB) run"
    and upd :: "crinitTask \<Rightarrow> crinitTask"
    and pre :: "crinitTask \<Rightarrow> bool"
  assumes run_found: "db_ok ctx \<Longrightarrow> i < length (taskSet ctx) \<Longrightarrow> pre (taskSet ctx ! i) \<Longrightarrow>
      ret_sat (\<lambda>(r, ctx'). r = 0 \<and> released ctx ctx' \<and> taskSet ctx' = (taskSet ctx)[i := upd (taskSet ctx ! i)])
        (op ctx (name (taskSet ctx ! i)))"
    and run_absent: "db_ok ctx \<Longrightarrow> n \<notin> name ` set (taskSet ctx) \<Longrightarrow>
      ret_sat (\<lambda>(r, ctx'). r = -1 \<and> released ctx ctx' \<and> taskSet ctx' = taskSet ctx) (op ctx n)"
    and upd_name: "name (upd t) = name t"
    and upd_wf: "task_wf t \<Longrightarrow> task_wf (upd t)"
begin

lemma refines_update:
  assumes "db_ok ctx" "task_map ctx n = Some t" "pre t"
  shows "ret_sat (\<lambda>(r, ctx'). r = 0 \<and> db_ok ctx' \<and> task_map ctx' = (task_map ctx)(n \<mapsto> upd t) \<and>
           spawnInhibit ctx' = spawnInhibit ctx \<and> spawnFunc ctx' = spawnFunc ctx) (op ctx n)"
proof -
  have wf: "db_wf ctx" using assms(1) by (simp add: db_ok_def)
  obtain i where i: "i < length (taskSet ctx)" "taskSet ctx ! i = t" "name t = n"
    by (rule task_map_Some [OF wf assms(2)])
  have "task_wf (upd t)" using db_okD(3) [OF assms(1), of t] i by (auto intro: upd_wf)
  then have *: "released ctx ctx' \<Longrightarrow> taskSet ctx' = (taskSet ctx)[i := upd t] \<Longrightarrow>
      db_ok ctx' \<and> task_map ctx' = (task_map ctx)(n \<mapsto> upd t)" for ctx'
    using task_update_ok [OF assms(1) i(1), of "upd t" ctx'] i by (auto simp: upd_name)
  show ?thesis
    using run_found [OF assms(1) i(1)] assms(3) i *
    by (auto elim!: ret_sat_mono simp: released_def)
qed

lemma unknown_task:
  assumes "db_ok ctx" "task_map ctx n = None"
  shows "ret_sat (\<lambda>(r, ctx'). r = -1 \<and> db_ok ctx' \<and> task_map ctx' = task_map ctx \<and>
           spawnInhibit ctx' = spawnInhibit ctx \<and> spawnFunc ctx' = spawnFunc ctx) (op ctx n)"
  using run_absent [OF assms(1), of n] assms
  by (auto elim!: ret_sat_mono simp: task_map_None released_def dest: same_tasks_ok [unfolded released_def])

lemma preserves_ok:
  assumes "db_ok ctx" "\<And>t. task_map ctx n = Some t \<Longrightarrow> pre t"
  shows "ret_sat (\<lambda>(r, ctx'). db_ok ctx') (op ctx n)"
proof (cases "task_map ctx n")
  case None
  then show ?thesis by (auto intro: ret_sat_mono [OF unknown_task [OF assms(1)]])
next
  case (Some t)
  then show ?thesis using assms(2) by (auto intro: ret_sat_mono [OF refines_update [OF assms(1) Some]])
qed

end

text \<open>What one change of the state does to a task, where the failure count has room.\<close>

definition with_state :: "timespec \<Rightarrow> crinitTaskState \<Rightarrow> crinitTask \<Rightarrow> crinitTask" where
  "with_state ts s t =
     (let s' = s AND NOT CRINIT_TASK_STATE_NOTIFIED in
      if s' = CRINIT_TASK_STATE_FAILED then t\<lparr>state := s, failCount := failCount t + 1, endTime := ts\<rparr>
      else if s' = CRINIT_TASK_STATE_DONE then t\<lparr>state := s, failCount := 0, endTime := ts\<rparr>
      else if s' = CRINIT_TASK_STATE_RUNNING then t\<lparr>state := s, startTime := ts\<rparr>
      else t\<lparr>state := s\<rparr>)"

definition stamp :: "timespec option \<Rightarrow> crinitTaskState \<Rightarrow> timespec" where
  "stamp now s =
     (if s AND (CRINIT_TASK_STATE_RUNNING OR CRINIT_TASK_STATE_DONE OR CRINIT_TASK_STATE_FAILED) \<noteq> 0
      then (case now of None \<Rightarrow> zero_time | Some ts \<Rightarrow> ts) else zero_time)"

lemma set_state_with_state: "failCount t < INT_MAX \<Longrightarrow> set_state ts s t = Ret (with_state ts s t)"
  by (simp add: set_state_def with_state_def Let_def)

lemma task_wf_updates [simp]:
  "task_wf (t\<lparr>state := s\<rparr>) = task_wf t" "task_wf (t\<lparr>pid := p\<rparr>) = task_wf t"
  "task_wf (t\<lparr>failCount := k\<rparr>) = task_wf t" "task_wf (t\<lparr>endTime := ts\<rparr>) = task_wf t"
  "task_wf (t\<lparr>startTime := ts\<rparr>) = task_wf t" "task_wf (t\<lparr>inhibitRespawn := b\<rparr>) = task_wf t"
  "task_wf (t\<lparr>deps := ds\<rparr>) = task_wf t" "task_wf (t\<lparr>triggered := b\<rparr>) = task_wf t"
  by (simp_all add: task_wf_def)

lemma task_wf_with_state [simp]: "task_wf (with_state ts s t) = task_wf t" "name (with_state ts s t) = name t"
  by (simp_all add: with_state_def Let_def task_wf_def)

lemmas named_task_simps = FindTask_present FindTask_absent db_ok_def pthread_cond_broadcast_def upd_task_def
  released_def

interpretation setPID: task_update "\<lambda>ctx. crinitTaskDBSetTaskPID ctx p" "\<lambda>t. t\<lparr>pid := p\<rparr>" "\<lambda>_. True" for p
  by unfold_locales (auto simp: crinitTaskDBSetTaskPID_def named_task_simps)

interpretation setRespawnInhibit: task_update "\<lambda>ctx. crinitTaskDBSetTaskRespawnInhibit ctx b"
    "\<lambda>t. t\<lparr>inhibitRespawn := b\<rparr>" "\<lambda>_. True" for b
  by unfold_locales (auto simp: crinitTaskDBSetTaskRespawnInhibit_def named_task_simps)

interpretation rearm: task_update crinitTaskRearmTrigger
    "\<lambda>t. t\<lparr>triggered := trig t = [], state := CRINIT_TASK_STATE_LOADED\<rparr>" "\<lambda>_. True"
  by unfold_locales (auto simp: crinitTaskRearmTrigger_def named_task_simps)

interpretation setState: task_update "\<lambda>ctx. crinitTaskDBSetTaskState now ctx s" "with_state (stamp now s) s"
    "\<lambda>t. failCount t < INT_MAX" for now s
  by unfold_locales
     (auto simp: crinitTaskDBSetTaskState_def stamp_def set_state_with_state Let_def named_task_simps)

interpretation addDep: task_update "\<lambda>ctx. crinitTaskDBAddDepToTask True True ctx d"
    "\<lambda>t. if d \<in> set (deps t) then t else t\<lparr>deps := deps t @ [d]\<rparr>" "\<lambda>_. True" for d
  by unfold_locales (auto simp: crinitTaskDBAddDepToTask_def named_task_simps)

section \<open>The scheduling step\<close>

lemma spawn_loop_all:
  assumes "\<forall>t \<in> set ts. \<not> freed t" "\<forall>t \<in> set ts. f (t\<lparr>state := CRINIT_TASK_STATE_STARTING\<rparr>) mode \<noteq> -1"
  shows "spawn_loop f mode ts =
    Ret (0, map (\<lambda>t. if crinitTaskIsReady t then t\<lparr>state := CRINIT_TASK_STATE_STARTING\<rparr> else t) ts,
         map (\<lambda>t. t\<lparr>state := CRINIT_TASK_STATE_STARTING\<rparr>) (filter crinitTaskIsReady ts))"
  using assms by (induction ts) (auto simp: Let_def)

lemma starting_not_ready: "\<not> crinitTaskIsReady (t\<lparr>state := CRINIT_TASK_STATE_STARTING\<rparr>)"
  by (simp add: crinitTaskIsReady_def)

text \<open>The tasks after a scheduling step in which every dispatch succeeds.\<close>

definition started :: "crinitTask list \<Rightarrow> crinitTask list" where
  "started ts = map (\<lambda>t. if crinitTaskIsReady t then t\<lparr>state := CRINIT_TASK_STATE_STARTING\<rparr> else t) ts"

lemma started_not_ready: "\<forall>t \<in> set (started ts). \<not> crinitTaskIsReady t"
  using starting_not_ready by (auto simp: started_def)

lemma started_idem: "filter crinitTaskIsReady (started ts) = []" "started (started ts) = started ts"
  using started_not_ready [of ts] by (auto simp: filter_empty_conv started_def [of "started ts"] intro: map_idI)

lemma started_db_ok:
  assumes "db_ok ctx"
  shows "db_ok (ctx\<lparr>taskSet := started (taskSet ctx)\<rparr>)"
proof -
  have "map name (started ts) = map name ts" for ts by (simp add: started_def)
  moreover have "\<forall>t \<in> set (started (taskSet ctx)). task_wf t" using db_okD(3) [OF assms] by (auto simp: started_def)
  moreover have "length (started ts) = length ts" for ts by (simp add: started_def)
  ultimately show ?thesis using assms by (simp add: db_ok_def db_wf_def)
qed

lemma SpawnReady_all:
  assumes "db_ok ctx" "\<not> spawnInhibit ctx" "spawnFunc ctx = Some f" "\<forall>t m. f t m \<noteq> -1"
  shows "crinitTaskDBSpawnReady ctx mode = Ret (0, ctx\<lparr>taskSet := started (taskSet ctx)\<rparr>,
           map (\<lambda>t. t\<lparr>state := CRINIT_TASK_STATE_STARTING\<rparr>) (filter crinitTaskIsReady (taskSet ctx)))"
proof -
  have "\<forall>t \<in> set (taskSet ctx). \<not> freed t" "lock ctx = Unlocked" using assms(1) by auto
  then show ?thesis
    using assms spawn_loop_all [of "taskSet ctx" f mode] by (simp add: crinitTaskDBSpawnReady_def started_def)
qed

text \<open>Whatever \<open>spawnFunc\<close> returns, the loop keeps names and well-formedness.\<close>

lemma spawn_loop_wf:
  assumes "\<forall>t \<in> set ts. task_wf t"
  shows "ret_sat (\<lambda>(r, ts', sp). map name ts' = map name ts \<and> (\<forall>t \<in> set ts'. task_wf t) \<and>
           (\<forall>t \<in> set sp. \<exists>u \<in> set ts. crinitTaskIsReady u \<and> t = u\<lparr>state := CRINIT_TASK_STATE_STARTING\<rparr>))
         (spawn_loop f mode ts)"
  using assms
proof (induction ts)
  case (Cons t ts)
  then obtain r ts' sp where "spawn_loop f mode ts = Ret (r, ts', sp)" "map name ts' = map name ts"
    "\<forall>t \<in> set ts'. task_wf t"
    "\<forall>t \<in> set sp. \<exists>u \<in> set ts. crinitTaskIsReady u \<and> t = u\<lparr>state := CRINIT_TASK_STATE_STARTING\<rparr>"
    by (auto elim!: ret_satE)
  then show ?case using Cons.prems by (auto simp: Let_def dest: task_wf_not_freed)
qed simp

section \<open>Removal of dependencies\<close>

lemma remove_dep_loop_step:
  "j < length ds \<Longrightarrow> ds ! j \<noteq> dep \<Longrightarrow> remove_dep_loop dep j ds pool = remove_dep_loop dep (Suc j) ds pool"
  by (subst remove_dep_loop.simps) simp

lemma remove_dep_loop_end: "length ds \<le> j \<Longrightarrow> remove_dep_loop dep j ds pool = Ret (ds, pool)"
  by (subst remove_dep_loop.simps) simp

lemma remove_dep_loop_skip:
  "k \<le> length ds \<Longrightarrow> j \<le> k \<Longrightarrow> dep \<notin> set (drop j (take k ds)) \<Longrightarrow>
   remove_dep_loop dep j ds pool = remove_dep_loop dep k ds pool"
proof (induction "k - j" arbitrary: j)
  case (Suc d)
  then have j: "j < k" by simp
  then have d: "drop j (take k ds) = ds ! j # drop (Suc j) (take k ds)"
    using Suc.prems by (subst Cons_nth_drop_Suc [symmetric]) auto
  then have "remove_dep_loop dep j ds pool = remove_dep_loop dep (Suc j) ds pool"
    using Suc.prems j by (intro remove_dep_loop_step) auto
  also have "\<dots> = remove_dep_loop dep k ds pool" using Suc j d by (intro Suc.hyps) auto
  finally show ?case .
qed simp

lemma remove_dep_loop_absent: "dep \<notin> set (drop j ds) \<Longrightarrow> remove_dep_loop dep j ds pool = Ret (ds, pool)"
  using remove_dep_loop_skip [of "length ds" ds j dep pool] remove_dep_loop_end [of ds]
  by (cases "j \<le> length ds") auto

definition unref_timer :: "crinitTaskDep \<Rightarrow> crinitTimerDB \<Rightarrow> crinitTimerDB run" where
  "unref_timer dep pool =
     (if depName dep = ''@timer'' then crinitTimerDBRemoveTimer pool (event dep) else Ret pool)"

lemma remove_dep_loop_found:
  assumes "distinct ds" "i < length ds" "ds ! i = dep"
  shows "remove_dep_loop dep 0 ds pool =
         bind_run (unref_timer dep pool) (\<lambda>pool. Ret (swap_remove i ds, pool))"
proof -
  have "dep \<notin> set (take i ds)"
    using assms by (metis distinct_take id_take_nth_drop not_distinct_conv_prefix)
  then have "remove_dep_loop dep 0 ds pool = remove_dep_loop dep i ds pool"
    using assms(2) by (intro remove_dep_loop_skip) auto
  moreover have "dep \<notin> set (swap_remove i ds)"
    using mset_swap_remove [OF assms(2)] assms
    by (metis distinct.simps(2) mset.simps(2) mset_eq_imp_distinct_iff)
  then have "remove_dep_loop dep (Suc i) (swap_remove i ds) = (\<lambda>p. Ret (swap_remove i ds, p))"
    by (intro ext remove_dep_loop_absent) (auto dest: in_set_dropD)
  ultimately show ?thesis
    using assms(2,3) by (subst (asm) (2) remove_dep_loop.simps) (simp add: unref_timer_def)
qed

lemma swap_remove_distinct:
  assumes "distinct ds" "i < length ds"
  shows "distinct (swap_remove i ds)" "set (swap_remove i ds) = set ds - {ds ! i}"
proof -
  have "mset ds = mset (ds ! i # swap_remove i ds)" using mset_swap_remove [OF assms(2)] by simp
  then have "distinct (ds ! i # swap_remove i ds)" "set ds = set (ds ! i # swap_remove i ds)"
    using assms(1) by (metis mset_eq_imp_distinct_iff, metis mset_eq_setD)
  then show "distinct (swap_remove i ds)" "set (swap_remove i ds) = set ds - {ds ! i}" by auto
qed

text \<open>Without duplicates, exactly the given dependency disappears.\<close>

lemma unref_timer_ok: "pool_ok pool \<Longrightarrow> ret_sat pool_ok (unref_timer dep pool)"
  by (auto simp: unref_timer_def intro: ret_sat_mono [OF RemoveTimer_ok])

lemma RemoveDep_ok:
  assumes "\<not> freed t" "distinct (deps t)" "pool_ok pool"
  shows "ret_sat (\<lambda>(t', pool'). pool_ok pool' \<and> distinct (deps t') \<and> set (deps t') = set (deps t) - {dep} \<and>
           t' = t\<lparr>deps := deps t', triggered := triggered t \<or> dep \<in> set (trig t)\<rparr> \<and>
           (depName dep \<noteq> ''@timer'' \<longrightarrow> pool' = pool))
         (crinitTaskDBRemoveDepFromTaskStruct t dep pool)"
proof (cases "dep \<in> set (deps t)")
  case False
  then have "remove_dep_loop dep 0 (deps t) pool = Ret (deps t, pool)"
    by (intro remove_dep_loop_absent) simp
  then show ?thesis using assms False by (simp add: crinitTaskDBRemoveDepFromTaskStruct_def)
next
  case True
  then obtain i where i: "i < length (deps t)" "deps t ! i = dep" by (auto simp: in_set_conv_nth)
  obtain pool' where p: "unref_timer dep pool = Ret pool'" "pool_ok pool'"
    using unref_timer_ok [OF assms(3), of dep] by (auto elim!: ret_satE)
  have "remove_dep_loop dep 0 (deps t) pool = Ret (swap_remove i (deps t), pool')"
    using remove_dep_loop_found [OF assms(2) i] p by simp
  then show ?thesis
    using assms p swap_remove_distinct [OF assms(2) i(1)] i(2)
    by (auto simp: crinitTaskDBRemoveDepFromTaskStruct_def unref_timer_def split: if_splits)
qed

definition fulfilled :: "crinitTaskDep \<Rightarrow> crinitTask \<Rightarrow> crinitTask \<Rightarrow> bool" where
  "fulfilled dep t t' \<longleftrightarrow> distinct (deps t') \<and> set (deps t') = set (deps t) - {dep} \<and>
     t' = t\<lparr>deps := deps t', triggered := triggered t \<or> dep \<in> set (trig t)\<rparr>"

lemma fulfilled_frame:
  assumes "fulfilled dep t t'"
  shows "name t' = name t" "task_wf t' = task_wf t" "state t' = state t" "opts t' = opts t"
    "inhibitRespawn t' = inhibitRespawn t" "maxRetries t' = maxRetries t" "failCount t' = failCount t"
    "triggered t' = (triggered t \<or> dep \<in> set (trig t))"
proof -
  have e: "t' = t\<lparr>deps := deps t', triggered := triggered t \<or> dep \<in> set (trig t)\<rparr>"
    using assms by (simp add: fulfilled_def)
  show "name t' = name t" "task_wf t' = task_wf t" "state t' = state t" "opts t' = opts t"
    "inhibitRespawn t' = inhibitRespawn t" "maxRetries t' = maxRetries t" "failCount t' = failCount t"
    "triggered t' = (triggered t \<or> dep \<in> set (trig t))"
    by (subst e, simp)+
qed

lemma fulfilled_deps:
  assumes "fulfilled dep t t'"
  shows "distinct (deps t')" "set (deps t') = set (deps t) - {dep}"
  using assms by (simp_all add: fulfilled_def)

definition world_ok :: "world \<Rightarrow> bool" where
  "world_ok w \<longleftrightarrow> db_ok (taskDB w) \<and> pool_ok (timerPool w) \<and> optLock (globOpts w) = Unlocked \<and>
     (\<forall>t \<in> set (taskSet (taskDB w)). distinct (deps t))"

text \<open>Nothing but the tasks, the timers and the syslog flag has changed.\<close>

definition same_env :: "world \<Rightarrow> world \<Rightarrow> bool" where
  "same_env w w' \<longleftrightarrow> globOpts w' = globOpts w \<and> inhibitWait w' = inhibitWait w \<and>
     waitInhibitLock w' = waitInhibitLock w \<and> trace w' = trace w \<and>
     spawnFunc (taskDB w') = spawnFunc (taskDB w) \<and> spawnInhibit (taskDB w') = spawnInhibit (taskDB w)"

lemma fulfill_all_ok:
  assumes "\<forall>t \<in> set ts. \<not> freed t \<and> distinct (deps t)" "pool_ok pool"
  shows "ret_sat (\<lambda>(ts', pool'). pool_ok pool' \<and> list_all2 (fulfilled dep) ts ts') (fulfill_all dep ts pool)"
  using assms
proof (induction ts arbitrary: pool)
  case (Cons t ts)
  obtain t' p' where t: "crinitTaskDBRemoveDepFromTaskStruct t dep pool = Ret (t', p')" "pool_ok p'" "fulfilled dep t t'"
    using RemoveDep_ok [of t pool dep] Cons.prems by (auto elim!: ret_satE simp: fulfilled_def)
  then obtain ts' p'' where "fulfill_all dep ts p' = Ret (ts', p'')" "pool_ok p''" "list_all2 (fulfilled dep) ts ts'"
    using Cons.IH [of p'] Cons.prems by (auto elim!: ret_satE)
  then show ?case using t by simp
qed simp

lemma list_all2_fulfilled_ok:
  assumes "list_all2 (fulfilled dep) ts ts'"
  shows "map name ts' = map name ts" "length ts' = length ts"
    "(\<forall>t \<in> set ts. task_wf t) \<Longrightarrow> (\<forall>t \<in> set ts'. task_wf t)" "\<forall>t \<in> set ts'. distinct (deps t)"
  using assms by (induction rule: list_all2_induct) (auto simp: fulfilled_frame fulfilled_deps)

lemma FulfillDep_ok:
  assumes "world_ok w"
  shows "ret_sat (\<lambda>(r, w'). r = 0 \<and> world_ok w' \<and>
           list_all2 (fulfilled dep) (taskSet (taskDB w)) (taskSet (taskDB w')) \<and>
           changed (taskDB w') = Suc (changed (taskDB w)) \<and> same_env w w')
         (crinitTaskDBFulfillDep w dep None)"
proof -
  have ok: "db_ok (taskDB w)" "pool_ok (timerPool w)" "optLock (globOpts w) = Unlocked"
    "\<forall>t \<in> set (taskSet (taskDB w)). \<not> freed t \<and> distinct (deps t)"
    using assms by (auto simp: world_ok_def dest: db_okD)
  obtain ts' p' where f: "fulfill_all dep (taskSet (taskDB w)) (timerPool w) = Ret (ts', p')" "pool_ok p'"
    "list_all2 (fulfilled dep) (taskSet (taskDB w)) ts'"
    using fulfill_all_ok [OF ok(4,2), of dep] by (auto elim!: ret_satE)
  then show ?thesis
    using ok list_all2_fulfilled_ok [OF f(3)]
    by (auto simp: crinitTaskDBFulfillDep_def world_ok_def db_ok_def db_wf_def pthread_cond_broadcast_def same_env_def)
qed

section \<open>Insertion\<close>

lemma DestroyTask_wf:
  assumes "task_wf t"
  obtains old where "crinitDestroyTask t = Ret old" "name old = name t"
proof -
  have "\<exists>es'. crinitEnvSetDestroy es = Ret (0, es')" if "env_wf es" for es
    using that by (rule env_wfE) (auto simp: crinitEnvSetDestroy_def env_scan_closed)
  then obtain e1 e2 where "crinitEnvSetDestroy (taskEnv t) = Ret (0, e1)" "crinitEnvSetDestroy (elosFilters t) = Ret (0, e2)"
    using assms unfolding task_wf_def by metis
  then show thesis
    using assms
    by (intro that [of "t\<lparr>taskEnv := e1, elosFilters := e2, cgroup := None, freed := True\<rparr>"])
       (auto simp: crinitDestroyTask_def task_wf_def)
qed

lemma Insert_new:
  assumes "db_ok (taskDB w)" "optLock (globOpts w) = Unlocked" "task_wf t" "task_map (taskDB w) (name t) = None"
  shows "crinitTaskDBInsert True NoFault w t ov = Ret (0, t, w\<lparr>taskDB := (taskDB w)
     \<lparr>taskSet := taskSet (taskDB w) @ [t],
      taskSetSize := (if length (taskSet (taskDB w)) = taskSetSize (taskDB w) then 2 else 1) * taskSetSize (taskDB w),
      changed := Suc (changed (taskDB w))\<rparr>\<rparr>)"
proof -
  let ?db = "taskDB w"
  have wf: "db_wf ?db" and l: "lock ?db = Unlocked" using assms(1) by (auto simp: db_ok_def)
  have f: "crinitFindTask (?db\<lparr>lock := Locked\<rparr>) (name t) = Ret None"
    using assms(4) wf by (intro FindTask_absent) (auto simp: task_map_None)
  obtain s where h: "crinitFeatureHook (globOpts w) (sysLog w) None CRINIT_HOOK_TASK_ADDED = Ret (0, globOpts w, s)" "s = sysLog w"
    by (simp add: crinitFeatureHook_def)
  show ?thesis
    using l h by (auto simp: crinitTaskDBInsert_def insert_slot_def f Let_def TaskCopy_same [OF assms(3)]
        upd_task_def pthread_cond_broadcast_def nth_append)
qed

lemma Insert_existing:
  assumes "db_ok (taskDB w)" "i < length (taskSet (taskDB w))" "name (taskSet (taskDB w) ! i) = name t" "task_wf t"
  shows "crinitTaskDBInsert g f w t False = Ret (-1, t, w)"
    and "crinitTaskDBInsert g NoFault w t True = Ret (0, t, w\<lparr>taskDB := (taskDB w)
      \<lparr>taskSet := (taskSet (taskDB w))[i := t], changed := Suc (changed (taskDB w))\<rparr>\<rparr>)"
proof -
  let ?db = "taskDB w"
  have wf: "db_wf ?db" and l: "lock ?db = Unlocked" using assms(1) by (auto simp: db_ok_def)
  have f: "crinitFindTask (?db\<lparr>lock := Locked\<rparr>) (name t) = Ret (Some i)"
    using assms wf by (intro FindTask_present) auto
  show "crinitTaskDBInsert g f w t False = Ret (-1, t, w)"
    using l f by (simp add: crinitTaskDBInsert_def insert_slot_def)
  obtain old where o: "crinitDestroyTask (taskSet ?db ! i) = Ret old"
    using DestroyTask_wf db_okD(3) [OF assms(1)] assms(2) by (metis nth_mem)
  have h: "crinitFeatureHook (globOpts w) (sysLog w) None CRINIT_HOOK_TASK_ADDED = Ret (0, globOpts w, sysLog w)"
    by (simp add: crinitFeatureHook_def)
  show "crinitTaskDBInsert g NoFault w t True = Ret (0, t, w\<lparr>taskDB := (taskDB w)
      \<lparr>taskSet := (taskSet (taskDB w))[i := t], changed := Suc (changed (taskDB w))\<rparr>\<rparr>)"
    using l o h by (simp add: crinitTaskDBInsert_def insert_slot_def f Let_def TaskCopy_same [OF assms(4)]
        upd_task_def pthread_cond_broadcast_def)
qed

lemma Insert_ok:
  assumes "world_ok w" "task_wf t" "distinct (deps t)"
  shows "ret_sat (\<lambda>(r, t', w'). world_ok w' \<and> t' = t \<and>
           (if task_map (taskDB w) (name t) = None \<or> ov
            then r = 0 \<and> task_map (taskDB w') = (task_map (taskDB w))(name t \<mapsto> t)
            else r = -1 \<and> w' = w))
         (crinitTaskDBInsert True NoFault w t ov)"
proof -
  let ?db = "taskDB w"
  have ok: "db_ok ?db" "pool_ok (timerPool w)" "optLock (globOpts w) = Unlocked"
    "\<forall>t \<in> set (taskSet ?db). distinct (deps t)" using assms(1) by (auto simp: world_ok_def)
  show ?thesis
  proof (cases "task_map ?db (name t)")
    case None
    define n where "n = (if length (taskSet ?db) = taskSetSize ?db then 2 else 1) * taskSetSize ?db"
    let ?db' = "?db\<lparr>taskSet := taskSet ?db @ [t], taskSetSize := n, changed := Suc (changed ?db)\<rparr>"
    have "task_map ?db' = (task_map ?db)(name t \<mapsto> t)"
      using None map_of_map_pair_snoc [of name t "taskSet ?db" "\<lambda>t. t"]
      by (simp add: task_map_def map_of_eq_None_iff image_image)
    moreover have "db_ok ?db'"
      using ok(1) assms(2) None by (auto simp: db_ok_def db_wf_def task_map_None n_def)
    moreover have "\<forall>u \<in> set (taskSet ?db'). distinct (deps u)" using ok(4) assms(3) by simp
    ultimately have "world_ok (w\<lparr>taskDB := ?db'\<rparr>) \<and> task_map ?db' = (task_map ?db)(name t \<mapsto> t)"
      using ok by (simp add: world_ok_def)
    moreover have "crinitTaskDBInsert True NoFault w t ov = Ret (0, t, w\<lparr>taskDB := ?db'\<rparr>)"
      unfolding n_def by (rule Insert_new [OF ok(1,3) assms(2) None])
    ultimately show ?thesis using None by simp
  next
    case (Some old)
    obtain i where i: "i < length (taskSet ?db)" "taskSet ?db ! i = old" "name old = name t"
      using task_map_Some [OF _ Some] ok(1) by (auto simp: db_ok_def)
    have n: "name (taskSet ?db ! i) = name t" using i by simp
    let ?db' = "?db\<lparr>taskSet := (taskSet ?db)[i := t], changed := Suc (changed ?db)\<rparr>"
    have "released ?db ?db'" using ok(1) by (simp add: released_def db_ok_def)
    then have "db_ok ?db'" "task_map ?db' = (task_map ?db)(name t \<mapsto> t)"
      using task_update_ok [OF ok(1) i(1) n [symmetric] assms(2), of ?db'] n by simp_all
    moreover have "\<forall>t' \<in> set (taskSet ?db'). distinct (deps t')"
      using ok(4) assms(3) set_update_subset_insert [of "taskSet ?db" i t] by auto
    ultimately have "world_ok (w\<lparr>taskDB := ?db'\<rparr>) \<and> task_map ?db' = (task_map ?db)(name t \<mapsto> t)"
      using ok by (simp add: world_ok_def)
    then show ?thesis
      using Some assms(1) Insert_existing [OF ok(1) i(1) n assms(2)] by (cases ov) simp_all
  qed
qed

end
