(* ===== verification/Samples.thy ===== *)
theory Samples
  imports TaskDBProps
begin

text \<open>
  Small concrete states on which the properties of the other theories are instantiated: a task
  without commands or dependencies, and a daemon whose database holds given tasks.
\<close>

definition sampleEnv :: crinitEnvSet where
  "sampleEnv = \<lparr>envp = Some [Some ''A=1'', None, None], allocSz = 3, allocInc = 2\<rparr>"

definition sampleTask :: "string \<Rightarrow> crinitTask" where
  "sampleTask n =
     \<lparr>name = n, cmds = [], stopCmds = [], taskEnv = sampleEnv, elosFilters = sampleEnv, deps = [],
      trig = [], triggered = True, prv = [], opts = 0, state = CRINIT_TASK_STATE_LOADED, pid = -1,
      redirs = [], maxRetries = -1, failCount = 0, inhibitRespawn = False, createTime = zero_time,
      startTime = zero_time, endTime = zero_time, user = 0, group = 0, supGroups = [],
      username = None, groupname = None, capabilitiesSet = 0, capabilitiesClear = 0, cgroup = None,
      freed = False\<rparr>"

definition sampleDB :: "crinitTask list \<Rightarrow> crinitTaskDB" where
  "sampleDB ts = \<lparr>taskSet = ts, taskSetSize = 2, spawnFunc = Some (\<lambda>t mode. 0), spawnInhibit = False,
     lock = Unlocked, changed = 0\<rparr>"

definition sampleWorld :: "crinitTask list \<Rightarrow> world" where
  "sampleWorld ts = \<lparr>taskDB = sampleDB ts, timerPool = \<lparr>cap = 256, slots = [], poolLock = Unlocked\<rparr>,
     globOpts = crinitGlobOpts, sysLog = False, inhibitWait = False, waitInhibitLock = Unlocked, trace = []\<rparr>"

definition sampleTimer :: "string \<Rightarrow> nat \<Rightarrow> timerSlot" where
  "sampleTimer n k =
     \<lparr>slotTimer = \<lparr>timerDef = crinitTimerSetDefault, timerName = n, refs = k, it_value = zero_time\<rparr>,
      slotFd = 7, slotRevents = True, slotArmed = None\<rparr>"

definition samplePool :: "timerSlot list \<Rightarrow> crinitTimerDB" where
  "samplePool ss = \<lparr>cap = 256, slots = ss, poolLock = Unlocked\<rparr>"

lemma sampleEnv_wf: "env_wf sampleEnv" "env_inv sampleEnv"
  by code_simp+

lemma sampleTask_wf [simp]:
  "task_wf (sampleTask n)" "name (sampleTask n) = n" "deps (sampleTask n) = []" "triggered (sampleTask n)"
  "trig (sampleTask n) = []" "state (sampleTask n) = 0" "opts (sampleTask n) = 0" "failCount (sampleTask n) = 0"
  "prv (sampleTask n) = []" "\<not> freed (sampleTask n)" "inhibitRespawn (sampleTask n) = False"
  "pid (sampleTask n) = -1" "cmds (sampleTask n) = []" "stopCmds (sampleTask n) = []" "maxRetries (sampleTask n) = -1"
  using sampleEnv_wf by (auto simp: task_wf_def sampleTask_def)

lemma sampleDB_sel [simp]:
  "taskSet (sampleDB ts) = ts" "taskSetSize (sampleDB ts) = 2" "spawnFunc (sampleDB ts) = Some (\<lambda>t mode. 0)"
  "spawnInhibit (sampleDB ts) = False" "lock (sampleDB ts) = Unlocked" "changed (sampleDB ts) = 0"
  by (simp_all add: sampleDB_def)

lemma sampleWorld_sel [simp]:
  "taskDB (sampleWorld ts) = sampleDB ts" "pool_ok (timerPool (sampleWorld ts))"
  "optLock (globOpts (sampleWorld ts)) = Unlocked"
  "slots (timerPool (sampleWorld ts)) = []" "inhibitWait (sampleWorld ts) = False"
  "waitInhibitLock (sampleWorld ts) = Unlocked" "trace (sampleWorld ts) = []"
  by (simp_all add: sampleWorld_def pool_ok_def crinitGlobOpts_def Let_def)

lemma sampleDB_ok [simp]:
  "length ts \<le> 2 \<Longrightarrow> distinct (map name ts) \<Longrightarrow> \<forall>t \<in> set ts. task_wf t \<Longrightarrow> db_ok (sampleDB ts)"
  by (simp add: db_ok_def db_wf_def)

lemma sampleWorld_ok [simp]:
  "length ts \<le> 2 \<Longrightarrow> distinct (map name ts) \<Longrightarrow> \<forall>t \<in> set ts. task_wf t \<and> distinct (deps t) \<Longrightarrow>
   world_ok (sampleWorld ts)"
  by (simp add: world_ok_def)

end
