(* ===== verification/TaskDBSpec.thy ===== *)
theory TaskDBSpec
  imports Samples
begin

unbundle bit_operations_syntax

text \<open>
  The properties of the environment sets, the tasks, the timer pool and the task database.
\<close>

section \<open>Environment sets\<close>

text \<open>
  After a successful \<open>crinitEnvSetSet\<close> of a name without \<open>=\<close>, \<open>crinitEnvSetGet\<close> returns the
  new value for that name and what it returned before for every other one, whether or not the
  array had to grow.
\<close>

lemma EnvSet_get_after_set:
  assumes "env_inv es" "CHR ''='' \<notin> set n" "CHR ''='' \<notin> set m"
  shows "bind_run (crinitEnvSetSet True True True es n v) (\<lambda>(r, es'). crinitEnvSetGet es' m) =
         (if n = m then Ret (Some v) else crinitEnvSetGet es m)"
  using assms by (rule es.get_after_set)

text \<open>
  C26: storing a list of variables one after the other makes the set stand for the old map
  overridden by the list, later entries winning, and keeps it closed by a null pointer.
\<close>

theorem EnvSet_set_all:
  assumes "env_inv es" "\<forall>(k, v) \<in> set kvs. CHR ''='' \<notin> set k"
  shows "ret_sat (\<lambda>es'. env_inv es' \<and> env_map es' = env_map es ++ map_of (rev kvs))
           (set_all (crinitEnvSetSet True True True) es kvs)"
  using assms by (rule es.set_all_abs)

theorem EnvSet_set_all_witness:
  "ret_sat (\<lambda>es'. env_inv es' \<and> env_map es' = env_map sampleEnv ++ map_of (rev [(''A'', ''2''), (''B'', ''x''), (''A'', ''3'')]))
     (set_all (crinitEnvSetSet True True True) sampleEnv [(''A'', ''2''), (''B'', ''x''), (''A'', ''3'')])"
  by (rule EnvSet_set_all) (simp_all add: sampleEnv_wf)

text \<open>
  Setting a variable whose name contains \<open>=\<close> in an initialised set is undefined: the failed
  search is reported but not acted upon, and the value is formatted into index -1.
\<close>

lemma EnvSet_Set_bad_name:
  assumes "crinitEnvSetValid es" "CHR ''='' \<in> set n"
  shows "crinitEnvSetSet g m f es n v = Undef"
  using assms by (auto simp: crinitEnvSetSet_def crinitEnvSetSearch_def strchr_None_iff Let_def)

section \<open>Tasks\<close>

text \<open>
  A copy of a well-formed task is equal to it and leaves it unchanged; a copy that fails
  anywhere leaves a structure whose members have been released.
\<close>

lemma TaskCopy_exact:
  assumes "task_wf t"
  shows "crinitTaskCopy NoFault t = Ret (0, t, t) \<and>
         (crinitTaskCopy f t = Ret (0, t, t) \<or> (\<exists>t'. crinitTaskCopy f t = Ret (-1, t\<lparr>freed := True\<rparr>, t')))"
  using TaskCopy_same [OF assms] TaskCopy_wf_cases [OF assms] by blast

text \<open>
  If the copy inside \<open>crinitTaskDup\<close> fails after the name was duplicated, the clean-up
  releases the members of the copy a second time.
\<close>

lemma TaskDup_double_free:
  assumes "task_wf t" "f \<notin> {NoFault, AtName}" "f = AtCmds \<longrightarrow> cmds t \<noteq> []" "f = AtStopCmds \<longrightarrow> stopCmds t \<noteq> []"
  shows "crinitTaskDup True f t = Undef"
proof -
  have "\<exists>t'. crinitTaskCopy f t = Ret (-1, t\<lparr>freed := True\<rparr>, t')"
    using assms
    by (cases f) (auto simp: crinitTaskCopy_def crinitCopyCommandBlock_def copy_fail_def task_wf_def
        copy_cmds_same EnvSetDup_same EnvSetDup_calloc_fails split: option.splits)
  then show ?thesis using assms(2) by (auto simp: crinitTaskDup_def)
qed

section \<open>The timer pool\<close>

text \<open>
  \<open>crinitTimerDBRemoveTimer\<close> takes one reference from the named timer, removes it with the
  last one, and leaves every other timer and the lock as they were.
\<close>

lemma RemoveTimer_unrefs:
  assumes "pool_ok db"
  shows "ret_sat (\<lambda>db'. pool_ok db' \<and> cap db' = cap db \<and>
           pool_refs db' = (pool_refs db)(n := unref (pool_refs db n))) (crinitTimerDBRemoveTimer db n)"
  using assms by (rule RemoveTimer_ok)

section \<open>The task database as a map\<close>

text \<open>
  C2: \<open>crinitTaskDBInsert\<close> on a consistent database adds the task to the map of tasks or, when
  asked to overwrite, replaces the one of the same name; without permission to overwrite it
  reports an error and changes nothing. The database stays consistent, growing if it is full.
\<close>

theorem Insert_refines:
  assumes "world_ok w" "task_wf t" "distinct (deps t)"
  shows "ret_sat (\<lambda>(r, t', w'). world_ok w' \<and> t' = t \<and>
           (if task_map (taskDB w) (name t) = None \<or> ov
            then r = 0 \<and> task_map (taskDB w') = (task_map (taskDB w))(name t \<mapsto> t)
            else r = -1 \<and> w' = w))
         (crinitTaskDBInsert True NoFault w t ov)"
  using assms by (rule Insert_ok)

theorem Insert_refines_witness:
  "ret_sat (\<lambda>(r, t', w'). r = 0 \<and> task_map (taskDB w') ''c'' = Some (sampleTask ''c''))
     (crinitTaskDBInsert True NoFault (sampleWorld [sampleTask ''a'', sampleTask ''b'']) (sampleTask ''c'') False)"
  by (rule ret_sat_mono [OF Insert_refines [of "sampleWorld [sampleTask ''a'', sampleTask ''b'']" "sampleTask ''c''" False]])
     (simp_all add: task_map_def split_beta)

text \<open>
  C10: \<open>crinitTaskDBSetTaskState\<close> on a known task replaces, in the map of tasks, that task by one
  with the new state; a failure also counts and is time-stamped, a completion resets the count,
  and no other task changes. The lock is released.
\<close>

theorem SetTaskState_refines:
  assumes "db_ok ctx" "task_map ctx n = Some t" "failCount t < INT_MAX"
  shows "ret_sat (\<lambda>(r, ctx'). r = 0 \<and> db_ok ctx' \<and> task_map ctx' = (task_map ctx)(n \<mapsto> with_state (stamp now s) s t) \<and>
           spawnInhibit ctx' = spawnInhibit ctx \<and> spawnFunc ctx' = spawnFunc ctx) (crinitTaskDBSetTaskState now ctx s n)"
  using assms by (rule setState.refines_update)

theorem SetTaskState_refines_witness:
  "ret_sat (\<lambda>(r, ctx'). r = 0 \<and> map_option failCount (task_map ctx' ''a'') = Some 1 \<and> task_map ctx' ''b'' = Some (sampleTask ''b''))
     (crinitTaskDBSetTaskState None (sampleDB [sampleTask ''a'', sampleTask ''b'']) CRINIT_TASK_STATE_FAILED ''a'')"
  by (rule ret_sat_mono [OF SetTaskState_refines [of "sampleDB [sampleTask ''a'', sampleTask ''b'']" "''a''" "sampleTask ''a''"]])
     (auto simp: task_map_def with_state_def Let_def)

text \<open>
  Adding a dependency to a task that does not have it and removing it again, as disabling
  and enabling a task does, gives back the dependencies of the task in their order.
\<close>

lemma AddDep_RemoveDep:
  assumes "world_ok w" "task_map (taskDB w) n = Some t" "d \<notin> set (deps t)" "depName d \<noteq> ''@timer''" "d \<notin> set (trig t)"
  shows "ret_sat (\<lambda>(r, w'). r = 0 \<and> task_map (taskDB w') = task_map (taskDB w))
           (bind_run (crinitTaskDBAddDepToTask True True (taskDB w) d n)
              (\<lambda>(r, ctx). crinitTaskDBRemoveDepFromTask (w\<lparr>taskDB := ctx\<rparr>) d n))"
proof -
  have ok: "db_ok (taskDB w)" "distinct (deps t)"
    using assms(1,2) by (auto simp: world_ok_def db_ok_def elim!: task_map_Some)
  obtain ctx where a: "crinitTaskDBAddDepToTask True True (taskDB w) d n = Ret (0, ctx)" "db_ok ctx"
    "task_map ctx = (task_map (taskDB w))(n \<mapsto> t\<lparr>deps := deps t @ [d]\<rparr>)"
    using addDep.refines_update [OF ok(1) assms(2), of d] assms(3) by (auto elim!: ret_satE)
  let ?t = "t\<lparr>deps := deps t @ [d]\<rparr>"
  have wf: "db_wf ctx" using a(2) by (simp add: db_ok_def)
  obtain i where i: "i < length (taskSet ctx)" "taskSet ctx ! i = ?t" "name ?t = n"
    using task_map_Some [OF wf, of n ?t] a(3) by auto
  have "remove_dep_loop d 0 (deps t @ [d]) (timerPool w) = Ret (deps t, timerPool w)"
    using remove_dep_loop_found [of "deps t @ [d]" "length (deps t)" d "timerPool w"] ok assms
    by (simp add: unref_timer_def swap_remove_last)
  moreover have tw: "task_wf t" using db_okD(3) [OF a(2), of ?t] i(1) nth_mem [OF i(1)] i(2) by simp
  ultimately have r: "crinitTaskDBRemoveDepFromTaskStruct ?t d (timerPool w) = Ret (t, timerPool w)"
    using assms(5) by (simp add: crinitTaskDBRemoveDepFromTaskStruct_def task_wf_not_freed)
  have "crinitTaskDBRemoveDepFromTask (w\<lparr>taskDB := ctx\<rparr>) d n = Ret (0, w\<lparr>taskDB :=
      ctx\<lparr>taskSet := (taskSet ctx)[i := t], changed := Suc (changed ctx)\<rparr>\<rparr>)"
    using a(2) i r FindTask_present [of "ctx\<lparr>lock := Locked\<rparr>" i n]
    by (simp add: crinitTaskDBRemoveDepFromTask_def db_ok_def upd_task_def pthread_cond_broadcast_def)
  moreover have "task_map (ctx\<lparr>taskSet := (taskSet ctx)[i := t], changed := c\<rparr>) = task_map (taskDB w)" for c
    using task_update_ok(2) [OF a(2) i(1), of t "ctx\<lparr>taskSet := (taskSet ctx)[i := t], changed := c\<rparr>"] a i assms(2) tw
    by (auto simp: released_def db_ok_def fun_upd_idem)
  ultimately show ?thesis using a(1) by simp
qed

section \<open>Scheduling\<close>

text \<open>
  C3: if no dispatch fails, one call of \<open>crinitTaskDBSpawnReady\<close> dispatches exactly the ready
  tasks, in the order of the database and in state starting, changes no other task, and leaves
  no ready task behind, so that a second call dispatches nothing.
\<close>

theorem SpawnReady_exact:
  assumes "db_ok ctx" "\<not> spawnInhibit ctx" "spawnFunc ctx = Some f" "\<forall>t m. f t m \<noteq> -1"
  shows "ret_sat (\<lambda>(r, ctx', spawned). r = 0 \<and> db_ok ctx' \<and>
           spawned = map (\<lambda>t. t\<lparr>state := CRINIT_TASK_STATE_STARTING\<rparr>) (filter crinitTaskIsReady (taskSet ctx)) \<and>
           taskSet ctx' = map (\<lambda>t. if crinitTaskIsReady t then t\<lparr>state := CRINIT_TASK_STATE_STARTING\<rparr> else t) (taskSet ctx) \<and>
           crinitTaskDBSpawnReady ctx' mode = Ret (0, ctx', []))
         (crinitTaskDBSpawnReady ctx mode)"
proof -
  have "crinitTaskDBSpawnReady (ctx\<lparr>taskSet := started (taskSet ctx)\<rparr>) mode =
      Ret (0, ctx\<lparr>taskSet := started (taskSet ctx)\<rparr>, [])"
    using SpawnReady_all [OF started_db_ok [OF assms(1)], of f mode] assms by (simp add: started_idem)
  then show ?thesis
    using SpawnReady_all [OF assms, of mode] started_db_ok [OF assms(1)] by (simp add: started_def [of "taskSet ctx"])
qed

theorem SpawnReady_exact_witness:
  "ret_sat (\<lambda>(r, ctx', spawned). map name spawned = [''a''])
     (crinitTaskDBSpawnReady (sampleDB [sampleTask ''a'', (sampleTask ''b'')\<lparr>state := CRINIT_TASK_STATE_RUNNING\<rparr>])
        CRINIT_DISPATCH_THREAD_MODE_START)"
  by (rule ret_sat_mono [OF SpawnReady_exact [where f = "\<lambda>t m. 0"]]) (auto simp: crinitTaskIsReady_def)

text \<open>
  Whatever the dispatch function returns, a task handed to it was ready, and the database
  stays consistent and unlocked; nothing at all is dispatched while spawning is inhibited.
\<close>

lemma SpawnReady_safe:
  assumes "db_ok ctx" "spawnFunc ctx = Some f"
  shows "ret_sat (\<lambda>(r, ctx', spawned). db_ok ctx' \<and>
           (\<forall>t \<in> set spawned. \<exists>u \<in> set (taskSet ctx). crinitTaskIsReady u \<and> t = u\<lparr>state := CRINIT_TASK_STATE_STARTING\<rparr>) \<and>
           (spawnInhibit ctx \<longrightarrow> spawned = [] \<and> ctx' = ctx))
         (crinitTaskDBSpawnReady ctx mode)"
proof -
  have wf: "\<forall>t \<in> set (taskSet ctx). task_wf t" and l: "lock ctx = Unlocked" using assms(1) by auto
  obtain r ts sp where "spawn_loop f mode (taskSet ctx) = Ret (r, ts, sp)" "map name ts = map name (taskSet ctx)"
    "\<forall>t \<in> set ts. task_wf t"
    "\<forall>t \<in> set sp. \<exists>u \<in> set (taskSet ctx). crinitTaskIsReady u \<and> t = u\<lparr>state := CRINIT_TASK_STATE_STARTING\<rparr>"
    using spawn_loop_wf [OF wf, of f mode] by (auto elim!: ret_satE)
  moreover from this(2) have "length ts = length (taskSet ctx)" by (metis length_map)
  ultimately show ?thesis
    using assms l by (simp add: crinitTaskDBSpawnReady_def db_ok_def db_wf_def)
qed

text \<open>
  C4: a task that waits only for one dependency, is triggered and has not been started yet is
  dispatched by the first scheduling step after that dependency is fulfilled.
\<close>

theorem last_dependency_spawns:
  assumes "world_ok w" "t \<in> set (taskSet (taskDB w))" "deps t = [d]" "triggered t \<or> d \<in> set (trig t)"
    "state t = CRINIT_TASK_STATE_LOADED" "\<not> inhibitRespawn t"
    "\<not> spawnInhibit (taskDB w)" "spawnFunc (taskDB w) = Some f" "\<forall>t m. f t m \<noteq> -1"
  shows "ret_sat (\<lambda>(r, ctx', spawned). name t \<in> name ` set spawned)
           (bind_run (crinitTaskDBFulfillDep w d None) (\<lambda>(r, w'). crinitTaskDBSpawnReady (taskDB w') mode))"
proof -
  obtain w' where w': "crinitTaskDBFulfillDep w d None = Ret (0, w')" "world_ok w'"
    "list_all2 (fulfilled d) (taskSet (taskDB w)) (taskSet (taskDB w'))" "\<not> spawnInhibit (taskDB w')"
    "spawnFunc (taskDB w') = Some f"
    using FulfillDep_ok [OF assms(1), of d] assms(7,8) by (auto elim!: ret_satE simp: same_env_def)
  obtain t' where t': "t' \<in> set (taskSet (taskDB w'))" "fulfilled d t t'"
    using list_all2_in_set1 [OF w'(3) assms(2)] by blast
  have "crinitTaskIsReady t'"
    using assms(3-6) fulfilled_frame [OF t'(2)] fulfilled_deps [OF t'(2)]
    by (auto simp: crinitTaskIsReady_def)
  then have "name t \<in> name ` {u \<in> set (taskSet (taskDB w')). crinitTaskIsReady u}"
    using t'(1) fulfilled_frame(1) [OF t'(2)] by (intro image_eqI [of _ _ t']) auto
  then show ?thesis
    using SpawnReady_all [OF _ w'(4,5) assms(9), of mode] w'(1,2) by (simp add: world_ok_def image_image)
qed

theorem last_dependency_spawns_witness:
  "ret_sat (\<lambda>(r, ctx', spawned). ''b'' \<in> name ` set spawned)
     (bind_run (crinitTaskDBFulfillDep (sampleWorld [sampleTask ''a'', (sampleTask ''b'')\<lparr>deps := [\<lparr>depName = ''a'', event = ''wait''\<rparr>]\<rparr>])
                  \<lparr>depName = ''a'', event = ''wait''\<rparr> None)
        (\<lambda>(r, w'). crinitTaskDBSpawnReady (taskDB w') CRINIT_DISPATCH_THREAD_MODE_START))"
  using last_dependency_spawns [of "sampleWorld [sampleTask ''a'', (sampleTask ''b'')\<lparr>deps := [\<lparr>depName = ''a'', event = ''wait''\<rparr>]\<rparr>]"
      "(sampleTask ''b'')\<lparr>deps := [\<lparr>depName = ''a'', event = ''wait''\<rparr>]\<rparr>" "\<lparr>depName = ''a'', event = ''wait''\<rparr>" "\<lambda>t m. 0"]
  by simp

text \<open>
  C6: \<open>crinitTaskDBFulfillDep\<close> removes the dependency from every task that lists it once, marks
  the tasks it triggers, changes nothing else in them, wakes the scheduler and releases every
  lock it took.
\<close>

theorem FulfillDep_everywhere:
  assumes "world_ok w"
  shows "ret_sat (\<lambda>(r, w'). r = 0 \<and> world_ok w' \<and> changed (taskDB w') = Suc (changed (taskDB w)) \<and>
           list_all2 (\<lambda>t t'. set (deps t') = set (deps t) - {d} \<and>
               t' = t\<lparr>deps := deps t', triggered := triggered t \<or> d \<in> set (trig t)\<rparr>)
             (taskSet (taskDB w)) (taskSet (taskDB w')))
         (crinitTaskDBFulfillDep w d None)"
proof -
  let ?P = "\<lambda>t t'. set (deps t') = set (deps t) - {d} \<and>
               t' = t\<lparr>deps := deps t', triggered := triggered t \<or> d \<in> set (trig t)\<rparr>"
  have "list_all2 (fulfilled d) xs ys \<Longrightarrow> list_all2 ?P xs ys" for xs ys
    by (erule list_all2_mono) (unfold fulfilled_def, blast)
  then show ?thesis by (intro ret_sat_mono [OF FulfillDep_ok [OF assms]]) (simp only: split_beta)
qed

theorem FulfillDep_everywhere_witness:
  "ret_sat (\<lambda>(r, w'). r = 0 \<and> world_ok w')
     (crinitTaskDBFulfillDep (sampleWorld [(sampleTask ''b'')\<lparr>deps := [\<lparr>depName = ''a'', event = ''wait''\<rparr>]\<rparr>])
        \<lparr>depName = ''a'', event = ''wait''\<rparr> None)"
  by (rule ret_sat_mono [OF FulfillDep_everywhere]) auto

text \<open>
  If a task lists the same dependency twice, fulfilling it removes only one of the two: the
  task still waits for a dependency that has been fulfilled.
\<close>

lemma FulfillDep_duplicate_stays:
  assumes "\<not> freed t" "deps t = [d, d]" "depName d \<noteq> ''@timer''"
  shows "ret_sat (\<lambda>(t', pool'). deps t' = [d] \<and> \<not> crinitTaskIsReady t') (crinitTaskDBRemoveDepFromTaskStruct t d pool)"
proof -
  have "remove_dep_loop d 0 [d, d] pool = remove_dep_loop d 1 [d] pool"
    using assms(3) by (subst remove_dep_loop.simps) (simp add: swap_remove_def)
  then have "remove_dep_loop d 0 [d, d] pool = Ret ([d], pool)" by (simp add: remove_dep_loop_end)
  then show ?thesis using assms by (simp add: crinitTaskDBRemoveDepFromTaskStruct_def crinitTaskIsReady_def)
qed

section \<open>Retries\<close>

fun fail_times :: "timespec option \<Rightarrow> string \<Rightarrow> nat \<Rightarrow> crinitTaskDB \<Rightarrow> crinitTaskDB run" where
  "fail_times now n 0 ctx = Ret ctx"
| "fail_times now n (Suc k) ctx =
     bind_run (crinitTaskDBSetTaskState now ctx CRINIT_TASK_STATE_FAILED n) (\<lambda>(r, ctx'). fail_times now n k ctx')"

lemma fail_times_count:
  assumes "db_ok ctx" "task_map ctx n = Some t" "0 \<le> failCount t" "failCount t + int k < INT_MAX" "k > 0"
  shows "ret_sat (\<lambda>ctx'. \<exists>t'. task_map ctx' n = Some t' \<and> state t' = CRINIT_TASK_STATE_FAILED \<and>
           failCount t' = failCount t + int k \<and> opts t' = opts t \<and> maxRetries t' = maxRetries t)
         (fail_times now n k ctx)"
  using assms
proof (induction k arbitrary: ctx t)
  case (Suc k)
  let ?t = "with_state (stamp now CRINIT_TASK_STATE_FAILED) CRINIT_TASK_STATE_FAILED t"
  have t: "failCount ?t = failCount t + 1" "state ?t = CRINIT_TASK_STATE_FAILED" "opts ?t = opts t" "maxRetries ?t = maxRetries t"
    by (simp_all add: with_state_def)
  have "failCount t < INT_MAX" using Suc.prems by simp
  from setState.refines_update [OF Suc.prems(1,2) this, of now CRINIT_TASK_STATE_FAILED]
  obtain ctx' where c: "crinitTaskDBSetTaskState now ctx CRINIT_TASK_STATE_FAILED n = Ret (0, ctx')" "db_ok ctx'"
    "task_map ctx' n = Some ?t" by (auto elim!: ret_satE)
  show ?case
  proof (cases "k = 0")
    case True
    then show ?thesis using c t by simp
  next
    case False
    then show ?thesis
      using Suc.IH [OF c(2,3)] Suc.prems t c(1) by (auto elim!: ret_sat_mono)
  qed
qed simp

lemma failed_ready:
  assumes "state t = CRINIT_TASK_STATE_FAILED" "opts t AND CRINIT_TASK_OPT_RESPAWN \<noteq> 0"
    "maxRetries t = int m" "failCount t = int k"
  shows "crinitTaskIsReady t \<longleftrightarrow> k \<le> m \<and> deps t = [] \<and> triggered t \<and> \<not> inhibitRespawn t"
  unfolding crinitTaskIsReady_def using assms by (simp only: split: if_split) auto

text \<open>
  C11: a respawning task with a limit of \<open>m\<close> retries that fails more than \<open>m\<close> times in a row is not
  ready any more; up to the limit, the \<open>m\<close>-th failure included, it is ready again after each failure, if it is not inhibited. So it is
  started \<open>m\<close> times again. The comment of \<open>crinitTaskDBSpawnReady\<close> in \<open>src/inc/taskdb.h\<close> demands a failure count less than the limit,
  which would be one start less.
\<close>

theorem retries_bounded:
  assumes "db_ok ctx" "task_map ctx n = Some t" "failCount t = 0" "0 < k" "int k < INT_MAX"
    "maxRetries t = int m" "opts t AND CRINIT_TASK_OPT_RESPAWN \<noteq> 0"
  shows "ret_sat (\<lambda>ctx'. \<exists>t'. task_map ctx' n = Some t' \<and> failCount t' = int k \<and>
           (crinitTaskIsReady t' \<longleftrightarrow> k \<le> m \<and> deps t' = [] \<and> triggered t' \<and> \<not> inhibitRespawn t'))
         (fail_times now n k ctx)"
proof -
  have "ret_sat (\<lambda>ctx'. \<exists>t'. task_map ctx' n = Some t' \<and> state t' = CRINIT_TASK_STATE_FAILED \<and>
           failCount t' = failCount t + int k \<and> opts t' = opts t \<and> maxRetries t' = maxRetries t)
         (fail_times now n k ctx)"
    using assms by (intro fail_times_count) auto
  then show ?thesis
  proof (rule ret_sat_mono, elim exE conjE)
    fix ctx' t'
    assume "task_map ctx' n = Some t'" "state t' = CRINIT_TASK_STATE_FAILED" "failCount t' = failCount t + int k"
      "opts t' = opts t" "maxRetries t' = maxRetries t"
    then show "\<exists>t'. task_map ctx' n = Some t' \<and> failCount t' = int k \<and>
        (crinitTaskIsReady t' \<longleftrightarrow> k \<le> m \<and> deps t' = [] \<and> triggered t' \<and> \<not> inhibitRespawn t')"
      using assms failed_ready [of t' m k] by (intro exI [of _ t']) (simp only: add_0 simp_thms)
  qed
qed

theorem retries_bounded_witness:
  "ret_sat (\<lambda>ctx'. \<exists>t'. task_map ctx' ''a'' = Some t' \<and> failCount t' = 3 \<and> \<not> crinitTaskIsReady t')
     (fail_times None ''a'' 3 (sampleDB [(sampleTask ''a'')\<lparr>opts := CRINIT_TASK_OPT_RESPAWN, maxRetries := 2\<rparr>]))"
proof -
  let ?t = "(sampleTask ''a'')\<lparr>opts := CRINIT_TASK_OPT_RESPAWN, maxRetries := 2\<rparr>"
  have "task_wf ?t" using sampleTask_wf(1) [of "''a''"] by (simp add: task_wf_def)
  then have "db_ok (sampleDB [?t])" by simp
  moreover have "task_map (sampleDB [?t]) ''a'' = Some ?t" by (simp add: task_map_def)
  ultimately have "ret_sat (\<lambda>ctx'. \<exists>t'. task_map ctx' ''a'' = Some t' \<and> failCount t' = int 3 \<and>
      (crinitTaskIsReady t' \<longleftrightarrow> (3::nat) \<le> 2 \<and> deps t' = [] \<and> triggered t' \<and> \<not> inhibitRespawn t'))
      (fail_times None ''a'' 3 (sampleDB [?t]))"
    by (rule retries_bounded) simp_all
  then show ?thesis by (rule ret_sat_mono) auto
qed

section \<open>Defects of the database\<close>

text \<open>
  C27: asking for the features of an unknown task returns with the database still locked, so the
  next scheduling step never returns.
\<close>

theorem ProvideFeature_unknown_task_blocks:
  assumes "db_ok (taskDB w)" "task_map (taskDB w) n = None"
  shows "ret_sat (\<lambda>(r, w'). r = -1 \<and> lock (taskDB w') = Locked \<and> crinitTaskDBSpawnReady (taskDB w') mode = Blocked)
           (crinitTaskDBProvideFeatureByTaskName w n s)"
proof -
  have "crinitFindTask ((taskDB w)\<lparr>lock := Locked\<rparr>) n = Ret None"
    using assms by (intro FindTask_absent) (auto simp: db_ok_def task_map_None)
  then show ?thesis
    using assms(1) by (simp add: crinitTaskDBProvideFeatureByTaskName_def crinitTaskDBSpawnReady_def db_ok_def)
qed

theorem ProvideFeature_unknown_task_blocks_witness:
  "ret_sat (\<lambda>(r, w'). lock (taskDB w') = Locked)
     (crinitTaskDBProvideFeatureByTaskName (sampleWorld [sampleTask ''a'']) ''b'' CRINIT_TASK_STATE_RUNNING)"
  by (rule ret_sat_mono [OF ProvideFeature_unknown_task_blocks]) (auto simp: task_map_def)

lemma find_from_freed:
  "\<forall>t \<in> set ts. \<not> freed t \<Longrightarrow> n \<notin> name ` set ts \<Longrightarrow> freed u \<Longrightarrow> find_from k n (ts @ [u]) = Undef"
  by (induction ts arbitrary: k) auto

text \<open>
  Inserting a new task that has a command without arguments fails, but leaves a destroyed
  entry in the database: looking up any other task that is not in the database is undefined
  from then on. If the task has stop commands, those of the caller have been released too.
\<close>

lemma Insert_empty_command_corrupts:
  assumes "world_ok w" "task_map (taskDB w) (name t) = None" "\<not> freed t" "\<exists>c \<in> set (cmds t). argv c = []"
    "task_map (taskDB w) m = None"
  shows "ret_sat (\<lambda>(r, t', w'). r = -1 \<and> crinitTaskDBGetTaskState (taskDB w') m = Undef \<and>
           (stopCmds t \<noteq> [] \<longrightarrow> crinitDestroyTask t' = Undef))
         (crinitTaskDBInsert True f w t ov)"
proof -
  let ?db = "taskDB w"
  have ok: "db_ok ?db" using assms(1) by (simp add: world_ok_def)
  have nf: "\<forall>t \<in> set (taskSet ?db). \<not> freed t" using ok by auto
  have "crinitFindTask (?db\<lparr>lock := Locked\<rparr>) (name t) = Ret None"
    using assms(2) ok by (intro FindTask_absent) (auto simp: db_ok_def task_map_None)
  then show ?thesis
    using ok assms(5) find_from_freed [OF nf, of m "t\<lparr>freed := True\<rparr>" 0] TaskCopy_empty_command [OF assms(3,4), of f]
    by (auto simp: crinitTaskDBInsert_def insert_slot_def copy_fail_def Let_def db_ok_def upd_task_def
        crinitTaskDBGetTaskState_def crinitFindTask_def task_map_None crinitDestroyTask_def nth_append)
qed

end
