(* ===== verification/RtimOpMap.thy ===== *)
theory RtimOpMap
  imports Prelude
begin

text \<open>
  Opcodes of the runtime commands, \<open>src/inc/rtimopmap.h\<close> and \<open>src/src/rtimopmap.c\<close>. The
  macro \<open>crinitGenOpMap\<close> lists the commands once; each gives an opcode for the command
  (prefix \<open>C_\<close>) and one for the response (prefix \<open>R_\<close>). In the same way \<open>rtimVerb\<close> lists the
  commands, and an opcode is a command or a response of one of them.
\<close>

datatype rtimVerb =
  ADDTASK | ADDSERIES | ENABLE | DISABLE | STOP | KILL | RESTART | NOTIFY | STATUS | TASKLIST |
  SHUTDOWN | GETVER

datatype crinitRtimOp = CRINIT_RTIMCMD_C rtimVerb | CRINIT_RTIMCMD_R rtimVerb

abbreviation (input) CRINIT_RTIMCMD_ARGDELIM :: char where "CRINIT_RTIMCMD_ARGDELIM \<equiv> CHR 0x0A"

definition crinitGenOpMap :: "(rtimVerb \<times> string) list" where
  "crinitGenOpMap =
     [(ADDTASK, ''ADDTASK''), (ADDSERIES, ''ADDSERIES''), (ENABLE, ''ENABLE''), (DISABLE, ''DISABLE''),
      (STOP, ''STOP''), (KILL, ''KILL''), (RESTART, ''RESTART''), (NOTIFY, ''NOTIFY''),
      (STATUS, ''STATUS''), (TASKLIST, ''TASKLIST''), (SHUTDOWN, ''SHUTDOWN''), (GETVER, ''GETVER'')]"

definition crinitRtimOps :: "(crinitRtimOp \<times> string) list" where
  "crinitRtimOps =
     concat (map (\<lambda>(x, s). [(CRINIT_RTIMCMD_C x, ''C_'' @ s), (CRINIT_RTIMCMD_R x, ''R_'' @ s)]) crinitGenOpMap)"

fun crinitDelimitedStrlen :: "string \<Rightarrow> nat" where
  "crinitDelimitedStrlen [] = 0"
| "crinitDelimitedStrlen (c # s) =
     (if c = CRINIT_RTIMCMD_ARGDELIM then 0 else Suc (crinitDelimitedStrlen s))"

definition crinitRtimOpGetByOpStr :: "string \<Rightarrow> crinitRtimOp option" where
  "crinitRtimOpGetByOpStr opStr =
     (let n = crinitDelimitedStrlen opStr in
      map_option fst (find (\<lambda>(c, s). n = length s \<and> strncmp_eq s opStr n) crinitRtimOps))"

definition crinitOpStrGetByRtimOp :: "crinitRtimOp \<Rightarrow> string option" where
  "crinitOpStrGetByRtimOp opCode = map_option snd (find (\<lambda>(c, s). c = opCode) crinitRtimOps)"

section \<open>Lemmas\<close>

lemma DelimitedStrlen_takeWhile:
  "crinitDelimitedStrlen s = length (takeWhile (\<lambda>c. c \<noteq> CRINIT_RTIMCMD_ARGDELIM) s)"
  by (induction s) auto

lemma find_map_of: "map_option fst (find (\<lambda>(c, s). s = w) xs) = map_of (map (\<lambda>(c, s). (s, c)) xs) w"
  by (induction xs) auto

text \<open>The lookup by string only sees the text in front of the first delimiter.\<close>

lemma OpGetByOpStr_map_of:
  "crinitRtimOpGetByOpStr opStr =
     map_of (map (\<lambda>(c, s). (s, c)) crinitRtimOps) (takeWhile (\<lambda>c. c \<noteq> CRINIT_RTIMCMD_ARGDELIM) opStr)"
proof -
  define w where "w = takeWhile (\<lambda>c. c \<noteq> CRINIT_RTIMCMD_ARGDELIM) opStr"
  have "take (length w) opStr = w" unfolding w_def by (rule takeWhile_eq_take [symmetric])
  then have "length w = length s \<and> strncmp_eq s opStr (length w) \<longleftrightarrow> s = w" for s
    unfolding strncmp_eq_def by (metis order_refl take_all)
  then have "crinitRtimOpGetByOpStr opStr = map_option fst (find (\<lambda>(c, s). s = w) crinitRtimOps)"
    by (simp only: crinitRtimOpGetByOpStr_def DelimitedStrlen_takeWhile Let_def w_def [symmetric])
  then show ?thesis unfolding w_def [symmetric] by (simp only: find_map_of)
qed

lemma RtimOps_exhaustive: "\<exists>s. crinitOpStrGetByRtimOp c = Some s"
proof -
  have "crinitOpStrGetByRtimOp (CRINIT_RTIMCMD_C v) \<noteq> None \<and> crinitOpStrGetByRtimOp (CRINIT_RTIMCMD_R v) \<noteq> None" for v
    by (cases v) (simp_all add: crinitOpStrGetByRtimOp_def crinitRtimOps_def crinitGenOpMap_def)
  then show ?thesis by (cases c) auto
qed

lemma RtimOps_distinct: "distinct (map snd crinitRtimOps)"
  by (simp add: crinitRtimOps_def crinitGenOpMap_def)

lemma RtimOps_no_delim: "list_all (\<lambda>(c, s). CRINIT_RTIMCMD_ARGDELIM \<notin> set s) crinitRtimOps"
  by (simp add: crinitRtimOps_def crinitGenOpMap_def)

lemma find_SomeD: "find P xs = Some x \<Longrightarrow> x \<in> set xs \<and> P x"
  by (induction xs) (auto split: if_splits)

lemma OpStrGet_in: "crinitOpStrGetByRtimOp c = Some s \<Longrightarrow> (c, s) \<in> set crinitRtimOps"
  unfolding crinitOpStrGetByRtimOp_def by (auto dest!: find_SomeD)

lemma OpStrGet_no_delim: "crinitOpStrGetByRtimOp c = Some s \<Longrightarrow> CRINIT_RTIMCMD_ARGDELIM \<notin> set s"
  using OpStrGet_in [of c s] RtimOps_no_delim unfolding list_all_iff by blast

text \<open>Both directions of the map agree, also when arguments follow the opcode.\<close>

lemma OpGetByOpStr_OpStrGet:
  assumes "crinitOpStrGetByRtimOp c = Some s" "rest = [] \<or> hd rest = CRINIT_RTIMCMD_ARGDELIM"
  shows "crinitRtimOpGetByOpStr (s @ rest) = Some c"
proof -
  have "takeWhile (\<lambda>c. c \<noteq> CRINIT_RTIMCMD_ARGDELIM) (s @ rest) = s"
    using OpStrGet_no_delim [OF assms(1)] assms(2) by (cases rest) (auto simp: takeWhile_append takeWhile_eq_all_conv)
  moreover have "map_of (map (\<lambda>(c, s). (s, c)) crinitRtimOps) s = Some c"
  proof (rule map_of_is_SomeI)
    have "map fst (map (\<lambda>(c, s). (s, c)) crinitRtimOps) = map snd crinitRtimOps" by auto
    then show "distinct (map fst (map (\<lambda>(c, s). (s, c)) crinitRtimOps))" using RtimOps_distinct by metis
    show "(s, c) \<in> set (map (\<lambda>(c, s). (s, c)) crinitRtimOps)" using OpStrGet_in [OF assms(1)] by force
  qed
  ultimately show ?thesis by (simp add: OpGetByOpStr_map_of)
qed

lemma OpGetByOpStr_sound:
  assumes "crinitRtimOpGetByOpStr opStr = Some c"
  shows "crinitOpStrGetByRtimOp c = Some (takeWhile (\<lambda>c. c \<noteq> CRINIT_RTIMCMD_ARGDELIM) opStr)"
proof -
  obtain s where s: "crinitOpStrGetByRtimOp c = Some s" using RtimOps_exhaustive by blast
  have "(c, takeWhile (\<lambda>c. c \<noteq> CRINIT_RTIMCMD_ARGDELIM) opStr) \<in> set crinitRtimOps"
    using map_of_SomeD [OF assms [unfolded OpGetByOpStr_map_of]] by force
  moreover have "distinct (map fst crinitRtimOps)" by (simp add: crinitRtimOps_def crinitGenOpMap_def)
  ultimately have "takeWhile (\<lambda>c. c \<noteq> CRINIT_RTIMCMD_ARGDELIM) opStr = s"
    using eq_key_imp_eq_value OpStrGet_in [OF s] by fast
  then show ?thesis using s by simp
qed

end
