(* ===== verification/Lexers.thy ===== *)
theory Lexers
  imports CLib
begin

text \<open>
  The lexers of \<open>src/src/lexers.re\<close> as their rules define them (re2c takes the longest match,
  and the first rule among equally long ones), and the expansion of \<open>${TASK_PID}\<close> in a single
  argument, from \<open>src/src/procdip.c\<close>. A call of a lexer returns the kind of token, the matched
  part (\<open>mbegin\<close> up to \<open>mend\<close>) and the text after the token. Text is without its terminating zero.
\<close>

datatype crinitTokenType =
  CRINIT_TK_ERR | CRINIT_TK_END | CRINIT_TK_ENVKEY | CRINIT_TK_ENVVAL | CRINIT_TK_WSPC | CRINIT_TK_VAR
  | CRINIT_TK_ESC | CRINIT_TK_ESCX | CRINIT_TK_CPY | CRINIT_TK_DQSTR | CRINIT_TK_UQSTR

section \<open>Characters and runs of characters\<close>

definition is_word_start :: "char \<Rightarrow> bool" where
  "is_word_start c \<longleftrightarrow> (let n = of_char c :: nat in (97 \<le> n \<and> n \<le> 122) \<or> (65 \<le> n \<and> n \<le> 90) \<or> n = 95)"

definition is_hex :: "char \<Rightarrow> bool" where
  "is_hex c \<longleftrightarrow> c_isdigit c \<or> (let n = of_char c :: nat in (97 \<le> n \<and> n \<le> 102) \<or> (65 \<le> n \<and> n \<le> 70))"

abbreviation is_word :: "char \<Rightarrow> bool" where "is_word c \<equiv> is_word_start c \<or> c_isdigit c"

abbreviation is_blank :: "char \<Rightarrow> bool" where "is_blank c \<equiv> c = CHR '' '' \<or> c = CHR 0x09"

text \<open>
  The longest run of characters outside \<open>stop\<close> and of pairs of a backslash and another
  character, with the text after it.
\<close>

fun lex_run :: "char list \<Rightarrow> string \<Rightarrow> string \<times> string" where
  "lex_run stop [] = ([], [])"
| "lex_run stop (c # s) =
     (if c = CHR 0x5C then
        (case s of [] \<Rightarrow> ([], [c]) | d # t \<Rightarrow> (case lex_run stop t of (m, r) \<Rightarrow> (c # d # m, r)))
      else if c \<in> set stop then ([], c # s)
      else case lex_run stop s of (m, r) \<Rightarrow> (c # m, r))"

text \<open>The part of the text before its last double quote.\<close>

definition before_last_quote :: "string \<Rightarrow> string option" where
  "before_last_quote s =
     (let r = dropWhile (\<lambda>c. c \<noteq> CHR 0x22) (rev s) in if r = [] then None else Some (rev (tl r)))"

section \<open>The lexers\<close>

text \<open>Words of a command: blank space, quoted strings if \<open>dq\<close>, other words.\<close>

fun crinitArgvLex :: "bool \<Rightarrow> string \<Rightarrow> crinitTokenType \<times> string \<times> string" where
  "crinitArgvLex dq [] = (CRINIT_TK_END, [], [])"
| "crinitArgvLex dq (c # s) =
     (if is_blank c
      then (CRINIT_TK_WSPC, takeWhile is_blank (c # s), dropWhile is_blank (c # s))
      else if dq \<and> c = CHR 0x22 then
        (case lex_run [CHR 0x22, CHR 0x0A] s of (m, r) \<Rightarrow>
           if r \<noteq> [] \<and> hd r = CHR 0x22 then (CRINIT_TK_DQSTR, m, tl r) else (CRINIT_TK_ERR, [c], s))
      else case lex_run ([CHR '' '', CHR 0x0A, CHR 0x09] @ (if dq then [CHR 0x22] else [])) (c # s) of (m, r) \<Rightarrow>
        if m \<noteq> [] then (CRINIT_TK_UQSTR, m, r) else (CRINIT_TK_ERR, [c], s))"

fun crinitEscLex :: "string \<Rightarrow> crinitTokenType \<times> string \<times> string" where
  "crinitEscLex [] = (CRINIT_TK_END, [], [])"
| "crinitEscLex (c # s) =
     (if c = CHR 0x5C then
        (case s of
           [] \<Rightarrow> (CRINIT_TK_ERR, [c], [])
         | d # t \<Rightarrow>
             if d = CHR ''x'' \<and> 2 \<le> length t \<and> is_hex (t ! 0) \<and> is_hex (t ! 1)
             then (CRINIT_TK_ESCX, take 2 t, drop 2 t)
             else (CRINIT_TK_ESC, [c, d], t))
      else (CRINIT_TK_CPY, [c], s))"

text \<open>A value in quotes, with spaces around it; the second component is the value.\<close>

definition crinitMatchQuotedConfig :: "string \<Rightarrow> int \<times> string" where
  "crinitMatchQuotedConfig s =
     (let t = dropWhile (\<lambda>c. c = CHR '' '') (rev (dropWhile (\<lambda>c. c = CHR '' '') s))
      in if 2 \<le> length t \<and> hd t = CHR 0x22 \<and> last t = CHR 0x22 then (1, rev (tl (butlast t))) else (0, s))"

fun crinitEnvVarOuterLex :: "string \<Rightarrow> crinitTokenType \<times> string \<times> string" where
  "crinitEnvVarOuterLex [] = (CRINIT_TK_END, [], [])"
| "crinitEnvVarOuterLex (c # s) =
     (if is_word_start c
      then (CRINIT_TK_ENVKEY, takeWhile is_word (c # s), dropWhile is_word (c # s))
      else if is_blank c
      then (CRINIT_TK_WSPC, takeWhile is_blank (c # s), dropWhile is_blank (c # s))
      else if c = CHR 0x22 then
        (case before_last_quote s of
           Some m \<Rightarrow> (CRINIT_TK_ENVVAL, m, drop (Suc (length m)) s)
         | None \<Rightarrow> (CRINIT_TK_ERR, [c], s))
      else (CRINIT_TK_ERR, [c], s))"

text \<open>The name of a variable reference at the front of the text, and the text after it.\<close>

definition match_var :: "string \<Rightarrow> (string \<times> string) option" where
  "match_var s =
     (case s of c1 # c2 # t \<Rightarrow>
        let v = takeWhile is_word t; r = drop (length v) t
        in if c1 = CHR ''$'' \<and> c2 = CHR ''{'' \<and> v \<noteq> [] \<and> is_word_start (hd v) \<and> r \<noteq> [] \<and> hd r = CHR ''}''
           then Some (v, tl r) else None
      | _ \<Rightarrow> None)"

fun crinitEnvVarInnerLex :: "string \<Rightarrow> crinitTokenType \<times> string \<times> string" where
  "crinitEnvVarInnerLex [] = (CRINIT_TK_END, [], [])"
| "crinitEnvVarInnerLex (c # s) =
     (if c = CHR 0x5C then
        (case s of
           [] \<Rightarrow> (CRINIT_TK_ERR, [c], [])
         | d # t \<Rightarrow>
             if d = CHR ''x'' \<and> 2 \<le> length t \<and> is_hex (t ! 0) \<and> is_hex (t ! 1)
             then (CRINIT_TK_ESCX, take 2 t, drop 2 t)
             else (CRINIT_TK_ESC, [c, d], t))
      else case match_var (c # s) of
        Some (v, r) \<Rightarrow> (CRINIT_TK_VAR, v, r)
      | None \<Rightarrow> (CRINIT_TK_CPY, [c], s))"

text \<open>
  The value of an assignment on the kernel command line: quoted, or a run of other
  characters; with the text after it.
\<close>

definition kcmdline_value :: "string \<Rightarrow> (string \<times> string) option" where
  "kcmdline_value s =
     (case s of [] \<Rightarrow> None
      | c # t \<Rightarrow>
          if c = CHR 0x22 then
            (case lex_run [CHR 0x22, CHR 0x0A] t of (m, r) \<Rightarrow>
               if r \<noteq> [] \<and> hd r = CHR 0x22 then Some (m, tl r) else None)
          else case lex_run [CHR '' '', CHR 0x22, CHR 0x0A, CHR 0x09] (c # t) of (m, r) \<Rightarrow>
            if m \<noteq> [] then Some (m, r) else None)"

text \<open>The key and the value of a token, the value for a variable only.\<close>

definition crinitKernelCmdlineLex :: "string \<Rightarrow> crinitTokenType \<times> string \<times> string option \<times> string" where
  "crinitKernelCmdlineLex s =
     (case s of
        [] \<Rightarrow> (CRINIT_TK_END, [], None, [])
      | c # t \<Rightarrow>
          if is_blank c then (CRINIT_TK_WSPC, takeWhile is_blank s, None, dropWhile is_blank s)
          else let u = drop 7 s; k = takeWhile is_word u; r = drop (length k) u in
            if take 7 s = ''crinit.'' \<and> k \<noteq> [] \<and> is_word_start (hd k) \<and> r \<noteq> [] \<and> hd r = CHR ''=''
            then (case kcmdline_value (tl r) of
                    Some (v, rest) \<Rightarrow> (CRINIT_TK_VAR, k, Some v, rest)
                  | None \<Rightarrow> (CRINIT_TK_CPY, [c], None, t))
            else (CRINIT_TK_CPY, [c], None, t))"

section \<open>Expansion of the process id\<close>

lemma match_var_shorter: "match_var s = Some (v, r) \<Longrightarrow> length r < length s"
  by (auto simp: match_var_def Let_def split: list.splits if_splits)

lemma InnerLex_shorter:
  "crinitEnvVarInnerLex s = (tt, m, r) \<Longrightarrow> tt \<noteq> CRINIT_TK_END \<Longrightarrow> length r < length s"
  by (cases s) (auto split: if_splits list.splits option.splits dest!: match_var_shorter)

text \<open>
  The loop of \<open>crinitExpandPIDVariablesInSingleCommand\<close>: \<open>src\<close> is the text not yet copied, \<open>s\<close>
  the text not yet read (a suffix of \<open>src\<close>), \<open>result\<close> the text built so far. \<open>None\<close> is an error;
  otherwise the built text and what remains to be copied behind it.
\<close>

function expand_loop :: "string \<Rightarrow> string \<Rightarrow> string \<Rightarrow> string option \<Rightarrow> (string option \<times> string) option" where
  "expand_loop substVal src s result =
     (case crinitEnvVarInnerLex s of (tt, m, r) \<Rightarrow>
        if tt = CRINIT_TK_END then Some (result, src)
        else if tt = CRINIT_TK_CPY then expand_loop substVal src r result
        else if tt = CRINIT_TK_VAR then
          if m = ''TASK_PID'' then
            expand_loop substVal r r
              (Some ((case result of None \<Rightarrow> [] | Some x \<Rightarrow> x) @ take (length src - length s) src @ substVal))
          else expand_loop substVal src r result
        else None)"
  by pat_completeness auto
termination
  by (relation "measure (\<lambda>(v, src, s, res). length s)") (auto dest!: InnerLex_shorter [OF sym])

declare expand_loop.simps [simp del]

text \<open>Return value and result string (\<open>None\<close> when there is nothing to expand).\<close>

definition crinitExpandPIDVariablesInSingleCommand :: "string \<Rightarrow> int \<Rightarrow> int \<times> string option" where
  "crinitExpandPIDVariablesInSingleCommand input p =
     (case expand_loop (show_int p) input input None of
        None \<Rightarrow> (-1, None)
      | Some (None, _) \<Rightarrow> (0, None)
      | Some (Some r, src) \<Rightarrow> (1, Some (r @ src)))"

section \<open>Lemmas\<close>

text \<open>Text without variable references and backslashes is passed over.\<close>

lemma expand_loop_plain:
  assumes "CHR ''$'' \<notin> set p" "CHR 0x5C \<notin> set p"
  shows "expand_loop v src (p @ s) res = expand_loop v src s res"
  using assms
proof (induction p)
  case (Cons c p)
  then have "crinitEnvVarInnerLex (c # p @ s) = (CRINIT_TK_CPY, [c], p @ s)"
    by (auto simp: match_var_def split: list.splits)
  then show ?case using Cons by (simp add: expand_loop.simps [of v src "c # p @ s"])
qed simp

lemma expand_loop_var:
  "expand_loop v src (''${TASK_PID}'' @ s) res =
   expand_loop v s s (Some ((case res of None \<Rightarrow> [] | Some x \<Rightarrow> x) @ take (length src - length (''${TASK_PID}'' @ s)) src @ v))"
proof -
  have "crinitEnvVarInnerLex (''${TASK_PID}'' @ s) = (CRINIT_TK_VAR, ''TASK_PID'', s)"
    by (simp add: match_var_def is_word_start_def c_isdigit_def)
  then show ?thesis by (subst expand_loop.simps) simp
qed

lemma expand_loop_end: "expand_loop v src [] res = Some (res, src)"
  by (simp add: expand_loop.simps)

lemma Expand_none:
  "CHR ''$'' \<notin> set p \<Longrightarrow> CHR 0x5C \<notin> set p \<Longrightarrow> crinitExpandPIDVariablesInSingleCommand p i = (0, None)"
  using expand_loop_plain [of p _ p "[]" None]
  by (simp add: crinitExpandPIDVariablesInSingleCommand_def expand_loop_end)

lemma Expand_one:
  assumes "CHR ''$'' \<notin> set p" "CHR 0x5C \<notin> set p" "CHR ''$'' \<notin> set q" "CHR 0x5C \<notin> set q"
  shows "crinitExpandPIDVariablesInSingleCommand (p @ ''${TASK_PID}'' @ q) i = (1, Some (p @ show_int i @ q))"
  using expand_loop_plain [OF assms(1,2)] expand_loop_var expand_loop_plain [OF assms(3,4), of _ q "[]"]
  by (simp add: crinitExpandPIDVariablesInSingleCommand_def expand_loop_end)

end
