(* ===== verification/ConfConv.thy ===== *)
theory ConfConv
  imports Lexers Task
begin

text \<open>
  Conversions of configuration values, \<open>src/src/confconv.c\<close>: words, integers, booleans, IO
  redirections, environment variables. Allocations of the conversions are boolean arguments.
  An array of strings with its size is a list. A string that receives a zero byte in its middle
  ends there.
\<close>

section \<open>Escape sequences\<close>

text \<open>\<open>crinitEscMap\<close>: zero for a character without an escape sequence.\<close>

definition crinitEscMap :: "char \<Rightarrow> char" where
  "crinitEscMap c =
     (if c = CHR ''n'' then CHR 0x0A else if c = CHR ''r'' then CHR 0x0D else if c = CHR ''b'' then CHR 0x08
      else if c = CHR ''a'' then CHR 0x07 else if c = CHR 0x22 then CHR 0x22 else if c = CHR 0x27 then CHR 0x27
      else if c = CHR 0x5C then CHR 0x5C else if c = CHR ''f'' then CHR 0x0C else if c = CHR ''t'' then CHR 0x09
      else if c = CHR ''v'' then CHR 0x0B else if c = CHR ''$'' then CHR ''$'' else if c = CHR '' '' then CHR '' ''
      else CHR 0x00)"

definition hex_digit :: "char \<Rightarrow> nat" where
  "hex_digit c = (let n = of_char c :: nat in if n \<le> 57 then n - 48 else if n \<le> 70 then n - 55 else n - 87)"

text \<open>Two hexadecimal digits converted to a \<open>char\<close>.\<close>

definition hex_char :: "string \<Rightarrow> char" where
  "hex_char m = char_of (16 * hex_digit (m ! 0) + hex_digit (m ! 1))"

lemma EscLex_shorter: "crinitEscLex s = (tt, m, r) \<Longrightarrow> tt \<noteq> CRINIT_TK_END \<Longrightarrow> length r < length s"
  by (cases s) (auto split: if_splits list.splits)

text \<open>
  The text with its escape sequences resolved. \<open>Ret None\<close> is a parser error; the index of a
  character above 127 is outside the table of escape sequences (\<open>char\<close> is signed).
\<close>

function crinitCopyEscaped :: "string \<Rightarrow> string option run" where
  "crinitCopyEscaped s =
     (case crinitEscLex s of (tt, m, r) \<Rightarrow>
        if tt = CRINIT_TK_END then Ret (Some [])
        else if tt = CRINIT_TK_CPY then map_ret (map_option ((#) (hd m))) (crinitCopyEscaped r)
        else if tt = CRINIT_TK_ESC then
          if (of_char (m ! 1) :: nat) > 127 then Undef
          else map_ret (map_option ((#) (crinitEscMap (m ! 1)))) (crinitCopyEscaped r)
        else if tt = CRINIT_TK_ESCX then map_ret (map_option ((#) (hex_char m))) (crinitCopyEscaped r)
        else Ret None)"
  by pat_completeness auto
termination by (relation "measure length") (auto dest!: EscLex_shorter [OF sym])

declare crinitCopyEscaped.simps [simp del]

text \<open>The string in a buffer: what is before the first zero.\<close>

definition c_string :: "string \<Rightarrow> string" where
  "c_string s = takeWhile (\<lambda>c. c \<noteq> CHR 0x00) s"

section \<open>Words\<close>

lemma lex_run_shorter: "lex_run stop s = (m, r) \<Longrightarrow> s = m @ r"
  by (induction stop s arbitrary: m r rule: lex_run.induct) (auto split: if_splits list.splits prod.splits)

lemma lex_run_rest: "lex_run stop s = (m, r) \<Longrightarrow> m \<noteq> [] \<Longrightarrow> length r < length s"
  using lex_run_shorter by fastforce

lemma lex_run_le: "lex_run stop s = (m, r) \<Longrightarrow> length r \<le> length s"
  using lex_run_shorter by fastforce

lemma ArgvLex_shorter: "crinitArgvLex dq s = (tt, m, r) \<Longrightarrow> tt \<noteq> CRINIT_TK_END \<Longrightarrow> length r < length s"
proof (cases s)
  case (Cons c t)
  assume "crinitArgvLex dq s = (tt, m, r)"
  moreover obtain m1 r1 where 1: "lex_run [CHR 0x22, CHR 0x0A] t = (m1, r1)" by fastforce
  moreover obtain m2 r2 where 2: "lex_run ([CHR '' '', CHR 0x0A, CHR 0x09] @ (if dq then [CHR 0x22] else [])) (c # t) = (m2, r2)"
    by fastforce
  ultimately show ?thesis using Cons lex_run_le [OF 1] lex_run_rest [OF 2]
    by (auto simp del: lex_run.simps split: if_splits simp: less_Suc_eq_le length_dropWhile_le)
qed simp

text \<open>
  The first loop of \<open>crinitConfConvToStrArr\<close>: the words of the text, or a parser error. The
  second loop meets the same tokens.
\<close>

function argv_words :: "bool \<Rightarrow> string \<Rightarrow> string list option" where
  "argv_words dq s =
     (case crinitArgvLex dq s of (tt, m, r) \<Rightarrow>
        if tt = CRINIT_TK_END then Some []
        else if tt = CRINIT_TK_WSPC then argv_words dq r
        else if tt = CRINIT_TK_UQSTR \<or> tt = CRINIT_TK_DQSTR then map_option ((#) m) (argv_words dq r)
        else None)"
  by pat_completeness auto
termination by (relation "measure (\<lambda>(dq, s). length s)") (auto dest!: ArgvLex_shorter [OF sym])

declare argv_words.simps [simp del]

fun copy_words :: "string list \<Rightarrow> string list option run" where
  "copy_words [] = Ret (Some [])"
| "copy_words (m # ms) =
     bind_run (crinitCopyEscaped m) (\<lambda>r. case r of
       None \<Rightarrow> Ret None
     | Some v \<Rightarrow> map_ret (map_option ((#) (c_string v))) (copy_words ms))"

definition crinitConfConvToStrArr :: "bool \<Rightarrow> bool \<Rightarrow> string \<Rightarrow> string list option run" where
  "crinitConfConvToStrArr memOk doubleQuoting confVal =
     (if \<not> memOk then Ret None
      else case argv_words doubleQuoting confVal of
        None \<Rightarrow> Ret None
      | Some ms \<Rightarrow> copy_words ms)"

section \<open>Numbers and booleans\<close>

text \<open>
  The conversions to \<open>int\<close>, \<open>unsigned int\<close>, \<open>long long\<close> and \<open>unsigned long long\<close>. The result of the
  library is only checked against the range of its own type, \<open>long\<close> or \<open>unsigned long\<close>.
\<close>

definition int_body :: "int \<times> bool \<times> string \<Rightarrow> string \<Rightarrow> int option" where
  "int_body res confVal =
     (if confVal = [] then None
      else case res of (v, erange, endptr) \<Rightarrow> if erange then None else if endptr \<noteq> [] then None else Some v)"

definition crinitConfConvToIntegerI :: "string \<Rightarrow> int \<Rightarrow> int option" where
  "crinitConfConvToIntegerI confVal base = map_option to_int (int_body (strtol base confVal) confVal)"

definition crinitConfConvToIntegerULL :: "string \<Rightarrow> int \<Rightarrow> nat option" where
  "crinitConfConvToIntegerULL confVal base = map_option nat (int_body (strtoul base confVal) confVal)"

definition crinitConfConvToIntegerUI :: "string \<Rightarrow> int \<Rightarrow> nat option" where
  "crinitConfConvToIntegerUI confVal base = map_option to_uint (int_body (strtoul base confVal) confVal)"

definition crinitConfConvToIntegerLL :: "string \<Rightarrow> int \<Rightarrow> int option" where
  "crinitConfConvToIntegerLL confVal base = int_body (strtol base confVal) confVal"

definition upper_case :: "char \<Rightarrow> char" where
  "upper_case c = (let n = of_char c :: nat in if 97 \<le> n \<and> n \<le> 122 then char_of (n - 32) else c)"

definition crinitConfConvToBool :: "string \<Rightarrow> bool option" where
  "crinitConfConvToBool confVal =
     (if map upper_case confVal = ''YES'' then Some True
      else if map upper_case confVal = ''NO'' then Some False
      else None)"

section \<open>Redirections\<close>

definition crinitIsAbsPath :: "string \<Rightarrow> bool" where
  "crinitIsAbsPath p \<longleftrightarrow> p \<noteq> [] \<and> hd p = CHR ''/''"

abbreviation (input) O_RDONLY :: int where "O_RDONLY \<equiv> 0"
abbreviation (input) O_WRONLY :: int where "O_WRONLY \<equiv> 1"
abbreviation (input) O_CREAT :: int where "O_CREAT \<equiv> 64"
abbreviation (input) O_TRUNC :: int where "O_TRUNC \<equiv> 512"
abbreviation (input) O_APPEND :: int where "O_APPEND \<equiv> 1024"

definition std_fd :: "string \<Rightarrow> int option" where
  "std_fd s = (if s = ''STDOUT'' then Some 1 else if s = ''STDERR'' then Some 2 else if s = ''STDIN'' then Some 0 else None)"

text \<open>The flags for opening a file, and whether it is a pipe, from the third parameter.\<close>

definition redir_flags :: "string list \<Rightarrow> (int \<times> bool) option" where
  "redir_flags ps =
     (if length ps \<le> 2 \<or> ps ! 2 = ''TRUNCATE'' then Some (O_TRUNC + O_CREAT, False)
      else if ps ! 2 = ''APPEND'' then Some (O_APPEND + O_CREAT, False)
      else if ps ! 2 = ''PIPE'' then Some (0, True)
      else None)"

text \<open>
  The file mode from the fourth parameter, octal. \<open>errno\<close> is not reset before the conversion:
  \<open>stale\<close> says that it is left over from an earlier error.
\<close>

definition redir_mode :: "bool \<Rightarrow> string list \<Rightarrow> nat option" where
  "redir_mode stale ps =
     (if length ps \<le> 3 then Some 420
      else case strtoul 8 (ps ! 3) of (v, erange, endptr) \<Rightarrow>
        if to_uint v = 0 \<and> (stale \<or> erange \<or> endptr = ps ! 3) then None
        else if to_uint v > 511 then None
        else Some (to_uint v))"

definition crinitConfConvToIoRedir :: "bool \<Rightarrow> bool \<Rightarrow> bool \<Rightarrow> string \<Rightarrow> crinitIoRedir option run" where
  "crinitConfConvToIoRedir memOk strdupOk stale confVal =
     bind_run (crinitConfConvToStrArr memOk True confVal) (\<lambda>r. case r of
       None \<Rightarrow> Ret None
     | Some ps \<Rightarrow>
         if length ps < 2 then Ret None
         else case std_fd (ps ! 0) of
           None \<Rightarrow> Ret None
         | Some new \<Rightarrow>
             (case std_fd (ps ! 1) of
                Some old \<Rightarrow> Ret (Some \<lparr>newFd = new, oldFd = old, path = None, oflags = O_TRUNC + O_CREAT, redirMode = 420, fifo = False\<rparr>)
              | None \<Rightarrow>
                  if \<not> crinitIsAbsPath (ps ! 1) \<or> \<not> strdupOk then Ret None
                  else case redir_flags ps of
                    None \<Rightarrow> Ret None
                  | Some (fl, ff) \<Rightarrow>
                      (case redir_mode stale ps of
                         None \<Rightarrow> Ret None
                       | Some md \<Rightarrow>
                           Ret (Some \<lparr>newFd = new, oldFd = -1, path = Some (ps ! 1),
                                      oflags = (if new = 0 then O_RDONLY else fl + O_WRONLY), redirMode = int md, fifo = ff\<rparr>))))"

section \<open>Environment variables\<close>

lemma before_last_quote_length: "before_last_quote s = Some m \<Longrightarrow> length m < length s"
proof -
  assume m: "before_last_quote s = Some m"
  let ?r = "dropWhile (\<lambda>c. c \<noteq> CHR 0x22) (rev s)"
  have "?r \<noteq> []" "length m = length ?r - 1" using m by (auto simp: before_last_quote_def Let_def split: if_splits)
  moreover have "length ?r \<le> length s" using length_dropWhile_le [of _ "rev s"] by simp
  ultimately show ?thesis by (cases ?r) auto
qed

lemma OuterLex_shorter: "crinitEnvVarOuterLex s = (tt, m, r) \<Longrightarrow> tt \<noteq> CRINIT_TK_END \<Longrightarrow> length r < length s"
  by (cases s) (auto split: if_splits option.splits simp: less_Suc_eq_le length_dropWhile_le)

text \<open>The first loop: the key, the value, and whether the text ended without an error.\<close>

function env_pair :: "string option \<Rightarrow> string option \<Rightarrow> string \<Rightarrow> string option \<times> string option \<times> bool" where
  "env_pair envKey envVal s =
     (case crinitEnvVarOuterLex s of (tt, m, r) \<Rightarrow>
        if tt = CRINIT_TK_END then (envKey, envVal, True)
        else if tt = CRINIT_TK_WSPC then env_pair envKey envVal r
        else if tt = CRINIT_TK_ENVKEY then
          if envKey \<noteq> None then (envKey, envVal, False) else env_pair (Some m) envVal r
        else if tt = CRINIT_TK_ENVVAL then
          if envKey = None \<or> envVal \<noteq> None then (envKey, envVal, False) else env_pair envKey (Some m) r
        else (envKey, envVal, False))"
  by pat_completeness auto
termination by (relation "measure (\<lambda>(k, v, s). length s)") (auto dest!: OuterLex_shorter [OF sym])

declare env_pair.simps [simp del]

text \<open>
  The second loop: escape sequences resolved, references to variables of the set replaced,
  those to unknown variables dropped.
\<close>

function env_expand :: "crinitEnvSet \<Rightarrow> string \<Rightarrow> string option run" where
  "env_expand es s =
     (case crinitEnvVarInnerLex s of (tt, m, r) \<Rightarrow>
        if tt = CRINIT_TK_END then Ret (Some [])
        else if tt = CRINIT_TK_CPY then map_ret (map_option ((#) (hd m))) (env_expand es r)
        else if tt = CRINIT_TK_ESC then
          (let c = (if (of_char (m ! 1) :: nat) < 128 then crinitEscMap (m ! 1) else CHR 0x00) in
           if c = CHR 0x00 then Ret None else map_ret (map_option ((#) c)) (env_expand es r))
        else if tt = CRINIT_TK_ESCX then map_ret (map_option ((#) (hex_char m))) (env_expand es r)
        else if tt = CRINIT_TK_VAR then
          bind_run (crinitEnvSetGet es m) (\<lambda>v.
            map_ret (map_option ((@) (case v of None \<Rightarrow> [] | Some x \<Rightarrow> x))) (env_expand es r))
        else Ret None)"
  by pat_completeness auto
termination by (relation "measure (\<lambda>(es, s). length s)") (auto dest!: InnerLex_shorter [OF sym])

declare env_expand.simps [simp del]

text \<open>\<open>m1\<close> to \<open>m3\<close> are the allocations made when the variable is stored.\<close>

definition crinitConfConvToEnvSetMember ::
  "bool \<Rightarrow> bool \<Rightarrow> bool \<Rightarrow> bool \<Rightarrow> crinitEnvSet \<Rightarrow> string \<Rightarrow> (int \<times> crinitEnvSet) run" where
  "crinitConfConvToEnvSetMember memOk m1 m2 m3 es confVal =
     (if envp es = None \<or> allocSz es = 0 then Ret (-1, es)
      else if \<not> memOk then Ret (-1, es)
      else case env_pair None None confVal of
        (Some key, Some val, True) \<Rightarrow>
          bind_run (env_expand es val) (\<lambda>r. case r of
            None \<Rightarrow> Ret (-1, es)
          | Some v \<Rightarrow> crinitEnvSetSet m1 m2 m3 es key (c_string v))
      | _ \<Rightarrow> Ret (-1, es))"

section \<open>Lemmas\<close>

subsection \<open>Words\<close>

text \<open>A word in double quotes, with escape sequences where they are needed.\<close>

definition esc_char :: "char \<Rightarrow> string" where
  "esc_char c = (if c = CHR 0x22 \<or> c = CHR 0x5C then [CHR 0x5C, c] else if c = CHR 0x0A then [CHR 0x5C, CHR ''n''] else [c])"

definition quoted :: "string \<Rightarrow> string" where
  "quoted s = CHR 0x22 # concat (map esc_char s) @ [CHR 0x22]"

fun command_line :: "string list \<Rightarrow> string" where
  "command_line [] = []"
| "command_line (a # as) = quoted a @ CHR '' '' # command_line as"

lemma lex_run_esc:
  "lex_run [CHR 0x22, CHR 0x0A] (concat (map esc_char s) @ CHR 0x22 # r) = (concat (map esc_char s), CHR 0x22 # r)"
  by (induction s) (auto simp: esc_char_def)

lemma CopyEscaped_esc: "crinitCopyEscaped (concat (map esc_char s)) = Ret (Some s)"
proof (induction s)
  case Nil
  show ?case by (subst crinitCopyEscaped.simps) simp
next
  case (Cons c s)
  then show ?case
    by (subst crinitCopyEscaped.simps) (auto simp: esc_char_def [of c] crinitEscMap_def)
qed

lemma c_string_same: "CHR 0x00 \<notin> set s \<Longrightarrow> c_string s = s"
  by (auto simp: c_string_def takeWhile_eq_all_conv)

lemma argv_words_command_line: "argv_words True (command_line as) = Some (map (\<lambda>a. concat (map esc_char a)) as)"
proof (induction as)
  case Nil
  show ?case by (subst argv_words.simps) simp
next
  case (Cons a as)
  have "crinitArgvLex True (command_line (a # as)) = (CRINIT_TK_DQSTR, concat (map esc_char a), CHR '' '' # command_line as)"
    using lex_run_esc [of a "CHR '' '' # command_line as"] by (simp add: quoted_def)
  moreover have "argv_words True (CHR '' '' # command_line as) = argv_words True (command_line as)"
    by (subst argv_words.simps) (cases as; simp add: quoted_def)
  ultimately show ?case using Cons by (subst argv_words.simps) simp
qed

lemma copy_words_esc: "\<forall>a \<in> set as. CHR 0x00 \<notin> set a \<Longrightarrow> copy_words (map (\<lambda>a. concat (map esc_char a)) as) = Ret (Some as)"
  by (induction as) (simp_all add: CopyEscaped_esc c_string_same)

text \<open>
  Every argument vector can be configured: written as quoted words it is read back as it
  is, whatever characters its arguments have.
\<close>

lemma ToStrArr_command_line:
  assumes "\<forall>a \<in> set as. CHR 0x00 \<notin> set a"
  shows "crinitConfConvToStrArr True True (command_line as) = Ret (Some as)"
  using assms by (simp add: crinitConfConvToStrArr_def argv_words_command_line copy_words_esc)

lemma lex_run_stops: "lex_run stop s = (m, r) \<Longrightarrow> fst (lex_run stop r) = []"
  by (induction stop s arbitrary: m r rule: lex_run.induct) (auto split: if_splits list.splits prod.splits)

lemma ArgvLex_uqstr:
  assumes "crinitArgvLex dq s = (CRINIT_TK_UQSTR, m, r)"
  shows "lex_run ([CHR '' '', CHR 0x0A, CHR 0x09] @ (if dq then [CHR 0x22] else [])) s = (m, r)" "m \<noteq> []"
  using assms by (cases s; auto simp del: lex_run.simps split: if_splits prod.splits)+

lemma ArgvLex_dqstr: "crinitArgvLex dq s = (CRINIT_TK_DQSTR, m, r) \<Longrightarrow> length s = length m + length r + 2"
proof (cases s)
  case (Cons c t)
  assume a: "crinitArgvLex dq s = (CRINIT_TK_DQSTR, m, r)"
  obtain m1 r1 where 1: "lex_run [CHR 0x22, CHR 0x0A] t = (m1, r1)" by fastforce
  have "m1 = m" "r1 \<noteq> []" "r = tl r1" using a Cons 1 by (auto simp del: lex_run.simps split: if_splits prod.splits)
  then show ?thesis using lex_run_shorter [OF 1] Cons by (cases r1) auto
qed simp

text \<open>What the words take in the buffer behind the array, a terminating zero each.\<close>

definition backbuf_used :: "string list \<Rightarrow> nat" where
  "backbuf_used ms = sum_list (map (\<lambda>m. length m + 1) ms)"

lemma argv_words_space:
  "argv_words dq s = Some ms \<Longrightarrow> backbuf_used ms \<le> length s + (if fst (crinitArgvLex dq s) = CRINIT_TK_UQSTR then 1 else 0)"
proof (induction "length s" arbitrary: s ms rule: less_induct)
  case less
  obtain tt m r where l: "crinitArgvLex dq s = (tt, m, r)" by (cases "crinitArgvLex dq s")
  note words = \<open>argv_words dq s = Some ms\<close>
  consider "tt = CRINIT_TK_END" | "tt = CRINIT_TK_WSPC" | "tt = CRINIT_TK_UQSTR" | "tt = CRINIT_TK_DQSTR"
    using words l by (subst (asm) argv_words.simps) (auto split: if_splits)
  then show ?case
  proof cases
    case 1
    then show ?thesis using words l by (subst (asm) argv_words.simps) (simp add: backbuf_used_def)
  next
    case 2
    then have "argv_words dq r = Some ms" using words l by (subst (asm) argv_words.simps) simp
    then show ?thesis using less(1) [of r ms] 2 ArgvLex_shorter [OF l] l by (auto split: if_splits)
  next
    case 3
    then obtain ms' where ms: "ms = m # ms'" "argv_words dq r = Some ms'"
      using words l by (subst (asm) argv_words.simps) auto
    have u: "lex_run ([CHR '' '', CHR 0x0A, CHR 0x09] @ (if dq then [CHR 0x22] else [])) s = (m, r)"
      using ArgvLex_uqstr(1) l 3 by simp
    have "fst (crinitArgvLex dq r) \<noteq> CRINIT_TK_UQSTR"
      using ArgvLex_uqstr [of dq r] lex_run_stops [OF u] by (metis fst_conv prod.collapse)
    then show ?thesis using less(1) [of r ms'] 3 ms l ArgvLex_shorter [OF l] lex_run_shorter [OF u] by (auto simp: backbuf_used_def)
  next
    case 4
    then obtain ms' where ms: "ms = m # ms'" "argv_words dq r = Some ms'"
      using words l by (subst (asm) argv_words.simps) auto
    then show ?thesis using less(1) [of r ms'] 4 l ArgvLex_dqstr [of dq s m r] by (auto simp: backbuf_used_def split: if_splits)
  qed
qed

lemma map_ret_Cons: "map_ret (map_option ((#) c)) x = Ret (Some v) \<longleftrightarrow> (\<exists>v'. x = Ret (Some v') \<and> v = c # v')"
  by (cases x) auto

lemma CopyEscaped_length: "crinitCopyEscaped s = Ret (Some v) \<Longrightarrow> length v \<le> length s"
proof (induction "length s" arbitrary: s v rule: less_induct)
  case less
  obtain tt m r where l: "crinitEscLex s = (tt, m, r)" by (cases "crinitEscLex s")
  show ?case
  proof (cases "tt = CRINIT_TK_END")
    case True
    then show ?thesis using less(2) l by (subst (asm) crinitCopyEscaped.simps) simp
  next
    case False
    then have r: "length r < length s" using EscLex_shorter [OF l] by blast
    obtain c v' where "v = c # v'" "crinitCopyEscaped r = Ret (Some v')"
      using less(2) l False by (subst (asm) crinitCopyEscaped.simps) (auto simp: map_ret_Cons split: if_splits)
    then show ?thesis using less(1) [OF r] r by fastforce
  qed
qed

lemma backbuf_used_take:
  assumes "i < length ms" "i \<le> length vs" "\<forall>j < i. length (vs ! j) \<le> length (ms ! j)"
  shows "backbuf_used (take i vs) + length (ms ! i) + 1 \<le> backbuf_used ms"
proof -
  have "list_all2 (\<lambda>v m. length v \<le> length m) (take i vs) (take i ms)"
    using assms by (simp add: list_all2_conv_all_nth)
  then have "backbuf_used (take i vs) \<le> backbuf_used (take i ms)"
    by (induction rule: list_all2_induct) (simp_all add: backbuf_used_def)
  moreover have "backbuf_used ms = backbuf_used (take i ms) + (length (ms ! i) + 1) + backbuf_used (drop (Suc i) ms)"
    by (subst id_take_nth_drop [OF assms(1)]) (simp add: backbuf_used_def)
  ultimately show ?thesis by simp
qed

text \<open>
  The words are copied into one buffer of the length of the value and one. Each word is
  first copied as it is, behind the words resolved before it, and never reaches past the end of
  the buffer.
\<close>

lemma ToStrArr_fits:
  assumes "argv_words dq confVal = Some ms" "i < length ms" "i \<le> length vs"
    and "\<forall>j < i. crinitCopyEscaped (ms ! j) = Ret (Some (vs ! j))"
  shows "sum_list (map (\<lambda>v. length v + 1) (take i vs)) + length (ms ! i) + 1 \<le> length confVal + 1"
proof -
  have "backbuf_used (take i vs) + length (ms ! i) + 1 \<le> backbuf_used ms"
    using assms CopyEscaped_length by (intro backbuf_used_take) blast+
  also have "\<dots> \<le> length confVal + 1" using argv_words_space [OF assms(1)] by (auto split: if_splits)
  finally show ?thesis by (simp add: backbuf_used_def)
qed

subsection \<open>Environment variables\<close>

lemma env_expand_plain:
  assumes "CHR ''$'' \<notin> set p" "CHR 0x5C \<notin> set p"
  shows "env_expand es (p @ s) = map_ret (map_option ((@) p)) (env_expand es s)"
  using assms
proof (induction p)
  case Nil
  then show ?case by (cases "env_expand es s") (auto simp: option.map_id0 [unfolded id_def] map_option_idI)
next
  case (Cons c p)
  then have "crinitEnvVarInnerLex (c # p @ s) = (CRINIT_TK_CPY, [c], p @ s)"
    by (auto simp: match_var_def split: list.splits)
  then show ?case using Cons by (subst env_expand.simps) (cases "env_expand es s"; simp add: option.map_comp comp_def append_Cons [abs_def]; simp add: fun_eq_iff cong: map_option_cong)
qed

lemma InnerLex_var:
  assumes "n \<noteq> []" "is_word_start (hd n)" "list_all is_word n"
  shows "crinitEnvVarInnerLex (''${'' @ n @ ''}'' @ s) = (CRINIT_TK_VAR, n, s)"
proof -
  have "takeWhile is_word (n @ CHR ''}'' # s) = n"
    using assms(3) by (auto simp: takeWhile_append list_all_iff is_word_start_def c_isdigit_def)
  then show ?thesis using assms by (simp add: match_var_def)
qed

text \<open>Names of variables, and text that stands for itself in a value.\<close>

definition var_name :: "string \<Rightarrow> bool" where
  "var_name n \<longleftrightarrow> n \<noteq> [] \<and> is_word_start (hd n) \<and> list_all is_word n"

definition plain_text :: "string \<Rightarrow> bool" where
  "plain_text s \<longleftrightarrow> CHR ''$'' \<notin> set s \<and> CHR 0x5C \<notin> set s \<and> CHR 0x00 \<notin> set s"

definition var_text :: "crinitEnvSet \<Rightarrow> string \<Rightarrow> string" where
  "var_text es n = (case env_map es n of None \<Rightarrow> [] | Some x \<Rightarrow> x)"

lemma var_name_no_equals: "var_name n \<Longrightarrow> CHR ''='' \<notin> set n"
  by (auto simp: var_name_def list_all_iff is_word_start_def c_isdigit_def)

lemma env_expand_reference:
  assumes "env_inv es" "plain_text p" "var_name n" "plain_text q"
  shows "env_expand es (p @ ''${'' @ n @ ''}'' @ q) = Ret (Some (p @ var_text es n @ q))"
proof -
  have "env_expand es (q @ []) = Ret (Some q)"
    using assms(4) by (subst env_expand_plain) (auto simp: plain_text_def env_expand.simps [of es "[]"])
  moreover have "crinitEnvSetGet es n = Ret (env_map es n)"
    using assms(1,3) by (intro es.get_abs) (simp_all add: var_name_no_equals)
  ultimately have "env_expand es (''${'' @ n @ ''}'' @ q) = Ret (Some (var_text es n @ q))"
    using assms(3) by (subst env_expand.simps, subst InnerLex_var) (simp_all add: var_name_def var_text_def)
  then show ?thesis
    using assms(2) by (subst env_expand_plain) (simp_all add: plain_text_def)
qed

lemma takeWhile_word_stop:
  assumes "list_all is_word k" "\<not> is_word c"
  shows "takeWhile is_word (k @ c # s) = k" "dropWhile is_word (k @ c # s) = c # s"
  using assms by (simp_all add: list_all_iff takeWhile_append dropWhile_append)

lemma before_last_quote_end: "before_last_quote (v @ [CHR 0x22]) = Some v"
  by (simp add: before_last_quote_def)

lemma env_pair_assignment:
  assumes "var_name k"
  shows "env_pair None None (k @ CHR '' '' # CHR 0x22 # v @ [CHR 0x22]) = (Some k, Some v, True)"
proof -
  let ?s = "CHR '' '' # CHR 0x22 # v @ [CHR 0x22]"
  obtain c t where k: "k = c # t" "is_word_start c" "list_all is_word k"
    using assms by (cases k) (auto simp: var_name_def)
  have "crinitEnvVarOuterLex (k @ ?s) = (CRINIT_TK_ENVKEY, k, ?s)"
    using takeWhile_word_stop [OF k(3), of "CHR '' ''"] k by (simp add: is_word_start_def c_isdigit_def)
  then show ?thesis
    using env_pair.simps [of "Some k" None ?s] env_pair.simps [of "Some k" "Some v" "[]"]
      env_pair.simps [of "Some k" None "CHR 0x22 # v @ [CHR 0x22]"] before_last_quote_end [of v]
    by (subst env_pair.simps) (simp add: is_word_start_def)
qed

text \<open>
  A variable set to a value that refers to another variable takes the value that one has at
  that moment, the empty text if it is unknown, and all other variables keep their values.
\<close>

lemma EnvSetMember_expands:
  assumes "env_inv es" "var_name k" "plain_text p" "var_name n" "plain_text q"
    and "CHR 0x00 \<notin> set (var_text es n)"
  shows "ret_sat (\<lambda>(r, es'). r = 0 \<and> env_inv es' \<and> env_map es' = (env_map es)(k \<mapsto> p @ var_text es n @ q))
    (crinitConfConvToEnvSetMember True True True True es (k @ '' '' @ [CHR 0x22] @ p @ ''${'' @ n @ ''}'' @ q @ [CHR 0x22]))"
proof -
  let ?v = "p @ ''${'' @ n @ ''}'' @ q" and ?x = "p @ var_text es n @ q"
  have "envp es \<noteq> None" "allocSz es \<noteq> 0"
    using assms(1) by (auto simp: env_inv_def elim!: env_wfE)
  moreover have "c_string ?x = ?x"
    using assms by (simp add: c_string_def plain_text_def takeWhile_eq_all_conv) (metis UnE set_append)
  ultimately have "crinitConfConvToEnvSetMember True True True True es (k @ '' '' @ [CHR 0x22] @ ?v @ [CHR 0x22])
      = crinitEnvSetSet True True True es k ?x"
    using env_pair_assignment [OF assms(2), of ?v] env_expand_reference [OF assms(1,3,4,5)]
    by (auto simp: crinitConfConvToEnvSetMember_def)
  then show ?thesis using es.set_abs [OF assms(1), of k ?x] assms(2) by (simp add: var_name_no_equals)
qed

end
