(* ===== verification/Capabilities.thy ===== *)
theory Capabilities
  imports ConfConv
begin

unbundle bit_operations_syntax

text \<open>
  Process capabilities, \<open>src/src/capabilities.c\<close>. A set of capabilities is a mask of 64 bits.
  \<open>capEnv\<close> is what the library and the kernel answer: the number of a named capability, the
  capabilities the kernel supports, the data of \<open>capget\<close> for a process, and the outcomes of the
  calls that change the calling process, whose sets are \<open>procCaps\<close>.
\<close>

record capData =
  capEffective :: "32 word"
  capPermitted :: "32 word"
  capInheritable :: "32 word"

record procCaps =
  inheritable :: "64 word"
  ambient :: "64 word"
  secureBits :: "32 word"

record capEnv =
  capFromName :: "string \<Rightarrow> nat option"
  capSupported :: "nat \<Rightarrow> bool"
  capget :: "int \<Rightarrow> (capData \<times> capData) option"
  ambientRaiseOk :: "nat \<Rightarrow> bool"
  capGetProcOk :: bool
  capClearOk :: bool
  capSetFlagOk :: "nat \<Rightarrow> bool"
  capSetProcOk :: bool
  getSecureOk :: bool
  setSecureOk :: bool
  capMemOk :: bool

abbreviation (input) CAP_LAST_CAP :: nat where "CAP_LAST_CAP \<equiv> 40"
abbreviation (input) SECBIT_KEEP_CAPS :: "32 word" where "SECBIT_KEEP_CAPS \<equiv> 16"

section \<open>Operations\<close>

text \<open>Shifting by 64 or more is undefined.\<close>

fun caps_of_names :: "capEnv \<Rightarrow> string list \<Rightarrow> 64 word \<Rightarrow> (int \<times> 64 word) run" where
  "caps_of_names e [] m = Ret (0, m)"
| "caps_of_names e (n # ns) m =
     (case capFromName e n of
        None \<Rightarrow> Ret (-1, m)
      | Some c \<Rightarrow> if c \<ge> 64 then Undef else caps_of_names e ns (m OR push_bit c 1))"

text \<open>The result code and the mask, which keeps its old value when the text cannot be split.\<close>

definition crinitCapConvertToBitmask :: "capEnv \<Rightarrow> 64 word \<Rightarrow> string \<Rightarrow> (int \<times> 64 word) run" where
  "crinitCapConvertToBitmask e bitmask capabilities =
     bind_run (crinitConfConvToStrArr (capMemOk e) True capabilities) (\<lambda>p. case p of
       None \<Rightarrow> Ret (-1, bitmask)
     | Some ns \<Rightarrow> caps_of_names e ns 0)"

definition crinitProcCapGet :: "capEnv \<Rightarrow> int \<Rightarrow> (capData \<times> capData) option" where
  "crinitProcCapGet e p = capget e p"

definition crinitCapGetInheritable :: "capEnv \<Rightarrow> int \<Rightarrow> (64 word) option" where
  "crinitCapGetInheritable e p =
     (case crinitProcCapGet e p of
        None \<Rightarrow> None
      | Some (lo, hi) \<Rightarrow> Some (ucast (capInheritable lo) OR push_bit 32 (ucast (capInheritable hi))))"

definition crinitCapIsCapsetEffective :: "capEnv \<Rightarrow> nat \<Rightarrow> int \<Rightarrow> bool" where
  "crinitCapIsCapsetEffective e c p =
     (if \<not> capSupported e c then False
      else case crinitProcCapGet e p of
        None \<Rightarrow> False
      | Some (lo, hi) \<Rightarrow> (capEffective (if c div 32 = 0 then lo else hi) AND push_bit (c mod 32) 1) \<noteq> 0)"

text \<open>The loop of \<open>crinitCapSetAmbient\<close> over the capabilities left; it stops at the first error.\<close>

fun raise_ambient :: "capEnv \<Rightarrow> 64 word \<Rightarrow> nat list \<Rightarrow> procCaps \<Rightarrow> int \<times> procCaps" where
  "raise_ambient e capMask [] p = (0, p)"
| "raise_ambient e capMask (c # cs) p =
     (if capMask AND push_bit c 1 = 0 then raise_ambient e capMask cs p
      else if \<not> capSupported e c then (-1, p)
      else if \<not> ambientRaiseOk e c then (-1, p)
      else raise_ambient e capMask cs (p\<lparr>ambient := ambient p OR push_bit c 1\<rparr>))"

definition crinitCapSetAmbient :: "capEnv \<Rightarrow> 64 word \<Rightarrow> procCaps \<Rightarrow> int \<times> procCaps" where
  "crinitCapSetAmbient e capMask p =
     (if drop_bit (CAP_LAST_CAP + 1) capMask \<noteq> 0 then (-1, p)
      else raise_ambient e capMask [0..<CAP_LAST_CAP + 1] p)"

fun set_flags :: "capEnv \<Rightarrow> 64 word \<Rightarrow> nat list \<Rightarrow> 64 word \<Rightarrow> int \<times> 64 word" where
  "set_flags e capMask [] st = (0, st)"
| "set_flags e capMask (c # cs) st =
     (if capMask AND push_bit c 1 = 0 then set_flags e capMask cs st
      else if \<not> capSupported e c then (-1, st)
      else if \<not> capSetFlagOk e c then (-1, st)
      else set_flags e capMask cs (st OR push_bit c 1))"

text \<open>The state of capabilities is the part the code changes, the inheritable set.\<close>

definition crinitSetCapStateInheritable :: "capEnv \<Rightarrow> 64 word \<Rightarrow> 64 word \<Rightarrow> int \<times> 64 word" where
  "crinitSetCapStateInheritable e capMask st =
     (if drop_bit (CAP_LAST_CAP + 1) capMask \<noteq> 0 then (-1, st)
      else set_flags e capMask [0..<CAP_LAST_CAP + 1] st)"

text \<open>With a new inheritable set the kernel takes out of the ambient set what is not in it.\<close>

definition crinitCapSetInheritable :: "capEnv \<Rightarrow> 64 word \<Rightarrow> procCaps \<Rightarrow> int \<times> procCaps" where
  "crinitCapSetInheritable e capMask p =
     (if \<not> capGetProcOk e then (-1, p)
      else if \<not> capClearOk e then (-1, p)
      else case crinitSetCapStateInheritable e capMask 0 of (r, st) \<Rightarrow>
        if r = -1 then (-1, p)
        else if \<not> capSetProcOk e then (-1, p)
        else (0, p\<lparr>inheritable := st, ambient := ambient p AND st\<rparr>))"

definition crinitCapRetainPermitted :: "capEnv \<Rightarrow> procCaps \<Rightarrow> int \<times> procCaps" where
  "crinitCapRetainPermitted e p =
     (if \<not> getSecureOk e then (-1, p)
      else if \<not> setSecureOk e then (-1, p)
      else (0, p\<lparr>secureBits := secureBits p OR SECBIT_KEEP_CAPS\<rparr>))"

section \<open>Lemmas\<close>

text \<open>The mask of a list of names has exactly the bits of the named capabilities.\<close>

lemma caps_of_names_bits:
  assumes "\<forall>n \<in> set ns. \<exists>c < 64. capFromName e n = Some c"
  shows "ret_sat (\<lambda>(r, m'). r = 0 \<and> (\<forall>i < 64. bit m' i \<longleftrightarrow> bit m i \<or> Some i \<in> capFromName e ` set ns)) (caps_of_names e ns m)"
  using assms
proof (induction ns arbitrary: m)
  case (Cons n ns)
  then obtain c where c: "capFromName e n = Some c" "c < 64" by auto
  then show ?case using Cons.IH [of "m OR push_bit c 1"] Cons.prems
    by (auto elim!: ret_sat_mono simp: bit_or_iff bit_exp_iff)
qed simp

lemma test_bit: "(m AND 2 ^ c = (0 :: 64 word)) \<longleftrightarrow> \<not> bit m c"
proof
  assume z: "m AND 2 ^ c = 0"
  show "\<not> bit m c"
  proof
    assume b: "bit m c"
    then have "c < 64" using bit_imp_le_length [OF b] by simp
    with b have "bit (m AND 2 ^ c) c" by (simp add: bit_and_iff bit_exp_iff)
    with z show False by simp
  qed
next
  assume "\<not> bit m c"
  then show "m AND 2 ^ c = 0"
    by (intro bit_word_eqI) (auto simp: bit_and_iff bit_exp_iff)
qed

lemma raised_bits:
  assumes "\<forall>c \<in> set cs. c < 64" "\<forall>c \<in> set cs. bit capMask c \<longrightarrow> capSupported e c \<and> ambientRaiseOk e c"
  shows "\<exists>a. raise_ambient e capMask cs p = (0, p\<lparr>ambient := a\<rparr>) \<and>
    (\<forall>i < 64. bit a i \<longleftrightarrow> bit (ambient p) i \<or> i \<in> set cs \<and> bit capMask i)"
  using assms
proof (induction cs arbitrary: p)
  case (Cons c cs)
  then have c: "c < 64" "bit capMask c \<longrightarrow> capSupported e c \<and> ambientRaiseOk e c" by auto
  show ?case
  proof (cases "bit capMask c")
    case True
    then show ?thesis using Cons.IH [of "p\<lparr>ambient := ambient p OR 2 ^ c\<rparr>"] Cons.prems c
      by (auto simp: test_bit bit_or_iff bit_exp_iff)
  next
    case False
    then have "raise_ambient e capMask (c # cs) p = raise_ambient e capMask cs p" by (simp add: test_bit)
    moreover have "i \<in> set (c # cs) \<and> bit capMask i \<longleftrightarrow> i \<in> set cs \<and> bit capMask i" for i using False by auto
    ultimately show ?thesis using Cons.IH [of p] Cons.prems by simp
  qed
next
  case Nil
  show ?case by (rule exI [of _ "ambient p"]) simp
qed

lemma flag_bits:
  assumes "\<forall>c \<in> set cs. c < 64" "\<forall>c \<in> set cs. bit capMask c \<longrightarrow> capSupported e c \<and> capSetFlagOk e c"
  shows "\<exists>a. set_flags e capMask cs st = (0, a) \<and> (\<forall>i < 64. bit a i \<longleftrightarrow> bit st i \<or> i \<in> set cs \<and> bit capMask i)"
  using assms
proof (induction cs arbitrary: st)
  case (Cons c cs)
  then have c: "c < 64" "bit capMask c \<longrightarrow> capSupported e c \<and> capSetFlagOk e c" by auto
  show ?case
  proof (cases "bit capMask c")
    case True
    then show ?thesis using Cons.IH [of "st OR 2 ^ c"] Cons.prems c
      by (auto simp: test_bit bit_or_iff bit_exp_iff)
  next
    case False
    then have "set_flags e capMask (c # cs) st = set_flags e capMask cs st" by (simp add: test_bit)
    moreover have "i \<in> set (c # cs) \<and> bit capMask i \<longleftrightarrow> i \<in> set cs \<and> bit capMask i" for i using False by auto
    ultimately show ?thesis using Cons.IH [of st] Cons.prems by simp
  qed
qed auto

lemma in_range_bits:
  assumes "drop_bit 41 m = (0 :: 64 word)" "bit m i"
  shows "i < 41"
proof (rule ccontr)
  assume "\<not> i < 41"
  then have "bit (drop_bit 41 m) (i - 41)" using assms(2) by (simp add: bit_drop_bit_eq)
  with assms(1) show False by simp
qed

text \<open>Capabilities the kernel grants: what the calls need of it.\<close>

definition grants :: "capEnv \<Rightarrow> 64 word \<Rightarrow> bool" where
  "grants e m \<longleftrightarrow> drop_bit (CAP_LAST_CAP + 1) m = 0 \<and> capGetProcOk e \<and> capClearOk e \<and> capSetProcOk e \<and> getSecureOk e \<and> setSecureOk e \<and>
     (\<forall>c \<le> CAP_LAST_CAP. bit m c \<longrightarrow> capSupported e c \<and> ambientRaiseOk e c \<and> capSetFlagOk e c)"

lemma CapSetAmbient_exact:
  assumes "grants e m"
  shows "crinitCapSetAmbient e m p = (0, p\<lparr>ambient := ambient p OR m\<rparr>)"
proof -
  obtain a where a: "raise_ambient e m [0..<41] p = (0, p\<lparr>ambient := a\<rparr>)"
    "\<forall>i < 64. bit a i \<longleftrightarrow> bit (ambient p) i \<or> i < 41 \<and> bit m i"
    using raised_bits [of "[0..<41]" m e p] assms by (auto simp: grants_def)
  have "a = ambient p OR m"
    using a(2) in_range_bits [of m] assms by (intro bit_word_eqI) (auto simp: bit_or_iff grants_def)
  then show ?thesis using a(1) assms by (simp add: crinitCapSetAmbient_def grants_def del: upt_rec_numeral)
qed

lemma CapSetInheritable_exact:
  assumes "grants e m"
  shows "crinitCapSetInheritable e m p = (0, p\<lparr>inheritable := m, ambient := ambient p AND m\<rparr>)"
proof -
  obtain a where a: "set_flags e m [0..<41] 0 = (0, a)" "\<forall>i < 64. bit a i \<longleftrightarrow> i < 41 \<and> bit m i"
    using flag_bits [of "[0..<41]" m e 0] assms by (auto simp: grants_def)
  have "a = m" using a(2) in_range_bits [of m] assms by (intro bit_word_eqI) (auto simp: grants_def)
  then show ?thesis using a(1) assms
    by (simp add: crinitCapSetInheritable_def crinitSetCapStateInheritable_def grants_def del: upt_rec_numeral)
qed

text \<open>The calls never leave more than the mask in the inheritable set, whatever fails.\<close>

lemma CapSetInheritable_out_of_range: "drop_bit 41 m \<noteq> 0 \<Longrightarrow> crinitCapSetInheritable e m p = (-1, p)"
  by (simp add: crinitCapSetInheritable_def crinitSetCapStateInheritable_def)

definition sampleCapEnv :: capEnv where
  "sampleCapEnv = \<lparr>capFromName = (\<lambda>n. if n = ''CAP_KILL'' then Some 5 else None), capSupported = (\<lambda>_. True),
     capget = (\<lambda>_. None), ambientRaiseOk = (\<lambda>_. True), capGetProcOk = True, capClearOk = True,
     capSetFlagOk = (\<lambda>_. True), capSetProcOk = True, getSecureOk = True, setSecureOk = True, capMemOk = True\<rparr>"

end
