(* ===== verification/ProcDip.thy ===== *)
theory ProcDip
  imports TaskDB Lexers Capabilities
begin

unbundle bit_operations_syntax

text \<open>
  Process dispatch, \<open>src/src/procdip.c\<close> in a build with capabilities and cgroups: the thread
  that \<open>spawnFunc\<close> starts for a task. It duplicates the task, runs its commands one after the
  other, and reports to the task database. Everything the operating system answers is in
  \<open>spawnEnv\<close>. While the thread waits for a command other threads run: \<open>waitid\<close> gives the
  outcome of the wait together with the state of the daemon they leave behind.
\<close>

section \<open>Inhibition of waiting\<close>

definition crinitSetInhibitWait :: "world \<Rightarrow> bool \<Rightarrow> (int \<times> world) run" where
  "crinitSetInhibitWait w inh =
     bind_run (pthread_mutex_lock (waitInhibitLock w)) (\<lambda>(e, m).
       if e \<noteq> 0 then Ret (-1, w\<lparr>waitInhibitLock := m\<rparr>)
       else case pthread_mutex_unlock m of (u, m) \<Rightarrow>
         Ret (if u \<noteq> 0 then -1 else 0, w\<lparr>inhibitWait := inh, waitInhibitLock := m\<rparr>))"

text \<open>
  The caller sleeps on the condition variable as long as the inhibition lasts. An element of the list is what the other
  threads do from the begin of a wait to the time the caller has been woken up; the mutex is free meanwhile. When no
  further wake-up comes the call does not return.
\<close>

fun inhibit_loop :: "(world \<Rightarrow> world) list \<Rightarrow> world \<Rightarrow> world run" where
  "inhibit_loop [] w = (if inhibitWait w then Blocked else Ret w)"
| "inhibit_loop (f # fs) w =
     (if \<not> inhibitWait w then Ret w
      else let w = f (w\<lparr>waitInhibitLock := snd (pthread_mutex_unlock (waitInhibitLock w))\<rparr>) in
        bind_run (pthread_mutex_lock (waitInhibitLock w)) (\<lambda>(_, m). inhibit_loop fs (w\<lparr>waitInhibitLock := m\<rparr>)))"

definition crinitBlockOnWaitInhibit :: "(world \<Rightarrow> world) list \<Rightarrow> world \<Rightarrow> (int \<times> world) run" where
  "crinitBlockOnWaitInhibit wakes w =
     bind_run (pthread_mutex_lock (waitInhibitLock w)) (\<lambda>(e, m).
       let w = w\<lparr>waitInhibitLock := m\<rparr> in
       if e \<noteq> 0 then Ret (-1, w)
       else bind_run (inhibit_loop wakes w) (\<lambda>w. case pthread_mutex_unlock (waitInhibitLock w) of (u, m) \<Rightarrow>
         Ret (if u \<noteq> 0 then -1 else 0, w\<lparr>waitInhibitLock := m\<rparr>)))"

lemma BlockOnWaitInhibit_free:
  "waitInhibitLock w = Unlocked \<Longrightarrow> \<not> inhibitWait w \<Longrightarrow> crinitBlockOnWaitInhibit wakes w = Ret (0, w)"
  by (cases wakes) (simp_all add: crinitBlockOnWaitInhibit_def)

abbreviation (input) EINTR :: int where "EINTR \<equiv> 4"
abbreviation (input) ECHILD :: int where "ECHILD \<equiv> 10"

text \<open>
  The loop around \<open>waitpid\<close>. The list has the outcomes of the calls: \<open>None\<close> for success,
  which leaves \<open>errno\<close> as it was, or the error number. The result is \<open>errno\<close> after the loop.
\<close>

fun waitpid_loop :: "int \<Rightarrow> int option list \<Rightarrow> int run" where
  "waitpid_loop e [] = Blocked"
| "waitpid_loop e (r # rs) =
     (let e = (case r of None \<Rightarrow> e | Some e' \<Rightarrow> e') in
      if e = EINTR then waitpid_loop e rs else Ret e)"

definition crinitReapPid :: "(world \<Rightarrow> world) list \<Rightarrow> int option list \<Rightarrow> world \<Rightarrow> int \<Rightarrow> (int \<times> world) run" where
  "crinitReapPid wakes rs w p =
     bind_run (crinitBlockOnWaitInhibit wakes w) (\<lambda>(r, w).
       if r = -1 then Ret (-1, w)
       else bind_run (waitpid_loop 0 rs) (\<lambda>e.
         let w = w\<lparr>trace := trace w @ [Reaped p]\<rparr>
         in if e = ECHILD then Ret (0, w) else if e \<noteq> 0 then Ret (-1, w) else Ret (0, w)))"

section \<open>Redirections\<close>

datatype waitOutcome = WaitFailed | Exited int | Signaled

record spawnEnv =
  dupMallocOk :: bool
  dupCopyFault :: copyFault
  envGrowOk :: bool
  envMallocOk :: bool
  envFmtOk :: bool
  launcherStrdupOk :: bool
  capsStrdupOk :: bool
  spawnCaps :: capEnv
  spawnCg :: cgroupEnv
  launchMemOk :: bool
  fileActInitOk :: "nat \<Rightarrow> bool"
  fileActAddOk :: "fileAction \<Rightarrow> bool"
  mkfifoErr :: "string \<Rightarrow> int"
  statFifo :: "string \<Rightarrow> bool option"
  posixSpawn :: "nat \<Rightarrow> int \<times> int"
  waitid :: "nat \<Rightarrow> world \<Rightarrow> waitOutcome \<times> world"
  waitWakes :: "(world \<Rightarrow> world) list"
  waitpidRes :: "int option list"
  clockRun :: "timespec option"
  clockEnd :: "timespec option"

definition crinitEnsureFifo :: "spawnEnv \<Rightarrow> string option \<Rightarrow> int" where
  "crinitEnsureFifo s p =
     (case p of
        None \<Rightarrow> -1
      | Some f \<Rightarrow>
          if mkfifoErr s f \<noteq> 0 then
            if mkfifoErr s f = EEXIST then
              (case statFifo s f of None \<Rightarrow> -1 | Some isFifo \<Rightarrow> if \<not> isFifo then -1 else 0)
            else -1
          else 0)"

definition crinitPosixSpawnAddIOFileAction ::
  "spawnEnv \<Rightarrow> fileAction list \<Rightarrow> crinitIoRedir \<Rightarrow> int \<times> fileAction list" where
  "crinitPosixSpawnAddIOFileAction s fa ior =
     (let add = (\<lambda>a. if \<not> fileActAddOk s a then (-1, fa) else (0, fa @ [a])) in
      if newFd ior \<noteq> 1 \<and> newFd ior \<noteq> 2 \<and> newFd ior \<noteq> 0 then (-1, fa)
      else case path ior of
        Some f \<Rightarrow> add (AddOpen (newFd ior) f (oflags ior) (redirMode ior))
      | None \<Rightarrow>
          if oldFd ior = -1 then (-1, fa)
          else add (AddDup2 (oldFd ior) (newFd ior)))"

fun crinitPrepareIoRedirectionsForSpawn ::
  "spawnEnv \<Rightarrow> crinitIoRedir list \<Rightarrow> fileAction list \<Rightarrow> int \<times> fileAction list" where
  "crinitPrepareIoRedirectionsForSpawn s [] fa = (0, fa)"
| "crinitPrepareIoRedirectionsForSpawn s (r # rs) fa =
     (if fifo r \<and> crinitEnsureFifo s (path r) = -1 then (-1, fa)
      else case crinitPosixSpawnAddIOFileAction s fa r of (e, fa) \<Rightarrow>
        if e = -1 then (-1, fa) else crinitPrepareIoRedirectionsForSpawn s rs fa)"

section \<open>Launcher\<close>

text \<open>User and group ids are unsigned and printed with \<open>%d\<close>.\<close>

definition show_id :: "nat \<Rightarrow> string" where
  "show_id n = show_int (to_int (int n))"

definition crinitCreateSupGroupsParamString :: "nat list \<Rightarrow> string" where
  "crinitCreateSupGroupsParamString gs = concat (map (\<lambda>g. CHR '','' # show_id g) gs)"

definition cgroup_param :: "crinitCgroup \<Rightarrow> string" where
  "cgroup_param cg = (case parent cg of None \<Rightarrow> cgName cg | Some p \<Rightarrow> p @ ''/'' @ cgName cg)"

text \<open>
  The arguments for the launcher. The text of the arguments behind \<open>--\<close> is "copied" from the
  array of pointers instead of the text they point to: as many bytes as the text has are read
  from an array of \<open>argc + 1\<close> pointers of 8 bytes. The copy is not used afterwards, but
  reading past the end of the array is undefined.
\<close>

definition crinitCreateLauncherParameters ::
  "spawnEnv \<Rightarrow> crinitTaskCmd \<Rightarrow> crinitTask \<Rightarrow> string \<Rightarrow> world \<Rightarrow> (int \<times> string list \<times> world) run" where
  "crinitCreateLauncherParameters s taskCmd tCopy cmd w =
     (if argv taskCmd = [] then Undef
      else bind_run (crinitGlobOptGetString (capsStrdupOk s) DefaultCaps (globOpts w)) (\<lambda>(r, caps, g).
        let w = w\<lparr>globOpts := g\<rparr>; caps = (if r = -1 then [] else the caps) in
        bind_run (crinitCapConvertToBitmask (spawnCaps s) 0 caps) (\<lambda>(r, capMask).
          if r \<noteq> 0 then Ret (-1, [], w)
          else
            let capEff = (capMask AND NOT (capabilitiesClear tCopy)) OR capabilitiesSet tCopy;
                targetParamTotalLength = sum_list (map (\<lambda>a. length a + 1) (tl (argv taskCmd)))
            in if \<not> launchMemOk s then Ret (-1, [], w)
               else if targetParamTotalLength > 8 * (argc taskCmd + 1) then Undef
               else Ret (0,
                 [cmd, ''--cmd='' @ hd (argv taskCmd), ''--user='' @ show_id (user tCopy),
                  ''--group='' @ show_id (group tCopy) @ crinitCreateSupGroupsParamString (supGroups tCopy),
                  ''--caps='' @ show_hex (unat capEff)] @
                 (case cgroup tCopy of None \<Rightarrow> [] | Some cg \<Rightarrow> [''--cgroup='' @ cgroup_param cg]) @
                 [''--''] @ tl (argv taskCmd), w))))"

section \<open>Running the commands of a task\<close>

text \<open>Result code, the process id that was stored, and the world.\<close>

definition crinitSpawnSingleCommand ::
  "spawnEnv \<Rightarrow> nat \<Rightarrow> string \<Rightarrow> string list \<Rightarrow> string list \<Rightarrow> fileAction list \<Rightarrow> world \<Rightarrow> int \<times> int \<times> world" where
  "crinitSpawnSingleCommand s i cmd av env fa w =
     (case posixSpawn s i of (e, p) \<Rightarrow>
        if e \<noteq> 0 \<or> p = -1 then (-1, p, w)
        else (0, p, w\<lparr>trace := trace w @ [ProcessStarted cmd av env fa]\<rparr>))"

text \<open>Reports of the first command to the database: the task runs.\<close>

definition report_running :: "spawnEnv \<Rightarrow> crinitTask \<Rightarrow> world \<Rightarrow> (int \<times> world) run" where
  "report_running s tCopy w =
     bind_run (on_db (\<lambda>ctx. crinitTaskDBSetTaskState (clockRun s) ctx CRINIT_TASK_STATE_RUNNING (name tCopy)) w) (\<lambda>(r, w).
       if r = -1 then Ret (-1, w)
       else bind_run (crinitTaskDBFulfillDep w \<lparr>depName = name tCopy, event = CRINIT_TASK_EVENT_RUNNING\<rparr> None) (\<lambda>(r, w).
         if r = -1 then Ret (-1, w)
         else bind_run (crinitTaskDBProvideFeature w tCopy CRINIT_TASK_STATE_RUNNING) (\<lambda>(_, w). Ret (0, w))))"

text \<open>One round of the loop of \<open>crinitHandleCommands\<close>, for the command with index \<open>i\<close>.\<close>

definition handle_command ::
  "spawnEnv \<Rightarrow> crinitTask \<Rightarrow> string option \<Rightarrow> bool \<Rightarrow> nat \<Rightarrow> crinitTaskCmd \<Rightarrow> int \<Rightarrow> world \<Rightarrow>
   (int \<times> int \<times> world) run" where
  "handle_command s tCopy launcher deactivateFileactions i c p w =
     (if \<not> fileActInitOk s i then Ret (-1, p, w)
      else case crinitPrepareIoRedirectionsForSpawn s (redirs tCopy) [] of (e, fa) \<Rightarrow>
        if e = -1 then Ret (-1, p, w)
        else bind_run
          (case launcher of
             None \<Rightarrow> if argv c = [] then Undef else Ret (0, hd (argv c), argv c, w)
           | Some cmd \<Rightarrow> map_ret (\<lambda>(e, av, w). (e, cmd, av, w)) (crinitCreateLauncherParameters s c tCopy cmd w))
          (\<lambda>(e, cmd, av, w).
            if e \<noteq> 0 then Ret (-1, p, w)
            else case crinitSpawnSingleCommand s i cmd av
                (case envp (taskEnv tCopy) of None \<Rightarrow> [] | Some xs \<Rightarrow> env_entries xs)
                (if deactivateFileactions then [] else fa) w of (e, p, w) \<Rightarrow>
              if e = -1 then Ret (-1, p, w)
              else bind_run (on_db (\<lambda>ctx. crinitTaskDBSetTaskPID ctx p (name tCopy)) w) (\<lambda>(r, w).
                if r = -1 then Ret (-1, p, w)
                else bind_run (if i = 0 then report_running s tCopy w else Ret (0, w)) (\<lambda>(r, w).
                  if r = -1 then Ret (-1, p, w)
                  else case waitid s i w of (out, w) \<Rightarrow>
                    if out \<noteq> Exited 0 then Ret (-1, p, w)
                    else bind_run (on_db (\<lambda>ctx. crinitTaskDBSetTaskPID ctx (-1) (name tCopy)) w) (\<lambda>(_, w).
                         bind_run (crinitReapPid (waitWakes s) (waitpidRes s) w p) (\<lambda>(_, w). Ret (0, p, w)))))))"

fun handle_loop ::
  "spawnEnv \<Rightarrow> crinitTask \<Rightarrow> string option \<Rightarrow> bool \<Rightarrow> nat \<Rightarrow> crinitTaskCmd list \<Rightarrow> int \<Rightarrow> world \<Rightarrow>
   (int \<times> int \<times> world) run" where
  "handle_loop s tCopy launcher noAct i [] p w = Ret (0, p, w)"
| "handle_loop s tCopy launcher noAct i (c # cs) p w =
     bind_run (handle_command s tCopy launcher noAct i c p w) (\<lambda>(r, p, w).
       if r = -1 then Ret (-1, p, w) else handle_loop s tCopy launcher noAct (Suc i) cs p w)"

definition crinitHandleCommands ::
  "spawnEnv \<Rightarrow> crinitTaskCmd list \<Rightarrow> crinitTask \<Rightarrow> bool \<Rightarrow> world \<Rightarrow> (int \<times> int \<times> world) run" where
  "crinitHandleCommands s cs tCopy deactivateFileactions w =
     bind_run (crinitGlobOptGetString (launcherStrdupOk s) LauncherCmd (globOpts w)) (\<lambda>(r, cmd, g).
       let w = w\<lparr>globOpts := g\<rparr> in
       if r \<noteq> 0 then Ret (-1, -1, w)
       else let useLauncher = (user tCopy \<noteq> 0 \<or> group tCopy \<noteq> 0 \<or> cgroup tCopy \<noteq> None) in
         case cgroup tCopy of
           Some cg \<Rightarrow>
             (case crinitCGroupConfigure (spawnCg s) cg of (r, _, ops) \<Rightarrow>
                let w = w\<lparr>trace := trace w @ map CgroupChanged ops\<rparr> in
                if r \<noteq> 0 then Ret (-1, -1, w)
                else handle_loop s tCopy (if useLauncher then cmd else None) deactivateFileactions 0 cs (-1) w)
         | None \<Rightarrow> handle_loop s tCopy (if useLauncher then cmd else None) deactivateFileactions 0 cs (-1) w)"

text \<open>Arguments of a command; \<open>None\<close> when one of them cannot be expanded.\<close>

fun expand_args :: "int \<Rightarrow> string list \<Rightarrow> string list option" where
  "expand_args p [] = Some []"
| "expand_args p (a # as) =
     (case crinitExpandPIDVariablesInSingleCommand a p of (r, res) \<Rightarrow>
        if r = -1 then None
        else map_option ((#) (case res of None \<Rightarrow> a | Some x \<Rightarrow> x)) (expand_args p as))"

fun crinitExpandPIDVariablesInCommands :: "crinitTaskCmd list \<Rightarrow> int \<Rightarrow> crinitTaskCmd list" where
  "crinitExpandPIDVariablesInCommands [] p = []"
| "crinitExpandPIDVariablesInCommands (c # cs) p =
     (if argc c > 0 then
        (case expand_args p (argv c) of
           None \<Rightarrow> c # cs
         | Some as \<Rightarrow> c\<lparr>argv := as\<rparr> # crinitExpandPIDVariablesInCommands cs p)
      else c # crinitExpandPIDVariablesInCommands cs p)"

section \<open>The dispatch thread\<close>

text \<open>
  The task handed to the thread: an entry of the database (when started by
  \<open>crinitTaskDBSpawnReady\<close>) or a task of the caller's own (when started for stop commands).
\<close>

datatype taskRef = InDB nat | Own crinitTask

fun deref :: "taskRef \<Rightarrow> crinitTaskDB \<Rightarrow> crinitTask run" where
  "deref (InDB i) ctx = (if i < length (taskSet ctx) then Ret (taskSet ctx ! i) else Undef)"
| "deref (Own t) ctx = Ret t"

fun write_back :: "taskRef \<Rightarrow> crinitTask \<Rightarrow> crinitTaskDB \<Rightarrow> crinitTaskDB" where
  "write_back (InDB i) t ctx = upd_task i (\<lambda>_. t) ctx"
| "write_back (Own _) t ctx = ctx"

definition report :: "timespec option \<Rightarrow> crinitTask \<Rightarrow> crinitTaskState \<Rightarrow> world \<Rightarrow> (int \<times> world) run" where
  "report now tCopy s w = on_db (\<lambda>ctx. crinitTaskDBSetTaskState now ctx s (name tCopy)) w"

text \<open>The part from the end of the chain of commands on; results of the calls are only logged.\<close>

definition thread_done :: "spawnEnv \<Rightarrow> crinitTask \<Rightarrow> world \<Rightarrow> world run" where
  "thread_done s tCopy w =
     bind_run (report (clockEnd s) tCopy CRINIT_TASK_STATE_DONE w) (\<lambda>(_, w).
     bind_run (crinitTaskDBFulfillDep w \<lparr>depName = name tCopy, event = CRINIT_TASK_EVENT_DONE\<rparr> None) (\<lambda>(_, w).
     bind_run (crinitTaskDBProvideFeature w tCopy CRINIT_TASK_STATE_DONE) (\<lambda>(_, w). Ret w)))"

definition threadExitFail :: "spawnEnv \<Rightarrow> crinitTask \<Rightarrow> int \<Rightarrow> world \<Rightarrow> world run" where
  "threadExitFail s tCopy p w =
     bind_run (report (clockEnd s) tCopy CRINIT_TASK_STATE_FAILED w) (\<lambda>(_, w).
     bind_run (on_db (\<lambda>ctx. crinitTaskDBSetTaskPID ctx (-1) (name tCopy)) w) (\<lambda>(_, w).
     bind_run (if p > 0 then crinitReapPid (waitWakes s) (waitpidRes s) w p else Ret (0, w)) (\<lambda>(_, w).
     bind_run (crinitTaskDBFulfillDep w \<lparr>depName = name tCopy, event = CRINIT_TASK_EVENT_FAILED\<rparr> None) (\<lambda>(_, w).
     bind_run (crinitTaskDBProvideFeature w tCopy CRINIT_TASK_STATE_FAILED) (\<lambda>(_, w). Ret w)))))"

fun remove_timers :: "crinitTaskDep list \<Rightarrow> crinitTimerDB \<Rightarrow> crinitTimerDB run" where
  "remove_timers [] pool = Ret pool"
| "remove_timers (d # ds) pool =
     bind_run (if depName d = ''@timer'' then crinitTimerDBRemoveTimer pool (event d) else Ret pool)
       (remove_timers ds)"

text \<open>Without a copy (\<open>None\<close>) the exit reads through a null pointer.\<close>

definition threadExit :: "crinitTask option \<Rightarrow> world \<Rightarrow> world run" where
  "threadExit copy w =
     (case copy of
        None \<Rightarrow> Undef
      | Some tCopy \<Rightarrow>
          bind_run
            (if opts tCopy AND CRINIT_TASK_OPT_TRIGGER_REARM \<noteq> 0
             then map_ret snd (on_db (\<lambda>ctx. crinitTaskRearmTrigger ctx (name tCopy)) w)
             else map_ret (\<lambda>pool. w\<lparr>timerPool := pool\<rparr>) (remove_timers (trig tCopy) (timerPool w)))
            (\<lambda>w. bind_run (crinitFreeTask tCopy) (\<lambda>_. Ret w)))"

definition thread_body :: "spawnEnv \<Rightarrow> crinitTask \<Rightarrow> crinitDispatchThreadMode \<Rightarrow> world \<Rightarrow> (crinitTask \<times> world) run" where
  "thread_body s tCopy mode w =
     bind_run (crinitEnvSetSet (envGrowOk s) (envMallocOk s) (envFmtOk s) (taskEnv tCopy) ''CRINIT_TASK_NAME'' (name tCopy))
       (\<lambda>(r, env).
         let tCopy = tCopy\<lparr>taskEnv := env\<rparr> in
         if r = -1 then map_ret (Pair tCopy) (threadExitFail s tCopy (-1) w)
         else let tCopy = (case mode of
                  CRINIT_DISPATCH_THREAD_MODE_START \<Rightarrow> tCopy
                | CRINIT_DISPATCH_THREAD_MODE_STOP \<Rightarrow>
                    tCopy\<lparr>stopCmds := crinitExpandPIDVariablesInCommands (stopCmds tCopy) (pid tCopy)\<rparr>);
              cs = (case mode of CRINIT_DISPATCH_THREAD_MODE_START \<Rightarrow> cmds tCopy
                      | CRINIT_DISPATCH_THREAD_MODE_STOP \<Rightarrow> stopCmds tCopy)
         in bind_run (crinitHandleCommands s cs tCopy (mode = CRINIT_DISPATCH_THREAD_MODE_STOP) w) (\<lambda>(r, p, w).
              map_ret (Pair tCopy)
                (if r \<noteq> 0 then threadExitFail s tCopy p w else thread_done s tCopy w)))"

definition crinitDispatchThreadFunc ::
  "spawnEnv \<Rightarrow> taskRef \<Rightarrow> crinitDispatchThreadMode \<Rightarrow> world \<Rightarrow> world run" where
  "crinitDispatchThreadFunc s t mode w =
     bind_run (db_lock (taskDB w)) (\<lambda>(e, ctx).
       if e \<noteq> 0 then threadExit None (w\<lparr>taskDB := ctx\<rparr>)
       else bind_run (deref t ctx) (\<lambda>orig.
            bind_run (crinitTaskDup (dupMallocOk s) (dupCopyFault s) orig) (\<lambda>(r, out, orig).
              let w = w\<lparr>taskDB := db_unlock (write_back t orig ctx)\<rparr> in
              if r = -1 then threadExit None w
              else bind_run (thread_body s (the out) mode w) (\<lambda>(tCopy, w). threadExit (Some tCopy) w))))"

text \<open>
  \<open>crinitProcDispatchSpawnFunc\<close>, the \<open>spawnFunc\<close> of the daemon: the allocation of the
  arguments, the four calls that set up the attributes and create the thread.
\<close>

definition crinitProcDispatchSpawnFunc :: "bool \<Rightarrow> bool \<Rightarrow> bool \<Rightarrow> bool \<Rightarrow> bool \<Rightarrow> int" where
  "crinitProcDispatchSpawnFunc mallocOk attrOk detachOk stackOk createOk =
     (if \<not> mallocOk then -1
      else if \<not> attrOk then -1
      else if \<not> detachOk then -1
      else if \<not> stackOk then -1
      else if \<not> createOk then -1
      else 0)"

text \<open>The number of a user is printed as a signed number and comes back when it is read as an unsigned one.\<close>

lemma to_uint_to_int: "n < 4294967296 \<Longrightarrow> to_uint (to_int (int n) mod 18446744073709551616) = n"
proof -
  assume n: "n < 4294967296"
  have "to_int (int n) mod 4294967296 = uint (word_of_int (int n) :: 32 word)"
    using uint_sint [of "word_of_int (int n) :: 32 word"] by (simp add: to_int_def take_bit_eq_mod)
  also have "\<dots> = int n" using n by (simp add: unsigned_of_nat take_bit_nat_eq_self)
  finally have "to_int (int n) mod 4294967296 = int n" .
  then show ?thesis by (simp add: to_uint_def mod_mod_cancel)
qed

lemma strtoul_show_id:
  assumes "n < 4294967296"
  shows "\<exists>v. strtoul 10 (show_id n) = (v, False, []) \<and> to_uint v = n"
proof -
  have r: "- 2147483648 \<le> to_int (int n)" "to_int (int n) < 2147483648"
    using sint_ge [of "word_of_int (int n) :: 32 word"] sint_lt [of "word_of_int (int n) :: 32 word"] by (simp_all add: to_int_def)
  then show ?thesis
    using strto_raw_show_int [of "[]" "to_int (int n)"] to_uint_to_int [OF assms] by (simp add: strtoul_def show_id_def)
qed

end
