(* ===== verification/TimerParser.thy ===== *)
theory TimerParser
  imports Timer CLib
begin

unbundle bit_operations_syntax

text \<open>
  Text of timer definitions: the parser \<open>src/src/timer_parser.re\<close> and the printer
  \<open>crinitSPrintTimerDef\<close> of \<open>src/src/timer.c\<close>. Every condition of the parser is one function; the
  conditions only go forward, so none of them is recursive. re2c takes the longest match, the
  text a rule only looks at included; the order of the alternatives below follows from that.
  A parser returns the result and the definition as it is then, also on failure. Text is
  without its terminating zero, which the rules call \<open>end\<close>.
\<close>

section \<open>Setting fields\<close>

text \<open>
  The loop of \<open>crinitTimerSetWeekdays\<close>. A byte is zero after eight shifts, so eight rounds are
  all the loop can make.
\<close>

fun toggle_days :: "nat \<Rightarrow> 8 word \<Rightarrow> 8 word \<Rightarrow> 8 word \<Rightarrow> 8 word" where
  "toggle_days 0 d start stop = d"
| "toggle_days (Suc n) d start stop =
     (let d = d XOR start; start = push_bit 1 start
      in if start \<le> stop \<and> 0 \<noteq> start then toggle_days n d start stop else d)"

definition crinitTimerSetWeekdays :: "8 word \<Rightarrow> 8 word \<Rightarrow> crinitTimerDef \<Rightarrow> bool \<times> crinitTimerDef" where
  "crinitTimerSetWeekdays start stop td =
     (if 0xff = stop then (True, td\<lparr>wDay := start\<rparr>)
      else (True, td\<lparr>wDay := (if start > stop
                              then toggle_days 8 0xff (push_bit 1 stop) (drop_bit 1 start)
                              else toggle_days 8 0 start stop)\<rparr>))"

definition crinitTimerParseUint16 :: "string \<Rightarrow> 16 word" where
  "crinitTimerParseUint16 s =
     (if s = [] then 0xffff else foldl (\<lambda>res c. word_of_int (uint res * 10 + (of_char c - 48))) 0 s)"

definition crinitTimerSetYears :: "string \<Rightarrow> string \<Rightarrow> crinitTimerDef \<Rightarrow> bool \<times> crinitTimerDef" where
  "crinitTimerSetYears y1 y2 td =
     (let start = crinitTimerParseUint16 y1; stop = crinitTimerParseUint16 y2
      in (True, td\<lparr>years := (if start = 0xffff then 0 else start, stop)\<rparr>))"

text \<open>
  The two bounds of a field of bytes, with the given minimum and maximum for empty text, and
  whether they lie in between: what the five setters for months down to seconds do.
\<close>

definition byte_bounds :: "int \<Rightarrow> int \<Rightarrow> string \<Rightarrow> string \<Rightarrow> bool \<times> 8 word \<times> 8 word" where
  "byte_bounds lo hi s1 s2 =
     (let start = ucast (crinitTimerParseUint16 s1) :: 8 word; stop = ucast (crinitTimerParseUint16 s2) :: 8 word;
          start = (if 0xff = start then word_of_int lo else start);
          stop = (if 0xff = stop then word_of_int hi else stop)
      in (CC_RANGE lo (uint start) hi \<and> CC_RANGE lo (uint stop) hi, start, stop))"

definition crinitTimerSetMonth :: "string \<Rightarrow> string \<Rightarrow> crinitTimerDef \<Rightarrow> bool \<times> crinitTimerDef" where
  "crinitTimerSetMonth m1 m2 td = (case byte_bounds 1 12 m1 m2 of (r, b) \<Rightarrow> (r, td\<lparr>month := b\<rparr>))"

definition crinitTimerSetDays :: "string \<Rightarrow> string \<Rightarrow> crinitTimerDef \<Rightarrow> bool \<times> crinitTimerDef" where
  "crinitTimerSetDays d1 d2 td = (case byte_bounds 1 31 d1 d2 of (r, b) \<Rightarrow> (r, td\<lparr>days := b\<rparr>))"

definition crinitTimerSetHours :: "string \<Rightarrow> string \<Rightarrow> crinitTimerDef \<Rightarrow> bool \<times> crinitTimerDef" where
  "crinitTimerSetHours h1 h2 td = (case byte_bounds 0 23 h1 h2 of (r, b) \<Rightarrow> (r, td\<lparr>hours := b\<rparr>))"

definition crinitTimerSetMinutes :: "string \<Rightarrow> string \<Rightarrow> crinitTimerDef \<Rightarrow> bool \<times> crinitTimerDef" where
  "crinitTimerSetMinutes m1 m2 td = (case byte_bounds 0 59 m1 m2 of (r, b) \<Rightarrow> (r, td\<lparr>minutes := b\<rparr>))"

definition crinitTimerSetSeconds :: "string \<Rightarrow> string \<Rightarrow> crinitTimerDef \<Rightarrow> bool \<times> crinitTimerDef" where
  "crinitTimerSetSeconds s1 s2 td = (case byte_bounds 0 59 s1 s2 of (r, b) \<Rightarrow> (r, td\<lparr>seconds := b\<rparr>))"

text \<open>The text of the hours starts with their sign.\<close>

definition crinitTimerSetTimezone :: "string \<Rightarrow> string \<Rightarrow> crinitTimerDef \<Rightarrow> bool \<times> crinitTimerDef" where
  "crinitTimerSetTimezone h m td =
     (let sgn = (if hd h = CHR ''-'' then -1 else 1);
          hrs = ucast (crinitTimerParseUint16 (tl h)) :: 8 word;
          mins = ucast (crinitTimerParseUint16 m) :: 8 word;
          tz0 = word_of_int (sgn * sint hrs) :: 8 word;
          tz1 = (if 0xff = mins then 0 else mins)
      in (CC_RANGE (-13) (sint tz0) 15 \<and> CC_RANGE 0 (sint tz1) 59, td\<lparr>timezone := (tz0, tz1)\<rparr>))"

section \<open>Matching\<close>

definition lower_case :: "char \<Rightarrow> char" where
  "lower_case c = (let n = of_char c :: nat in if 65 \<le> n \<and> n \<le> 90 then char_of (n + 32) else c)"

text \<open>A word in any case at the front of the text, and the text after it.\<close>

definition match_nocase :: "string \<Rightarrow> string \<Rightarrow> string option" where
  "match_nocase w s =
     (if map lower_case (take (length w) s) = w then Some (drop (length w) s) else None)"

definition week_days :: "(string \<times> string) list" where
  "week_days = [(''mon'', ''day''), (''tue'', ''sday''), (''wed'', ''nesday''), (''thu'', ''rsday''), (''fri'', ''day''),
     (''sat'', ''urday''), (''sun'', ''day'')]"

text \<open>A day of the week, short or long: its bit and the text after it.\<close>

fun match_day :: "nat \<Rightarrow> (string \<times> string) list \<Rightarrow> string \<Rightarrow> (8 word \<times> string) option" where
  "match_day i [] s = None"
| "match_day i ((w, l) # ws) s =
     (case match_nocase w s of
        Some r \<Rightarrow> Some (push_bit i 1, case match_nocase l r of Some r' \<Rightarrow> r' | None \<Rightarrow> r)
      | None \<Rightarrow> match_day (Suc i) ws s)"

abbreviation wday :: "string \<Rightarrow> (8 word \<times> string) option" where "wday s \<equiv> match_day 0 week_days s"

definition is_field :: "char \<Rightarrow> bool" where
  "is_field c \<longleftrightarrow> c_isdigit c \<or> c = CHR ''*'' \<or> c = CHR ''.''"

text \<open>The text after \<open>[0-9*.]{1,k}\<close> where something else has to follow it.\<close>

definition skip_field :: "nat \<Rightarrow> string \<Rightarrow> string option" where
  "skip_field k s =
     (let f = takeWhile is_field s in if f \<noteq> [] \<and> length f \<le> k then Some (drop (length f) s) else None)"

text \<open>The text after \<open>[0-9*.]{1,12}\<close> and \<open>n\<close> times \<open>'-' [0-9*.]{1,6}\<close>.\<close>

fun skip_groups :: "nat \<Rightarrow> string \<Rightarrow> string option" where
  "skip_groups 0 s = skip_field 12 s"
| "skip_groups (Suc n) s =
     (case skip_groups n s of
        Some (c # r) \<Rightarrow> if c = CHR ''-'' then skip_field 6 r else None
      | _ \<Rightarrow> None)"

text \<open>The last group of a date that anything may follow: at most six characters of a longer one match.\<close>

definition starts_date :: "string \<Rightarrow> bool" where
  "starts_date s \<longleftrightarrow>
     (case skip_groups 1 s of
        Some (c # r) \<Rightarrow> c = CHR ''-'' \<and> r \<noteq> [] \<and> is_field (hd r)
      | _ \<Rightarrow> False)"

definition starts_hour :: "string \<Rightarrow> bool" where
  "starts_hour s \<longleftrightarrow> (case skip_field 6 s of Some (c # r) \<Rightarrow> c = CHR '':'' | _ \<Rightarrow> False)"

text \<open>
  The three forms of a field, with the texts of its bounds: an interval (with bounds up to \<open>k\<close>
  digits), a number (up to \<open>n\<close> digits), a star.
\<close>

definition field_forms :: "nat \<Rightarrow> nat \<Rightarrow> string \<Rightarrow> (string \<times> string \<times> string) list" where
  "field_forms k n s =
     (let a = takeWhile c_isdigit s; r = drop (length a) s; b = take k (takeWhile c_isdigit (drop 2 r)); m = take n a in
      (if length a \<le> k \<and> take 2 r = ''..'' then [(a, b, drop (2 + length b) r)] else []) @
      (if m \<noteq> [] then [(m, m, drop (length m) s)] else []) @
      (if s \<noteq> [] \<and> hd s = CHR ''*'' then [([], [], tl s)] else []))"

text \<open>The first form behind which the text satisfies \<open>P\<close>.\<close>

definition match_field :: "(string \<Rightarrow> bool) \<Rightarrow> nat \<Rightarrow> nat \<Rightarrow> string \<Rightarrow> (string \<times> string \<times> string) option" where
  "match_field P k n s = List.find (\<lambda>(a, b, r). P r) (field_forms k n s)"

abbreviation before :: "char \<Rightarrow> string \<Rightarrow> bool" where "before c r \<equiv> r \<noteq> [] \<and> hd r = c"

text \<open>\<open>result = result \<and> set(...)\<close>: a setter is not called after a failure.\<close>

definition and_set :: "(string \<Rightarrow> string \<Rightarrow> crinitTimerDef \<Rightarrow> bool \<times> crinitTimerDef) \<Rightarrow> string \<Rightarrow> string \<Rightarrow>
    bool \<times> crinitTimerDef \<Rightarrow> bool \<times> crinitTimerDef" where
  "and_set f a b x = (if fst x then f a b (snd x) else x)"

section \<open>The conditions\<close>

definition yyc_timezone :: "bool \<times> crinitTimerDef \<Rightarrow> string \<Rightarrow> bool \<times> crinitTimerDef" where
  "yyc_timezone x s =
     (if s = [] then x
      else if hd s \<noteq> CHR ''+'' \<and> hd s \<noteq> CHR ''-'' then (False, snd x)
      else let a = takeWhile c_isdigit (tl s); r = drop (length a) (tl s) in
        if r = [] \<and> a \<noteq> [] \<and> length a \<le> 2 then and_set crinitTimerSetTimezone (hd s # a) [] x
        else if r = [] \<and> (length a = 3 \<or> length a = 4)
        then and_set crinitTimerSetTimezone (hd s # take (length a - 2) a) (drop (length a - 2) a) x
        else if before (CHR '':'') r \<and> a \<noteq> [] \<and> length a \<le> 2 \<and> length (tl r) \<in> {0, 2} \<and> list_all c_isdigit (tl r)
        then and_set crinitTimerSetTimezone (hd s # a) (tl r) x
        else (False, snd x))"

definition yyc_second :: "bool \<times> crinitTimerDef \<Rightarrow> string \<Rightarrow> bool \<times> crinitTimerDef" where
  "yyc_second x s =
     (case match_field (\<lambda>r. before (CHR ''+'') r \<or> before (CHR ''-'') r) 2 2 s of
        Some (a, b, r) \<Rightarrow> yyc_timezone (and_set crinitTimerSetSeconds a b x) r
      | None \<Rightarrow>
          (case match_field (\<lambda>r. True) 2 2 s of
             Some (a, b, r) \<Rightarrow> and_set crinitTimerSetSeconds a b x
           | None \<Rightarrow> (False, snd x)))"

definition yyc_minute :: "bool \<times> crinitTimerDef \<Rightarrow> string \<Rightarrow> bool \<times> crinitTimerDef" where
  "yyc_minute x s =
     (case match_field (before (CHR '':'')) 2 2 s of
        Some (a, b, r) \<Rightarrow> yyc_second (and_set crinitTimerSetMinutes a b x) (tl r)
      | None \<Rightarrow>
          (case match_field (\<lambda>r. True) 2 2 s of
             Some (a, b, r) \<Rightarrow> yyc_timezone (and_set crinitTimerSetMinutes a b x) r
           | None \<Rightarrow> (False, snd x)))"

definition yyc_hour :: "bool \<times> crinitTimerDef \<Rightarrow> string \<Rightarrow> bool \<times> crinitTimerDef" where
  "yyc_hour x s =
     (case match_field (before (CHR '':'')) 2 2 s of
        Some (a, b, r) \<Rightarrow> yyc_minute (and_set crinitTimerSetHours a b x) (tl r)
      | None \<Rightarrow> (False, snd x))"

definition yyc_day :: "bool \<times> crinitTimerDef \<Rightarrow> string \<Rightarrow> bool \<times> crinitTimerDef" where
  "yyc_day x s =
     (case match_field (\<lambda>r. r = []) 2 2 s of
        Some (a, b, r) \<Rightarrow> and_set crinitTimerSetDays a b x
      | None \<Rightarrow>
          (case match_field (before (CHR ''-'')) 2 2 s of
             Some (a, b, r) \<Rightarrow> yyc_hour (and_set crinitTimerSetDays a b x) (tl r)
           | None \<Rightarrow> (False, snd x)))"

definition yyc_month :: "bool \<times> crinitTimerDef \<Rightarrow> string \<Rightarrow> bool \<times> crinitTimerDef" where
  "yyc_month x s =
     (case match_field (before (CHR ''-'')) 2 2 s of
        Some (a, b, r) \<Rightarrow> yyc_day (and_set crinitTimerSetMonth a b x) (tl r)
      | None \<Rightarrow> (False, snd x))"

definition yyc_year :: "bool \<times> crinitTimerDef \<Rightarrow> string \<Rightarrow> bool \<times> crinitTimerDef" where
  "yyc_year x s =
     (case match_field (before (CHR ''-'')) 5 4 s of
        Some (a, b, r) \<Rightarrow> yyc_month (and_set crinitTimerSetYears a b x) (tl r)
      | None \<Rightarrow> if starts_hour s then yyc_hour x s else (False, snd x))"

definition yyc_weekdayend :: "bool \<times> crinitTimerDef \<Rightarrow> string \<Rightarrow> bool \<times> crinitTimerDef" where
  "yyc_weekdayend x s =
     (if s = [] then x
      else if hd s \<noteq> CHR ''-'' then (False, snd x)
      else if starts_hour (tl s) then yyc_hour x (tl s)
      else yyc_year x (tl s))"

definition and_weekdays :: "8 word \<Rightarrow> 8 word \<Rightarrow> bool \<times> crinitTimerDef \<Rightarrow> bool \<times> crinitTimerDef" where
  "and_weekdays start stop x = (if fst x then crinitTimerSetWeekdays start stop (snd x) else x)"

definition yyc_weekday2 :: "8 word \<Rightarrow> bool \<times> crinitTimerDef \<Rightarrow> string \<Rightarrow> bool \<times> crinitTimerDef" where
  "yyc_weekday2 wd x s =
     (if s = [] then and_weekdays wd 0xff x
      else if starts_date s then yyc_year x s
      else if starts_hour s then yyc_hour x s
      else if hd s = CHR ''-'' then yyc_year (and_weekdays wd wd x) (tl s)
      else case (if take 2 s = ''..'' then wday (drop 2 s) else None) of
        Some (e, r) \<Rightarrow> yyc_weekdayend (and_weekdays wd e x) r
      | None \<Rightarrow> (False, snd x))"

definition yyc_weekday1 :: "bool \<times> crinitTimerDef \<Rightarrow> string \<Rightarrow> bool \<times> crinitTimerDef" where
  "yyc_weekday1 x s =
     (if s \<noteq> [] \<and> hd s = CHR ''*'' then yyc_weekdayend x (tl s)
      else case wday s of
        Some (wd, r) \<Rightarrow> yyc_weekday2 wd x r
      | None \<Rightarrow> (False, snd x))"

definition crinitTimerParse :: "string \<Rightarrow> bool \<times> crinitTimerDef" where
  "crinitTimerParse s =
     (let td = crinitTimerSetDefault; w = map lower_case s in
      if w = ''minutely'' then (True, td\<lparr>hours := (fst (hours td), 23), minutes := (fst (minutes td), 59)\<rparr>)
      else if w = ''hourly'' then (True, td\<lparr>hours := (fst (hours td), 23)\<rparr>)
      else if w = ''daily'' \<or> w = ''midnight'' then (True, td)
      else if w = ''monthly'' then (True, td\<lparr>days := (fst (days td), 1)\<rparr>)
      else if w = ''weekly'' then (True, td\<lparr>wDay := 1\<rparr>)
      else if w = ''yearly'' \<or> w = ''annually''
      then (True, td\<lparr>days := (fst (days td), 1), month := (fst (month td), 1)\<rparr>)
      else if skip_groups 2 s = Some [] then yyc_year (True, td) s
      else if (case skip_groups 3 s of Some (c # r) \<Rightarrow> c = CHR '':'' | _ \<Rightarrow> False) then yyc_year (True, td) s
      else if starts_hour s then yyc_hour (True, td) s
      else if wday s \<noteq> None \<or> (s \<noteq> [] \<and> hd s = CHR ''*'') then yyc_weekday1 (True, td) s
      else (False, td))"

section \<open>Printing\<close>

text \<open>\<open>%0<w>d\<close> of \<open>printf\<close>.\<close>

definition show_pad :: "nat \<Rightarrow> int \<Rightarrow> string" where
  "show_pad w v =
     (let ds = digits_of (nat \<bar>v\<bar>); sgn = (if v < 0 then ''-'' else '''')
      in sgn @ replicate (w - length sgn - length ds) (CHR ''0'') @ ds)"

definition print_bounds :: "('b \<Rightarrow> string) \<Rightarrow> 'b \<times> 'b \<Rightarrow> string \<Rightarrow> string" where
  "print_bounds f b sep = (if fst b = snd b then f (fst b) else f (fst b) @ ''..'' @ f (snd b)) @ sep"

definition crinitSPrintTimerDef :: "crinitTimerDef \<Rightarrow> string" where
  "crinitSPrintTimerDef td =
     print_bounds (\<lambda>v. show_pad 4 (uint v)) (years td) ''-'' @
     print_bounds crinitMonthToStr (month td) ''-'' @
     print_bounds (\<lambda>v. show_pad 2 (uint v)) (days td) '' '' @
     print_bounds (\<lambda>v. show_pad 2 (uint v)) (hours td) '':'' @
     print_bounds (\<lambda>v. show_pad 2 (uint v)) (minutes td) '':'' @
     print_bounds (\<lambda>v. show_pad 2 (uint v)) (seconds td) '' '' @
     (if sint (fst (timezone td)) < 0 then ''-'' else ''+'') @
     show_pad 2 \<bar>sint (fst (timezone td))\<bar> @ show_pad 2 (sint (snd (timezone td))) @ '' '' @
     ''|'' @
     (if wDay td AND push_bit 0 1 \<noteq> 0 then ''Mon'' else ''_  '') @ '' '' @
     (if wDay td AND push_bit 1 1 \<noteq> 0 then ''Tue'' else ''_  '') @ '' '' @
     (if wDay td AND push_bit 2 1 \<noteq> 0 then ''Wed'' else ''_  '') @ '' '' @
     (if wDay td AND push_bit 3 1 \<noteq> 0 then ''Thu'' else ''_  '') @ '' '' @
     (if wDay td AND push_bit 4 1 \<noteq> 0 then ''Fri'' else ''_  '') @ '' '' @
     (if wDay td AND push_bit 5 1 \<noteq> 0 then ''Sat'' else ''_  '') @ '' '' @
     (if wDay td AND push_bit 6 1 \<noteq> 0 then ''Sun'' else ''_  '') @ ''|''"

section \<open>Lemmas\<close>

subsection \<open>Fields of a parsed definition\<close>

text \<open>The values a definition may have after parsing.\<close>

definition timer_wf :: "crinitTimerDef \<Rightarrow> bool" where
  "timer_wf td \<longleftrightarrow>
     1 \<le> uint (fst (month td)) \<and> uint (fst (month td)) \<le> 12 \<and> 1 \<le> uint (snd (month td)) \<and> uint (snd (month td)) \<le> 12 \<and>
     1 \<le> uint (fst (days td)) \<and> uint (fst (days td)) \<le> 31 \<and> 1 \<le> uint (snd (days td)) \<and> uint (snd (days td)) \<le> 31 \<and>
     uint (fst (hours td)) \<le> 23 \<and> uint (snd (hours td)) \<le> 23 \<and> uint (fst (minutes td)) \<le> 59 \<and> uint (snd (minutes td)) \<le> 59 \<and>
     uint (fst (seconds td)) \<le> 59 \<and> uint (snd (seconds td)) \<le> 59 \<and>
     -13 \<le> sint (fst (timezone td)) \<and> sint (fst (timezone td)) \<le> 15 \<and> 0 \<le> sint (snd (timezone td)) \<and> sint (snd (timezone td)) \<le> 59"

definition parsed_wf :: "bool \<times> crinitTimerDef \<Rightarrow> bool" where
  "parsed_wf x \<longleftrightarrow> (fst x \<longrightarrow> timer_wf (snd x))"

lemma parsed_wf_False [simp]: "parsed_wf (False, td)"
  by (simp add: parsed_wf_def)

named_theorems parsed \<open>the steps of the parser keep definitions well-formed\<close>

lemma and_set_wf:
  assumes "parsed_wf x" "\<And>td. timer_wf td \<Longrightarrow> parsed_wf (f a b td)"
  shows "parsed_wf (and_set f a b x)"
  using assms by (simp add: and_set_def parsed_wf_def)

lemma byte_bounds_range:
  "byte_bounds lo hi s1 s2 = (True, b) \<Longrightarrow>
   lo \<le> uint (fst b) \<and> uint (fst b) \<le> hi \<and> lo \<le> uint (snd b) \<and> uint (snd b) \<le> hi"
  unfolding byte_bounds_def Let_def CC_RANGE_def by (metis Pair_inject fst_conv snd_conv)

lemma set_byte_wf:
  assumes "timer_wf td"
  shows "parsed_wf (crinitTimerSetMonth a b td)" "parsed_wf (crinitTimerSetDays a b td)"
    "parsed_wf (crinitTimerSetHours a b td)" "parsed_wf (crinitTimerSetMinutes a b td)"
    "parsed_wf (crinitTimerSetSeconds a b td)"
  using assms byte_bounds_range
  unfolding crinitTimerSetMonth_def crinitTimerSetDays_def crinitTimerSetHours_def crinitTimerSetMinutes_def
    crinitTimerSetSeconds_def parsed_wf_def
  by (fastforce simp: timer_wf_def split: prod.splits)+

lemma set_wf:
  assumes "timer_wf td"
  shows "parsed_wf (crinitTimerSetYears a b td)" "parsed_wf (crinitTimerSetTimezone a b td)"
  using assms
  by (simp_all add: parsed_wf_def timer_wf_def crinitTimerSetYears_def crinitTimerSetTimezone_def CC_RANGE_def Let_def)

lemmas [parsed] = and_set_wf [OF _ set_wf(1)] and_set_wf [OF _ set_wf(2)] and_set_wf [OF _ set_byte_wf(1)]
  and_set_wf [OF _ set_byte_wf(2)] and_set_wf [OF _ set_byte_wf(3)] and_set_wf [OF _ set_byte_wf(4)]
  and_set_wf [OF _ set_byte_wf(5)]

lemma weekdays_wf [parsed]: "parsed_wf x \<Longrightarrow> parsed_wf (and_weekdays a b x)"
  by (simp add: parsed_wf_def and_weekdays_def crinitTimerSetWeekdays_def timer_wf_def)

lemma yyc_timezone_wf [parsed]: "parsed_wf x \<Longrightarrow> parsed_wf (yyc_timezone x s)"
  by (simp add: yyc_timezone_def Let_def parsed)

lemma yyc_second_wf [parsed]: "parsed_wf x \<Longrightarrow> parsed_wf (yyc_second x s)"
  by (simp add: yyc_second_def parsed split: option.split prod.split)

lemma yyc_minute_wf [parsed]: "parsed_wf x \<Longrightarrow> parsed_wf (yyc_minute x s)"
  by (simp add: yyc_minute_def parsed split: option.split prod.split)

lemma yyc_hour_wf [parsed]: "parsed_wf x \<Longrightarrow> parsed_wf (yyc_hour x s)"
  by (simp add: yyc_hour_def parsed split: option.split prod.split)

lemma yyc_day_wf [parsed]: "parsed_wf x \<Longrightarrow> parsed_wf (yyc_day x s)"
  by (simp add: yyc_day_def parsed split: option.split prod.split)

lemma yyc_month_wf [parsed]: "parsed_wf x \<Longrightarrow> parsed_wf (yyc_month x s)"
  by (simp add: yyc_month_def parsed split: option.split prod.split)

lemma yyc_year_wf [parsed]: "parsed_wf x \<Longrightarrow> parsed_wf (yyc_year x s)"
  by (simp add: yyc_year_def parsed split: option.split prod.split)

lemma yyc_weekdayend_wf [parsed]: "parsed_wf x \<Longrightarrow> parsed_wf (yyc_weekdayend x s)"
  by (simp add: yyc_weekdayend_def parsed)

lemma yyc_weekday2_wf [parsed]: "parsed_wf x \<Longrightarrow> parsed_wf (yyc_weekday2 wd x s)"
  by (simp add: yyc_weekday2_def parsed split: option.split prod.split)

lemma yyc_weekday1_wf [parsed]: "parsed_wf x \<Longrightarrow> parsed_wf (yyc_weekday1 x s)"
  by (simp add: yyc_weekday1_def parsed split: option.split prod.split)

lemma TimerParse_parsed: "parsed_wf (crinitTimerParse s)"
proof -
  have "timer_wf crinitTimerSetDefault" by (simp add: timer_wf_def crinitTimerSetDefault_def)
  moreover from this have "parsed_wf (True, crinitTimerSetDefault)" by (simp add: parsed_wf_def)
  moreover have "timer_wf td \<Longrightarrow> td = crinitTimerSetDefault \<Longrightarrow> parsed_wf (True, td\<lparr>hours := (fst (hours td), 23), minutes := (fst (minutes td), 59)\<rparr>)
      \<and> parsed_wf (True, td\<lparr>hours := (fst (hours td), 23)\<rparr>) \<and> parsed_wf (True, td\<lparr>days := (fst (days td), 1)\<rparr>)
      \<and> parsed_wf (True, td\<lparr>wDay := 1\<rparr>) \<and> parsed_wf (True, td\<lparr>days := (fst (days td), 1), month := (fst (month td), 1)\<rparr>)" for td
    by (simp add: parsed_wf_def timer_wf_def)
  ultimately show ?thesis unfolding crinitTimerParse_def Let_def by (simp add: parsed)
qed

text \<open>
  C30: the fields of a definition that the parser accepts are in their ranges. In particular
  every access to the tables of months with them is inside the tables.
\<close>

theorem TimerParse_wf:
  assumes "crinitTimerParse s = (True, td)"
  shows "1 \<le> uint (fst (month td)) \<and> uint (fst (month td)) \<le> 12 \<and> 1 \<le> uint (snd (month td)) \<and> uint (snd (month td)) \<le> 12 \<and>
     1 \<le> uint (fst (days td)) \<and> uint (fst (days td)) \<le> 31 \<and> 1 \<le> uint (snd (days td)) \<and> uint (snd (days td)) \<le> 31 \<and>
     uint (fst (hours td)) \<le> 23 \<and> uint (snd (hours td)) \<le> 23 \<and> uint (fst (minutes td)) \<le> 59 \<and> uint (snd (minutes td)) \<le> 59 \<and>
     uint (fst (seconds td)) \<le> 59 \<and> uint (snd (seconds td)) \<le> 59 \<and>
     -13 \<le> sint (fst (timezone td)) \<and> sint (fst (timezone td)) \<le> 15 \<and> 0 \<le> sint (snd (timezone td)) \<and> sint (snd (timezone td)) \<le> 59"
  using TimerParse_parsed [of s] assms by (simp add: parsed_wf_def timer_wf_def)

theorem TimerParse_wf_witness: "uint (snd (hours (snd (crinitTimerParse ''hourly'')))) \<le> 23"
proof -
  have "fst (crinitTimerParse ''hourly'')" by (simp add: crinitTimerParse_def lower_case_def Let_def)
  then show ?thesis using TimerParse_wf [of "''hourly''"] by (metis prod.collapse)
qed

subsection \<open>Weekdays\<close>

text \<open>
  An interval of weekdays selects the days from the first to the last, across the end of
  the week if need be, with one exception: when the last day is the one just before the first,
  which should give the whole week, the first day is missing.
\<close>

lemma SetWeekdays_exact:
  assumes "i < 7" "j < 7" "k < 7"
  shows "bit (wDay (snd (crinitTimerSetWeekdays (push_bit i 1) (push_bit j 1) td))) k \<longleftrightarrow>
     (if i = Suc j then k \<noteq> i else if i \<le> j then i \<le> k \<and> k \<le> j else k \<le> j \<or> i \<le> k)"
proof -
  have w: "wDay (snd (crinitTimerSetWeekdays (push_bit i 1) (push_bit j 1) td)) =
           wDay (snd (crinitTimerSetWeekdays (push_bit i 1) (push_bit j 1) crinitTimerSetDefault))"
    by (simp add: crinitTimerSetWeekdays_def)
  have "\<forall>i \<in> set [0..<7]. \<forall>j \<in> set [0..<7]. \<forall>k \<in> set [0..<7].
      bit (wDay (snd (crinitTimerSetWeekdays (push_bit i 1) (push_bit j 1) crinitTimerSetDefault))) k \<longleftrightarrow>
      (if i = Suc j then k \<noteq> i else if i \<le> j then i \<le> k \<and> k \<le> j else k \<le> j \<or> i \<le> k)"
    by code_simp
  then show ?thesis using assms w by simp
qed

subsection \<open>The printed text\<close>

lemma length_show_pad:
  assumes "\<bar>v\<bar> < 10 ^ k" "0 < k" "w \<le> k"
  shows "length (show_pad w v) \<le> (if v < 0 then Suc k else k)"
proof -
  have "int (nat \<bar>v\<bar>) < int (10 ^ k)" using assms(1) by simp
  then have "length (digits_of (nat \<bar>v\<bar>)) \<le> k" using assms(2) by (intro length_digits_of) (simp_all only: of_nat_less_iff)
  then show ?thesis using assms(3) by (cases "v < 0") (simp_all add: show_pad_def Let_def)
qed

lemma length_show_byte: "length (show_pad 2 (uint (v :: 8 word))) \<le> 3"
  using length_show_pad [of "uint v" 3 2] uint_bounded [of v] by simp

lemma length_show_year: "length (show_pad 4 (uint (v :: 16 word))) \<le> 5"
  using length_show_pad [of "uint v" 5 4] uint_bounded [of v] by simp

lemma length_MonthToStr: "length (crinitMonthToStr m) \<le> 3"
proof (cases "m \<le> 12")
  case True
  then have "unat m < length crinitMonthLookup" by (simp add: word_le_nat_alt crinitMonthLookup_def)
  then have "crinitMonthToStr m \<in> set crinitMonthLookup" using True by (simp add: crinitMonthToStr_def)
  then show ?thesis by (auto simp: crinitMonthLookup_def)
qed (simp add: crinitMonthToStr_def)

lemma length_print_bounds:
  assumes "\<And>v. length (f v) \<le> n"
  shows "length (print_bounds f b sep) \<le> 2 * n + 2 + length sep"
  using assms [of "fst b"] assms [of "snd b"] by (simp add: print_bounds_def)

lemma sint_byte_bounds: "-128 \<le> sint (v :: 8 word)" "sint (v :: 8 word) \<le> 127"
  using sint_greater_eq [of v] sint_less [of v] by simp_all

text \<open>
  Whatever the fields of a definition are, its text with the terminating zero fits into
  the buffers of 100 bytes that the code prints it to without a limit.
\<close>

lemma SPrintTimerDef_fits: "length (crinitSPrintTimerDef td) + 1 \<le> 100"
proof -
  have tz0: "length (show_pad 2 \<bar>sint (fst (timezone td))\<bar>) \<le> 3"
    using length_show_pad [of "\<bar>sint (fst (timezone td))\<bar>" 3 2] sint_byte_bounds [of "fst (timezone td)"] by simp
  have tz1: "length (show_pad 2 (sint (snd (timezone td)))) \<le> 4"
    using length_show_pad [of "sint (snd (timezone td))" 3 2] sint_byte_bounds [of "snd (timezone td)"]
    by (cases "sint (snd (timezone td)) < 0") simp_all
  show ?thesis
    using tz0 tz1 length_print_bounds [of "\<lambda>v. show_pad 4 (uint v)" 5 "years td" "''-''", OF length_show_year]
      length_print_bounds [of crinitMonthToStr 3 "month td" "''-''", OF length_MonthToStr]
      length_print_bounds [of "\<lambda>v. show_pad 2 (uint v)" 3 "days td" "'' ''", OF length_show_byte]
      length_print_bounds [of "\<lambda>v. show_pad 2 (uint v)" 3 "hours td" "'':''", OF length_show_byte]
      length_print_bounds [of "\<lambda>v. show_pad 2 (uint v)" 3 "minutes td" "'':''", OF length_show_byte]
      length_print_bounds [of "\<lambda>v. show_pad 2 (uint v)" 3 "seconds td" "'' ''", OF length_show_byte]
    by (simp add: crinitSPrintTimerDef_def if_distrib [of length] cong: if_cong split del: if_split abs_split)
qed

subsection \<open>Reading back a definition\<close>

text \<open>
  A definition in the notation of the section ``Defining timers'' of the README, \<open>Weekday-Year-Month-Day-Hour:Minute:Second+Timezone\<close>,
  with both bounds of each range, numbers filled up with zeros and days of the week by their first three letters. This is not
  the output of \<^const>\<open>crinitSPrintTimerDef\<close>, which has blanks and names of months and is not read by the parser.
\<close>

definition bounds_text :: "nat \<Rightarrow> 'b::len word \<times> 'b word \<Rightarrow> string" where
  "bounds_text w b = show_pad w (uint (fst b)) @ ''..'' @ show_pad w (uint (snd b))"

definition timezone_text :: "8 word \<times> 8 word \<Rightarrow> string" where
  "timezone_text tz = (if sint (fst tz) < 0 then ''-'' else ''+'') @ show_pad 2 \<bar>sint (fst tz)\<bar> @ show_pad 2 (sint (snd tz))"

definition timer_text :: "crinitTimerDef \<Rightarrow> string" where
  "timer_text td = bounds_text 4 (years td) @ ''-'' @ bounds_text 2 (month td) @ ''-'' @ bounds_text 2 (days td) @ ''-'' @
     bounds_text 2 (hours td) @ '':'' @ bounds_text 2 (minutes td) @ '':'' @ bounds_text 2 (seconds td) @ timezone_text (timezone td)"

definition weekday_text :: "nat \<Rightarrow> nat \<Rightarrow> string" where
  "weekday_text i j = (let d = [''Mon'', ''Tue'', ''Wed'', ''Thu'', ''Fri'', ''Sat'', ''Sun''] in d ! i @ ''..'' @ d ! j @ ''-'')"

lemma show_pad_digits: "0 \<le> v \<Longrightarrow> c \<in> set (show_pad w v) \<Longrightarrow> c_isdigit c"
  using digits_of_isdigit [of c "nat v"] by (auto simp: show_pad_def c_isdigit_def Let_def split: if_splits)

lemma show_pad_Nil [simp]: "show_pad w v \<noteq> []"
  by (simp add: show_pad_def Let_def)

lemma ParseUint16_value:
  assumes "s \<noteq> []"
  shows "crinitTimerParseUint16 s = word_of_int (digits_value 10 s)"
proof -
  have "foldl (\<lambda>res c. word_of_int (uint res * 10 + (of_char c - 48))) (word_of_int n :: 16 word) s =
        word_of_int (foldl (\<lambda>n c. 10 * n + (of_char c - 48)) n s)" for n
  proof (induction s arbitrary: n)
    case (Cons c s)
    have "(word_of_int (uint (word_of_int n :: 16 word) * 10 + (of_char c - 48)) :: 16 word) = word_of_int (10 * n + (of_char c - 48))"
      by (simp add: mult.commute)
    then show ?case by (simp only: foldl_Cons Cons.IH)
  qed simp
  from this [of 0] show ?thesis using assms by (simp add: crinitTimerParseUint16_def digits_value_def)
qed

lemma ParseUint16_show_pad: "0 \<le> v \<Longrightarrow> crinitTimerParseUint16 (show_pad w v) = word_of_int v"
  by (simp add: ParseUint16_value) (simp add: show_pad_def digits_value_zeros digits_value_digits_of Let_def)

lemma field_forms_bounds:
  assumes "list_all c_isdigit a" "list_all c_isdigit b" "a \<noteq> []" "length a \<le> k" "length b \<le> k" "\<not> c_isdigit c" "0 < n"
  shows "field_forms k n (a @ ''..'' @ b @ c # r) = [(a, b, c # r), (take n a, take n a, drop n a @ ''..'' @ b @ c # r)]"
proof -
  have tw: "takeWhile c_isdigit (a @ ''..'' @ b @ c # r) = a" "takeWhile c_isdigit (b @ c # r) = b"
    using assms by (auto simp: takeWhile_append list_all_iff c_isdigit_def)
  have "hd a \<noteq> CHR ''*''" using assms(1,3) by (cases a) (auto simp: c_isdigit_def)
  then have "field_forms k n (a @ ''..'' @ b @ c # r) =
      [(a, b, c # r), (take n a, take n a, drop (length (take n a)) (a @ ''..'' @ b @ c # r))]"
    using assms tw by (simp add: field_forms_def Let_def)
  then show ?thesis by (cases "length a \<le> n") simp_all
qed

lemma match_field_bounds:
  assumes "list_all c_isdigit a" "list_all c_isdigit b" "a \<noteq> []" "length a \<le> k" "length b \<le> k" "\<not> c_isdigit c" "0 < n"
  shows "P (c # r) \<Longrightarrow> match_field P k n (a @ ''..'' @ b @ c # r) = Some (a, b, c # r)"
    and "match_field (\<lambda>r. r = []) k n (a @ ''..'' @ b @ c # r) = None"
  using field_forms_bounds [OF assms] by (simp_all add: match_field_def)

lemma skip_field_bounds:
  assumes "list_all c_isdigit a" "list_all c_isdigit b" "length a + 2 + length b \<le> k" "\<not> is_field c"
  shows "skip_field k (a @ ''..'' @ b @ c # r) = Some (c # r)"
proof -
  have "takeWhile is_field (a @ ''..'' @ b @ c # r) = a @ ''..'' @ b"
    using assms by (auto simp: takeWhile_append list_all_iff is_field_def)
  then show ?thesis using assms by (simp add: skip_field_def)
qed

lemma bounds_text_digits:
  "list_all c_isdigit (show_pad w (uint (v :: 'b::len word)))"
  using show_pad_digits [of "uint v" _ w] by (auto simp: list_all_iff)

lemma show_byte_two: "uint (v :: 8 word) \<le> 99 \<Longrightarrow> length (show_pad 2 (uint v)) \<le> 2"
  using length_show_pad [of "uint v" 2 2] by simp

lemma match_year_text:
  "\<not> c_isdigit c \<Longrightarrow> P (c # r) \<Longrightarrow>
   match_field P 5 4 (bounds_text 4 (b :: 16 word \<times> 16 word) @ c # r) = Some (show_pad 4 (uint (fst b)), show_pad 4 (uint (snd b)), c # r)"
  using match_field_bounds(1) [OF bounds_text_digits bounds_text_digits show_pad_Nil length_show_year length_show_year, of c 4 P r "fst b" "snd b"]
  by (simp add: bounds_text_def)

lemma match_byte_text:
  "\<not> c_isdigit c \<Longrightarrow> P (c # r) \<Longrightarrow> uint (fst b) \<le> 99 \<Longrightarrow> uint (snd b) \<le> 99 \<Longrightarrow>
   match_field P 2 2 (bounds_text 2 (b :: 8 word \<times> 8 word) @ c # r) = Some (show_pad 2 (uint (fst b)), show_pad 2 (uint (snd b)), c # r)"
  using match_field_bounds(1) [OF bounds_text_digits bounds_text_digits show_pad_Nil show_byte_two show_byte_two, of "fst b" "snd b" c 2 P r]
  by (simp add: bounds_text_def)

text \<open>A field with something behind it is not the last one.\<close>

lemma match_byte_text_end:
  "\<not> c_isdigit c \<Longrightarrow> uint (fst b) \<le> 99 \<Longrightarrow> uint (snd b) \<le> 99 \<Longrightarrow>
   match_field (\<lambda>r. r = []) 2 2 (bounds_text 2 (b :: 8 word \<times> 8 word) @ c # r) = None"
  using match_field_bounds(2) [OF bounds_text_digits bounds_text_digits show_pad_Nil show_byte_two show_byte_two, of "fst b" "snd b" c 2 r]
  by (simp add: bounds_text_def)

lemma skip_byte_text:
  "\<not> is_field c \<Longrightarrow> uint (fst b) \<le> 99 \<Longrightarrow> uint (snd b) \<le> 99 \<Longrightarrow>
   skip_field 6 (bounds_text 2 (b :: 8 word \<times> 8 word) @ c # r) = Some (c # r)"
  using skip_field_bounds [OF bounds_text_digits bounds_text_digits, of 2 "fst b" 2 "snd b" 6 c r] show_byte_two [of "fst b"] show_byte_two [of "snd b"]
  by (simp add: bounds_text_def)

lemma skip_year_text:
  "\<not> is_field c \<Longrightarrow> skip_field 12 (bounds_text 4 (b :: 16 word \<times> 16 word) @ c # r) = Some (c # r)"
  using skip_field_bounds [OF bounds_text_digits bounds_text_digits, of 4 "fst b" 4 "snd b" 12 c r] length_show_year [of "fst b"] length_show_year [of "snd b"]
  by (simp add: bounds_text_def)

lemma byte_bounds_text:
  assumes "lo \<le> uint (fst b)" "uint (fst b) \<le> hi" "lo \<le> uint (snd b)" "uint (snd b) \<le> hi" "hi \<le> 99"
  shows "byte_bounds lo hi (show_pad 2 (uint (fst b))) (show_pad 2 (uint (snd b))) = (True, b)"
proof -
  have "ucast (ucast (v :: 8 word) :: 16 word) = v" for v by (rule bit_word_eqI) (simp add: bit_ucast_iff)
  moreover have "fst b \<noteq> 0xff" "snd b \<noteq> 0xff" using assms by auto
  ultimately show ?thesis using assms by (simp add: byte_bounds_def ParseUint16_show_pad CC_RANGE_def Let_def)
qed

lemma no_keyword:
  assumes "c_isdigit c"
  shows "map lower_case (c # s) \<notin> {''minutely'', ''hourly'', ''daily'', ''midnight'', ''monthly'', ''weekly'', ''yearly'', ''annually''}"
  using assms by (auto simp: lower_case_def c_isdigit_def Let_def split: if_splits)

lemma yyc_timezone_digits:
  assumes "list_all c_isdigit h" "list_all c_isdigit m" "length h = 2" "length m = 2" "c = CHR ''+'' \<or> c = CHR ''-''"
  shows "yyc_timezone (True, td) (c # h @ m) = crinitTimerSetTimezone (c # h) m td"
proof -
  define x where "x = h @ m"
  have "takeWhile c_isdigit x = x" "length x = 4" "take 2 x = h" "drop 2 x = m" using assms(1-4) by (simp_all add: x_def list_all_iff)
  then show ?thesis using assms(5) unfolding x_def [symmetric]
    by (auto simp: yyc_timezone_def and_set_def Let_def simp del: takeWhile_eq_all_conv)
qed

lemma yyc_timezone_text:
  assumes "-13 \<le> sint (fst tz)" "sint (fst tz) \<le> 15" "0 \<le> sint (snd tz)" "sint (snd tz) \<le> 59"
  shows "yyc_timezone (True, td) (timezone_text tz) = (True, td\<lparr>timezone := tz\<rparr>)"
proof -
  let ?h = "show_pad 2 \<bar>sint (fst tz)\<bar>" and ?m = "show_pad 2 (sint (snd tz))"
  have d: "list_all c_isdigit ?h" "list_all c_isdigit ?m"
    using show_pad_digits [of "\<bar>sint (fst tz)\<bar>" _ 2] show_pad_digits [of "sint (snd tz)" _ 2] assms by (auto simp: list_all_iff)
  have "\<bar>sint (fst tz)\<bar> < 100" using assms by linarith
  then have l: "length ?h = 2" "length ?m = 2"
    using length_show_pad [of "\<bar>sint (fst tz)\<bar>" 2 2] length_show_pad [of "sint (snd tz)" 2 2] assms
    by (auto simp: show_pad_def Let_def)
  have n: "(ucast (word_of_int v :: 16 word) :: 8 word) = word_of_int v" if "0 \<le> v" "v < 128" for v
    using that by (intro word_uint_eqI) (simp add: uint_word_of_int_eq unsigned_ucast_eq take_bit_int_eq_self)
  have s: "sint (word_of_int v :: 8 word) = v" if "0 \<le> v" "v < 128" for v
    using that unfolding sint_sbintrunc' by (intro signed_take_bit_int_eq_self) simp_all
  have "word_of_int (sint (snd tz)) \<noteq> (0xff :: 8 word)" using assms s [of "sint (snd tz)"] by auto
  then have "crinitTimerSetTimezone ((if sint (fst tz) < 0 then CHR ''-'' else CHR ''+'') # ?h) ?m td = (True, td\<lparr>timezone := tz\<rparr>)"
    using assms n [of "\<bar>sint (fst tz)\<bar>"] n [of "sint (snd tz)"] s [of "\<bar>sint (fst tz)\<bar>"]
    by (auto simp: crinitTimerSetTimezone_def ParseUint16_show_pad CC_RANGE_def Let_def)
  then show ?thesis using yyc_timezone_digits [OF d l] by (cases "sint (fst tz) < 0") (simp_all add: timezone_text_def)
qed

lemma timezone_text_Cons:
  obtains c r where "timezone_text tz = c # r" "c = CHR ''+'' \<or> c = CHR ''-''"
  by (cases "sint (fst tz) < 0") (simp_all add: timezone_text_def)

text \<open>From the hours on.\<close>

lemma yyc_hour_text:
  assumes "timer_wf td"
  shows "yyc_hour (True, td0) (bounds_text 2 (hours td) @ '':'' @ bounds_text 2 (minutes td) @ '':'' @
           bounds_text 2 (seconds td) @ timezone_text (timezone td)) =
         (True, td0\<lparr>hours := hours td, minutes := minutes td, seconds := seconds td, timezone := timezone td\<rparr>)"
proof -
  obtain c r where c: "timezone_text (timezone td) = c # r" "c = CHR ''+'' \<or> c = CHR ''-''" by (rule timezone_text_Cons)
  then have "\<not> c_isdigit c" by (auto simp: c_isdigit_def)
  note m = match_byte_text [where r = "bounds_text 2 (minutes td) @ '':'' @ bounds_text 2 (seconds td) @ c # r"]
    match_byte_text [where r = "bounds_text 2 (seconds td) @ c # r"] match_byte_text [OF \<open>\<not> c_isdigit c\<close>, where r = r]
  have colon: "\<not> c_isdigit (CHR '':'')" by (simp add: c_isdigit_def)
  show ?thesis
    using assms c m [OF colon] m(3)
      byte_bounds_text [of 0 "hours td" 23] byte_bounds_text [of 0 "minutes td" 59] byte_bounds_text [of 0 "seconds td" 59]
      yyc_timezone_text [of "timezone td"]
    by (auto simp: timer_wf_def yyc_hour_def yyc_minute_def yyc_second_def and_set_def crinitTimerSetHours_def
        crinitTimerSetMinutes_def crinitTimerSetSeconds_def)
qed

lemma yyc_year_text:
  assumes "timer_wf td" "fst (years td) \<noteq> 0xffff"
  shows "yyc_year (True, td0) (timer_text td) = (True, td\<lparr>wDay := wDay td0\<rparr>)"
proof -
  have nf: "\<not> c_isdigit (CHR ''-'')" by (simp add: c_isdigit_def)
  have b: "uint (fst (month td)) \<le> 99" "uint (snd (month td)) \<le> 99" "uint (fst (days td)) \<le> 99" "uint (snd (days td)) \<le> 99"
    using assms(1) by (simp_all add: timer_wf_def)
  show ?thesis
    using assms yyc_hour_text [OF assms(1)] match_year_text [OF nf, where b = "years td"]
      match_byte_text [OF nf _ b(1,2)] match_byte_text [OF nf _ b(3,4)] match_byte_text_end [OF nf b(3,4)]
      byte_bounds_text [of 1 "month td" 12] byte_bounds_text [of 1 "days td" 31]
    by (simp add: timer_text_def timer_wf_def yyc_year_def yyc_month_def yyc_day_def and_set_def crinitTimerSetMonth_def crinitTimerSetDays_def
        crinitTimerSetYears_def ParseUint16_show_pad)
qed

lemma timer_text_digit:
  obtains c s where "timer_text td = c # s" "c_isdigit c"
  using show_pad_digits [of "uint (fst (years td))" _ 4] show_pad_Nil [of 4 "uint (fst (years td))"]
  by (cases "show_pad 4 (uint (fst (years td)))") (auto simp: timer_text_def bounds_text_def)

text \<open>The text does not begin with an hour: the field of the years is too long for one, and no colon follows it.\<close>

lemma timer_text_not_hour: "\<not> starts_hour (timer_text td)"
proof -
  have nf: "\<not> is_field (CHR ''-'')" by (simp add: is_field_def c_isdigit_def)
  have "takeWhile is_field (timer_text td) = bounds_text 4 (years td)"
    using bounds_text_digits [of 4 "fst (years td)"] bounds_text_digits [of 4 "snd (years td)"] nf
    by (auto simp: timer_text_def bounds_text_def takeWhile_append list_all_iff is_field_def)
  then show ?thesis by (auto simp: starts_hour_def skip_field_def timer_text_def Let_def split: if_splits)
qed

subsection \<open>Days of the week\<close>

lemma lower_caps:
  "lower_case (CHR ''M'') = CHR ''m''" "lower_case (CHR ''T'') = CHR ''t''" "lower_case (CHR ''W'') = CHR ''w''"
  "lower_case (CHR ''F'') = CHR ''f''" "lower_case (CHR ''S'') = CHR ''s''" "lower_case (CHR ''.'') = CHR ''.''"
  "lower_case (CHR ''-'') = CHR ''-''" "\<forall>c \<in> set ''monuewdhfriat''. lower_case c = c"
  by code_simp+

lemma wday_text:
  assumes "i < 7" "r = CHR ''.'' # r' \<or> r = CHR ''-'' # r'"
  shows "wday ([''Mon'', ''Tue'', ''Wed'', ''Thu'', ''Fri'', ''Sat'', ''Sun''] ! i @ r) = Some (push_bit i 1, r)"
proof -
  have "i \<in> {0, 1, 2, 3, 4, 5, 6}" using assms(1) by auto
  then show ?thesis using assms(2) lower_caps(8)
    by (elim insertE) (auto simp: week_days_def match_nocase_def lower_caps numeral_nat)
qed

lemma yyc_weekday1_text:
  assumes "timer_wf td" "fst (years td) \<noteq> 0xffff" "i < 7" "j < 7"
  shows "yyc_weekday1 (True, td0) (weekday_text i j @ timer_text td) =
    (True, td\<lparr>wDay := wDay (snd (crinitTimerSetWeekdays (push_bit i 1) (push_bit j 1) td0))\<rparr>)"
proof -
  let ?d = "[''Mon'', ''Tue'', ''Wed'', ''Thu'', ''Fri'', ''Sat'', ''Sun'']" and ?rest = "CHR ''-'' # timer_text td"
  have t: "weekday_text i j @ timer_text td = ?d ! i @ ''..'' @ ?d ! j @ ?rest" by (simp add: weekday_text_def Let_def)
  have "i \<in> {0, 1, 2, 3, 4, 5, 6}" "j \<in> {0, 1, 2, 3, 4, 5, 6}" using assms(3,4) by auto
  then have h: "?d ! i @ x \<noteq> [] \<and> hd (?d ! i @ x) \<noteq> CHR ''*''" "\<exists>c s. ?d ! j @ x = c # s \<and> \<not> is_field c \<and> c \<notin> set '':-''" for x
    by (auto simp: is_field_def c_isdigit_def)
  obtain c s where c: "?d ! j @ ?rest = c # s" "\<not> is_field c" "c \<notin> set '':-''" using h(2) by blast
  have f: "takeWhile is_field (''..'' @ ?d ! j @ ?rest) = ''..''" using c by (simp add: is_field_def)
  have "\<not> starts_date (''..'' @ ?d ! j @ ?rest)" "\<not> starts_hour (''..'' @ ?d ! j @ ?rest)"
    using f c by (simp_all add: starts_date_def starts_hour_def skip_field_def Let_def numeral_nat)
  moreover have "wday (?d ! j @ ?rest) = Some (push_bit j 1, ?rest)" by (rule wday_text [OF assms(4)]) simp
  ultimately have "yyc_weekday2 (push_bit i 1) (True, td0) (''..'' @ ?d ! j @ ?rest) =
      yyc_weekdayend (and_weekdays (push_bit i 1) (push_bit j 1) (True, td0)) ?rest"
    by (simp add: yyc_weekday2_def)
  also have "\<dots> = yyc_year (crinitTimerSetWeekdays (push_bit i 1) (push_bit j 1) td0) (timer_text td)"
    by (simp add: yyc_weekdayend_def and_weekdays_def timer_text_not_hour)
  also have "\<dots> = (True, td\<lparr>wDay := wDay (snd (crinitTimerSetWeekdays (push_bit i 1) (push_bit j 1) td0))\<rparr>)"
    using yyc_year_text [OF assms(1,2)] by (simp add: crinitTimerSetWeekdays_def)
  finally show ?thesis using h(1) wday_text [OF assms(3), of "''..'' @ ?d ! j @ ?rest"] unfolding t yyc_weekday1_def by simp
qed

lemma weekday_branch:
  assumes "i < 7" "j < 7"
  shows "crinitTimerParse (weekday_text i j @ x) = yyc_weekday1 (True, crinitTimerSetDefault) (weekday_text i j @ x)"
proof -
  let ?d = "[''Mon'', ''Tue'', ''Wed'', ''Thu'', ''Fri'', ''Sat'', ''Sun'']"
  have t: "weekday_text i j @ x = ?d ! i @ CHR ''.'' # CHR ''.'' # ?d ! j @ ''-'' @ x" by (simp add: weekday_text_def Let_def)
  have "i \<in> {0, 1, 2, 3, 4, 5, 6}" using assms(1) by auto
  then obtain a b c where d: "?d ! i = [a, b, c]" "\<not> is_field a"
    by (auto simp: is_field_def c_isdigit_def)
  have "\<exists>u v y z. map lower_case (weekday_text i j @ x) = u # v # y # CHR ''.'' # z"
    by (simp add: t d(1) lower_caps)
  then have "map lower_case (weekday_text i j @ x) \<notin> {''minutely'', ''hourly'', ''daily'', ''midnight'', ''monthly'', ''weekly'', ''yearly'', ''annually''}"
    by auto
  moreover have "skip_groups n (weekday_text i j @ x) = None" "\<not> starts_hour (weekday_text i j @ x)" for n
    using d by (induction n) (simp_all add: t skip_field_def starts_hour_def)
  moreover have "wday (weekday_text i j @ x) \<noteq> None" using wday_text [OF assms(1)] unfolding t by simp
  ultimately show ?thesis by (simp add: crinitTimerParse_def Let_def)
qed

text \<open>
  C31: a timer definition in the notation of the README, with both bounds of each range, is read as it is written, if the fields are in
  their ranges and the first year is not 65535, which the code uses as the mark for a missing one. Without days of
  the week all days are selected. With an interval of days, these are selected, across the end of the week if need be, with one
  exception: when the last day is the one just before the first, the first day is missing.
\<close>

theorem TimerParse_text:
  assumes "timer_wf td" "fst (years td) \<noteq> 0xffff" "i < 7" "j < 7"
  shows "crinitTimerParse (timer_text td) = (True, td\<lparr>wDay := 0x7f\<rparr>) \<and>
    (\<exists>d. crinitTimerParse (weekday_text i j @ timer_text td) = (True, td\<lparr>wDay := d\<rparr>) \<and>
       (\<forall>k < 7. bit d k \<longleftrightarrow> (if i = Suc j then k \<noteq> i else if i \<le> j then i \<le> k \<and> k \<le> j else k \<le> j \<or> i \<le> k)))"
proof
  let ?rest = "bounds_text 2 (hours td) @ '':'' @ bounds_text 2 (minutes td) @ '':'' @ bounds_text 2 (seconds td) @ timezone_text (timezone td)"
  have t: "timer_text td = bounds_text 4 (years td) @ ''-'' @ bounds_text 2 (month td) @ ''-'' @ bounds_text 2 (days td) @ ''-'' @ ?rest"
    by (simp add: timer_text_def)
  have nf: "\<not> is_field (CHR ''-'')" "\<not> is_field (CHR '':'')" by (simp_all add: is_field_def c_isdigit_def)
  have b: "uint (fst (month td)) \<le> 99" "uint (snd (month td)) \<le> 99" "uint (fst (days td)) \<le> 99" "uint (snd (days td)) \<le> 99"
    "uint (fst (hours td)) \<le> 99" "uint (snd (hours td)) \<le> 99" using assms(1) by (simp_all add: timer_wf_def)
  have g: "skip_groups 2 (timer_text td) = Some (CHR ''-'' # ?rest)"
    using skip_year_text [OF nf(1), of "years td"] skip_byte_text [OF nf(1) b(1,2)] skip_byte_text [OF nf(1) b(3,4)]
    by (simp add: t numeral_2_eq_2)
  moreover have "skip_groups 3 (timer_text td) = Some (CHR '':'' # bounds_text 2 (minutes td) @ '':'' @ bounds_text 2 (seconds td) @ timezone_text (timezone td))"
    using skip_byte_text [OF nf(2) b(5,6)] g by (simp add: numeral_3_eq_3 numeral_2_eq_2 del: skip_groups.simps(1))
  moreover obtain c s where "timer_text td = c # s" "c_isdigit c" by (rule timer_text_digit)
  ultimately have "crinitTimerParse (timer_text td) = yyc_year (True, crinitTimerSetDefault) (timer_text td)"
    using no_keyword [of c s] by (auto simp: crinitTimerParse_def Let_def)
  then show "crinitTimerParse (timer_text td) = (True, td\<lparr>wDay := 0x7f\<rparr>)"
    using yyc_year_text [OF assms(1,2)] by (simp add: crinitTimerSetDefault_def)
next
  let ?s = "weekday_text i j @ timer_text td"
  have "crinitTimerParse ?s = yyc_weekday1 (True, crinitTimerSetDefault) ?s"
    by (rule weekday_branch [OF assms(3,4)])
  then show "\<exists>d. crinitTimerParse ?s = (True, td\<lparr>wDay := d\<rparr>) \<and>
       (\<forall>k < 7. bit d k \<longleftrightarrow> (if i = Suc j then k \<noteq> i else if i \<le> j then i \<le> k \<and> k \<le> j else k \<le> j \<or> i \<le> k))"
    using yyc_weekday1_text [OF assms] SetWeekdays_exact [OF assms(3,4)] by auto
qed

theorem TimerParse_text_witness:
  "crinitTimerParse (timer_text (crinitTimerSetDefault\<lparr>hours := (23, 1), timezone := (-1, 30)\<rparr>)) =
     (True, crinitTimerSetDefault\<lparr>hours := (23, 1), timezone := (-1, 30)\<rparr>)"
  using TimerParse_text [of "crinitTimerSetDefault\<lparr>hours := (23, 1), timezone := (-1, 30)\<rparr>" 4 1]
  by (simp add: timer_wf_def crinitTimerSetDefault_def)

end
