(* ===== verification/World.thy ===== *)
theory World
  imports TaskDBProps
begin

text \<open>
  The operations of the task database seen from the whole daemon, as steps on the map of tasks:
  each keeps \<open>world_ok\<close>, changes the tasks it is meant to change, and nothing else but the timers
  and the syslog flag. Dependencies and triggers are all that fulfilling a dependency or
  providing a feature changes in a task; \<open>core\<close> is a task without these two.
\<close>

definition core :: "crinitTask \<Rightarrow> crinitTask" where
  "core t = t\<lparr>deps := [], triggered := False\<rparr>"

definition eased :: "crinitTask \<Rightarrow> crinitTask \<Rightarrow> bool" where
  "eased t t' \<longleftrightarrow> core t' = core t \<and> set (deps t') \<subseteq> set (deps t) \<and> (triggered t \<longrightarrow> triggered t')"

definition all_eased :: "world \<Rightarrow> world \<Rightarrow> bool" where
  "all_eased w w' \<longleftrightarrow> (\<forall>n. rel_option eased (task_map (taskDB w) n) (task_map (taskDB w') n))"

lemma core_sel [simp]:
  "name (core t) = name t" "state (core t) = state t" "pid (core t) = pid t" "failCount (core t) = failCount t"
  "opts (core t) = opts t" "inhibitRespawn (core t) = inhibitRespawn t" "stopCmds (core t) = stopCmds t"
  "cmds (core t) = cmds t" "prv (core t) = prv t" "freed (core t) = freed t" "trig (core t) = trig t"
  "maxRetries (core t) = maxRetries t"
  by (simp_all add: core_def)

lemma eased_sel:
  assumes "eased t t'"
  shows "name t' = name t" "state t' = state t" "pid t' = pid t" "failCount t' = failCount t"
    "opts t' = opts t" "inhibitRespawn t' = inhibitRespawn t" "stopCmds t' = stopCmds t" "prv t' = prv t"
  using assms unfolding eased_def by (metis core_sel)+

lemma eased_refl [simp]: "eased t t"
  by (simp add: eased_def)

lemma eased_trans: "eased t t' \<Longrightarrow> eased t' t'' \<Longrightarrow> eased t t''"
  by (auto simp: eased_def)

lemma all_eased_refl [simp]: "all_eased w w"
  by (simp add: all_eased_def option.rel_refl)

lemma all_eased_trans:
  assumes "all_eased w w'" "all_eased w' w''"
  shows "all_eased w w''"
proof -
  have "rel_option eased x y \<Longrightarrow> rel_option eased y z \<Longrightarrow> rel_option eased x z" for x y z
    by (cases x; cases y; cases z) (auto intro: eased_trans)
  then show ?thesis using assms unfolding all_eased_def by blast
qed

lemma all_easedE:
  assumes "all_eased w w'" "task_map (taskDB w) n = Some t"
  obtains t' where "task_map (taskDB w') n = Some t'" "eased t t'"
  using assms by (auto simp: all_eased_def dest!: spec [of _ n] elim: option.rel_cases)

lemma all_easedE':
  assumes "all_eased w w'" "task_map (taskDB w') n = Some t'"
  obtains t where "task_map (taskDB w) n = Some t" "eased t t'"
  using assms by (auto simp: all_eased_def dest!: spec [of _ n] elim: option.rel_cases)

lemma all_eased_deps:
  assumes "all_eased w w'" "\<forall>u \<in> ran (task_map (taskDB w)). d \<notin> set (deps u)"
  shows "\<forall>u \<in> ran (task_map (taskDB w')). d \<notin> set (deps u)"
proof
  fix u assume "u \<in> ran (task_map (taskDB w'))"
  then obtain n where "task_map (taskDB w') n = Some u" by (auto simp: ran_def)
  then obtain t where "task_map (taskDB w) n = Some t" "eased t u" by (rule all_easedE' [OF assms(1)])
  then show "d \<notin> set (deps u)" using assms(2) by (auto simp: eased_def ran_def)
qed

lemma same_env_refl [simp]: "same_env w w"
  by (simp add: same_env_def)

lemma same_env_trans: "same_env w w' \<Longrightarrow> same_env w' w'' \<Longrightarrow> same_env w w''"
  by (simp add: same_env_def)

lemma taskSet_ran: "db_wf ctx \<Longrightarrow> set (taskSet ctx) = ran (task_map ctx)"
  by (simp add: task_map_def db_wf_def ran_distinct comp_def image_image)

lemma world_ok_deps:
  assumes "world_ok w" "task_map (taskDB w) n = Some t"
  shows "distinct (deps t)"
proof -
  have "t \<in> ran (task_map (taskDB w))" using assms(2) by (auto simp: ran_def)
  then show ?thesis using assms(1) taskSet_ran [of "taskDB w"] by (auto simp: world_ok_def db_ok_def)
qed

lemma fulfilled_eased:
  assumes "fulfilled d t t'"
  shows "eased t t'"
proof -
  have eq: "t' = t\<lparr>deps := deps t', triggered := triggered t \<or> d \<in> set (trig t)\<rparr>"
    using assms unfolding fulfilled_def by blast
  have "core t' = core t" by (subst eq) (simp add: core_def)
  then show ?thesis using fulfilled_deps [OF assms] fulfilled_frame(8) [OF assms] by (auto simp: eased_def)
qed

lemma list_all2_task_map:
  assumes "list_all2 R ts ts'" "\<And>t t'. R t t' \<Longrightarrow> name t' = name t"
  shows "rel_option R (map_of (map (\<lambda>t. (name t, t)) ts) n) (map_of (map (\<lambda>t. (name t, t)) ts') n)"
  using assms by (induction rule: list_all2_induct) auto

section \<open>Updates of one task\<close>

context task_update
begin

lemma world_update:
  assumes "world_ok w" "task_map (taskDB w) n = Some t" "pre t" "distinct (deps (upd t))"
  shows "ret_sat (\<lambda>(r, w'). r = 0 \<and> world_ok w' \<and> task_map (taskDB w') = (task_map (taskDB w))(n \<mapsto> upd t) \<and>
           same_env w w') (on_db (\<lambda>ctx. op ctx n) w)"
proof -
  have ok: "db_ok (taskDB w)" using assms(1) by (simp add: world_ok_def)
  obtain ctx' where c: "op (taskDB w) n = Ret (0, ctx')" "db_ok ctx'" "task_map ctx' = (task_map (taskDB w))(n \<mapsto> upd t)"
    "spawnInhibit ctx' = spawnInhibit (taskDB w)" "spawnFunc ctx' = spawnFunc (taskDB w)"
    using refines_update [OF ok assms(2,3)] by (auto elim!: ret_satE)
  have "ran (task_map ctx') \<subseteq> insert (upd t) (ran (task_map (taskDB w)))"
    unfolding c(3) by (auto simp: ran_def split: if_splits)
  then have "\<forall>u \<in> set (taskSet ctx'). distinct (deps u)"
    using assms(1,4) c(2) taskSet_ran [of ctx'] taskSet_ran [of "taskDB w"]
    by (auto simp: world_ok_def db_ok_def)
  then show ?thesis using c assms(1) by (simp add: on_db_def world_ok_def same_env_def)
qed

lemma world_unknown:
  assumes "world_ok w" "task_map (taskDB w) n = None"
  shows "ret_sat (\<lambda>(r, w'). r = -1 \<and> world_ok w' \<and> task_map (taskDB w') = task_map (taskDB w) \<and> same_env w w')
           (on_db (\<lambda>ctx. op ctx n) w)"
proof -
  have ok: "db_ok (taskDB w)" using assms(1) by (simp add: world_ok_def)
  obtain ctx' where c: "op (taskDB w) n = Ret (-1, ctx')" "db_ok ctx'" "task_map ctx' = task_map (taskDB w)"
    "spawnInhibit ctx' = spawnInhibit (taskDB w)" "spawnFunc ctx' = spawnFunc (taskDB w)"
    using unknown_task [OF ok assms(2)] by (auto elim!: ret_satE)
  then have "set (taskSet ctx') = set (taskSet (taskDB w))"
    using ok taskSet_ran [of ctx'] taskSet_ran [of "taskDB w"] by (simp add: db_ok_def)
  then show ?thesis using c assms(1) by (simp add: on_db_def world_ok_def same_env_def)
qed

end

section \<open>Dependencies and features\<close>

lemma FulfillDep_world:
  assumes "world_ok w"
  shows "ret_sat (\<lambda>(r, w'). r = 0 \<and> world_ok w' \<and> all_eased w w' \<and> same_env w w' \<and>
           (\<forall>u \<in> ran (task_map (taskDB w')). d \<notin> set (deps u))) (crinitTaskDBFulfillDep w d None)"
proof -
  obtain w' where w': "crinitTaskDBFulfillDep w d None = Ret (0, w')" "world_ok w'" "same_env w w'"
    "list_all2 (fulfilled d) (taskSet (taskDB w)) (taskSet (taskDB w'))"
    using FulfillDep_ok [OF assms, of d] by (auto elim!: ret_satE)
  have "list_all2 eased (taskSet (taskDB w)) (taskSet (taskDB w'))"
    by (rule list_all2_mono [OF w'(4) fulfilled_eased])
  then have "all_eased w w'"
    unfolding all_eased_def task_map_def using list_all2_task_map eased_sel(1) by blast
  moreover have "\<forall>u \<in> set (taskSet (taskDB w')). d \<notin> set (deps u)"
    using w'(4) by (induction rule: list_all2_induct) (auto simp: fulfilled_deps)
  moreover have "set (taskSet (taskDB w')) = ran (task_map (taskDB w'))"
    using w'(2) taskSet_ran by (auto simp: world_ok_def db_ok_def)
  ultimately show ?thesis using w' by simp
qed

lemma run_hook_world:
  assumes "world_ok w"
  shows "\<exists>s'. run_hook w f type = Ret (0, w\<lparr>sysLog := s'\<rparr>)"
proof -
  have "optLock (globOpts w) = Unlocked" using assms by (simp add: world_ok_def)
  from FeatureHook_ok [OF this, of "sysLog w" "Some f" type] obtain s' where
    "crinitFeatureHook (globOpts w) (sysLog w) (Some f) type = Ret (0, globOpts w, s')" by blast
  then show ?thesis by (auto simp: run_hook_def)
qed

lemma sysLog_irrelevant [simp]:
  "world_ok (w\<lparr>sysLog := s\<rparr>) = world_ok w" "all_eased (w\<lparr>sysLog := s\<rparr>) = all_eased w"
  "same_env (w\<lparr>sysLog := s\<rparr>) = same_env w"
  by (auto simp: world_ok_def all_eased_def same_env_def fun_eq_iff)

lemma provide_loop_world:
  assumes "world_ok w"
  shows "ret_sat (\<lambda>(r, w'). r = 0 \<and> world_ok w' \<and> all_eased w w' \<and> same_env w w') (provide_loop s ps w)"
  using assms
proof (induction ps arbitrary: w)
  case (Cons p ps)
  let ?d = "\<lparr>depName = CRINIT_PROVIDE_DEP_NAME, event = prvName p\<rparr>"
  have hook: "ret_sat (\<lambda>(r, w'). r = 0 \<and> world_ok w' \<and> all_eased w0 w' \<and> same_env w0 w')
      (bind_run (run_hook w0 (prvName p) type) (\<lambda>(r, w). if r = -1 then Ret (-1, w) else provide_loop s ps w))"
    if "world_ok w0" for w0 type
    using run_hook_world [OF that, of "prvName p" type] Cons.IH [of "w0\<lparr>sysLog := x\<rparr>" for x] that
    by (auto elim!: ret_sat_mono)
  show ?case
  proof (cases "stateReq p = s")
    case True
    obtain w1 where w1: "crinitTaskDBFulfillDep w ?d None = Ret (0, w1)" "world_ok w1" "all_eased w w1" "same_env w w1"
      using FulfillDep_world [OF Cons.prems, of ?d] by (auto elim!: ret_satE)
    then show ?thesis using True hook [OF w1(2), of CRINIT_HOOK_START]
      by (auto elim!: ret_sat_mono intro: all_eased_trans same_env_trans)
  next
    case False
    then show ?thesis using hook [OF Cons.prems, of CRINIT_HOOK_STOP] by simp
  qed
qed simp

lemma ProvideFeature_world:
  "world_ok w \<Longrightarrow> \<not> freed t \<Longrightarrow>
   ret_sat (\<lambda>(r, w'). r = 0 \<and> world_ok w' \<and> all_eased w w' \<and> same_env w w') (crinitTaskDBProvideFeature w t s)"
  by (simp add: crinitTaskDBProvideFeature_def provide_loop_world)

end
