(* ===== verification/TimerPool.thy ===== *)
theory TimerPool
  imports TimerParser World Samples
begin

text \<open>
  The rest of the timer pool, \<open>src/src/timerdb.c\<close>: adding a reference to a timer, and one round
  of the thread that polls the timers. \<open>timerEnv\<close> is what the operating system answers: the
  time, and the outcomes of creating and arming a timer and of waking the polling thread.
  Duplicating the name of a new timer succeeds. What \<open>poll\<close> reports is \<open>pollResult\<close>, with the
  outcomes of arming each timer again (\<open>resetOk\<close>).
\<close>

section \<open>Adding timers\<close>

record timerEnv =
  tmNow :: timespec
  tmCreateOk :: bool
  tmSettimeOk :: bool
  tmWriteOk :: bool
  tmFd :: int

fun find_timer :: "nat \<Rightarrow> string \<Rightarrow> timerSlot list \<Rightarrow> nat option" where
  "find_timer i timerStr [] = None"
| "find_timer i timerStr (s # ss) = (if slot_name s = timerStr then Some i else find_timer (Suc i) timerStr ss)"

definition add_ref :: "timerSlot \<Rightarrow> timerSlot" where
  "add_ref s = s\<lparr>slotTimer := (slotTimer s)\<lparr>refs := refs (slotTimer s) + 1\<rparr>\<rparr>"

text \<open>The result of the parser is not looked at: text it rejects gives a timer as well.\<close>

definition new_timer :: "timespec \<Rightarrow> string \<Rightarrow> crinitTimer" where
  "new_timer now timerStr =
     (let td = snd (crinitTimerParse timerStr)
      in \<lparr>timerDef = td, timerName = timerStr, refs = 1, it_value = crinitTimerNextTime now td\<rparr>)"

definition crinitTimerDBAddTimer :: "timerEnv \<Rightarrow> crinitTimerDB \<Rightarrow> string \<Rightarrow> crinitTimerDB run" where
  "crinitTimerDBAddTimer e db timerStr =
     bind_run (pthread_mutex_lock (poolLock db)) (\<lambda>(r, m).
       if r \<noteq> 0 then Ret db
       else let db = db\<lparr>poolLock := m\<rparr> in
         case find_timer 0 timerStr (slots db) of
           Some i \<Rightarrow> Ret (pool_unlock (db\<lparr>slots := (slots db)[i := add_ref (slots db ! i)]\<rparr>))
         | None \<Rightarrow>
             bind_run (crinitTimerDBInsertTimer (tmCreateOk e) (tmSettimeOk e) (tmWriteOk e) (tmFd e)
                 (pool_unlock db) (new_timer (tmNow e) timerStr)) (\<lambda>(r, db). Ret db))"

definition crinitTimerDBSpawn :: "crinitTimerDB \<Rightarrow> (int \<times> crinitTimerDB) run" where
  "crinitTimerDBSpawn db =
     bind_run (pthread_mutex_lock (poolLock db)) (\<lambda>(e, m).
       if e \<noteq> 0 then Ret (-1, db)
       else case pthread_mutex_unlock m of (u, m) \<Rightarrow> Ret (if u \<noteq> 0 then -1 else 0, db\<lparr>poolLock := m\<rparr>))"

section \<open>Polling\<close>

record pollResult =
  pollOk :: bool
  pollWake :: bool
  pollIn :: "nat \<Rightarrow> bool"
  resetOk :: "nat \<Rightarrow> bool"

text \<open>
  Arming a timer for its next point in time. An error of the system call is only logged and leaves the timer of the kernel as
  it is.
\<close>

definition rearm :: "bool \<Rightarrow> timerSlot \<Rightarrow> timerSlot" where
  "rearm settimeOk s =
     (let v = crinitTimerNextTime (it_value (slotTimer s)) (timerDef (slotTimer s))
      in s\<lparr>slotTimer := (slotTimer s)\<lparr>it_value := v\<rparr>,
           slotArmed := (if settimeOk then timerfd_settime v else slotArmed s)\<rparr>)"

text \<open>
  The loop over the timers that are due. The number of timers cannot grow while the pool is
  locked, so the positions at its start are all the loop visits.
\<close>

fun pool_loop :: "(nat \<Rightarrow> bool) \<Rightarrow> nat list \<Rightarrow> world \<Rightarrow> world run" where
  "pool_loop ok [] w = Ret w"
| "pool_loop ok (i # is) w =
     (if i < length (slots (timerPool w)) \<and> slotRevents (slots (timerPool w) ! i) then
        bind_run (crinitTaskDBFulfillDep w \<lparr>depName = ''@timer'', event = slot_name (slots (timerPool w) ! i)\<rparr> None) (\<lambda>(_, w).
          pool_loop ok is (w\<lparr>timerPool := (timerPool w)\<lparr>slots := (slots (timerPool w))[i := rearm (ok i) (slots (timerPool w) ! i)]\<rparr>\<rparr>))
      else pool_loop ok is w)"

text \<open>What \<open>poll\<close> reports: a timer that is due has expired.\<close>

definition set_revents :: "(nat \<Rightarrow> bool) \<Rightarrow> crinitTimerDB \<Rightarrow> crinitTimerDB" where
  "set_revents f db = db\<lparr>slots := map (\<lambda>(i, s). s\<lparr>slotRevents := f i, slotArmed := if f i then None else slotArmed s\<rparr>) (enumerate 0 (slots db))\<rparr>"

text \<open>One round of \<open>crinitTimerDBRunPool\<close>: whether the thread goes on, and the world.\<close>

definition run_pool_round :: "pollResult \<Rightarrow> world \<Rightarrow> (bool \<times> world) run" where
  "run_pool_round p w =
     (if \<not> pollOk p then Ret (False, w)
      else let w = w\<lparr>timerPool := set_revents (pollIn p) (timerPool w)\<rparr> in
        bind_run (pthread_mutex_lock (poolLock (timerPool w))) (\<lambda>(e, m).
          if e \<noteq> 0 then Ret (False, w)
          else let w = w\<lparr>timerPool := (timerPool w)\<lparr>poolLock := m\<rparr>\<rparr> in
            if pollWake p then Ret (True, w\<lparr>timerPool := pool_unlock (timerPool w)\<rparr>)
            else bind_run (pool_loop (resetOk p) [0..<length (slots (timerPool w))] w) (\<lambda>w.
              Ret (True, w\<lparr>timerPool := pool_unlock (timerPool w)\<rparr>))))"

section \<open>Lemmas\<close>

subsection \<open>References\<close>

lemma find_timer_None: "find_timer i n ss = None \<longleftrightarrow> n \<notin> slot_name ` set ss"
  by (induction ss arbitrary: i) auto

lemma find_timer_Some:
  "find_timer i n ss = Some j \<Longrightarrow> i \<le> j \<and> j - i < length ss \<and> slot_name (ss ! (j - i)) = n"
  by (induction ss arbitrary: i) (auto split: if_splits simp: nth_Cons' dest!: meta_spec, fastforce+)

lemma pool_refs_None: "pool_refs db n = None \<longleftrightarrow> n \<notin> slot_name ` set (slots db)"
  by (auto simp: pool_refs_def map_of_eq_None_iff image_image)

text \<open>
  Adding a timer adds one reference, where there is room for a new timer; the counterpart of
  removing one.
\<close>

lemma AddTimer_ok:
  assumes "pool_ok db" "pool_refs db n \<noteq> None \<or> poolSize db < cap db \<and> tmCreateOk e \<and> tmSettimeOk e"
  shows "ret_sat (\<lambda>db'. pool_ok db' \<and> cap db' = cap db \<and>
           pool_refs db' = (pool_refs db)(n \<mapsto> (case pool_refs db n of None \<Rightarrow> 1 | Some k \<Rightarrow> k + 1)))
         (crinitTimerDBAddTimer e db n)"
proof (cases "find_timer 0 n (slots db)")
  case None
  then have r: "pool_refs db n = None" by (simp add: find_timer_None pool_refs_None)
  have l: "poolLock db = Unlocked" using assms(1) by (simp add: pool_ok_def)
  have u: "pool_unlock (db\<lparr>poolLock := Locked\<rparr>) = db" by (simp add: pool_unlock_def l)
  have "ret_sat (\<lambda>(r, db'). pool_ok db' \<and> cap db' = cap db \<and> pool_refs db' = (pool_refs db)(n \<mapsto> 1))
      (crinitTimerDBInsertTimer (tmCreateOk e) (tmSettimeOk e) b (tmFd e) db (new_timer (tmNow e) n))" for b
    using InsertTimer_ok [OF assms(1), of "new_timer (tmNow e) n" "tmFd e"] assms(2) r l
    by (cases b) (auto simp: crinitTimerDBInsertTimer_def new_timer_def Let_def)
  from this [of "tmWriteOk e"] obtain r' db' where
    "crinitTimerDBInsertTimer (tmCreateOk e) (tmSettimeOk e) (tmWriteOk e) (tmFd e) db (new_timer (tmNow e) n) = Ret (r', db')"
    "pool_ok db' \<and> cap db' = cap db \<and> pool_refs db' = (pool_refs db)(n \<mapsto> 1)" by (auto elim!: ret_satE)
  then show ?thesis using None l r u by (simp add: crinitTimerDBAddTimer_def Let_def)
next
  case (Some i)
  then have i: "i < length (slots db)" "slot_name (slots db ! i) = n" using find_timer_Some [OF Some] by auto
  have d: "distinct (map slot_name (slots db))" and l: "poolLock db = Unlocked" using assms(1) by (auto simp: pool_ok_def)
  have v: "pool_refs db n = Some (refs (slotTimer (slots db ! i)))"
    unfolding pool_refs_def using d i by (intro map_of_is_SomeI) (auto simp: comp_def intro!: image_eqI [of _ _ "slots db ! i"])
  have n: "slot_name (add_ref (slots db ! i)) = n" using i by (simp add: add_ref_def)
  have "map slot_name ((slots db)[i := add_ref (slots db ! i)]) = map slot_name (slots db)"
    using i n by (simp add: map_update_key)
  moreover have "\<forall>s \<in> set ((slots db)[i := add_ref (slots db ! i)]). refs (slotTimer s) > 0"
    using assms(1) set_update_subset_insert [of "slots db" i "add_ref (slots db ! i)"] by (auto simp: pool_ok_def add_ref_def)
  ultimately show ?thesis
    using Some i n v l d assms(1) map_of_map_pair_update [OF d i(1), of "add_ref (slots db ! i)" "\<lambda>s. refs (slotTimer s)"]
    by (auto simp: crinitTimerDBAddTimer_def pool_unlock_def pool_ok_def pool_refs_def add_ref_def Let_def)
qed

subsection \<open>Rounds of the polling thread\<close>

abbreviation timer_dep :: "string \<Rightarrow> crinitTaskDep" where "timer_dep n \<equiv> \<lparr>depName = ''@timer'', event = n\<rparr>"

text \<open>While the pool is locked by the thread itself, a dependency on a timer cannot be removed.\<close>

lemma remove_dep_locked:
  assumes "poolLock pool = Locked" "timer_dep n \<in> set ds"
  shows "remove_dep_loop (timer_dep n) 0 ds pool = Blocked"
proof -
  obtain ys zs where ds: "ds = ys @ timer_dep n # zs" "timer_dep n \<notin> set ys" using split_list_first [OF assms(2)] by blast
  define i where "i = length ys"
  have i: "i < length ds" "ds ! i = timer_dep n" "timer_dep n \<notin> set (take i ds)" using ds by (simp_all add: i_def)
  then have "remove_dep_loop (timer_dep n) 0 ds pool = remove_dep_loop (timer_dep n) i ds pool"
    by (intro remove_dep_loop_skip) auto
  also have "\<dots> = Blocked" using i assms(1) by (subst remove_dep_loop.simps) (simp add: crinitTimerDBRemoveTimer_def)
  finally show ?thesis .
qed

definition trigger_by :: "crinitTaskDep \<Rightarrow> crinitTask \<Rightarrow> crinitTask" where
  "trigger_by d t = t\<lparr>triggered := triggered t \<or> d \<in> set (trig t)\<rparr>"

lemma fulfill_all_locked:
  assumes "poolLock pool = Locked" "\<forall>t \<in> set ts. \<not> freed t"
  shows "fulfill_all (timer_dep n) ts pool =
    (if \<exists>t \<in> set ts. timer_dep n \<in> set (deps t) then Blocked else Ret (map (trigger_by (timer_dep n)) ts, pool))"
  using assms(2)
proof (induction ts)
  case (Cons t ts)
  show ?case
  proof (cases "timer_dep n \<in> set (deps t)")
    case True
    then show ?thesis using Cons.prems remove_dep_locked [OF assms(1) True]
      by (simp add: crinitTaskDBRemoveDepFromTaskStruct_def)
  next
    case False
    then have "remove_dep_loop (timer_dep n) 0 (deps t) pool = Ret (deps t, pool)" by (intro remove_dep_loop_absent) simp
    then show ?thesis using Cons False by (auto simp: crinitTaskDBRemoveDepFromTaskStruct_def trigger_by_def)
  qed
qed simp

text \<open>A thread that holds the lock of the pool and knows all tasks to be intact.\<close>

definition polling :: "world \<Rightarrow> bool" where
  "polling w \<longleftrightarrow> poolLock (timerPool w) = Locked \<and> lock (taskDB w) = Unlocked \<and> (\<forall>t \<in> set (taskSet (taskDB w)). \<not> freed t)"

definition depended :: "world \<Rightarrow> string \<Rightarrow> bool" where
  "depended w n \<longleftrightarrow> (\<exists>t \<in> set (taskSet (taskDB w)). timer_dep n \<in> set (deps t))"

definition fire :: "(nat \<Rightarrow> bool) \<Rightarrow> nat \<Rightarrow> world \<Rightarrow> world" where
  "fire ok i w = w\<lparr>taskDB := (taskDB w)\<lparr>taskSet := map (trigger_by (timer_dep (slot_name (slots (timerPool w) ! i)))) (taskSet (taskDB w)),
                  changed := Suc (changed (taskDB w)), lock := Unlocked\<rparr>,
     timerPool := (timerPool w)\<lparr>slots := (slots (timerPool w))[i := rearm (ok i) (slots (timerPool w) ! i)]\<rparr>\<rparr>"

lemma pool_loop_step:
  assumes "polling w" "i < length (slots (timerPool w))" "slotRevents (slots (timerPool w) ! i)"
  shows "pool_loop ok (i # is) w =
    (if depended w (slot_name (slots (timerPool w) ! i)) then Blocked else pool_loop ok is (fire ok i w))"
proof -
  have f: "fulfill_all (timer_dep n) (taskSet (taskDB w)) (timerPool w) =
      (if depended w n then Blocked else Ret (map (trigger_by (timer_dep n)) (taskSet (taskDB w)), timerPool w))" for n
    using fulfill_all_locked assms(1) by (simp add: polling_def depended_def)
  have "lock (taskDB w) = Unlocked" using assms(1) by (simp add: polling_def)
  then show ?thesis
    using assms(2,3) by (simp add: crinitTaskDBFulfillDep_def f db_unlock_def pthread_cond_broadcast_def fire_def)
qed

lemma fire_polling:
  assumes "polling w" "i < length (slots (timerPool w))"
  shows "polling (fire ok i w)" "depended (fire ok i w) n = depended w n"
    "length (slots (timerPool (fire ok i w))) = length (slots (timerPool w))"
    "j \<noteq> i \<Longrightarrow> slots (timerPool (fire ok i w)) ! j = slots (timerPool w) ! j"
    "slot_name (slots (timerPool (fire ok i w)) ! j) = slot_name (slots (timerPool w) ! j)"
    "slotRevents (slots (timerPool (fire ok i w)) ! j) = slotRevents (slots (timerPool w) ! j)"
  using assms by (auto simp: polling_def depended_def fire_def trigger_by_def rearm_def Let_def nth_list_update)

lemma pool_loop_blocks:
  assumes "polling w" "i \<in> set is" "i < length (slots (timerPool w))" "slotRevents (slots (timerPool w) ! i)"
    "depended w (slot_name (slots (timerPool w) ! i))"
  shows "pool_loop ok is w = Blocked"
  using assms
proof (induction "is" arbitrary: w)
  case (Cons j js)
  show ?case
  proof (cases "j < length (slots (timerPool w)) \<and> slotRevents (slots (timerPool w) ! j)")
    case True
    then have step: "pool_loop ok (j # js) w = (if depended w (slot_name (slots (timerPool w) ! j)) then Blocked else pool_loop ok js (fire ok j w))"
      using pool_loop_step [OF Cons.prems(1)] by blast
    show ?thesis
    proof (cases "j = i")
      case False
      then have "i \<in> set js" using Cons.prems(2) by simp
      then have "pool_loop ok js (fire ok j w) = Blocked"
        using Cons.IH [of "fire ok j w"] Cons.prems True fire_polling [OF Cons.prems(1), of j] by metis
      then show ?thesis using step by simp
    qed (use step Cons.prems(5) in simp)
  next
    case False
    then have "i \<in> set js" using Cons.prems by auto
    then show ?thesis using Cons.IH [of w] Cons.prems False by auto
  qed
qed simp

lemma set_revents_nth:
  "i < length (slots db) \<Longrightarrow> slots (set_revents f db) ! i = (slots db ! i)\<lparr>slotRevents := f i, slotArmed := if f i then None else slotArmed (slots db ! i)\<rparr>"
  "length (slots (set_revents f db)) = length (slots db)" "poolLock (set_revents f db) = poolLock db"
  by (simp_all add: set_revents_def nth_enumerate_eq)

text \<open>
  C32: when a timer is due on which a task depends, the polling thread locks itself out: it
  holds the lock of the pool, and fulfilling the dependency asks for that lock again. No timer
  fires any more.
\<close>

theorem timer_dependency_deadlocks:
  assumes "poolLock (timerPool w) = Unlocked" "lock (taskDB w) = Unlocked" "\<forall>t \<in> set (taskSet (taskDB w)). \<not> freed t"
    and "pollOk p" "\<not> pollWake p" "pollIn p i" "i < length (slots (timerPool w))"
    and "t \<in> set (taskSet (taskDB w))" "\<lparr>depName = ''@timer'', event = timerName (slotTimer (slots (timerPool w) ! i))\<rparr> \<in> set (deps t)"
  shows "run_pool_round p w = Blocked"
proof -
  let ?w = "w\<lparr>timerPool := (set_revents (pollIn p) (timerPool w))\<lparr>poolLock := Locked\<rparr>\<rparr>"
  have s: "slots (timerPool ?w) ! i = (slots (timerPool w) ! i)\<lparr>slotRevents := True, slotArmed := None\<rparr>"
    using set_revents_nth(1) [OF assms(7), of "pollIn p"] assms(6) by simp
  have "pool_loop (resetOk p) [0..<length (slots (timerPool ?w))] ?w = Blocked"
  proof (rule pool_loop_blocks [where i = i])
    show "polling ?w" using assms(2,3) by (simp add: polling_def)
    show "depended ?w (slot_name (slots (timerPool ?w) ! i))" using assms(8,9) s by (auto simp: depended_def)
  qed (use assms(7) s in \<open>simp_all add: set_revents_nth(2)\<close>)
  then show ?thesis using assms(1,4,5) by (simp add: run_pool_round_def set_revents_nth(3) Let_def)
qed

definition sampleTimerWorld :: "crinitTask list \<Rightarrow> world" where
  "sampleTimerWorld ts = (sampleWorld ts)\<lparr>timerPool := samplePool [sampleTimer ''daily'' 1]\<rparr>"

theorem timer_dependency_deadlocks_witness:
  "run_pool_round \<lparr>pollOk = True, pollWake = False, pollIn = (\<lambda>_. True), resetOk = (\<lambda>_. True)\<rparr>
     (sampleTimerWorld [(sampleTask ''a'')\<lparr>deps := [timer_dep ''daily'']\<rparr>]) = Blocked"
  by (rule timer_dependency_deadlocks [where i = 0 and t = "(sampleTask ''a'')\<lparr>deps := [timer_dep ''daily'']\<rparr>"])
     (simp_all add: sampleTimerWorld_def samplePool_def sampleTimer_def)

text \<open>The round when no task depends on a timer that is due.\<close>

lemma pool_loop_fires:
  assumes "polling w" "distinct is" "\<forall>i \<in> set is. i < length (slots (timerPool w))"
    "\<forall>i \<in> set is. slotRevents (slots (timerPool w) ! i) \<longrightarrow> \<not> depended w (slot_name (slots (timerPool w) ! i))"
  shows "\<exists>w'. pool_loop ok is w = Ret w' \<and> polling w' \<and> length (slots (timerPool w')) = length (slots (timerPool w)) \<and>
    (\<forall>i < length (slots (timerPool w)). slots (timerPool w') ! i =
       (if i \<in> set is \<and> slotRevents (slots (timerPool w) ! i) then rearm (ok i) (slots (timerPool w) ! i) else slots (timerPool w) ! i)) \<and>
    taskSet (taskDB w') = map (\<lambda>t. t\<lparr>triggered := triggered t \<or>
       (\<exists>i \<in> set is. slotRevents (slots (timerPool w) ! i) \<and> timer_dep (slot_name (slots (timerPool w) ! i)) \<in> set (trig t))\<rparr>)
       (taskSet (taskDB w))"
  using assms
proof (induction "is" arbitrary: w)
  case Nil
  then show ?case by simp
next
  case (Cons j js)
  have j: "j < length (slots (timerPool w))" "j \<notin> set js" "distinct js" using Cons.prems by auto
  show ?case
  proof (cases "slotRevents (slots (timerPool w) ! j)")
    case True
    let ?u = "fire ok j w"
    have step: "pool_loop ok (j # js) w = pool_loop ok js ?u"
      using pool_loop_step [OF Cons.prems(1) j(1) True] Cons.prems(4) True by simp
    note f = fire_polling [OF Cons.prems(1) j(1)]
    obtain w' where w': "pool_loop ok js ?u = Ret w'" "polling w'" "length (slots (timerPool w')) = length (slots (timerPool ?u))"
      "\<forall>i < length (slots (timerPool ?u)). slots (timerPool w') ! i =
         (if i \<in> set js \<and> slotRevents (slots (timerPool ?u) ! i) then rearm (ok i) (slots (timerPool ?u) ! i) else slots (timerPool ?u) ! i)"
      "taskSet (taskDB w') = map (\<lambda>t. t\<lparr>triggered := triggered t \<or>
         (\<exists>i \<in> set js. slotRevents (slots (timerPool ?u) ! i) \<and> timer_dep (slot_name (slots (timerPool ?u) ! i)) \<in> set (trig t))\<rparr>)
         (taskSet (taskDB ?u))"
      using Cons.IH [of ?u] Cons.prems f j by (simp add: f) blast
    have "slots (timerPool w') ! i = (if i \<in> set (j # js) \<and> slotRevents (slots (timerPool w) ! i) then rearm (ok i) (slots (timerPool w) ! i) else slots (timerPool w) ! i)"
      if "i < length (slots (timerPool w))" for i
      using w'(4) that f j True by (cases "i = j") (simp_all add: fire_def)
    moreover have "taskSet (taskDB ?u) = map (trigger_by (timer_dep (slot_name (slots (timerPool w) ! j)))) (taskSet (taskDB w))"
      by (simp add: fire_def)
    ultimately show ?thesis using step w' f True by (auto simp: trigger_by_def disj_ac)
  next
    case False
    then show ?thesis using Cons.IH [of w] Cons.prems by auto
  qed
qed

text \<open>
  C20: a round of the polling thread that was not woken up by a change of the pool, and in which no task depends on a timer that
  is due, sets every due timer to its next point in time and arms the timer of the kernel for that time (or leaves it
  disarmed, if there is none, or if the system call fails), leaves all other timers as they are, triggers exactly the tasks
  that name a due timer as a trigger, and releases the pool.
\<close>

theorem timer_round_fires:
  assumes "poolLock (timerPool w) = Unlocked" "lock (taskDB w) = Unlocked" "\<forall>t \<in> set (taskSet (taskDB w)). \<not> freed t"
    and "pollOk p" "\<not> pollWake p"
    and "\<forall>i < length (slots (timerPool w)). pollIn p i \<longrightarrow>
           (\<forall>t \<in> set (taskSet (taskDB w)). \<lparr>depName = ''@timer'', event = slot_name (slots (timerPool w) ! i)\<rparr> \<notin> set (deps t))"
  shows "\<exists>w'. run_pool_round p w = Ret (True, w') \<and> poolLock (timerPool w') = Unlocked \<and>
    length (slots (timerPool w')) = length (slots (timerPool w)) \<and>
    (\<forall>i < length (slots (timerPool w)).
       let s = slots (timerPool w) ! i; t = slotTimer s; v = crinitTimerNextTime (it_value t) (timerDef t) in
       slots (timerPool w') ! i =
         (if pollIn p i
          then s\<lparr>slotTimer := t\<lparr>it_value := v\<rparr>, slotRevents := True,
                 slotArmed := if resetOk p i \<and> v \<noteq> \<lparr>tv_sec = 0, tv_nsec = 0\<rparr> then Some v else None\<rparr>
          else s\<lparr>slotRevents := False\<rparr>)) \<and>
    taskSet (taskDB w') = map (\<lambda>t. t\<lparr>triggered := triggered t \<or>
       (\<exists>i < length (slots (timerPool w)). pollIn p i \<and>
          \<lparr>depName = ''@timer'', event = slot_name (slots (timerPool w) ! i)\<rparr> \<in> set (trig t))\<rparr>) (taskSet (taskDB w))"
proof -
  let ?n = "length (slots (timerPool w))"
  let ?w = "w\<lparr>timerPool := (set_revents (pollIn p) (timerPool w))\<lparr>poolLock := Locked\<rparr>\<rparr>"
  have s: "slots (timerPool ?w) ! i = (slots (timerPool w) ! i)\<lparr>slotRevents := pollIn p i,
      slotArmed := if pollIn p i then None else slotArmed (slots (timerPool w) ! i)\<rparr>" if "i < ?n" for i
    using set_revents_nth(1) [OF that] by simp
  have n: "length (slots (timerPool ?w)) = ?n" by (simp add: set_revents_nth(2))
  have "polling ?w" using assms(2,3) by (simp add: polling_def)
  moreover have "\<forall>i \<in> set [0..<?n]. slotRevents (slots (timerPool ?w) ! i) \<longrightarrow> \<not> depended ?w (slot_name (slots (timerPool ?w) ! i))"
    using assms(6) s by (auto simp: depended_def)
  ultimately obtain w' where w': "pool_loop (resetOk p) [0..<?n] ?w = Ret w'" "polling w'" "length (slots (timerPool w')) = ?n"
    "\<forall>i < ?n. slots (timerPool w') ! i = (if i \<in> set [0..<?n] \<and> slotRevents (slots (timerPool ?w) ! i)
       then rearm (resetOk p i) (slots (timerPool ?w) ! i) else slots (timerPool ?w) ! i)"
    "taskSet (taskDB w') = map (\<lambda>t. t\<lparr>triggered := triggered t \<or>
       (\<exists>i \<in> set [0..<?n]. slotRevents (slots (timerPool ?w) ! i) \<and> timer_dep (slot_name (slots (timerPool ?w) ! i)) \<in> set (trig t))\<rparr>)
       (taskSet (taskDB ?w))"
    using pool_loop_fires [of ?w "[0..<?n]" "resetOk p"] n by auto
  have "run_pool_round p w = Ret (True, w'\<lparr>timerPool := pool_unlock (timerPool w')\<rparr>)"
    using w'(1) assms(1,4,5) n by (simp add: run_pool_round_def set_revents_nth(3) Let_def)
  moreover have "taskSet (taskDB w') = map (\<lambda>t. t\<lparr>triggered := triggered t \<or>
       (\<exists>i < ?n. pollIn p i \<and> timer_dep (slot_name (slots (timerPool w) ! i)) \<in> set (trig t))\<rparr>) (taskSet (taskDB w))"
    unfolding w'(5) using s by (auto simp: Bex_def)
  moreover have "\<forall>i < ?n. let s = slots (timerPool w) ! i; t = slotTimer s; v = crinitTimerNextTime (it_value t) (timerDef t) in
       slots (timerPool w') ! i =
         (if pollIn p i
          then s\<lparr>slotTimer := t\<lparr>it_value := v\<rparr>, slotRevents := True,
                 slotArmed := if resetOk p i \<and> v \<noteq> \<lparr>tv_sec = 0, tv_nsec = 0\<rparr> then Some v else None\<rparr>
          else s\<lparr>slotRevents := False\<rparr>)"
    using w'(4) s by (simp add: rearm_def timerfd_settime_def Let_def)
  ultimately show ?thesis using w'(2,3) by (simp add: pool_unlock_def polling_def)
qed

theorem timer_round_fires_witness:
  "\<exists>w'. run_pool_round \<lparr>pollOk = True, pollWake = False, pollIn = (\<lambda>_. True), resetOk = (\<lambda>_. True)\<rparr>
     (sampleTimerWorld [(sampleTask ''a'')\<lparr>trig := [timer_dep ''daily''], triggered := False\<rparr>]) = Ret (True, w') \<and>
     map triggered (taskSet (taskDB w')) = [True]"
  using timer_round_fires [of "sampleTimerWorld [(sampleTask ''a'')\<lparr>trig := [timer_dep ''daily''], triggered := False\<rparr>]"
      "\<lparr>pollOk = True, pollWake = False, pollIn = (\<lambda>_. True), resetOk = (\<lambda>_. True)\<rparr>"]
  by (auto simp: sampleTimerWorld_def samplePool_def sampleTimer_def)

text \<open>
  C40: a timer whose first year is still to come is accepted and gets its place in the pool, but the timer of the kernel behind it is
  not armed, so that it does not fire when that year comes.
\<close>

theorem future_timer_not_armed:
  assumes "pool_ok db" "pool_refs db timerStr = None" "poolSize db < cap db" "tmCreateOk e" "tmSettimeOk e"
    and "crinitTimerParse timerStr = (True, td)" "fst (years td) \<le> snd (years td)"
    and "tm_year (crinitZonedTimeR (tv_sec (tmNow e)) (timezone td)) + 1900 < uint (fst (years td))"
  shows "\<exists>db' s. crinitTimerDBAddTimer e db timerStr = Ret db' \<and> slots db' = slots db @ [s] \<and>
    timerName (slotTimer s) = timerStr \<and> timerDef (slotTimer s) = td \<and> slotArmed s = None"
proof -
  have "find_timer 0 timerStr (slots db) = None" using assms(2) by (simp add: find_timer_None pool_refs_None)
  moreover have "it_value (new_timer (tmNow e) timerStr) = \<lparr>tv_sec = 0, tv_nsec = 0\<rparr>"
    using TimerNextTime_future_year [OF assms(8,7)] assms(6) by (simp add: new_timer_def Let_def)
  ultimately show ?thesis
    using assms(1,3-6)
    by (simp add: crinitTimerDBAddTimer_def crinitTimerDBInsertTimer_def pool_ok_def pool_unlock_def timerfd_settime_def)
      (simp add: new_timer_def Let_def)
qed

theorem future_timer_not_armed_witness:
  "\<exists>db'. crinitTimerDBAddTimer \<lparr>tmNow = zero_time, tmCreateOk = True, tmSettimeOk = True, tmWriteOk = True, tmFd = 7\<rparr>
      (samplePool []) ''2030-10-25'' = Ret db' \<and> map slotArmed (slots db') = [None]"
proof -
  define e where "e = \<lparr>tmNow = zero_time, tmCreateOk = True, tmSettimeOk = True, tmWriteOk = True, tmFd = 7\<rparr>"
  let ?td = "snd (crinitTimerParse ''2030-10-25'')"
  have td: "fst (crinitTimerParse ''2030-10-25'')" "fst (years ?td) \<le> snd (years ?td)"
    "tm_year (crinitZonedTimeR 0 (timezone ?td)) + 1900 < uint (fst (years ?td))"
    by code_simp+
  have p: "pool_ok (samplePool [])" "pool_refs (samplePool []) ''2030-10-25'' = None" "poolSize (samplePool []) < cap (samplePool [])"
    by (simp_all add: pool_ok_def pool_refs_def samplePool_def)
  show ?thesis
    using future_timer_not_armed [OF p, of e ?td] td unfolding e_def [symmetric]
    by (auto simp: e_def prod_eq_iff samplePool_def)
qed

end
