(* ===== verification/FSeries.thy ===== *)
theory FSeries
  imports CLib "HOL-Library.Char_ord" "HOL-Library.List_Lexorder"
begin

text \<open>
  File series, \<open>src/src/fseries.c\<close>: lists of files, taken from a directory or from an array. A
  directory is the list of its entries as \<open>scandir\<close> finds them, each with what \<open>fstatat\<close> says
  about it, with and without following a symbolic link (\<open>None\<close>: it fails); \<open>alphasort\<close> orders
  them by their bytes, as in the C locale the daemon runs in. The lock of the variables of the
  filter is free whenever a scan begins, and releasing a series has no effect in the model.
\<close>

record dirEntry =
  d_name :: string
  linkReg :: "bool option"
  targetReg :: "bool option"

record crinitFileSeries =
  fnames :: "string option list"
  baseDir :: "string option"

section \<open>Filters\<close>

definition crinitSuffixFilter :: "string \<Rightarrow> string option \<Rightarrow> bool" where
  "crinitSuffixFilter n suffix =
     (case suffix of
        None \<Rightarrow> True
      | Some s \<Rightarrow> s = [] \<or> (length s \<le> length n \<and> drop (length n - length s) n = s))"

definition crinitStatFilter :: "dirEntry \<Rightarrow> bool \<Rightarrow> bool" where
  "crinitStatFilter d followLinks =
     (case (if followLinks then targetReg d else linkReg d) of None \<Rightarrow> False | Some reg \<Rightarrow> reg)"

definition crinitScanDirFilter :: "string option \<Rightarrow> bool \<Rightarrow> dirEntry \<Rightarrow> bool" where
  "crinitScanDirFilter fileSuffix followLinks d \<longleftrightarrow>
     crinitStatFilter d followLinks \<and> crinitSuffixFilter (d_name d) fileSuffix"

definition scandir :: "(dirEntry \<Rightarrow> bool) \<Rightarrow> dirEntry list \<Rightarrow> string list" where
  "scandir flt ds = sort (map d_name (filter flt ds))"

section \<open>Operations\<close>

definition crinitResizeFileSeries :: "bool \<Rightarrow> crinitFileSeries \<Rightarrow> nat \<Rightarrow> int \<times> crinitFileSeries" where
  "crinitResizeFileSeries reallocOk fse numElements =
     (if numElements = length (fnames fse) then (0, fse)
      else if numElements = 0 then (-1, fse)
      else if \<not> reallocOk then (-1, fse)
      else (0, fse\<lparr>fnames := take numElements (fnames fse) @ replicate (numElements - length (fnames fse)) None\<rparr>))"

definition crinitInitFileSeries :: "bool \<Rightarrow> bool \<Rightarrow> nat \<Rightarrow> string option \<Rightarrow> int \<times> crinitFileSeries" where
  "crinitInitFileSeries strdupOk reallocOk numElements dir =
     (let fse = \<lparr>fnames = [], baseDir = None\<rparr> in
      if dir \<noteq> None \<and> \<not> strdupOk then (-1, fse)
      else crinitResizeFileSeries reallocOk (fse\<lparr>baseDir := dir\<rparr>) numElements)"

text \<open>\<open>dir\<close> is the directory at the path, \<open>None\<close> if it cannot be opened or scanned.\<close>

definition crinitFileSeriesFromDir ::
  "bool \<Rightarrow> bool \<Rightarrow> bool \<Rightarrow> dirEntry list option \<Rightarrow> string \<Rightarrow> string option \<Rightarrow> bool \<Rightarrow> crinitFileSeries option" where
  "crinitFileSeriesFromDir strdupOk reallocOk backOk dir path fileSuffix followLinks =
     (case dir of
        None \<Rightarrow> None
      | Some ds \<Rightarrow>
          let scanList = scandir (crinitScanDirFilter fileSuffix followLinks) ds in
          case crinitInitFileSeries strdupOk reallocOk (length scanList) (Some path) of (r, fse) \<Rightarrow>
            if r = -1 then None
            else if scanList = [] then Some fse
            else if \<not> backOk then None
            else Some (fse\<lparr>fnames := map Some scanList\<rparr>))"

definition crinitStrArrDeepCopy :: "bool \<Rightarrow> (nat \<Rightarrow> bool) \<Rightarrow> string list \<Rightarrow> string option list option" where
  "crinitStrArrDeepCopy callocOk strdupOk source =
     (if \<not> callocOk then None
      else if \<forall>i < length source. strdupOk i then Some (map Some source) else None)"

definition crinitFileSeriesFromStrArr ::
  "bool \<Rightarrow> (nat \<Rightarrow> bool) \<Rightarrow> bool \<Rightarrow> string \<Rightarrow> string list \<Rightarrow> crinitFileSeries option" where
  "crinitFileSeriesFromStrArr callocOk strdupOk dirOk dir strArr =
     (case crinitStrArrDeepCopy callocOk strdupOk strArr of
        None \<Rightarrow> None
      | Some fs \<Rightarrow> if \<not> dirOk then None else Some \<lparr>fnames = fs, baseDir = Some dir\<rparr>)"

section \<open>Lemmas\<close>

text \<open>
  A series made from a directory has exactly its regular files with the suffix, each once, in
  the order of their names.
\<close>

lemma FileSeriesFromDir_exact:
  assumes "distinct (map d_name ds)"
  shows "\<exists>ns. crinitFileSeriesFromDir True True True (Some ds) path (Some s) follow = Some \<lparr>fnames = map Some ns, baseDir = Some path\<rparr> \<and>
    sorted ns \<and> distinct ns \<and>
    set ns = d_name ` {d \<in> set ds. (if follow then targetReg d else linkReg d) = Some True \<and> (\<exists>p. d_name d = p @ s)}"
proof -
  let ?ns = "scandir (crinitScanDirFilter (Some s) follow) ds"
  have suf: "crinitSuffixFilter n (Some s) \<longleftrightarrow> (\<exists>p. n = p @ s)" for n
    by (auto simp: crinitSuffixFilter_def) (metis append_take_drop_id)
  have reg: "crinitStatFilter d follow \<longleftrightarrow> (if follow then targetReg d else linkReg d) = Some True" for d
    by (cases "if follow then targetReg d else linkReg d") (auto simp: crinitStatFilter_def)
  have "crinitFileSeriesFromDir True True True (Some ds) path (Some s) follow = Some \<lparr>fnames = map Some ?ns, baseDir = Some path\<rparr>"
    by (simp add: crinitFileSeriesFromDir_def crinitInitFileSeries_def crinitResizeFileSeries_def Let_def)
  moreover have "distinct ?ns" using assms by (auto simp: scandir_def distinct_map intro: inj_on_subset)
  moreover have "set ?ns = d_name ` {d \<in> set ds. (if follow then targetReg d else linkReg d) = Some True \<and> (\<exists>p. d_name d = p @ s)}"
    by (simp add: scandir_def crinitScanDirFilter_def suf reg)
  moreover have "sorted ?ns" by (simp add: scandir_def)
  ultimately show ?thesis by blast
qed

end
