(* ===== verification/Sig.thy ===== *)
theory Sig
  imports FSeries
begin

text \<open>
  Signatures of configuration files, \<open>src/src/sig.c\<close>, and \<open>crinitBinReadAll\<close> of \<open>src/src/common.c\<close>.
  A public key is stood for by the data it was parsed from. \<open>sigEnv\<close> is what Mbed TLS, the
  kernel keyring and the file system answer: the hash of a text, whether a key accepts a
  signature of a hash, the type of a parsed key, the payload of a key in the keyring, the
  contents of files (\<open>None\<close> if reading fails) and of directories. \<open>sigResidue\<close> is what the buffer
  for a signature holds before it is read.
\<close>

section \<open>Context\<close>

datatype pkType = PkNone | PkRsa | PkOther

record sigEnv =
  sha256 :: "string \<Rightarrow> string option"
  rsaVerify :: "string \<Rightarrow> string \<Rightarrow> string \<Rightarrow> bool"
  parsePk :: "string \<Rightarrow> pkType"
  setPaddingOk :: "string \<Rightarrow> bool"
  keySearch :: "string \<Rightarrow> int option"
  keyRead :: "int \<Rightarrow> string option"
  sigMutexOk :: bool
  sigMemOk :: bool
  binFile :: "string \<Rightarrow> string option"
  scanDir :: "string \<Rightarrow> dirEntry list option"
  sigResidue :: string

record crinitSigCtx =
  rootKey :: "string option"
  signedKeys :: "string list"
  sigLock :: mutex

abbreviation (input) CRINIT_SIGNATURE_PK_DATA_MAX_SIZE :: nat where "CRINIT_SIGNATURE_PK_DATA_MAX_SIZE \<equiv> 4096"
abbreviation (input) CRINIT_RSASSA_PSS_SIGNATURE_SIZE :: nat where "CRINIT_RSASSA_PSS_SIGNATURE_SIZE \<equiv> 512"
abbreviation (input) PATH_MAX :: nat where "PATH_MAX \<equiv> 4096"
abbreviation CRINIT_SIGNATURE_FILE_SUFFIX :: string where "CRINIT_SIGNATURE_FILE_SUFFIX \<equiv> ''.sig''"

section \<open>Reading files\<close>

text \<open>The end of a file is noticed only when less than the size of the buffer was read.\<close>

definition crinitBinReadAll :: "sigEnv \<Rightarrow> nat \<Rightarrow> string \<Rightarrow> string option" where
  "crinitBinReadAll e n path =
     (case binFile e path of
        None \<Rightarrow> None
      | Some c \<Rightarrow> if length c < n then Some c else None)"

text \<open>The buffer of a signature after its file was read.\<close>

definition read_signature :: "sigEnv \<Rightarrow> string \<Rightarrow> string option" where
  "read_signature e path =
     map_option (\<lambda>c. c @ drop (length c) (sigResidue e))
       (crinitBinReadAll e (CRINIT_RSASSA_PSS_SIGNATURE_SIZE + 1) path)"

section \<open>Verification\<close>

definition crinitGenerateHash :: "sigEnv \<Rightarrow> string \<Rightarrow> string option" where
  "crinitGenerateHash e d = sha256 e d"

definition crinitVerifySignature :: "sigEnv \<Rightarrow> crinitSigCtx \<Rightarrow> string \<Rightarrow> string \<Rightarrow> (int \<times> crinitSigCtx) run" where
  "crinitVerifySignature e ctx d signature =
     (case crinitGenerateHash e d of
        None \<Rightarrow> Ret (-1, ctx)
      | Some dataHash \<Rightarrow>
          bind_run (pthread_mutex_lock (sigLock ctx)) (\<lambda>(err, m).
            if err \<noteq> 0 then Ret (-1, ctx)
            else case rootKey ctx of
              None \<Rightarrow> Undef
            | Some root \<Rightarrow>
                let ctx = ctx\<lparr>sigLock := snd (pthread_mutex_unlock m)\<rparr> in
                if rsaVerify e root dataHash signature then Ret (0, ctx)
                else if list_ex (\<lambda>k. rsaVerify e k dataHash signature) (signedKeys ctx) then Ret (0, ctx)
                else Ret (-1, ctx)))"

section \<open>Keys\<close>

definition crinitSigSubsysInit :: "sigEnv \<Rightarrow> string \<Rightarrow> crinitSigCtx \<Rightarrow> (int \<times> crinitSigCtx) run" where
  "crinitSigSubsysInit e rootKeyDesc ctx =
     (let ctx = ctx\<lparr>signedKeys := []\<rparr> in
      if \<not> sigMutexOk e then Ret (-1, ctx)
      else case keySearch e rootKeyDesc of
        None \<Rightarrow> Ret (-1, ctx\<lparr>sigLock := Destroyed\<rparr>)
      | Some rootKeyId \<Rightarrow>
          (case keyRead e rootKeyId of
             None \<Rightarrow> Ret (-1, ctx\<lparr>sigLock := Destroyed\<rparr>)
           | Some rootKeyData \<Rightarrow>
               if length rootKeyData > CRINIT_SIGNATURE_PK_DATA_MAX_SIZE then Ret (-1, ctx\<lparr>sigLock := Destroyed\<rparr>)
               else if parsePk e rootKeyData \<noteq> PkRsa
               then Ret (-1, ctx\<lparr>rootKey := None, sigLock := Destroyed\<rparr>)
               else Ret (0, ctx\<lparr>rootKey := Some rootKeyData, sigLock := Unlocked\<rparr>)))"

definition crinitSigSubsysDestroy :: "crinitSigCtx \<Rightarrow> crinitSigCtx" where
  "crinitSigSubsysDestroy ctx =
     ctx\<lparr>rootKey := None, signedKeys := [], sigLock := snd (pthread_mutex_destroy (sigLock ctx))\<rparr>"

text \<open>One key file: read, verified with its signature, parsed. \<open>None\<close> is failure.\<close>

definition load_key :: "sigEnv \<Rightarrow> bool \<Rightarrow> string \<Rightarrow> crinitSigCtx \<Rightarrow> (string option \<times> crinitSigCtx) run" where
  "load_key e pemFmt pathbuf ctx =
     (if length pathbuf \<ge> PATH_MAX - length CRINIT_SIGNATURE_FILE_SUFFIX then Ret (None, ctx)
      else case crinitBinReadAll e CRINIT_SIGNATURE_PK_DATA_MAX_SIZE pathbuf of
        None \<Rightarrow> Ret (None, ctx)
      | Some key \<Rightarrow>
          (case read_signature e (pathbuf @ CRINIT_SIGNATURE_FILE_SUFFIX) of
             None \<Rightarrow> Ret (None, ctx)
           | Some signature \<Rightarrow>
               bind_run (crinitVerifySignature e ctx key signature) (\<lambda>(r, ctx).
                 let key = (if pemFmt then key @ [CHR 0x00] else key) in
                 if r = -1 then Ret (None, ctx)
                 else if parsePk e key \<noteq> PkRsa then Ret (None, ctx)
                 else if \<not> setPaddingOk e key then Ret (None, ctx)
                 else Ret (Some key, ctx))))"

fun crinitLoadAndVerifySignedKeysFromFileSeries ::
  "sigEnv \<Rightarrow> bool \<Rightarrow> string option \<Rightarrow> string option list \<Rightarrow> crinitSigCtx \<Rightarrow> (string list option \<times> crinitSigCtx) run" where
  "crinitLoadAndVerifySignedKeysFromFileSeries e pemFmt dir [] ctx = Ret (Some [], ctx)"
| "crinitLoadAndVerifySignedKeysFromFileSeries e pemFmt (Some dir) (Some f # fs) ctx =
     bind_run (load_key e pemFmt (dir @ ''/'' @ f) ctx) (\<lambda>(k, ctx). case k of
       None \<Rightarrow> Ret (None, ctx)
     | Some k \<Rightarrow> map_ret (\<lambda>(ks, ctx). (map_option ((#) k) ks, ctx))
                  (crinitLoadAndVerifySignedKeysFromFileSeries e pemFmt (Some dir) fs ctx))"
| "crinitLoadAndVerifySignedKeysFromFileSeries e pemFmt dir (f # fs) ctx = Undef"

definition crinitLoadAndVerifySignedKeys :: "sigEnv \<Rightarrow> string \<Rightarrow> crinitSigCtx \<Rightarrow> (int \<times> crinitSigCtx) run" where
  "crinitLoadAndVerifySignedKeys e sigKeyDir ctx =
     (let series = (\<lambda>suffix. crinitFileSeriesFromDir (sigMemOk e) (sigMemOk e) (sigMemOk e) (scanDir e sigKeyDir)
                              sigKeyDir (Some suffix) False) in
      case series ''.der'' of
        None \<Rightarrow> Ret (-1, ctx)
      | Some derKeys \<Rightarrow>
          (case series ''.pem'' of
             None \<Rightarrow> Ret (-1, ctx)
           | Some pemKeys \<Rightarrow>
               if \<not> sigMemOk e then Ret (-1, ctx)
               else bind_run (crinitLoadAndVerifySignedKeysFromFileSeries e False (baseDir derKeys) (fnames derKeys) ctx)
                 (\<lambda>(ks, ctx). case ks of
                   None \<Rightarrow> Ret (-1, ctx)
                 | Some ders \<Rightarrow>
                     bind_run (crinitLoadAndVerifySignedKeysFromFileSeries e True (baseDir pemKeys) (fnames pemKeys) ctx)
                       (\<lambda>(ks, ctx). case ks of
                         None \<Rightarrow> Ret (-1, ctx)
                       | Some pems \<Rightarrow>
                           bind_run (pthread_mutex_lock (sigLock ctx)) (\<lambda>(err, m).
                             if err \<noteq> 0 then Ret (-1, ctx)
                             else Ret (0, ctx\<lparr>signedKeys := ders @ pems, sigLock := snd (pthread_mutex_unlock m)\<rparr>))))))"

section \<open>Trust\<close>

text \<open>
  What a verified text rests on: \<open>verifies\<close> is the answer of Mbed TLS for one key, \<open>signed_key\<close> a key
  file whose signature file verifies under the root key.
\<close>

definition verifies :: "sigEnv \<Rightarrow> string \<Rightarrow> string \<Rightarrow> string \<Rightarrow> bool" where
  "verifies e k d s = (case sha256 e d of None \<Rightarrow> False | Some h \<Rightarrow> rsaVerify e k h s)"

definition signed_key :: "sigEnv \<Rightarrow> string \<Rightarrow> bool \<Rightarrow> string \<Rightarrow> string \<Rightarrow> bool" where
  "signed_key e root pem path k \<longleftrightarrow>
     (\<exists>c s. binFile e path = Some c \<and> k = (if pem then c @ [CHR 0x00] else c) \<and> parsePk e k = PkRsa \<and>
            read_signature e (path @ CRINIT_SIGNATURE_FILE_SUFFIX) = Some s \<and> verifies e root c s)"

definition sig_ready :: "string \<Rightarrow> crinitSigCtx \<Rightarrow> bool" where
  "sig_ready root ctx \<longleftrightarrow> rootKey ctx = Some root \<and> sigLock ctx = Unlocked"

lemma VerifySignature_exact:
  assumes "sig_ready root ctx"
  shows "crinitVerifySignature e ctx d s =
    Ret (if verifies e root d s \<or> (\<exists>k \<in> set (signedKeys ctx). verifies e k d s) then 0 else -1, ctx)"
proof -
  have "ctx\<lparr>sigLock := Unlocked\<rparr> = ctx" using assms by (cases ctx) (simp add: sig_ready_def)
  then show ?thesis
    using assms
    by (cases "sha256 e d")
      (auto simp: sig_ready_def crinitVerifySignature_def crinitGenerateHash_def verifies_def Let_def list_ex_iff)
qed

lemma load_key_exact:
  assumes "sig_ready root ctx" "signedKeys ctx = []"
  shows "\<exists>r. load_key e pem path ctx = Ret (r, ctx) \<and> (\<forall>k. r = Some k \<longrightarrow> signed_key e root pem path k)"
  using assms
  by (auto simp: load_key_def VerifySignature_exact signed_key_def crinitBinReadAll_def Let_def
      split: option.splits if_splits)

lemma load_series_exact:
  assumes "sig_ready root ctx" "signedKeys ctx = []"
  shows "\<exists>r. crinitLoadAndVerifySignedKeysFromFileSeries e pem (Some dir) (map Some fs) ctx = Ret (r, ctx) \<and>
    (\<forall>ks. r = Some ks \<longrightarrow> (\<forall>k \<in> set ks. \<exists>f. signed_key e root pem (dir @ ''/'' @ f) k))"
proof (induction fs)
  case Nil
  show ?case by simp
next
  case (Cons f fs)
  obtain r where r: "load_key e pem (dir @ ''/'' @ f) ctx = Ret (r, ctx)"
      "\<And>k. r = Some k \<Longrightarrow> signed_key e root pem (dir @ ''/'' @ f) k"
    using load_key_exact [OF assms] by metis
  obtain rs where rs: "crinitLoadAndVerifySignedKeysFromFileSeries e pem (Some dir) (map Some fs) ctx = Ret (rs, ctx)"
      "\<And>ks k. rs = Some ks \<Longrightarrow> k \<in> set ks \<Longrightarrow> \<exists>f. signed_key e root pem (dir @ ''/'' @ f) k"
    using Cons by metis
  show ?case
  proof (cases r)
    case None
    with r(1) show ?thesis by simp
  next
    case (Some k)
    then have "signed_key e root pem (dir @ ''/'' @ f) k" using r(2) by simp
    with Some r(1) rs show ?thesis by fastforce
  qed
qed

lemma series_names:
  assumes "crinitFileSeriesFromDir a b c d path suffix follow = Some s"
  shows "baseDir s = Some path \<and> (\<exists>fs. fnames s = map Some fs)"
  using assms
  by (auto simp: crinitFileSeriesFromDir_def crinitInitFileSeries_def crinitResizeFileSeries_def Let_def
      split: option.splits if_splits prod.splits)

text \<open>Loading the keys keeps the root key and accepts only keys signed with it.\<close>

lemma LoadAndVerifySignedKeys_trust:
  assumes ctx: "sig_ready root ctx" "signedKeys ctx = []"
    and load: "crinitLoadAndVerifySignedKeys e dir ctx = Ret (0, ctx')"
  shows "sig_ready root ctx' \<and> (\<forall>k \<in> set (signedKeys ctx'). \<exists>f pem. signed_key e root pem (dir @ ''/'' @ f) k)"
proof -
  from load obtain der pem where
    "crinitFileSeriesFromDir (sigMemOk e) (sigMemOk e) (sigMemOk e) (scanDir e dir) dir (Some ''.der'') False = Some der"
    "crinitFileSeriesFromDir (sigMemOk e) (sigMemOk e) (sigMemOk e) (scanDir e dir) dir (Some ''.pem'') False = Some pem"
    "sigMemOk e"
    by (auto simp: crinitLoadAndVerifySignedKeys_def Let_def split: option.splits if_splits)
  note series = this
  obtain dn pn where names: "fnames der = map Some dn" "fnames pem = map Some pn" "baseDir der = Some dir" "baseDir pem = Some dir"
    using series_names [OF series(1)] series_names [OF series(2)] by blast
  obtain ds where ds: "crinitLoadAndVerifySignedKeysFromFileSeries e False (Some dir) (map Some dn) ctx = Ret (ds, ctx)"
      "\<And>ks k. ds = Some ks \<Longrightarrow> k \<in> set ks \<Longrightarrow> \<exists>f. signed_key e root False (dir @ ''/'' @ f) k"
    using load_series_exact [OF ctx] by metis
  obtain ps where ps: "crinitLoadAndVerifySignedKeysFromFileSeries e True (Some dir) (map Some pn) ctx = Ret (ps, ctx)"
      "\<And>ks k. ps = Some ks \<Longrightarrow> k \<in> set ks \<Longrightarrow> \<exists>f. signed_key e root True (dir @ ''/'' @ f) k"
    using load_series_exact [OF ctx] by metis
  obtain dk pk where k: "ds = Some dk" "ps = Some pk" "ctx' = ctx\<lparr>signedKeys := dk @ pk, sigLock := Unlocked\<rparr>"
    using load ctx(1) by (cases ds; cases ps)
      (auto simp: crinitLoadAndVerifySignedKeys_def Let_def series(1,2) [simplified series(3)] series(3) names ds(1) ps(1) sig_ready_def)
  have "\<forall>k \<in> set (dk @ pk). \<exists>f pem. signed_key e root pem (dir @ ''/'' @ f) k"
    using ds(2) [OF k(1)] ps(2) [OF k(2)] by (metis Un_iff set_append)
  then show ?thesis using k(3) ctx(1) by (simp add: sig_ready_def)
qed

text \<open>
  Once the signature subsystem is set up, a text is accepted only if it verifies under the
  root key of the keyring, or under a key whose file is itself signed with the root key.
\<close>

lemma trust_chain:
  assumes init: "crinitSigSubsysInit e desc ctx0 = Ret (0, ctx1)"
    and load: "crinitLoadAndVerifySignedKeys e dir ctx1 = Ret (0, ctx2)"
    and accepted: "crinitVerifySignature e ctx2 d s = Ret (0, ctx3)"
  shows "\<exists>i root. keySearch e desc = Some i \<and> keyRead e i = Some root \<and> parsePk e root = PkRsa \<and>
    (verifies e root d s \<or> (\<exists>f pem k. signed_key e root pem (dir @ ''/'' @ f) k \<and> verifies e k d s))"
proof -
  obtain i root where root: "keySearch e desc = Some i" "keyRead e i = Some root" "parsePk e root = PkRsa"
      "sig_ready root ctx1" "signedKeys ctx1 = []"
    using init by (auto simp: crinitSigSubsysInit_def sig_ready_def Let_def split: option.splits if_splits)
  have ready: "sig_ready root ctx2"
    and keys: "\<And>k. k \<in> set (signedKeys ctx2) \<Longrightarrow> \<exists>f pem. signed_key e root pem (dir @ ''/'' @ f) k"
    using LoadAndVerifySignedKeys_trust [OF root(4,5) load] by blast+
  have "verifies e root d s \<or> (\<exists>k \<in> set (signedKeys ctx2). verifies e k d s)"
    using accepted by (simp add: VerifySignature_exact [OF ready] split: if_splits)
  with root keys show ?thesis by metis
qed

text \<open>A keyring with the key \<open>R\<close> and a key \<open>K\<close> signed with it, where a signature is the key before the text.\<close>

definition sampleSigEnv :: sigEnv where
  "sampleSigEnv = \<lparr>sha256 = Some, rsaVerify = (\<lambda>k h s. take 2 s = take 2 (k @ h)), parsePk = (\<lambda>_. PkRsa), setPaddingOk = (\<lambda>_. True),
     keySearch = (\<lambda>n. if n = ''r'' then Some 1 else None), keyRead = (\<lambda>i. if i = 1 then Some ''R'' else None),
     sigMutexOk = True, sigMemOk = True,
     binFile = (\<lambda>f. if f = ''/k.der'' then Some ''K'' else if f = ''/k.der.sig'' then Some ''RK'' else None),
     scanDir = (\<lambda>_. Some [\<lparr>d_name = ''k.der'', linkReg = Some True, targetReg = Some True\<rparr>]), sigResidue = []\<rparr>"

abbreviation (input) sigCtx0 :: crinitSigCtx where
  "sigCtx0 \<equiv> \<lparr>rootKey = None, signedKeys = [], sigLock = Unlocked\<rparr>"

end
