(* ===== verification/ConfHdl.thy ===== *)
theory ConfHdl
  imports TimerPool Capabilities Sig
begin

text \<open>
  The handlers for configuration keys, \<open>src/src/confhdl.c\<close>. A handler gets the task under
  construction (\<open>None\<close> for the null pointer of the other configuration types), the value and the
  type of the configuration, and works on the world. \<open>mem\<close> gives the outcomes of the allocations
  of the call, in their order in the code. After a failure the task is only released, so what
  a failed handler had already stored in it is not kept.

  A task under construction is a task with a name or without one (\<open>named\<close>), the index of
  the global cgroup it shares (\<open>globCg\<close>), and two facts about the memory of its dependencies: \<open>innerPtr\<close> says
  that the name of one of them does not point to the start of its allocation, so that it
  cannot be released, \<open>gapPtr\<close> that the event of one of them does not directly follow its name, which the copy of
  a task relies on.
\<close>

section \<open>Environment and drafts\<close>

datatype crinitConfigType = CRINIT_CONFIG_TYPE_SERIES | CRINIT_CONFIG_TYPE_TASK | CRINIT_CONFIG_TYPE_KCMDLINE

datatype fileType = IsDir | IsReg | IsOther

text \<open>
  What the system answers: the clock and the timers, the type of a file and whether its owner
  may execute it, the user and group databases, the capabilities, the files and signatures,
  and whether \<open>errno\<close> is left over from an earlier error.
\<close>

record confEnv =
  cfTimer :: timerEnv
  cfClock :: "timespec option"
  cfStat :: "string \<Rightarrow> (fileType \<times> bool) option"
  cfPwnam :: "string \<Rightarrow> nat option"
  cfPwuid :: "nat \<Rightarrow> string option"
  cfGrnam :: "string \<Rightarrow> nat option"
  cfGrgid :: "nat \<Rightarrow> string option"
  cfCaps :: capEnv
  cfSig :: sigEnv
  cfSigCtx :: crinitSigCtx
  cfStale :: bool
  cfMem :: "nat list \<Rightarrow> nat \<Rightarrow> bool"

record crinitTaskDraft = crinitTask +
  named :: bool
  globCg :: "nat option"
  innerPtr :: bool
  gapPtr :: bool

type_synonym crinitConfigHandler =
  "confEnv \<Rightarrow> (nat \<Rightarrow> bool) \<Rightarrow> crinitTaskDraft option \<Rightarrow> string \<Rightarrow> crinitConfigType \<Rightarrow> world \<Rightarrow>
   (int \<times> crinitTaskDraft option \<times> world) run"

text \<open>The checks at the start of a handler for tasks, and of one for the global options.\<close>

definition task_handler :: "crinitTaskDraft option \<Rightarrow> crinitConfigType \<Rightarrow> world \<Rightarrow>
    (crinitTaskDraft \<Rightarrow> (int \<times> crinitTaskDraft \<times> world) run) \<Rightarrow> (int \<times> crinitTaskDraft option \<times> world) run" where
  "task_handler tgt type w f =
     (case tgt of
        None \<Rightarrow> Ret (-1, None, w)
      | Some t \<Rightarrow>
          if type \<noteq> CRINIT_CONFIG_TYPE_TASK then Ret (-1, tgt, w)
          else map_ret (\<lambda>(r, t, w). (r, Some t, w)) (f t))"

definition glob_handler :: "crinitConfigType \<Rightarrow> crinitTaskDraft option \<Rightarrow> crinitConfigType \<Rightarrow> world \<Rightarrow>
    (crinitGlobOptStore \<Rightarrow> (int \<times> crinitGlobOptStore) run) \<Rightarrow> (int \<times> crinitTaskDraft option \<times> world) run" where
  "glob_handler want tgt type w f =
     (if type \<noteq> want then Ret (-1, tgt, w)
      else map_ret (\<lambda>(r, g). (r, tgt, w\<lparr>globOpts := g\<rparr>)) (f (globOpts w)))"

unbundle bit_operations_syntax

section \<open>Helpers\<close>

definition c_isalpha :: "char \<Rightarrow> bool" where
  "c_isalpha c \<longleftrightarrow> (let n = of_char c :: nat in (65 \<le> n \<and> n \<le> 90) \<or> (97 \<le> n \<and> n \<le> 122))"

text \<open>The array grown to the given size; \<open>zero\<close> is an element of zero bytes.\<close>

definition crinitCfgHandlerManageArrayMem :: "bool \<Rightarrow> 'a \<Rightarrow> 'a list \<Rightarrow> nat \<Rightarrow> 'a list option" where
  "crinitCfgHandlerManageArrayMem reallocOk zero dynArr reqSize =
     (if reqSize < length dynArr then None
      else if length dynArr < reqSize then
        if \<not> reallocOk then None else Some (dynArr @ replicate (reqSize - length dynArr) zero)
      else Some dynArr)"

definition crinitCfgHandlerSetTaskOptFromStr :: "crinitTaskOpts \<Rightarrow> crinitTaskOpts \<Rightarrow> string \<Rightarrow> crinitTaskOpts option" where
  "crinitCfgHandlerSetTaskOptFromStr tgt opt val =
     (case crinitConfConvToBool val of
        None \<Rightarrow> None
      | Some b \<Rightarrow> Some (if b then tgt OR opt else tgt AND NOT opt))"

definition crinitDirExists :: "confEnv \<Rightarrow> string \<Rightarrow> bool" where
  "crinitDirExists e p = (case cfStat e p of None \<Rightarrow> False | Some (ft, x) \<Rightarrow> ft = IsDir)"

definition crinitFileIsExecutable :: "confEnv \<Rightarrow> string \<Rightarrow> bool" where
  "crinitFileIsExecutable e p = (case cfStat e p of None \<Rightarrow> False | Some (ft, x) \<Rightarrow> ft = IsReg \<and> x)"

text \<open>The lookups allocate a buffer first; those of a name duplicate it.\<close>

definition crinitUsernameToUid :: "confEnv \<Rightarrow> bool \<Rightarrow> string \<Rightarrow> nat option" where
  "crinitUsernameToUid e bufOk n = (if \<not> bufOk then None else cfPwnam e n)"

definition crinitUidToUsername :: "confEnv \<Rightarrow> bool \<Rightarrow> bool \<Rightarrow> nat \<Rightarrow> string option" where
  "crinitUidToUsername e bufOk dupOk uid =
     (if \<not> bufOk then None
      else case cfPwuid e uid of None \<Rightarrow> None | Some n \<Rightarrow> if dupOk then Some n else None)"

definition crinitGroupnameToGid :: "confEnv \<Rightarrow> bool \<Rightarrow> string \<Rightarrow> nat option" where
  "crinitGroupnameToGid e bufOk n = (if \<not> bufOk then None else cfGrnam e n)"

definition crinitGidToGroupname :: "confEnv \<Rightarrow> bool \<Rightarrow> bool \<Rightarrow> nat \<Rightarrow> string option" where
  "crinitGidToGroupname e bufOk dupOk gid =
     (if \<not> bufOk then None
      else case cfGrgid e gid of None \<Rightarrow> None | Some n \<Rightarrow> if dupOk then Some n else None)"

section \<open>Handlers for tasks\<close>

definition crinitCfgCmdHandler :: crinitConfigHandler where
  "crinitCfgCmdHandler e mem tgt val type w =
     task_handler tgt type w (\<lambda>t.
       case crinitCfgHandlerManageArrayMem (mem 0) \<lparr>argv = []\<rparr> (cmds t) (length (cmds t) + 1) of
         None \<Rightarrow> Ret (-1, t, w)
       | Some newArr \<Rightarrow>
           bind_run (crinitConfConvToStrArr (mem 1) True val) (\<lambda>a. case a of
             None \<Rightarrow> Ret (-1, t, w)
           | Some a \<Rightarrow> Ret (0, t\<lparr>cmds := newArr[length (cmds t) := \<lparr>argv = a\<rparr>]\<rparr>, w)))"

definition crinitCfgStopCmdHandler :: crinitConfigHandler where
  "crinitCfgStopCmdHandler e mem tgt val type w =
     task_handler tgt type w (\<lambda>t.
       case crinitCfgHandlerManageArrayMem (mem 0) \<lparr>argv = []\<rparr> (stopCmds t) (length (stopCmds t) + 1) of
         None \<Rightarrow> Ret (-1, t, w)
       | Some newArr \<Rightarrow>
           bind_run (crinitConfConvToStrArr (mem 1) True val) (\<lambda>a. case a of
             None \<Rightarrow> Ret (-1, t, w)
           | Some a \<Rightarrow> Ret (0, t\<lparr>stopCmds := newArr[length (stopCmds t) := \<lparr>argv = a\<rparr>]\<rparr>, w)))"

definition crinitCfgCapClearHandler :: crinitConfigHandler where
  "crinitCfgCapClearHandler e mem tgt val type w =
     task_handler tgt type w (\<lambda>t.
       bind_run (crinitCapConvertToBitmask ((cfCaps e)\<lparr>capMemOk := mem 0\<rparr>) (capabilitiesClear t) val) (\<lambda>(r, m).
         Ret (if r \<noteq> 0 then -1 else 0, t\<lparr>capabilitiesClear := m\<rparr>, w)))"

definition crinitCfgCapSetHandler :: crinitConfigHandler where
  "crinitCfgCapSetHandler e mem tgt val type w =
     task_handler tgt type w (\<lambda>t.
       bind_run (crinitCapConvertToBitmask ((cfCaps e)\<lparr>capMemOk := mem 0\<rparr>) (capabilitiesSet t) val) (\<lambda>(r, m).
         Ret (if r \<noteq> 0 then -1 else 0, t\<lparr>capabilitiesSet := m\<rparr>, w)))"

subsection \<open>Dependencies, triggers, features\<close>

text \<open>
  The name and the event of a dependency as \<open>strtok_r\<close> finds them, and whether blank characters
  were skipped before the event.
\<close>

definition dep_split :: "string \<Rightarrow> string option \<times> string option \<times> bool" where
  "dep_split s =
     (let t = dropWhile (\<lambda>c. c = CHR '':'') s in
      if t = [] then (None, None, False)
      else let n = takeWhile (\<lambda>c. c \<noteq> CHR '':'') t;
               r = drop (Suc (length n)) t;
               u = dropWhile (\<lambda>c. c = CHR '' '') r
           in (Some n, if u = [] then None else Some (takeWhile (\<lambda>c. c \<noteq> CHR '' '') u), u \<noteq> r))"

text \<open>
  The loop over the new entries: the list, whether an entry cannot be released, whether one cannot be
  copied, and the timers. Releasing a name that starts with a colon is undefined.
\<close>

fun dep_loop :: "confEnv \<Rightarrow> (nat \<Rightarrow> bool) \<Rightarrow> nat \<Rightarrow> string list \<Rightarrow> crinitTaskDep list \<Rightarrow> bool \<Rightarrow> bool \<Rightarrow> crinitTimerDB \<Rightarrow>
    (int \<times> crinitTaskDep list \<times> bool \<times> bool \<times> crinitTimerDB) run" where
  "dep_loop e mem i [] ds inner gap pool = Ret (0, ds, inner, gap, pool)"
| "dep_loop e mem i (s # ss) ds inner gap pool =
     (let colon = (s \<noteq> [] \<and> hd s = CHR '':'') in
      if \<not> mem i then Ret (-1, ds, inner, gap, pool)
      else case dep_split s of
        (None, _, _) \<Rightarrow> Ret (-1, ds, inner, gap, pool)
      | (Some n, None, _) \<Rightarrow> if colon then Undef else Ret (-1, ds, inner, gap, pool)
      | (Some n, Some ev, skipped) \<Rightarrow>
          bind_run (if n = ''@timer'' then crinitTimerDBAddTimer (cfTimer e) pool ev else Ret pool) (\<lambda>pool.
            if n = ''@elos'' then if colon then Undef else Ret (-1, ds, inner, gap, pool)
            else dep_loop e mem (Suc i) ss (ds @ [\<lparr>depName = n, event = ev\<rparr>]) (inner \<or> colon) (gap \<or> skipped) pool))"

definition crinitDepListHandler :: "confEnv \<Rightarrow> (nat \<Rightarrow> bool) \<Rightarrow> crinitTaskDep list \<Rightarrow> bool \<Rightarrow> bool \<Rightarrow> crinitTimerDB \<Rightarrow> string \<Rightarrow>
    (int \<times> crinitTaskDep list \<times> bool \<times> bool \<times> crinitTimerDB) run" where
  "crinitDepListHandler e mem ds inner gap pool val =
     bind_run (crinitConfConvToStrArr (mem 0) False val) (\<lambda>a. case a of
       None \<Rightarrow> Ret (-1, ds, inner, gap, pool)
     | Some ss \<Rightarrow>
         if ss = [] then Ret (0, ds, inner, gap, pool)
         else if crinitCfgHandlerManageArrayMem (mem 1) \<lparr>depName = [], event = []\<rparr> ds (length ds + length ss) = None
         then Ret (-1, ds, inner, gap, pool)
         else dep_loop e mem 2 ss ds inner gap pool)"

definition crinitCfgDepHandler :: crinitConfigHandler where
  "crinitCfgDepHandler e mem tgt val type w =
     task_handler tgt type w (\<lambda>t.
       bind_run (crinitDepListHandler e mem (deps t) (innerPtr t) (gapPtr t) (timerPool w) val) (\<lambda>(r, ds, inner, gap, pool).
         Ret (r, t\<lparr>deps := ds, innerPtr := inner, gapPtr := gap\<rparr>, w\<lparr>timerPool := pool\<rparr>)))"

definition crinitCfgTrigHandler :: crinitConfigHandler where
  "crinitCfgTrigHandler e mem tgt val type w =
     task_handler tgt type w (\<lambda>t.
       bind_run (crinitDepListHandler e mem (trig t) (innerPtr t) (gapPtr t) (timerPool w) val) (\<lambda>(r, ds, inner, gap, pool).
         Ret (r, t\<lparr>trig := ds, innerPtr := inner, gapPtr := gap\<rparr>, w\<lparr>timerPool := pool\<rparr>)))"

definition crinitCfgTrigRearmHandler :: crinitConfigHandler where
  "crinitCfgTrigRearmHandler e mem tgt val type w =
     task_handler tgt type w (\<lambda>t.
       case crinitCfgHandlerSetTaskOptFromStr (opts t) CRINIT_TASK_OPT_TRIGGER_REARM val of
         None \<Rightarrow> Ret (-1, t, w)
       | Some op \<Rightarrow> Ret (0, t\<lparr>opts := op\<rparr>, w))"

text \<open>The state a feature needs. The second comparison uses the length of the first event.\<close>

definition prv_state :: "string \<Rightarrow> crinitTaskState option" where
  "prv_state ev =
     map_option (\<lambda>s. if strchr ev (CHR ''-'') = Some CRINIT_TASK_EVENT_NOTIFY_SUFFIX then s OR CRINIT_TASK_STATE_NOTIFIED else s)
       (if strncmp_eq ev CRINIT_TASK_EVENT_RUNNING (length CRINIT_TASK_EVENT_RUNNING) then Some CRINIT_TASK_STATE_RUNNING
        else if strncmp_eq ev CRINIT_TASK_EVENT_DONE (length CRINIT_TASK_EVENT_RUNNING) then Some CRINIT_TASK_STATE_DONE
        else if strncmp_eq ev CRINIT_TASK_EVENT_FAILED (length CRINIT_TASK_EVENT_FAILED) then Some CRINIT_TASK_STATE_FAILED
        else None)"

fun prv_loop :: "(nat \<Rightarrow> bool) \<Rightarrow> nat \<Rightarrow> string list \<Rightarrow> crinitTaskPrv list option" where
  "prv_loop mem i [] = Some []"
| "prv_loop mem i (s # ss) =
     (if \<not> mem i then None
      else case strchr s (CHR '':'') of
        None \<Rightarrow> None
      | Some d \<Rightarrow>
          (case prv_state (tl d) of
             None \<Rightarrow> None
           | Some st \<Rightarrow> map_option ((#) \<lparr>prvName = take (length s - length d) s, stateReq = st\<rparr>) (prv_loop mem (Suc i) ss)))"

definition crinitCfgPrvHandler :: crinitConfigHandler where
  "crinitCfgPrvHandler e mem tgt val type w =
     task_handler tgt type w (\<lambda>t.
       bind_run (crinitConfConvToStrArr (mem 0) False val) (\<lambda>a. case a of
         None \<Rightarrow> Ret (-1, t, w)
       | Some ss \<Rightarrow>
           if ss = [] then Ret (0, t, w)
           else if crinitCfgHandlerManageArrayMem (mem 1) \<lparr>prvName = [], stateReq = 0\<rparr> (prv t) (length (prv t) + length ss) = None
           then Ret (-1, t, w)
           else case prv_loop mem 2 ss of
             None \<Rightarrow> Ret (-1, t, w)
           | Some ps \<Rightarrow> Ret (0, t\<lparr>prv := prv t @ ps\<rparr>, w)))"

subsection \<open>Environment, redirections, simple members\<close>

definition crinitCfgEnvHandler :: crinitConfigHandler where
  "crinitCfgEnvHandler e mem tgt val type w =
     (case type of
        CRINIT_CONFIG_TYPE_TASK \<Rightarrow>
          (case tgt of
             None \<Rightarrow> Ret (-1, None, w)
           | Some t \<Rightarrow>
               bind_run (crinitConfConvToEnvSetMember (mem 0) (mem 1) (mem 2) (mem 3) (taskEnv t) val) (\<lambda>(r, env).
                 Ret (if r = -1 then -1 else 0, Some (t\<lparr>taskEnv := env\<rparr>), w)))
      | CRINIT_CONFIG_TYPE_SERIES \<Rightarrow>
          bind_run (crinitGlobOptBorrow (globOpts w)) (\<lambda>g.
          bind_run (crinitConfConvToEnvSetMember (mem 0) (mem 1) (mem 2) (mem 3) (globEnv g) val) (\<lambda>(r, env).
            case crinitGlobOptRemit (g\<lparr>globEnv := env\<rparr>) of (rr, g) \<Rightarrow>
              Ret (if r = -1 \<or> rr = -1 then -1 else 0, tgt, w\<lparr>globOpts := g\<rparr>)))
      | CRINIT_CONFIG_TYPE_KCMDLINE \<Rightarrow> Ret (-1, tgt, w))"

text \<open>Filters need elos.\<close>

definition crinitCfgFilterHandler :: crinitConfigHandler where
  "crinitCfgFilterHandler e mem tgt val type w = Ret (-1, tgt, w)"

definition crinitCfgIoRedirHandler :: crinitConfigHandler where
  "crinitCfgIoRedirHandler e mem tgt val type w =
     task_handler tgt type w (\<lambda>t.
       if crinitCfgHandlerManageArrayMem (mem 0) \<lparr>newFd = 0, oldFd = 0, path = None, oflags = 0, redirMode = 0, fifo = False\<rparr>
            (redirs t) (length (redirs t) + 1) = None then Ret (-1, t, w)
       else bind_run (crinitConfConvToIoRedir (mem 1) (mem 2) (cfStale e) val) (\<lambda>r. case r of
         None \<Rightarrow> Ret (-1, t, w)
       | Some rd \<Rightarrow> Ret (0, t\<lparr>redirs := redirs t @ [rd]\<rparr>, w)))"

definition crinitCfgNameHandler :: crinitConfigHandler where
  "crinitCfgNameHandler e mem tgt val type w =
     task_handler tgt type w (\<lambda>t.
       if \<not> mem 0 then Ret (-1, t\<lparr>named := False\<rparr>, w)
       else Ret (0, t\<lparr>name := val, named := True\<rparr>, w))"

definition crinitCfgRespHandler :: crinitConfigHandler where
  "crinitCfgRespHandler e mem tgt val type w =
     task_handler tgt type w (\<lambda>t.
       case crinitCfgHandlerSetTaskOptFromStr (opts t) CRINIT_TASK_OPT_RESPAWN val of
         None \<Rightarrow> Ret (-1, t, w)
       | Some op \<Rightarrow> Ret (0, t\<lparr>opts := op\<rparr>, w))"

definition crinitCfgRespRetHandler :: crinitConfigHandler where
  "crinitCfgRespRetHandler e mem tgt val type w =
     task_handler tgt type w (\<lambda>t.
       case crinitConfConvToIntegerI val 10 of
         None \<Rightarrow> Ret (-1, t, w)
       | Some n \<Rightarrow> Ret (0, t\<lparr>maxRetries := n\<rparr>, w))"

subsection \<open>User and groups\<close>

text \<open>A number that is not negative as a \<open>long long\<close>, converted to an \<open>unsigned int\<close>.\<close>

definition id_number :: "string \<Rightarrow> nat option" where
  "id_number s =
     (case crinitConfConvToIntegerLL s 10 of
        None \<Rightarrow> None
      | Some v \<Rightarrow> if v < 0 then None else crinitConfConvToIntegerUI s 10)"

definition crinitCfgUserHandler :: crinitConfigHandler where
  "crinitCfgUserHandler e mem tgt val type w =
     task_handler tgt type w (\<lambda>t.
       case (if val \<noteq> [] \<and> c_isalpha (hd val) then crinitUsernameToUid e (mem 0) val else None) of
         Some uid \<Rightarrow>
           if \<not> mem 1 then Ret (-1, t\<lparr>user := uid\<rparr>, w)
           else Ret (0, t\<lparr>user := uid, username := Some val\<rparr>, w)
       | None \<Rightarrow>
           (case id_number val of
              None \<Rightarrow> Ret (-1, t, w)
            | Some uid \<Rightarrow>
                (case crinitUidToUsername e (mem 2) (mem 3) uid of
                   None \<Rightarrow> Ret (-1, t\<lparr>user := uid\<rparr>, w)
                 | Some n \<Rightarrow> Ret (0, t\<lparr>user := uid, username := Some n\<rparr>, w))))"

text \<open>
  One word of the list of groups: the first is the main group, the others are supplementary.
  A name that is not found changes nothing and is no error here.
\<close>

definition group_word :: "confEnv \<Rightarrow> (nat \<Rightarrow> bool) \<Rightarrow> nat \<Rightarrow> string \<Rightarrow> crinitTaskDraft \<Rightarrow> crinitTaskDraft option" where
  "group_word e mem i s t =
     (if s \<noteq> [] \<and> c_isalpha (hd s) then
        (case crinitGroupnameToGid e (mem (3 * i + 2)) s of
           None \<Rightarrow> Some t
         | Some gid \<Rightarrow>
             if i = 0 then if \<not> mem (3 * i + 3) then None else Some (t\<lparr>group := gid, groupname := Some s\<rparr>)
             else Some (t\<lparr>supGroups := (supGroups t)[i - 1 := gid]\<rparr>))
      else case id_number s of
        None \<Rightarrow> None
      | Some gid \<Rightarrow>
          (case crinitGidToGroupname e (mem (3 * i + 2)) (mem (3 * i + 3)) gid of
             None \<Rightarrow> None
           | Some n \<Rightarrow>
               if i = 0 then Some (t\<lparr>group := gid, groupname := Some n\<rparr>)
               else Some (t\<lparr>supGroups := (supGroups t)[i - 1 := gid]\<rparr>)))"

fun group_loop :: "confEnv \<Rightarrow> (nat \<Rightarrow> bool) \<Rightarrow> nat \<Rightarrow> string list \<Rightarrow> crinitTaskDraft \<Rightarrow> crinitTaskDraft option" where
  "group_loop e mem i [] t = Some t"
| "group_loop e mem i (s # ss) t =
     (case group_word e mem i s t of None \<Rightarrow> None | Some t \<Rightarrow> group_loop e mem (Suc i) ss t)"

definition crinitCfgGroupHandler :: crinitConfigHandler where
  "crinitCfgGroupHandler e mem tgt val type w =
     task_handler tgt type w (\<lambda>t.
       bind_run (crinitConfConvToStrArr (mem 0) True val) (\<lambda>a. case a of
         None \<Rightarrow> Ret (-1, t, w)
       | Some ws \<Rightarrow>
           if length ws > 1 \<and> \<not> mem 1 then Ret (-1, t, w)
           else case group_loop e mem 0 ws (if length ws > 1 then t\<lparr>supGroups := replicate (length ws - 1) 0\<rparr> else t) of
             None \<Rightarrow> Ret (-1, t, w)
           | Some t' \<Rightarrow> if groupname t' = None then Ret (-1, t, w) else Ret (0, t', w)))"

subsection \<open>Control groups\<close>

text \<open>
  A parameter added to a configuration: the configuration with the new parameter, or why there
  is none (no memory, or no equals sign in the text).
\<close>

datatype addParam = Added "crinitCgroupParam list" | NoRoom | BadParam

definition add_param :: "bool \<Rightarrow> crinitCgroupParam list \<Rightarrow> string \<Rightarrow> addParam" where
  "add_param memOk ps val =
     (case crinitCfgHandlerManageArrayMem memOk \<lparr>filename = [], cgOption = []\<rparr> ps (length ps + 1) of
        None \<Rightarrow> NoRoom
      | Some arr \<Rightarrow>
          (case crinitCgroupConvertSingleParamToObject val of
             None \<Rightarrow> BadParam
           | Some p \<Rightarrow> Added (arr[length ps := p])))"

text \<open>A task gets a global cgroup of the name, if there is one, or its own below the root cgroup.\<close>

definition crinitCfgCgroupNameHandler :: crinitConfigHandler where
  "crinitCfgCgroupNameHandler e mem tgt val type w =
     task_handler tgt type w (\<lambda>t.
       if val = [] then Ret (-1, t, w)
       else bind_run (crinitGlobOptBorrow (globOpts w)) (\<lambda>g.
         case crinitFindCgroupByName (globCgroups g) val of
           (Some i, cs) \<Rightarrow>
             Ret (0, t\<lparr>cgroup := Some (cs ! i), globCg := Some i\<rparr>,
                  w\<lparr>globOpts := snd (crinitGlobOptRemit (g\<lparr>globCgroups := cs\<rparr>))\<rparr>)
         | (None, cs) \<Rightarrow>
             let cg = (case cgroup t of None \<Rightarrow> \<lparr>cgName = [], groupFd = 0, parent = None, config = None\<rparr> | Some c \<Rightarrow> c);
                 cg = cg\<lparr>cgName := val, parent := map_option cgName (rootCgroup g)\<rparr> in
             if (cgroup t = None \<and> \<not> mem 0) \<or> \<not> mem 1
             then Ret (-1, t, w\<lparr>globOpts := snd (crinitGlobOptRemit g)\<rparr>)
             else let g = (case globCg t of None \<Rightarrow> g | Some i \<Rightarrow> g\<lparr>globCgroups := (globCgroups g)[i := cg]\<rparr>)
                  in Ret (0, t\<lparr>cgroup := Some cg\<rparr>, w\<lparr>globOpts := snd (crinitGlobOptRemit g)\<rparr>)))"

text \<open>
  The parameters of a global cgroup are those of the global storage. A failure releases the
  configuration and leaves the pointer to it: a task of its own can then not be released, and
  the storage holds a dangling pointer if the cgroup is global.
\<close>

definition crinitCfgCgroupParamsHandler :: crinitConfigHandler where
  "crinitCfgCgroupParamsHandler e mem tgt val type w =
     task_handler tgt type w (\<lambda>t.
       case cgroup t of
         None \<Rightarrow> Ret (-1, t, w)
       | Some own \<Rightarrow>
           let cg = (case globCg t of None \<Rightarrow> own | Some i \<Rightarrow> globCgroups (globOpts w) ! i);
               ps = (case config cg of None \<Rightarrow> [] | Some ps \<Rightarrow> ps) in
           if config cg = None \<and> \<not> mem 0 then Ret (-1, t, w)
           else case add_param (mem 1) ps val of
             Added ps \<Rightarrow>
               bind_run (crinitGlobOptBorrow (globOpts w)) (\<lambda>g.
                 let cg = cg\<lparr>config := Some ps\<rparr>;
                     g = (case globCg t of None \<Rightarrow> g | Some i \<Rightarrow> g\<lparr>globCgroups := (globCgroups g)[i := cg]\<rparr>)
                 in Ret (0, t\<lparr>cgroup := Some cg\<rparr>, w\<lparr>globOpts := snd (crinitGlobOptRemit g)\<rparr>))
           | _ \<Rightarrow>
               if config cg = None then Ret (-1, t, w)
               else if globCg t = None then Ret (-1, t\<lparr>innerPtr := True\<rparr>, w)
               else Ret (-1, t, w\<lparr>globOpts := (globOpts w)\<lparr>optFreed := True\<rparr>\<rparr>))"

section \<open>Handlers for the global options\<close>

text \<open>
  A root cgroup whose name cannot be stored has no name, which the code treats as no root
  cgroup.
\<close>

definition crinitCfgCgroupRootNameHandler :: crinitConfigHandler where
  "crinitCfgCgroupRootNameHandler e mem tgt val type w =
     glob_handler CRINIT_CONFIG_TYPE_SERIES tgt type w (\<lambda>g.
       if val = [] then Ret (-1, g)
       else bind_run (crinitGlobOptBorrow g) (\<lambda>g.
         if rootCgroup g = None \<and> \<not> mem 0 then Ret (-1, snd (crinitGlobOptRemit g))
         else if \<not> mem 1 then Ret (-1, snd (crinitGlobOptRemit (g\<lparr>rootCgroup := None\<rparr>)))
         else let root = (case rootCgroup g of None \<Rightarrow> \<lparr>cgName = [], groupFd = 0, parent = None, config = None\<rparr> | Some c \<Rightarrow> c)
              in Ret (0, snd (crinitGlobOptRemit (g\<lparr>rootCgroup := Some (root\<lparr>cgName := val\<rparr>)\<rparr>)))))"

text \<open>A parameter that cannot be parsed stays in the configuration as an element of zero bytes.\<close>

definition put_param :: "bool \<Rightarrow> bool \<Rightarrow> crinitCgroup \<Rightarrow> string \<Rightarrow> int \<times> crinitCgroup" where
  "put_param confOk memOk cg val =
     (if config cg = None \<and> \<not> confOk then (-1, cg)
      else let ps = (case config cg of None \<Rightarrow> [] | Some ps \<Rightarrow> ps) in
        case add_param memOk ps val of
          NoRoom \<Rightarrow> (-1, cg\<lparr>config := Some ps\<rparr>)
        | BadParam \<Rightarrow> (-1, cg\<lparr>config := Some (ps @ [\<lparr>filename = [], cgOption = []\<rparr>])\<rparr>)
        | Added ps \<Rightarrow> (0, cg\<lparr>config := Some ps\<rparr>))"

definition crinitCfgCgroupRootParamsHandler :: crinitConfigHandler where
  "crinitCfgCgroupRootParamsHandler e mem tgt val type w =
     glob_handler CRINIT_CONFIG_TYPE_SERIES tgt type w (\<lambda>g.
       bind_run (crinitGlobOptBorrow g) (\<lambda>g. case rootCgroup g of
         None \<Rightarrow> Ret (-1, snd (crinitGlobOptRemit g))
       | Some root \<Rightarrow>
           (case put_param (mem 0) (mem 1) root val of (r, root) \<Rightarrow>
              Ret (r, snd (crinitGlobOptRemit (g\<lparr>rootCgroup := Some root\<rparr>))))))"

text \<open>
  The array of global cgroups is allocated by the first call only, with the size it needs;
  a later call with more names writes past its end. When an allocation fails, all cgroups of
  the array are released, older ones that tasks may share included.
\<close>

definition crinitCfgCgroupGlobalNameHandler :: crinitConfigHandler where
  "crinitCfgCgroupGlobalNameHandler e mem tgt val type w =
     glob_handler CRINIT_CONFIG_TYPE_SERIES tgt type w (\<lambda>g.
       bind_run (crinitConfConvToStrArr (mem 0) True val) (\<lambda>a. case a of
         None \<Rightarrow> Ret (-1, g)
       | Some ns \<Rightarrow>
           if ns = [] then Ret (-1, g)
           else bind_run (crinitGlobOptBorrow g) (\<lambda>g.
             let first = (globCgroupsRoom g = 0);
                 room = (if first then length ns else globCgroupsRoom g) in
             if first \<and> \<not> mem 1 then Ret (-1, snd (crinitGlobOptRemit (g\<lparr>globCgroups := []\<rparr>)))
             else if length ns > room then Undef
             else if \<exists>i < length ns. \<not> mem (2 + i) then
               Ret (-1, snd (crinitGlobOptRemit (g\<lparr>globCgroups := [], globCgroupsRoom := 0,
                                                  optFreed := (optFreed g \<or> \<not> first)\<rparr>)))
             else Ret (0, snd (crinitGlobOptRemit (g\<lparr>
               globCgroups := map (\<lambda>n. \<lparr>cgName = n, groupFd = 0, parent = None, config = None\<rparr>) ns,
               globCgroupsRoom := room\<rparr>))))))"

definition crinitCfgCgroupGlobalParamsHandler :: crinitConfigHandler where
  "crinitCfgCgroupGlobalParamsHandler e mem tgt val type w =
     glob_handler CRINIT_CONFIG_TYPE_SERIES tgt type w (\<lambda>g.
       bind_run (crinitGlobOptBorrow g) (\<lambda>g.
         if globCgroupsRoom g = 0 then Ret (-1, snd (crinitGlobOptRemit g))
         else case crinitCgroupGlobalParamSplitNameAndParam (mem 0) (mem 1) val of
           None \<Rightarrow> Ret (-1, snd (crinitGlobOptRemit g))
         | Some (n, param) \<Rightarrow>
             (case crinitFindCgroupByName (globCgroups g) n of
                (None, cs) \<Rightarrow> Ret (-1, snd (crinitGlobOptRemit g))
              | (Some i, cs) \<Rightarrow>
                  (case put_param (mem 2) (mem 3) (cs ! i) param of (r, cg) \<Rightarrow>
                     Ret (r, snd (crinitGlobOptRemit (g\<lparr>globCgroups := cs[i := cg]\<rparr>)))))))"

definition crinitCfgDefaultCapsHandler :: crinitConfigHandler where
  "crinitCfgDefaultCapsHandler e mem tgt val type w =
     glob_handler CRINIT_CONFIG_TYPE_SERIES tgt type w (\<lambda>g. crinitGlobOptSetString (mem 0) DefaultCaps g val)"

text \<open>Boolean options.\<close>

definition set_bool_opt :: "boolMember \<Rightarrow> crinitGlobOptStore \<Rightarrow> string \<Rightarrow> (int \<times> crinitGlobOptStore) run" where
  "set_bool_opt m g val =
     (case crinitConfConvToBool val of
        None \<Rightarrow> Ret (-1, g)
      | Some v \<Rightarrow> crinitGlobOptSetBoolean m g v)"

definition crinitCfgDebugHandler :: crinitConfigHandler where
  "crinitCfgDebugHandler e mem tgt val type w =
     glob_handler CRINIT_CONFIG_TYPE_SERIES tgt type w (\<lambda>g. set_bool_opt Debug g val)"

definition crinitCfgTaskDirSlHandler :: crinitConfigHandler where
  "crinitCfgTaskDirSlHandler e mem tgt val type w =
     glob_handler CRINIT_CONFIG_TYPE_SERIES tgt type w (\<lambda>g. set_bool_opt TaskDirFollowSl g val)"

definition crinitCfgSyslogHandler :: crinitConfigHandler where
  "crinitCfgSyslogHandler e mem tgt val type w =
     glob_handler CRINIT_CONFIG_TYPE_SERIES tgt type w (\<lambda>g. set_bool_opt UseSyslog g val)"

definition crinitCfgSignaturesHandler :: crinitConfigHandler where
  "crinitCfgSignaturesHandler e mem tgt val type w =
     glob_handler CRINIT_CONFIG_TYPE_KCMDLINE tgt type w (\<lambda>g. set_bool_opt Signatures g val)"

definition crinitCfgSigKeyDirHandler :: crinitConfigHandler where
  "crinitCfgSigKeyDirHandler e mem tgt val type w =
     glob_handler CRINIT_CONFIG_TYPE_KCMDLINE tgt type w (\<lambda>g. crinitGlobOptSetString (mem 0) SigKeyDir g val)"

text \<open>File name suffixes begin with a dot.\<close>

definition crinitCfgInclSuffixHandler :: crinitConfigHandler where
  "crinitCfgInclSuffixHandler e mem tgt val type w =
     glob_handler CRINIT_CONFIG_TYPE_SERIES tgt type w (\<lambda>g.
       if char_at val 0 \<noteq> CHR ''.'' then Ret (-1, g) else crinitGlobOptSetString (mem 0) InclSuffix g val)"

definition crinitCfgTaskSuffixHandler :: crinitConfigHandler where
  "crinitCfgTaskSuffixHandler e mem tgt val type w =
     glob_handler CRINIT_CONFIG_TYPE_SERIES tgt type w (\<lambda>g.
       if char_at val 0 \<noteq> CHR ''.'' then Ret (-1, g) else crinitGlobOptSetString (mem 0) TaskFileSuffix g val)"

text \<open>Directories and the launcher must be absolute paths of the right kind.\<close>

definition crinitCfgInclDirHandler :: crinitConfigHandler where
  "crinitCfgInclDirHandler e mem tgt val type w =
     glob_handler CRINIT_CONFIG_TYPE_SERIES tgt type w (\<lambda>g.
       if \<not> crinitIsAbsPath val then Ret (-1, g)
       else if \<not> crinitDirExists e val then Ret (-1, g)
       else crinitGlobOptSetString (mem 0) InclDir g val)"

definition crinitCfgTaskDirHandler :: crinitConfigHandler where
  "crinitCfgTaskDirHandler e mem tgt val type w =
     glob_handler CRINIT_CONFIG_TYPE_SERIES tgt type w (\<lambda>g.
       if \<not> crinitIsAbsPath val then Ret (-1, g)
       else if \<not> crinitDirExists e val then Ret (-1, g)
       else crinitGlobOptSetString (mem 0) TaskDir g val)"

definition crinitCfgLauncherCmdHandler :: crinitConfigHandler where
  "crinitCfgLauncherCmdHandler e mem tgt val type w =
     glob_handler CRINIT_CONFIG_TYPE_SERIES tgt type w (\<lambda>g.
       if \<not> crinitIsAbsPath val then Ret (-1, g)
       else if \<not> crinitFileIsExecutable e val then Ret (-1, g)
       else crinitGlobOptSetString (mem 0) LauncherCmd g val)"

definition crinitCfgShdGpHandler :: crinitConfigHandler where
  "crinitCfgShdGpHandler e mem tgt val type w =
     glob_handler CRINIT_CONFIG_TYPE_SERIES tgt type w (\<lambda>g.
       case crinitConfConvToIntegerULL val 10 of
         None \<Rightarrow> Ret (-1, g)
       | Some gpMicros \<Rightarrow> crinitGlobOptSetUnsignedLL ShdGraceP g gpMicros)"

definition crinitCfgElosEventPollIntervalHandler :: crinitConfigHandler where
  "crinitCfgElosEventPollIntervalHandler e mem tgt val type w =
     glob_handler CRINIT_CONFIG_TYPE_SERIES tgt type w (\<lambda>g.
       case crinitConfConvToIntegerULL val 10 of
         None \<Rightarrow> Ret (-1, g)
       | Some pollInterval \<Rightarrow> crinitGlobOptSetUnsignedLL ElosEventPollInterval g pollInterval)"

text \<open>The other options of elos are errors in a build without it.\<close>

definition crinitCfgElosHandler :: crinitConfigHandler where
  "crinitCfgElosHandler e mem tgt val type w = Ret (-1, tgt, w)"

definition crinitCfgElosServerHandler :: crinitConfigHandler where
  "crinitCfgElosServerHandler e mem tgt val type w = Ret (-1, tgt, w)"

definition crinitCfgElosPortHandler :: crinitConfigHandler where
  "crinitCfgElosPortHandler e mem tgt val type w = Ret (-1, tgt, w)"

text \<open>
  The names of the task files are appended to those of earlier lines. Both arrays are accessed
  at their last element, which is undefined for an empty one. When the second reallocation
  fails the array has been released and the storage keeps the pointer.
\<close>

definition crinitCfgTasksHandler :: crinitConfigHandler where
  "crinitCfgTasksHandler e mem tgt val type w =
     glob_handler CRINIT_CONFIG_TYPE_SERIES tgt type w (\<lambda>g.
       bind_run (crinitConfConvToStrArr (mem 0) True val) (\<lambda>a. case a of
         None \<Rightarrow> Ret (-1, g)
       | Some parsedVal \<Rightarrow>
           bind_run (crinitGlobOptBorrow g) (\<lambda>g. case tasks g of
             None \<Rightarrow> Ret (0, snd (crinitGlobOptRemit (g\<lparr>tasks := Some parsedVal\<rparr>)))
           | Some old \<Rightarrow>
               if \<not> mem 1 \<and> parsedVal \<noteq> [] then Ret (-1, snd (crinitGlobOptRemit g))
               else if old = [] \<or> parsedVal = [] then Undef
               else if \<not> mem 2 then Ret (-1, snd (crinitGlobOptRemit (g\<lparr>optFreed := True\<rparr>)))
               else Ret (remit_with 0 (g\<lparr>tasks := Some (old @ parsedVal)\<rparr>)))))"

end
