(* ===== verification/ConfMap.thy ===== *)
theory ConfMap
  imports ConfHdl
begin

text \<open>
  The tables of configuration keys, \<open>src/src/confmap.c\<close>, and the binary search in them. The handler
  for includes belongs to \<open>src/src/confhdl.c\<close> but reads another file with this very table; it is
  an argument of the table of task options here and defined with the tasks.
\<close>

section \<open>Tables\<close>

datatype crinitConfigs =
    CRINIT_CONFIG_COMMAND | CRINIT_CONFIG_DEBUG | CRINIT_CONFIG_DEFAULTCAPS | CRINIT_CONFIG_DEPENDS
  | CRINIT_CONFIG_ELOS_EVENT_POLL_INTERVAL | CRINIT_CONFIG_ELOS_PORT | CRINIT_CONFIG_ELOS_SERVER
  | CRINIT_CONFIG_ENV_SET | CRINIT_CONFIG_FILTER_DEFINE | CRINIT_CONFIG_GROUP | CRINIT_CONFIG_INCLUDE
  | CRINIT_CONFIG_INCLUDE_SUFFIX | CRINIT_CONFIG_INCLUDEDIR | CRINIT_CONFIG_IOREDIR | CRINIT_CONFIG_NAME
  | CRINIT_CONFIG_PROVIDES | CRINIT_CONFIG_RESPAWN | CRINIT_CONFIG_RESPAWN_RETRIES | CRINIT_CONFIG_SHDGRACEP
  | CRINIT_CONFIG_SIGKEYDIR | CRINIT_CONFIG_SIGNATURES | CRINIT_CONFIG_STOP_COMMAND
  | CRINIT_CONFIG_TASK_FILE_SUFFIX | CRINIT_CONFIG_TASKDIR | CRINIT_CONFIG_TASKDIR_FOLLOW_SYMLINKS
  | CRINIT_CONFIG_TASKS | CRINIT_CONFIG_TRIGGER | CRINIT_CONFIG_TRIGGER_REARM | CRINIT_CONFIG_USE_SYSLOG
  | CRINIT_CONFIG_USE_ELOS | CRINIT_CONFIG_USER | CRINIT_CONFIG_LAUNCHER_CMD | CRINIT_CONFIG_CAP_CLEAR
  | CRINIT_CONFIG_CAP_SET | CRINIT_CONFIG_CGROUP_NAME | CRINIT_CONFIG_CGROUP_PARAMS
  | CRINIT_CONFIG_CGROUP_ROOT_NAME | CRINIT_CONFIG_CGROUP_ROOT_PARAMS | CRINIT_CONFIG_CGROUP_GLOBAL_NAME
  | CRINIT_CONFIG_CGROUP_GLOBAL_PARAMS

record crinitConfigMapping =
  cfgConfig :: crinitConfigs
  configKey :: string
  arrayLike :: bool
  includeSafe :: bool
  cfgHandler :: crinitConfigHandler

abbreviation (input) cfg_map :: "crinitConfigs \<Rightarrow> string \<Rightarrow> bool \<Rightarrow> bool \<Rightarrow> crinitConfigHandler \<Rightarrow> crinitConfigMapping" where
  "cfg_map c k a i h \<equiv> \<lparr>cfgConfig = c, configKey = k, arrayLike = a, includeSafe = i, cfgHandler = h\<rparr>"

definition crinitTaskCfgMap :: "crinitConfigHandler \<Rightarrow> crinitConfigMapping list" where
  "crinitTaskCfgMap includeHandler =
     [cfg_map CRINIT_CONFIG_CAP_CLEAR ''CAPABILITY_CLEAR'' True False crinitCfgCapClearHandler,
      cfg_map CRINIT_CONFIG_CAP_SET ''CAPABILITY_SET'' True False crinitCfgCapSetHandler,
      cfg_map CRINIT_CONFIG_CGROUP_NAME ''CGROUP_NAME'' False False crinitCfgCgroupNameHandler,
      cfg_map CRINIT_CONFIG_CGROUP_PARAMS ''CGROUP_PARAMS'' True False crinitCfgCgroupParamsHandler,
      cfg_map CRINIT_CONFIG_COMMAND ''COMMAND'' True False crinitCfgCmdHandler,
      cfg_map CRINIT_CONFIG_DEPENDS ''DEPENDS'' True True crinitCfgDepHandler,
      cfg_map CRINIT_CONFIG_ENV_SET ''ENV_SET'' True True crinitCfgEnvHandler,
      cfg_map CRINIT_CONFIG_FILTER_DEFINE ''FILTER_DEFINE'' True True crinitCfgFilterHandler,
      cfg_map CRINIT_CONFIG_GROUP ''GROUP'' True False crinitCfgGroupHandler,
      cfg_map CRINIT_CONFIG_INCLUDE ''INCLUDE'' True False includeHandler,
      cfg_map CRINIT_CONFIG_IOREDIR ''IO_REDIRECT'' True True crinitCfgIoRedirHandler,
      cfg_map CRINIT_CONFIG_NAME ''NAME'' False False crinitCfgNameHandler,
      cfg_map CRINIT_CONFIG_PROVIDES ''PROVIDES'' True False crinitCfgPrvHandler,
      cfg_map CRINIT_CONFIG_RESPAWN ''RESPAWN'' False False crinitCfgRespHandler,
      cfg_map CRINIT_CONFIG_RESPAWN_RETRIES ''RESPAWN_RETRIES'' False False crinitCfgRespRetHandler,
      cfg_map CRINIT_CONFIG_STOP_COMMAND ''STOP_COMMAND'' True False crinitCfgStopCmdHandler,
      cfg_map CRINIT_CONFIG_TRIGGER ''TRIGGER'' True True crinitCfgTrigHandler,
      cfg_map CRINIT_CONFIG_TRIGGER_REARM ''TRIGGER_REARM'' False False crinitCfgTrigRearmHandler,
      cfg_map CRINIT_CONFIG_USER ''USER'' False False crinitCfgUserHandler]"

definition crinitSeriesCfgMap :: "crinitConfigMapping list" where
  "crinitSeriesCfgMap =
     [cfg_map CRINIT_CONFIG_CGROUP_GLOBAL_NAME ''CGROUP_GLOBAL_NAME'' True False crinitCfgCgroupGlobalNameHandler,
      cfg_map CRINIT_CONFIG_CGROUP_GLOBAL_PARAMS ''CGROUP_GLOBAL_PARAMS'' True False crinitCfgCgroupGlobalParamsHandler,
      cfg_map CRINIT_CONFIG_CGROUP_ROOT_NAME ''CGROUP_ROOT_NAME'' False False crinitCfgCgroupRootNameHandler,
      cfg_map CRINIT_CONFIG_CGROUP_ROOT_PARAMS ''CGROUP_ROOT_PARAMS'' True False crinitCfgCgroupRootParamsHandler,
      cfg_map CRINIT_CONFIG_DEBUG ''DEBUG'' False False crinitCfgDebugHandler,
      cfg_map CRINIT_CONFIG_DEFAULTCAPS ''DEFAULTCAPS'' True False crinitCfgDefaultCapsHandler,
      cfg_map CRINIT_CONFIG_ELOS_EVENT_POLL_INTERVAL ''ELOS_EVENT_POLL_INTERVAL'' False False crinitCfgElosEventPollIntervalHandler,
      cfg_map CRINIT_CONFIG_ELOS_PORT ''ELOS_PORT'' False False crinitCfgElosPortHandler,
      cfg_map CRINIT_CONFIG_ELOS_SERVER ''ELOS_SERVER'' False False crinitCfgElosServerHandler,
      cfg_map CRINIT_CONFIG_ENV_SET ''ENV_SET'' True False crinitCfgEnvHandler,
      cfg_map CRINIT_CONFIG_FILTER_DEFINE ''FILTER_DEFINE'' True False crinitCfgFilterHandler,
      cfg_map CRINIT_CONFIG_INCLUDEDIR ''INCLUDEDIR'' False False crinitCfgInclDirHandler,
      cfg_map CRINIT_CONFIG_INCLUDE_SUFFIX ''INCLUDE_SUFFIX'' False False crinitCfgInclSuffixHandler,
      cfg_map CRINIT_CONFIG_LAUNCHER_CMD ''LAUNCHER_CMD'' False False crinitCfgLauncherCmdHandler,
      cfg_map CRINIT_CONFIG_SHDGRACEP ''SHUTDOWN_GRACE_PERIOD_US'' False False crinitCfgShdGpHandler,
      cfg_map CRINIT_CONFIG_TASKDIR ''TASKDIR'' False False crinitCfgTaskDirHandler,
      cfg_map CRINIT_CONFIG_TASKDIR_FOLLOW_SYMLINKS ''TASKDIR_FOLLOW_SYMLINKS'' False False crinitCfgTaskDirSlHandler,
      cfg_map CRINIT_CONFIG_TASKS ''TASKS'' True False crinitCfgTasksHandler,
      cfg_map CRINIT_CONFIG_TASK_FILE_SUFFIX ''TASK_FILE_SUFFIX'' False False crinitCfgTaskSuffixHandler,
      cfg_map CRINIT_CONFIG_USE_ELOS ''USE_ELOS'' False False crinitCfgElosHandler,
      cfg_map CRINIT_CONFIG_USE_SYSLOG ''USE_SYSLOG'' False False crinitCfgSyslogHandler]"

definition crinitKCmdlineCfgMap :: "crinitConfigMapping list" where
  "crinitKCmdlineCfgMap =
     [cfg_map CRINIT_CONFIG_SIGKEYDIR ''sigkeydir'' False False crinitCfgSigKeyDirHandler,
      cfg_map CRINIT_CONFIG_SIGNATURES ''signatures'' False False crinitCfgSignaturesHandler]"

section \<open>Search\<close>

text \<open>\<open>strcmp\<close> compares bytes as unsigned numbers, as the order on characters does.\<close>

definition crinitCompareConfigMappings :: "string \<Rightarrow> crinitConfigMapping \<Rightarrow> int" where
  "crinitCompareConfigMappings key elem =
     (if key < configKey elem then -1 else if configKey elem < key then 1 else 0)"

text \<open>\<open>bsearch\<close> of the C library between two indices.\<close>

function bsearch :: "('a \<Rightarrow> int) \<Rightarrow> 'a list \<Rightarrow> nat \<Rightarrow> nat \<Rightarrow> 'a option" where
  "bsearch compar base l u =
     (if u \<le> l then None
      else let idx = (l + u) div 2; c = compar (base ! idx) in
        if c < 0 then bsearch compar base l idx
        else if c > 0 then bsearch compar base (Suc idx) u
        else Some (base ! idx))"
  by pat_completeness auto
termination by (relation "measure (\<lambda>(c, b, l, u). u - l)") auto

declare bsearch.simps [simp del]

definition crinitFindConfigMapping :: "crinitConfigMapping list \<Rightarrow> string \<Rightarrow> crinitConfigMapping option" where
  "crinitFindConfigMapping m keyStr = bsearch (crinitCompareConfigMappings keyStr) m 0 (length m)"

section \<open>The search finds the entry of the key\<close>

lemma bsearch_None:
  assumes "bsearch (crinitCompareConfigMappings k) m l u = None" "u \<le> length m"
    and "sorted_wrt (<) (map configKey m)" "l \<le> i" "i < u"
  shows "configKey (m ! i) \<noteq> k"
  using assms
proof (induction "crinitCompareConfigMappings k" m l u rule: bsearch.induct)
  case (1 m l u)
  let ?idx = "(l + u) div 2"
  have less: "configKey (m ! a) < configKey (m ! b)" if "a < b" "b < length m" for a b
    using that "1.prems"(3) sorted_wrt_nth_less [of "(<)" "map configKey m" a b] by simp
  have idx: "l \<le> ?idx" "?idx < u" using "1.prems"(4,5) by auto
  consider "k < configKey (m ! ?idx)" | "configKey (m ! ?idx) < k" | "configKey (m ! ?idx) = k" by fastforce
  then show ?case
  proof cases
    case 1
    show ?thesis
    proof (cases "i < ?idx")
      case True
      with 1 "1.prems" "1.hyps"(1) idx show ?thesis
        by (auto simp: bsearch.simps [of _ m l u] crinitCompareConfigMappings_def Let_def split: if_splits)
    next
      case False
      then have "configKey (m ! ?idx) \<le> configKey (m ! i)" using less [of ?idx i] "1.prems"(2,5) by (cases "i = ?idx") auto
      with 1 show ?thesis by auto
    qed
  next
    case 2
    show ?thesis
    proof (cases "?idx < i")
      case True
      with 2 "1.prems" "1.hyps"(2) idx show ?thesis
        by (auto simp: bsearch.simps [of _ m l u] crinitCompareConfigMappings_def Let_def split: if_splits)
    next
      case False
      then have "configKey (m ! i) \<le> configKey (m ! ?idx)" using less [of i ?idx] "1.prems"(2) idx by (cases "i = ?idx") auto
      with 2 show ?thesis by auto
    qed
  next
    case 3
    with "1.prems" idx show ?thesis
      by (auto simp: bsearch.simps [of _ m l u] crinitCompareConfigMappings_def Let_def)
  qed
qed

lemma bsearch_Some:
  assumes "bsearch (crinitCompareConfigMappings k) m l u = Some x" "u \<le> length m"
  shows "x \<in> set m \<and> configKey x = k"
  using assms
proof (induction "crinitCompareConfigMappings k" m l u rule: bsearch.induct)
  case (1 m l u)
  then show ?case
    by (subst (asm) (3) bsearch.simps)
      (auto simp: crinitCompareConfigMappings_def Let_def split: if_splits)
qed

lemma bsearch_find:
  assumes "sorted_wrt (<) (map configKey m)"
  shows "crinitFindConfigMapping m k = find (\<lambda>x. configKey x = k) m"
proof (cases "crinitFindConfigMapping m k")
  case None
  then have "\<forall>i < length m. configKey (m ! i) \<noteq> k"
    using bsearch_None [of k m 0 "length m"] assms by (auto simp: crinitFindConfigMapping_def)
  with None show ?thesis by (metis (mono_tags, lifting) find_None_iff in_set_conv_nth)
next
  case (Some x)
  then have x: "x \<in> set m" "configKey x = k"
    using bsearch_Some [of k m 0 "length m" x] by (auto simp: crinitFindConfigMapping_def)
  have "distinct (map configKey m)" using assms by (simp add: strict_sorted_iff)
  with x have "find (\<lambda>x. configKey x = k) m = Some x"
    by (induction m) auto
  with Some show ?thesis by simp
qed

lemma task_keys_sorted: "sorted_wrt (<) (map configKey (crinitTaskCfgMap inc))"
  by (simp add: crinitTaskCfgMap_def less_char_def)

lemma series_keys_sorted: "sorted_wrt (<) (map configKey crinitSeriesCfgMap)"
  by (simp add: crinitSeriesCfgMap_def less_char_def)

lemma kcmdline_keys_sorted: "sorted_wrt (<) (map configKey crinitKCmdlineCfgMap)"
  by (simp add: crinitKCmdlineCfgMap_def less_char_def)

text \<open>
  C34: the binary search finds, in each of the three tables, exactly what a search through all
  their entries finds: the tables are in strictly ascending order of the keys.
\<close>

theorem FindConfigMapping_exact:
  "crinitFindConfigMapping (crinitTaskCfgMap inc) k = find (\<lambda>m. configKey m = k) (crinitTaskCfgMap inc) \<and>
   crinitFindConfigMapping crinitSeriesCfgMap k = find (\<lambda>m. configKey m = k) crinitSeriesCfgMap \<and>
   crinitFindConfigMapping crinitKCmdlineCfgMap k = find (\<lambda>m. configKey m = k) crinitKCmdlineCfgMap"
  by (simp add: bsearch_find task_keys_sorted series_keys_sorted kcmdline_keys_sorted)

end
