(* ===== verification/Ini.thy ===== *)
theory Ini
  imports CLib
begin

text \<open>
  The bundled INI parser, \<open>src/deps/inih/ini.c\<close>, as its build configures it: lines of up to 4095
  bytes, continuation lines, a byte order mark, comments with \<open>;\<close> and \<open>#\<close> at the start of a line only,
  and no stop at the first error. A handler gets the user data, the section, the name and the
  value and returns whether it accepts the entry, and the new user data.
\<close>

section \<open>Text helpers\<close>

abbreviation (input) NL :: char where "NL \<equiv> CHR 0x0A"

definition rstrip :: "string \<Rightarrow> string" where
  "rstrip s = rev (dropWhile c_isspace (rev s))"

definition lskip :: "string \<Rightarrow> string" where
  "lskip s = dropWhile c_isspace s"

text \<open>The rest of the text from the first of the given characters on.\<close>

definition find_chars_or_comment :: "string \<Rightarrow> string \<Rightarrow> string" where
  "find_chars_or_comment s chars = dropWhile (\<lambda>c. c \<notin> set chars) s"

definition strncpy0 :: "string \<Rightarrow> nat \<Rightarrow> string" where
  "strncpy0 src n = take (n - 1) src"

abbreviation (input) INI_MAX_LINE :: nat where "INI_MAX_LINE \<equiv> 4096"
abbreviation (input) MAX_SECTION :: nat where "MAX_SECTION \<equiv> 50"
abbreviation (input) MAX_NAME :: nat where "MAX_NAME \<equiv> 50"

section \<open>Reading lines\<close>

text \<open>At most \<open>n\<close> characters, up to and with the end of the line; and the text that is left.\<close>

fun read_line :: "nat \<Rightarrow> string \<Rightarrow> string \<times> string" where
  "read_line 0 s = ([], s)"
| "read_line (Suc n) [] = ([], [])"
| "read_line (Suc n) (c # s) =
     (if c = NL then ([c], s) else case read_line n s of (l, r) \<Rightarrow> (c # l, r))"

definition ini_reader_string :: "nat \<Rightarrow> string \<Rightarrow> (string \<times> string) option" where
  "ini_reader_string num s = (if s = [] \<or> num < 2 then None else Some (read_line (num - 1) s))"

section \<open>Parsing\<close>

record 'u iniState =
  iniSection :: string
  prev_name :: string
  lineno :: nat
  iniError :: nat
  iniUser :: 'u

type_synonym 'u iniHandler = "'u \<Rightarrow> string \<Rightarrow> string \<Rightarrow> string \<Rightarrow> bool \<times> 'u"

definition ini_fail :: "'u iniState \<Rightarrow> 'u iniState" where
  "ini_fail st = (if iniError st = 0 then st\<lparr>iniError := lineno st\<rparr> else st)"

definition ini_call :: "'u iniHandler \<Rightarrow> string \<Rightarrow> string \<Rightarrow> 'u iniState \<Rightarrow> 'u iniState" where
  "ini_call h name value st =
     (case h (iniUser st) (iniSection st) name value of (ok, u) \<Rightarrow>
        let st = st\<lparr>iniUser := u\<rparr> in if ok then st else ini_fail st)"

definition has_bom :: "string \<Rightarrow> bool" where
  "has_bom line \<longleftrightarrow> take 3 line = [CHR 0xEF, CHR 0xBB, CHR 0xBF]"

text \<open>
  One line. The text \<open>start\<close> begins after the start of the line exactly when it is shorter than
  the line without its trailing white space.
\<close>

definition ini_line :: "'u iniHandler \<Rightarrow> string \<Rightarrow> 'u iniState \<Rightarrow> 'u iniState" where
  "ini_line h line st =
     (let st = st\<lparr>lineno := Suc (lineno st)\<rparr>;
          start = lskip (rstrip (if lineno st = 1 \<and> has_bom line then drop 3 line else line))
      in if start = [] \<or> hd start \<in> set '';#'' then st
         else if prev_name st \<noteq> [] \<and> start \<noteq> rstrip line then ini_call h (prev_name st) start st
         else if hd start = CHR ''['' then
           (let end = find_chars_or_comment (tl start) '']'' in
            if end \<noteq> []
            then st\<lparr>iniSection := strncpy0 (take (length (tl start) - length end) (tl start)) MAX_SECTION,
                    prev_name := []\<rparr>
            else ini_fail st)
         else
           (let end = find_chars_or_comment start ''=:'' in
            if end \<noteq> [] then
              (let name = rstrip (take (length start - length end) start);
                   value = rstrip (lskip (tl end))
               in ini_call h name value (st\<lparr>prev_name := strncpy0 name MAX_NAME\<rparr>))
            else ini_fail st))"

lemma read_line_length: "length (snd (read_line n s)) \<le> length s"
  by (induction n s rule: read_line.induct) (auto split: prod.splits)

lemma ini_reader_string_shorter:
  "ini_reader_string num s = Some (l, r) \<Longrightarrow> length r < length s"
proof -
  assume "ini_reader_string num s = Some (l, r)"
  then obtain n c s' where "num - 1 = Suc n" "s = c # s'" "read_line (Suc n) (c # s') = (l, r)"
    by (cases s; cases "num - 1") (auto simp: ini_reader_string_def split: if_splits)
  then show ?thesis using read_line_length [of n s'] by (auto split: if_splits prod.splits)
qed

function ini_parse_stream :: "'u iniHandler \<Rightarrow> string \<Rightarrow> 'u iniState \<Rightarrow> 'u iniState" where
  "ini_parse_stream h s st =
     (case ini_reader_string INI_MAX_LINE s of
        None \<Rightarrow> st
      | Some (line, rest) \<Rightarrow> ini_parse_stream h rest (ini_line h line st))"
  by pat_completeness auto
termination
  by (relation "measure (\<lambda>(h, s, st). length s)") (auto dest: ini_reader_string_shorter [OF sym] ini_reader_string_shorter)

declare ini_parse_stream.simps [simp del]

text \<open>The number of the first line with an error, or 0, and the user data.\<close>

definition ini_parse_string :: "'u iniHandler \<Rightarrow> string \<Rightarrow> 'u \<Rightarrow> nat \<times> 'u" where
  "ini_parse_string h s u =
     (let st = ini_parse_stream h s \<lparr>iniSection = [], prev_name = [], lineno = 0, iniError = 0, iniUser = u\<rparr>
      in (iniError st, iniUser st))"

section \<open>Printed entries\<close>

text \<open>
  Entries printed one in a line, \<open>KEY=value\<close>, are handed to the handler in order. The conditions
  are those of the format: no separator or line end in a key, no line end in a value, no white
  space at the ends of either, and a line that fits into the buffer.
\<close>

definition ini_text :: "string \<times> string \<Rightarrow> string" where
  "ini_text kv = fst kv @ ''='' @ snd kv @ [NL]"

definition trimmed :: "string \<Rightarrow> bool" where
  "trimmed s \<longleftrightarrow> s = [] \<or> (\<not> c_isspace (hd s) \<and> \<not> c_isspace (last s))"

definition ini_entry :: "string \<times> string \<Rightarrow> bool" where
  "ini_entry kv \<longleftrightarrow>
     fst kv \<noteq> [] \<and> trimmed (fst kv) \<and> hd (fst kv) \<notin> set '';#['' \<and> hd (fst kv) \<noteq> CHR 0xEF \<and>
     set (fst kv) \<inter> set ''=:'' = {} \<and> NL \<notin> set (fst kv) \<union> set (snd kv) \<and> trimmed (snd kv) \<and>
     length (fst kv) + length (snd kv) + 2 < INI_MAX_LINE"

lemma rstrip_trimmed: "trimmed s \<Longrightarrow> rstrip s = s"
  by (cases "rev s") (auto simp: trimmed_def rstrip_def hd_rev [symmetric])

lemma lskip_trimmed: "trimmed s \<Longrightarrow> lskip s = s"
  by (cases s) (auto simp: trimmed_def lskip_def)

lemma rstrip_append: "c_isspace c \<Longrightarrow> rstrip (s @ [c]) = rstrip s"
  by (simp add: rstrip_def)

lemma read_line_text:
  "NL \<notin> set s \<Longrightarrow> length s < n \<Longrightarrow> read_line n (s @ NL # rest) = (s @ [NL], rest)"
proof (induction s arbitrary: n)
  case Nil
  then show ?case by (cases n) auto
next
  case (Cons c s)
  then show ?case by (cases n) auto
qed

lemma ini_reader_text:
  "ini_entry kv \<Longrightarrow> ini_reader_string INI_MAX_LINE (ini_text kv @ rest) = Some (ini_text kv, rest)"
  using read_line_text [of "fst kv @ ''='' @ snd kv" 4095 rest]
  by (simp add: ini_reader_string_def ini_text_def ini_entry_def)

lemma ini_line_text:
  assumes "ini_entry kv"
  shows "ini_line h (ini_text kv) st =
    ini_call h (fst kv) (snd kv) (st\<lparr>lineno := Suc (lineno st), prev_name := strncpy0 (fst kv) MAX_NAME\<rparr>)"
proof -
  obtain k v where kv: "kv = (k, v)" by (cases kv)
  obtain c k' where k: "k = c # k'" using assms by (cases k) (auto simp: kv ini_entry_def)
  let ?s = "c # k' @ CHR ''='' # v"
  have c: "\<not> c_isspace c" "c \<notin> set '';#[''" "c \<noteq> CHR 0xEF"
    using assms by (auto simp: kv k ini_entry_def trimmed_def)
  have "trimmed ?s" using assms c by (cases v rule: rev_cases) (auto simp: kv k ini_entry_def trimmed_def c_isspace_def)
  then have strip: "rstrip (ini_text kv) = ?s" "lskip ?s = ?s"
    using rstrip_append [of NL "?s"] by (simp_all add: kv k ini_text_def rstrip_trimmed lskip_trimmed c_isspace_def)
  have bom: "\<not> has_bom (ini_text kv)" using c by (simp add: kv k ini_text_def has_bom_def)
  have fnd: "find_chars_or_comment ?s ''=:'' = CHR ''='' # v"
    using assms by (subst (1) find_chars_or_comment_def, subst append_Cons [symmetric], subst dropWhile_append2)
      (auto simp: kv k ini_entry_def)
  have "trimmed k" "trimmed v" using assms by (simp_all add: kv ini_entry_def)
  then have "ini_line h (ini_text kv) st =
      ini_call h k v (st\<lparr>lineno := Suc (lineno st), prev_name := strncpy0 k MAX_NAME\<rparr>)"
    using c by (simp add: ini_line_def Let_def bom strip fnd rstrip_trimmed lskip_trimmed k)
  then show ?thesis by (simp add: kv)
qed

lemma ini_parse_stream_text:
  assumes "\<forall>kv \<in> set kvs. ini_entry kv"
  shows "ini_parse_stream h (concat (map ini_text kvs)) st =
    fold (\<lambda>kv st. ini_call h (fst kv) (snd kv) (st\<lparr>lineno := Suc (lineno st), prev_name := strncpy0 (fst kv) MAX_NAME\<rparr>)) kvs st"
  using assms
proof (induction kvs arbitrary: st)
  case Nil
  show ?case by (simp add: ini_parse_stream.simps ini_reader_string_def)
next
  case (Cons kv kvs)
  then show ?case
    by (simp add: ini_parse_stream.simps [of h "ini_text kv @ _"] ini_reader_text ini_line_text)
qed

end
