(* ===== verification/ConfParse.thy ===== *)
theory ConfParse
  imports ConfMap Ini
begin

text \<open>
  Reading a configuration file, \<open>crinitParseConf\<close> and \<open>crinitIniHandler\<close> of \<open>src/src/confparse.c\<close>. A list of
  keys and values is the list of its complete nodes. The first node is allocated before
  anything is read and filled in by the first call of the handler: the empty list stands for
  this node with its members not yet set, and whoever reads it has undefined behaviour.
\<close>

type_synonym crinitConfKvList = "(string \<times> string option) list"

section \<open>The handler for entries\<close>

record crinitIniParserCtx =
  entries :: "(string \<times> string) list"
  keyArrayCount :: nat
  touched :: bool

text \<open>The counter of an array-like key starts again when the key differs from that of the last node.\<close>

definition restart_count :: "string \<Rightarrow> nat \<Rightarrow> crinitIniParserCtx \<Rightarrow> nat" where
  "restart_count key n ctx =
     (if entries ctx \<noteq> [] \<and>
         (n \<noteq> length (fst (last (entries ctx))) \<or> \<not> strncmp_eq key (fst (last (entries ctx))) n)
      then 0 else keyArrayCount ctx)"

text \<open>
  The length of the key without a subscript, and the new value of the counter; \<open>Inl\<close> is the counter
  after a subscript that is refused.
\<close>

definition key_subscript :: "string \<Rightarrow> crinitIniParserCtx \<Rightarrow> nat + nat \<times> nat" where
  "key_subscript key ctx =
     (case strchr key (CHR ''['') of
        None \<Rightarrow> Inr (length key, keyArrayCount ctx)
      | Some brck \<Rightarrow>
          if length key \<le> 2 then Inr (length key, keyArrayCount ctx)
          else if char_at brck 1 = CHR '']'' then
            Inr (length key - 2, Suc (restart_count key (length key - 2) ctx))
          else
            let n = length key - length brck; num = restart_count key n ctx in
            case strtoul 10 (tl brck) of (idx, _, pEnd) \<Rightarrow>
              if length pEnd = length (tl brck) \<or> char_at pEnd 0 \<noteq> CHR '']'' then Inl num
              else if nat idx \<noteq> num then Inl num
              else Inr (n, Suc num))"

definition crinitIniHandler :: "crinitIniParserCtx iniHandler" where
  "crinitIniHandler ctx section key value =
     (let ctx = ctx\<lparr>touched := True\<rparr> in
      case key_subscript key ctx of
        Inl num \<Rightarrow> (False, ctx\<lparr>keyArrayCount := num\<rparr>)
      | Inr (keyLen, num) \<Rightarrow>
          (True, ctx\<lparr>entries := entries ctx @ [(take keyLen key, snd (crinitMatchQuotedConfig value))],
                     keyArrayCount := num\<rparr>))"

section \<open>Reading a file\<close>

text \<open>
  The text of a file ends at its first zero byte; an empty file cannot be read. \<open>memOk\<close> says
  that all allocations succeed: each one that fails makes the call fail. After an error in
  the text the list is released, which is undefined when its first node was never filled in.
\<close>

definition crinitParseConf ::
  "confEnv \<Rightarrow> bool \<Rightarrow> crinitGlobOptStore \<Rightarrow> string \<Rightarrow> (crinitConfKvList option \<times> crinitGlobOptStore) run" where
  "crinitParseConf e memOk g fname =
     (case binFile (cfSig e) fname of
        None \<Rightarrow> Ret (None, g)
      | Some c \<Rightarrow>
          if c = [] \<or> \<not> memOk then Ret (None, g)
          else let fileBuf = takeWhile (\<lambda>c. c \<noteq> CHR 0x00) c in
            bind_run (crinitGlobOptGetBoolean Signatures g) (\<lambda>(r, sigRequired, g).
              if r = -1 then Ret (None, g)
              else bind_run
                (if \<not> sigRequired then Ret True
                 else case read_signature (cfSig e) (fname @ CRINIT_SIGNATURE_FILE_SUFFIX) of
                   None \<Rightarrow> Ret False
                 | Some sigBuf \<Rightarrow>
                     bind_run (crinitVerifySignature (cfSig e) (cfSigCtx e) fileBuf sigBuf) (\<lambda>(r, _). Ret (r \<noteq> -1)))
                (\<lambda>ok.
                  if \<not> ok then Ret (None, g)
                  else case ini_parse_string crinitIniHandler fileBuf \<lparr>entries = [], keyArrayCount = 0, touched = False\<rparr> of
                    (parseResult, ctx) \<Rightarrow>
                      if parseResult = 0 then Ret (Some (map (\<lambda>(k, v). (k, Some v)) (entries ctx)), g)
                      else if touched ctx then Ret (None, g)
                      else Undef)))"

section \<open>Lemmas\<close>

text \<open>With signatures in use, a file that is accepted carries a signature that verifies.\<close>

lemma GetBoolean_ready: "optLock g = Unlocked \<Longrightarrow> crinitGlobOptGetBoolean m g = Ret (0, get_bool m g, g)"
  by (cases g; cases m)
    (simp_all add: crinitGlobOptGetBoolean_def crinitGlobOptBorrow_def remit_with_def crinitGlobOptRemit_def)

lemma ParseConf_verified:
  assumes "crinitParseConf e memOk g f = Ret (Some c, g')" "optLock g = Unlocked" "signatures g"
  shows "\<exists>txt s ctx. binFile (cfSig e) f = Some txt \<and> read_signature (cfSig e) (f @ CRINIT_SIGNATURE_FILE_SUFFIX) = Some s \<and>
    (\<exists>r. r \<noteq> -1 \<and> crinitVerifySignature (cfSig e) (cfSigCtx e) (takeWhile (\<lambda>c. c \<noteq> CHR 0x00) txt) s = Ret (r, ctx))"
  using assms
  by (auto simp: crinitParseConf_def GetBoolean_ready Let_def bind_run_eq_Ret_iff split: option.splits if_splits prod.splits)

lemma ParseConf_globOpts:
  "crinitParseConf e memOk g f = Ret (c, g') \<Longrightarrow> optLock g = Unlocked \<Longrightarrow> g' = g"
  by (auto simp: crinitParseConf_def GetBoolean_ready Let_def bind_run_eq_Ret_iff split: option.splits if_splits prod.splits)

subsection \<open>Printed configurations\<close>

text \<open>A value as a configuration file has it, in quotes if it needs them.\<close>

definition conf_entry :: "string \<times> string \<Rightarrow> bool" where
  "conf_entry kv \<longleftrightarrow> ini_entry kv \<and> CHR ''['' \<notin> set (fst kv) \<and> CHR 0x00 \<notin> set (fst kv) \<union> set (snd kv)"

lemma IniHandler_entry:
  "conf_entry kv \<Longrightarrow>
   crinitIniHandler ctx s (fst kv) (snd kv) =
     (True, ctx\<lparr>touched := True, entries := entries ctx @ [(fst kv, snd (crinitMatchQuotedConfig (snd kv)))]\<rparr>)"
  by (cases ctx) (auto simp: conf_entry_def crinitIniHandler_def key_subscript_def Let_def strchr_None_iff [THEN iffD2])

lemma ini_fold_entries:
  assumes "\<forall>kv \<in> set kvs. conf_entry kv"
  shows "let st' = fold (\<lambda>kv st. ini_call crinitIniHandler (fst kv) (snd kv)
             (st\<lparr>lineno := Suc (lineno st), prev_name := strncpy0 (fst kv) MAX_NAME\<rparr>)) kvs st
    in iniError st' = iniError st \<and>
       entries (iniUser st') = entries (iniUser st) @ map (\<lambda>kv. (fst kv, snd (crinitMatchQuotedConfig (snd kv)))) kvs"
  using assms
proof (induction kvs arbitrary: st)
  case Nil
  show ?case by simp
next
  case (Cons kv kvs)
  then have "ini_call crinitIniHandler (fst kv) (snd kv) st' =
      st'\<lparr>iniUser := (iniUser st')\<lparr>touched := True, entries := entries (iniUser st') @ [(fst kv, snd (crinitMatchQuotedConfig (snd kv)))]\<rparr>\<rparr>" for st'
    by (simp add: ini_call_def IniHandler_entry Let_def)
  with Cons show ?case by (simp add: Let_def)
qed

lemma takeWhile_text:
  "\<forall>kv \<in> set kvs. conf_entry kv \<Longrightarrow>
   takeWhile (\<lambda>c. c \<noteq> CHR 0x00) (concat (map ini_text kvs)) = concat (map ini_text kvs)"
  by (rule takeWhile_eq_all_conv [THEN iffD2]) (auto simp: conf_entry_def ini_text_def)

text \<open>Whether the signature of a text is accepted, or none is needed.\<close>

definition sig_accepted :: "confEnv \<Rightarrow> crinitGlobOptStore \<Rightarrow> string \<Rightarrow> string \<Rightarrow> bool" where
  "sig_accepted e g f body \<longleftrightarrow>
     signatures g \<longrightarrow>
     (\<exists>s ctx. read_signature (cfSig e) (f @ CRINIT_SIGNATURE_FILE_SUFFIX) = Some s \<and>
             crinitVerifySignature (cfSig e) (cfSigCtx e) body s = Ret (0, ctx))"

lemma ParseConf_entries:
  assumes "\<forall>kv \<in> set kvs. conf_entry kv" "kvs \<noteq> []"
    and "binFile (cfSig e) f = Some (concat (map ini_text kvs))" "optLock g = Unlocked"
    and "sig_accepted e g f (concat (map ini_text kvs))"
  shows "crinitParseConf e True g f =
    Ret (Some (map (\<lambda>kv. (fst kv, Some (snd (crinitMatchQuotedConfig (snd kv))))) kvs), g)"
proof -
  have "concat (map ini_text kvs) \<noteq> []" using assms(2) by (cases kvs) (auto simp: ini_text_def)
  moreover have "\<forall>kv \<in> set kvs. ini_entry kv" using assms(1) by (auto simp: conf_entry_def)
  ultimately show ?thesis
    using assms(3-5) ini_fold_entries [OF assms(1), of "\<lparr>iniSection = [], prev_name = [], lineno = 0, iniError = 0,
        iniUser = \<lparr>entries = [], keyArrayCount = 0, touched = False\<rparr>\<rparr>"]
    by (auto simp: crinitParseConf_def takeWhile_text [OF assms(1)] GetBoolean_ready ini_parse_string_def sig_accepted_def
        ini_parse_stream_text Let_def simp del: takeWhile_eq_all_conv)
qed

text \<open>
  C19: a file with one entry in each line is read as exactly these entries, in order, each value
  without the quotes around it, when its signature is accepted or none is needed; when it is
  needed and refused, nothing is read from the file.
\<close>

theorem ParseConf_text:
  assumes "\<forall>kv \<in> set kvs. conf_entry kv" "kvs \<noteq> []"
    and "binFile (cfSig e) f = Some (concat (map ini_text kvs))" "optLock g = Unlocked" "sig_ready root (cfSigCtx e)"
  shows "crinitParseConf e True g f =
    Ret (if sig_accepted e g f (concat (map ini_text kvs))
         then Some (map (\<lambda>kv. (fst kv, Some (snd (crinitMatchQuotedConfig (snd kv))))) kvs) else None, g)"
proof (cases "sig_accepted e g f (concat (map ini_text kvs))")
  case False
  let ?body = "concat (map ini_text kvs)"
  have body: "?body \<noteq> []" using assms(2) by (cases kvs) (auto simp: ini_text_def)
  have refused: "crinitVerifySignature (cfSig e) (cfSigCtx e) ?body s = Ret (-1, cfSigCtx e)"
    if "read_signature (cfSig e) (f @ CRINIT_SIGNATURE_FILE_SUFFIX) = Some s" for s
    using False that VerifySignature_exact [OF assms(5), of "cfSig e" ?body s] by (auto simp: sig_accepted_def split: if_splits)
  from False have "signatures g" by (simp add: sig_accepted_def)
  with False body refused assms(3,4) show ?thesis
    by (cases "read_signature (cfSig e) (f @ CRINIT_SIGNATURE_FILE_SUFFIX)")
      (simp_all add: crinitParseConf_def takeWhile_text [OF assms(1)] GetBoolean_ready del: takeWhile_eq_all_conv)
next
  case True
  with ParseConf_entries [OF assms(1-4)] show ?thesis by simp
qed

text \<open>A system with the given files, without signatures.\<close>

definition sampleConfEnv :: "(string \<Rightarrow> string option) \<Rightarrow> confEnv" where
  "sampleConfEnv files =
     \<lparr>cfTimer = \<lparr>tmNow = zero_time, tmCreateOk = True, tmSettimeOk = True, tmWriteOk = True, tmFd = 7\<rparr>,
      cfClock = Some zero_time, cfStat = (\<lambda>_. Some (IsDir, True)), cfPwnam = (\<lambda>n. if n = ''u'' then Some 7 else None),
      cfPwuid = (\<lambda>i. Some ''x''), cfGrnam = (\<lambda>n. if n = ''g'' then Some 8 else None), cfGrgid = (\<lambda>i. Some ''y''),
      cfCaps = sampleCapEnv, cfSig = sampleSigEnv\<lparr>binFile := files\<rparr>, cfSigCtx = sigCtx0\<lparr>rootKey := Some ''R''\<rparr>, cfStale = False,
      cfMem = (\<lambda>_ _. True)\<rparr>"

abbreviation (input) sampleFile :: "string \<Rightarrow> string option" where
  "sampleFile \<equiv> (\<lambda>f. if f = ''/t'' then Some (ini_text (''NAME'', ''a'') @ ini_text (''COMMAND'', ''/b c'')) else None)"

theorem ParseConf_text_witness:
  "crinitParseConf (sampleConfEnv sampleFile) True (globOpts (sampleWorld [])) ''/t'' =
     Ret (Some [(''NAME'', Some ''a''), (''COMMAND'', Some ''/b c'')], globOpts (sampleWorld []))"
proof -
  let ?kvs = "[(''NAME'', ''a''), (''COMMAND'', ''/b c'')]"
  have "\<forall>kv \<in> set ?kvs. conf_entry kv" by (simp add: conf_entry_def ini_entry_def trimmed_def c_isspace_def)
  from ParseConf_text [OF this, of "sampleConfEnv sampleFile" "''/t''" "globOpts (sampleWorld [])" "''R''"]
  show ?thesis
    by (simp add: sampleConfEnv_def sampleWorld_def crinitGlobOpts_def Let_def crinitMatchQuotedConfig_def
        sig_ready_def sig_accepted_def)
qed

end
