(* ===== verification/TaskConf.thy ===== *)
theory TaskConf
  imports ConfParse
begin

text \<open>
  Tasks and global options from configuration lists: \<open>crinitTaskCreateFromConfKvList\<close>, \<open>crinitTaskMergeInclude\<close>
  and \<open>crinitTaskSetFromConfKvList\<close> of \<open>src/src/task.c\<close>, \<open>crinitTaskIncludeHandler\<close> of
  \<open>src/src/confhdl.c\<close>, \<open>crinitLoadSeriesConf\<close> and \<open>crinitLoadTasks\<close> of \<open>src/src/confparse.c\<close>, and the kernel command line,
  \<open>src/src/kcmdline.c\<close>. An include directive is not allowed in an include file, so the nesting is
  one deep and needs no recursion. \<open>cfMem e [i]\<close> gives the outcomes of the allocations for the \<open>i\<close>-th entry
  of a list, \<open>cfMem e [0, i]\<close> those for the \<open>i\<close>-th entry of an include file.
\<close>

section \<open>Tasks\<close>

datatype crinitTaskType = CRINIT_TASK_TYPE_STANDARD | CRINIT_TASK_TYPE_INCLUDE

text \<open>The call of a handler; a null value is refused by every one of them.\<close>

definition call_handler :: "crinitConfigMapping \<Rightarrow> confEnv \<Rightarrow> (nat \<Rightarrow> bool) \<Rightarrow> crinitTaskDraft option \<Rightarrow> string option \<Rightarrow>
    crinitConfigType \<Rightarrow> world \<Rightarrow> (int \<times> crinitTaskDraft option \<times> world) run" where
  "call_handler m e mem tgt val type w =
     (case val of None \<Rightarrow> Ret (-1, tgt, w) | Some v \<Rightarrow> cfgHandler m e mem tgt v type w)"

text \<open>The keys named in an import list; \<open>None\<close> if one of them is unknown.\<close>

fun import_keys :: "crinitConfigMapping list \<Rightarrow> string list \<Rightarrow> crinitConfigs list option" where
  "import_keys cfgMap [] = Some []"
| "import_keys cfgMap (k # ks) =
     (case crinitFindConfigMapping cfgMap k of
        None \<Rightarrow> None
      | Some m \<Rightarrow> map_option ((#) (cfgConfig m)) (import_keys cfgMap ks))"

text \<open>\<open>imports\<close> are the keys to use, \<open>seen\<close> those that have occurred; the entries are counted from \<open>i\<close>.\<close>

fun set_entries :: "crinitConfigMapping list \<Rightarrow> confEnv \<Rightarrow> nat list \<Rightarrow> crinitTaskType \<Rightarrow> crinitConfigs list option \<Rightarrow>
    nat \<Rightarrow> crinitConfigs list \<Rightarrow> crinitConfKvList \<Rightarrow> crinitTaskDraft option \<Rightarrow> world \<Rightarrow>
    (int \<times> crinitTaskDraft option \<times> world) run" where
  "set_entries cfgMap e at type importArr i seen [] tgt w = Ret (0, tgt, w)"
| "set_entries cfgMap e at type importArr i seen ((key, val) # kvs) tgt w =
     (case crinitFindConfigMapping cfgMap key of
        None \<Rightarrow> set_entries cfgMap e at type importArr (Suc i) seen kvs tgt w
      | Some tcm \<Rightarrow>
          if \<not> includeSafe tcm \<and> type = CRINIT_TASK_TYPE_INCLUDE then Ret (-1, tgt, w)
          else if \<not> arrayLike tcm \<and> cfgConfig tcm \<in> set seen then Ret (-1, tgt, w)
          else if importArr = None \<or> cfgConfig tcm \<in> set (the importArr) then
            bind_run (call_handler tcm e (cfMem e (at @ [i])) tgt val CRINIT_CONFIG_TYPE_TASK w) (\<lambda>(r, tgt, w).
              if r = -1 then Ret (-1, tgt, w)
              else set_entries cfgMap e at type importArr (Suc i) (cfgConfig tcm # seen) kvs tgt w)
          else set_entries cfgMap e at type importArr (Suc i) (cfgConfig tcm # seen) kvs tgt w)"

definition crinitTaskSetFromConfKvList :: "crinitConfigMapping list \<Rightarrow> confEnv \<Rightarrow> nat list \<Rightarrow> crinitTaskDraft option \<Rightarrow>
    crinitConfKvList \<Rightarrow> crinitTaskType \<Rightarrow> string option \<Rightarrow> world \<Rightarrow> (int \<times> crinitTaskDraft option \<times> world) run" where
  "crinitTaskSetFromConfKvList cfgMap e at tgt src type importList w =
     (if type = CRINIT_TASK_TYPE_STANDARD \<or> importList = None then
        if src = [] then Undef else set_entries cfgMap e at type None 0 [] src tgt w
      else case import_keys cfgMap (strtok_all (CHR '','') (the importList)) of
        None \<Rightarrow> Ret (-1, tgt, w)
      | Some ks \<Rightarrow> if src = [] then Undef else set_entries cfgMap e at type (Some ks) 0 [] src tgt w)"

text \<open>The table for an include file; its include handler is never called.\<close>

definition inclCfgMap :: "crinitConfigMapping list" where
  "inclCfgMap = crinitTaskCfgMap (\<lambda>e mem tgt val type w. Undef)"

definition crinitTaskMergeInclude :: "confEnv \<Rightarrow> (nat \<Rightarrow> bool) \<Rightarrow> crinitTaskDraft \<Rightarrow> string \<Rightarrow> string option \<Rightarrow> world \<Rightarrow>
    (int \<times> crinitTaskDraft option \<times> world) run" where
  "crinitTaskMergeInclude e mem tgt src importList w =
     bind_run (crinitGlobOptGetString (mem 1) InclDir (globOpts w)) (\<lambda>(r, dir, g).
       if r = -1 then Ret (-1, Some tgt, w\<lparr>globOpts := g\<rparr>)
       else bind_run (crinitGlobOptGetString (mem 2) InclSuffix g) (\<lambda>(r, suffix, g).
         if r = -1 \<or> \<not> mem 3 then Ret (-1, Some tgt, w\<lparr>globOpts := g\<rparr>)
         else bind_run (crinitParseConf e (mem 4) g (the dir @ ''/'' @ src @ the suffix)) (\<lambda>(c, g).
           let w = w\<lparr>globOpts := g\<rparr> in
           case c of
             None \<Rightarrow> Ret (-1, Some tgt, w)
           | Some inclConfList \<Rightarrow>
               crinitTaskSetFromConfKvList inclCfgMap e [0] (Some tgt) inclConfList CRINIT_TASK_TYPE_INCLUDE importList w)))"

definition crinitTaskIncludeHandler :: crinitConfigHandler where
  "crinitTaskIncludeHandler e mem tgt val type w =
     (case tgt of
        None \<Rightarrow> Ret (-1, None, w)
      | Some t \<Rightarrow>
          if type \<noteq> CRINIT_CONFIG_TYPE_TASK then Ret (-1, tgt, w)
          else bind_run (crinitConfConvToStrArr (mem 0) True val) (\<lambda>a. case a of
            None \<Rightarrow> Ret (-1, tgt, w)
          | Some ws \<Rightarrow>
              if length ws = 1 then crinitTaskMergeInclude e mem t (ws ! 0) None w
              else if length ws = 2 then crinitTaskMergeInclude e mem t (ws ! 0) (Some (ws ! 1)) w
              else Ret (-1, tgt, w)))"

abbreviation taskCfgMap :: "crinitConfigMapping list" where
  "taskCfgMap \<equiv> crinitTaskCfgMap crinitTaskIncludeHandler"

text \<open>Releasing a task under construction.\<close>

definition free_draft :: "crinitTaskDraft \<Rightarrow> unit run" where
  "free_draft d = (if innerPtr d then Undef else crinitFreeTask (crinitTask.truncate d))"

definition new_draft :: crinitTaskDraft where
  "new_draft =
     (let noEnv = \<lparr>envp = None, allocSz = 0, allocInc = 0\<rparr> in
      \<lparr>name = [], cmds = [], stopCmds = [], taskEnv = noEnv, elosFilters = noEnv, deps = [], trig = [], triggered = False,
       prv = [], opts = 0, state = 0, pid = -1, redirs = [], maxRetries = -1, failCount = 0, inhibitRespawn = False,
       createTime = zero_time, startTime = zero_time, endTime = zero_time, user = 0, group = 0, supGroups = [],
       username = None, groupname = None, capabilitiesSet = 0, capabilitiesClear = 0, cgroup = None, freed = False,
       named = False, globCg = None, innerPtr = False, gapPtr = False\<rparr>)"

definition crinitTaskCreateFromConfKvList ::
  "confEnv \<Rightarrow> (nat \<Rightarrow> bool) \<Rightarrow> crinitConfKvList \<Rightarrow> world \<Rightarrow> (crinitTaskDraft option \<times> world) run" where
  "crinitTaskCreateFromConfKvList e mem c w =
     (let fail = (\<lambda>d w. bind_run (free_draft d) (\<lambda>_. Ret (None, w))) in
      if \<not> mem 0 then Ret (None, w)
      else bind_run (crinitGlobOptGetEnvSet (mem 1) (mem 2) GlobEnv (globOpts w) (taskEnv new_draft)) (\<lambda>(r, env, g).
        let d = new_draft\<lparr>taskEnv := env\<rparr>; w = w\<lparr>globOpts := g\<rparr> in
        if r = -1 then fail d w
        else bind_run (crinitGlobOptGetEnvSet (mem 3) (mem 4) GlobFilters g (elosFilters new_draft)) (\<lambda>(r, flt, g).
          let d = d\<lparr>elosFilters := flt\<rparr>; w = w\<lparr>globOpts := g\<rparr> in
          if r = -1 then fail d w
          else bind_run (crinitTaskSetFromConfKvList taskCfgMap e [] (Some d) c CRINIT_TASK_TYPE_STANDARD None w) (\<lambda>(r, d', w).
            case d' of
              None \<Rightarrow> Undef
            | Some d \<Rightarrow>
                if r = -1 then fail d w
                else if \<not> named d then fail d w
                else if cmds d = [] \<and> deps d = [] then fail d w
                else Ret (Some (d\<lparr>triggered := (trig d = []),
                                  createTime := (case cfClock e of None \<Rightarrow> zero_time | Some ts \<Rightarrow> ts),
                                  startTime := zero_time, endTime := zero_time\<rparr>), w)))))"

section \<open>Series\<close>

text \<open>The loop over the entries of a series file: result, the keys that have occurred, the world.\<close>

fun series_entries :: "confEnv \<Rightarrow> nat \<Rightarrow> crinitConfigs list \<Rightarrow> crinitConfKvList \<Rightarrow> world \<Rightarrow>
    (int \<times> crinitConfigs list \<times> world) run" where
  "series_entries e i seen [] w = Ret (0, seen, w)"
| "series_entries e i seen ((key, val) # kvs) w =
     (case crinitFindConfigMapping crinitSeriesCfgMap key of
        None \<Rightarrow> series_entries e (Suc i) seen kvs w
      | Some scm \<Rightarrow>
          if \<not> arrayLike scm \<and> cfgConfig scm \<in> set seen then Ret (-1, seen, w)
          else bind_run (call_handler scm e (cfMem e [i]) None val CRINIT_CONFIG_TYPE_SERIES w) (\<lambda>(r, _, w).
            if r = -1 then Ret (-1, seen, w)
            else series_entries e (Suc i) (cfgConfig scm # seen) kvs w))"

definition crinitLoadSeriesConf :: "confEnv \<Rightarrow> (nat \<Rightarrow> bool) \<Rightarrow> string \<Rightarrow> world \<Rightarrow> (int \<times> world) run" where
  "crinitLoadSeriesConf e mem fname w =
     (if \<not> crinitIsAbsPath fname then Ret (-1, w)
      else bind_run (crinitParseConf e (mem 0) (globOpts w) fname) (\<lambda>(c, g).
        let w = w\<lparr>globOpts := g\<rparr> in
        case c of
          None \<Rightarrow> Ret (-1, w)
        | Some c \<Rightarrow>
            if c = [] then Undef
            else bind_run (series_entries e 0 [] c w) (\<lambda>(r, seen, w).
              if r = -1 then Ret (-1, w)
              else bind_run (crinitGlobOptGetString (mem 1) TaskDir (globOpts w)) (\<lambda>(r, dir, g).
                let w = w\<lparr>globOpts := g\<rparr> in
                if r = -1 then Ret (-1, w)
                else if CRINIT_CONFIG_INCLUDEDIR \<in> set seen then Ret (0, w)
                else bind_run (crinitCfgInclDirHandler e (\<lambda>_. mem 2) None (the dir) CRINIT_CONFIG_TYPE_SERIES w) (\<lambda>(r, _, w).
                  if r = -1 then Ret (-1, w) else Ret (0, w))))))"

text \<open>
  The task files of a series. When the names cannot be copied the array of names is released
  and the storage keeps the pointer to it.
\<close>

definition crinitLoadTasks :: "confEnv \<Rightarrow> (nat \<Rightarrow> bool) \<Rightarrow> crinitGlobOptStore \<Rightarrow>
    (crinitFileSeries option \<times> crinitGlobOptStore) run" where
  "crinitLoadTasks e mem g =
     bind_run (crinitGlobOptGetString (mem 0) TaskDir g) (\<lambda>(r, dir, g).
       if r = -1 then Ret (None, g)
       else bind_run (crinitGlobOptGetString (mem 1) TaskFileSuffix g) (\<lambda>(r, suffix, g).
         if r = -1 then Ret (None, g)
         else bind_run (crinitGlobOptGetBoolean TaskDirFollowSl g) (\<lambda>(r, follow, g).
           if r = -1 then Ret (None, g)
           else bind_run (crinitGlobOptBorrow g) (\<lambda>g.
             let (series, g) =
               (case tasks g of
                  None \<Rightarrow> (crinitFileSeriesFromDir (mem 2) (mem 3) (mem 4) (scanDir (cfSig e) (the dir)) (the dir) suffix follow, g)
                | Some ts \<Rightarrow>
                    (case crinitFileSeriesFromStrArr (mem 2) (\<lambda>i. mem (5 + i)) (mem 3) (the dir) ts of
                       None \<Rightarrow> (None, g\<lparr>optFreed := True\<rparr>)
                     | Some s \<Rightarrow> (Some s, g)))
             in case crinitGlobOptRemit g of (r, g) \<Rightarrow> Ret (if r = -1 then None else series, g)))))"

section \<open>The kernel command line\<close>

abbreviation (input) CRINIT_KCMDLINE_MAX_LEN :: nat where "CRINIT_KCMDLINE_MAX_LEN \<equiv> 4096"

lemma kcmdline_value_length: "kcmdline_value t = Some (x, y) \<Longrightarrow> length y \<le> length t"
  using lex_run_le [of "[CHR 0x22, CHR 0x0A]" "tl t"] lex_run_le [of "[CHR '' '', CHR 0x22, CHR 0x0A, CHR 0x09]" t]
  by (auto simp: kcmdline_value_def simp del: lex_run.simps split: list.splits if_splits prod.splits)

lemma KernelCmdlineLex_shorter:
  assumes "crinitKernelCmdlineLex s = (tt, k, v, r)" "tt \<noteq> CRINIT_TK_END"
  shows "length r < length s"
proof -
  obtain c t where s: "s = c # t" using assms by (cases s) (auto simp: crinitKernelCmdlineLex_def)
  have "length y \<le> length t" if "kcmdline_value (tl (drop m (drop 7 (c # t)))) = Some (x, y)" for m x y
    using kcmdline_value_length [OF that] by simp
  then show ?thesis
    using assms
    by (auto simp: s crinitKernelCmdlineLex_def Let_def less_Suc_eq_le length_dropWhile_le
        split: if_splits option.splits)
qed

text \<open>
  The loop over the tokens; \<open>start\<close> says that a token begins, \<open>i\<close> counts the variables. A failed
  duplication does not end the loop.
\<close>

function kcmdline_loop :: "confEnv \<Rightarrow> (nat \<Rightarrow> bool) \<Rightarrow> nat \<Rightarrow> bool \<Rightarrow> string \<Rightarrow> world \<Rightarrow> (int \<times> world) run" where
  "kcmdline_loop e mem i start s w =
     (case crinitKernelCmdlineLex s of (tt, key, val, r) \<Rightarrow>
        if tt = CRINIT_TK_END then Ret (0, w)
        else if tt = CRINIT_TK_CPY then kcmdline_loop e mem i False r w
        else if tt = CRINIT_TK_WSPC then kcmdline_loop e mem i True r w
        else if tt = CRINIT_TK_VAR then
          if \<not> start then kcmdline_loop e mem i False r w
          else if \<not> mem i then kcmdline_loop e mem (Suc i) False r w
          else case crinitFindConfigMapping crinitKCmdlineCfgMap key of
            None \<Rightarrow> kcmdline_loop e mem (Suc i) False r w
          | Some kccm \<Rightarrow>
              bind_run (call_handler kccm e (cfMem e [i]) None val CRINIT_CONFIG_TYPE_KCMDLINE w) (\<lambda>(res, _, w).
                if res = -1 then Ret (-1, w) else kcmdline_loop e mem (Suc i) False r w)
        else Ret (-1, w))"
  by pat_completeness auto
termination
  by (relation "measure (\<lambda>(e, mem, i, start, s, w). length s)") (auto dest: KernelCmdlineLex_shorter [OF sym])

declare kcmdline_loop.simps [simp del]

definition crinitKernelCmdlineParse :: "confEnv \<Rightarrow> (nat \<Rightarrow> bool) \<Rightarrow> string \<Rightarrow> world \<Rightarrow> (int \<times> world) run" where
  "crinitKernelCmdlineParse e mem cmdlinePath w =
     (case binFile (cfSig e) cmdlinePath of
        None \<Rightarrow> Ret (-1, w)
      | Some c \<Rightarrow>
          if c = [] then Ret (-1, w)
          else let buf = takeWhile (\<lambda>c. c \<noteq> CHR 0x00) (fst (read_line (CRINIT_KCMDLINE_MAX_LEN - 1) c)) in
            if length buf \<ge> CRINIT_KCMDLINE_MAX_LEN - 1 then Ret (-1, w)
            else if buf = [] then Undef
            else kcmdline_loop e mem 0 True (if last buf = NL then butlast buf else buf) w)"

end
