(* ===== verification/RtimCmd.thy ===== *)
theory RtimCmd
  imports RtimOpMap ProcDip TaskConf
begin

unbundle bit_operations_syntax

text \<open>
  Runtime commands, \<open>src/src/rtimcmd.c\<close>: building, parsing and printing of commands, and the
  handlers that execute them. A command is its opcode and its arguments; the array of pointers
  and the text behind it are one list of strings. A function that returns a command through a
  pointer gives \<open>None\<close> where it returns -1.

  What the handlers ask of the configuration files, of memory, of the clock and of the kernel is
  in \<open>rtimEnv\<close>. The handlers' debug output is left out.
\<close>

section \<open>Commands and messages\<close>

record crinitRtimCmd =
  op :: crinitRtimOp
  args :: "string list"

abbreviation cmd_argc :: "crinitRtimCmd \<Rightarrow> nat" where "cmd_argc c \<equiv> length (args c)"

definition crinitBuildRtimCmd :: "bool \<Rightarrow> bool \<Rightarrow> crinitRtimOp \<Rightarrow> string list \<Rightarrow> crinitRtimCmd option" where
  "crinitBuildRtimCmd argsOk backOk c as =
     (if \<not> argsOk then None else if \<not> backOk then None else Some \<lparr>op = c, args = as\<rparr>)"

definition crinitBuildRtimCmdArray :: "bool \<Rightarrow> bool \<Rightarrow> crinitRtimOp \<Rightarrow> string list \<Rightarrow> crinitRtimCmd option" where
  "crinitBuildRtimCmdArray argsOk backOk c as =
     (if \<not> argsOk then None else if \<not> backOk then None else Some \<lparr>op = c, args = as\<rparr>)"

text \<open>The second loop of \<open>crinitParseRtimCmd\<close>: up to the last delimiter of the first row of them.\<close>

fun skip_delims :: "string \<Rightarrow> string" where
  "skip_delims (c # d # s) = (if d = CRINIT_RTIMCMD_ARGDELIM then skip_delims (d # s) else c # d # s)"
| "skip_delims s = s"

fun count_args :: "string \<Rightarrow> nat" where
  "count_args [] = 0"
| "count_args (c # s) =
     (if c = CRINIT_RTIMCMD_ARGDELIM \<and> s \<noteq> [] \<and> hd s \<noteq> CRINIT_RTIMCMD_ARGDELIM
      then Suc (count_args s) else count_args s)"

definition crinitParseRtimCmd :: "bool \<Rightarrow> bool \<Rightarrow> string \<Rightarrow> crinitRtimCmd option" where
  "crinitParseRtimCmd argsOk backOk cmdStr =
     (case crinitRtimOpGetByOpStr cmdStr of
        None \<Rightarrow> None
      | Some c \<Rightarrow>
          let argStart = skip_delims (dropWhile (\<lambda>c. c \<noteq> CRINIT_RTIMCMD_ARGDELIM) cmdStr);
              argCount = count_args argStart
          in if \<not> argsOk then None
             else if argCount = 0 then Some \<lparr>op = c, args = []\<rparr>
             else if \<not> backOk then None
             else Some \<lparr>op = c, args = take argCount (strtok_all CRINIT_RTIMCMD_ARGDELIM (tl argStart))\<rparr>)"

text \<open>The message and its size, which counts the terminating zero.\<close>

definition crinitRtimCmdToMsgStr :: "bool \<Rightarrow> crinitRtimCmd \<Rightarrow> (string \<times> nat) option" where
  "crinitRtimCmdToMsgStr mallocOk c =
     (case crinitOpStrGetByRtimOp (op c) of
        None \<Rightarrow> None
      | Some s \<Rightarrow>
          if \<not> mallocOk then None
          else Some (s @ concat (map (\<lambda>a. CRINIT_RTIMCMD_ARGDELIM # a) (args c)),
                     length s + 1 + sum_list (map (\<lambda>a. length a + 1) (args c))))"

section \<open>Environment of the handlers\<close>

abbreviation (input) CRINIT_RTIMCMD_RES_OK :: string where "CRINIT_RTIMCMD_RES_OK \<equiv> ''RES_OK''"
abbreviation (input) CRINIT_RTIMCMD_RES_ERR :: string where "CRINIT_RTIMCMD_RES_ERR \<equiv> ''RES_ERR''"

text \<open>
  For the \<open>n\<close>-th file a handler reads, \<open>rtimConf\<close> is what the configuration asks of the system, and
  \<open>confMem\<close> gives the outcomes of the allocations for the file as a whole.
\<close>

record rtimEnv =
  argsMallocOk :: bool
  backMallocOk :: bool
  memOk :: bool
  namesOk :: bool
  depReallocOk :: bool
  depMallocOk :: bool
  getDupOk :: bool
  getDupFault :: copyFault
  insGrowOk :: "nat \<Rightarrow> bool"
  insFault :: "nat \<Rightarrow> copyFault"
  pathMallocOk :: "nat \<Rightarrow> bool"
  namesCallocOk :: bool
  namesDupFail :: "nat option"
  rtimClock :: "timespec option"
  rtimClockLater :: "timespec option"
  killOk :: "int \<Rightarrow> int \<Rightarrow> bool"
  threadOk :: bool
  version :: "nat \<times> nat \<times> nat \<times> string"
  rtimConf :: "nat \<Rightarrow> confEnv"
  confMem :: "nat \<Rightarrow> nat \<Rightarrow> bool"
  mounts :: "string list option"
  mountMemOk :: bool
  umountOk :: "string \<Rightarrow> bool"
  remountOk :: bool

text \<open>The return of a handler: build the response.\<close>

definition respond :: "rtimEnv \<Rightarrow> rtimVerb \<Rightarrow> string list \<Rightarrow> world \<Rightarrow> (crinitRtimCmd option \<times> world) run" where
  "respond e v as w = Ret (crinitBuildRtimCmd (argsMallocOk e) (backMallocOk e) (CRINIT_RTIMCMD_R v) as, w)"

abbreviation respond_err :: "rtimEnv \<Rightarrow> rtimVerb \<Rightarrow> string \<Rightarrow> world \<Rightarrow> (crinitRtimCmd option \<times> world) run" where
  "respond_err e v msg w \<equiv> respond e v [CRINIT_RTIMCMD_RES_ERR, msg] w"

abbreviation respond_ok :: "rtimEnv \<Rightarrow> rtimVerb \<Rightarrow> world \<Rightarrow> (crinitRtimCmd option \<times> world) run" where
  "respond_ok e v w \<equiv> respond e v [CRINIT_RTIMCMD_RES_OK] w"

section \<open>Adding tasks\<close>

abbreviation (input) CRINIT_CONFIG_KEYSTR_DEPENDS :: string where "CRINIT_CONFIG_KEYSTR_DEPENDS \<equiv> ''DEPENDS''"

text \<open>The loop of \<open>crinitExecRtimCmdAddTask\<close> for given dependencies: the first value is replaced, others emptied.\<close>

fun replace_depends :: "bool \<Rightarrow> string \<Rightarrow> crinitConfKvList \<Rightarrow> crinitConfKvList \<times> bool" where
  "replace_depends firstEncounter d [] = ([], firstEncounter)"
| "replace_depends firstEncounter d ((k, v) # c) =
     (if k = CRINIT_CONFIG_KEYSTR_DEPENDS \<and> v \<noteq> None then
        let (c', f) = replace_depends False d c
        in ((k, Some (if firstEncounter then d else [])) # c', f)
      else let (c', f) = replace_depends firstEncounter d c in ((k, v) # c', f))"

definition empty_depends :: "crinitConfKvList \<Rightarrow> crinitConfKvList" where
  "empty_depends c = map (\<lambda>(k, v). if k = CRINIT_CONFIG_KEYSTR_DEPENDS \<and> v \<noteq> None then (k, Some []) else (k, v)) c"

text \<open>
  The list of a configuration without entries has one node that was never filled in; reading
  its key is undefined. \<open>None\<close> is a failed allocation.
\<close>

definition override_depends :: "bool \<Rightarrow> string \<Rightarrow> crinitConfKvList \<Rightarrow> crinitConfKvList option run" where
  "override_depends mem d c =
     (if d = ''@unchanged'' then Ret (Some c)
      else if c = [] then Undef
      else if d = ''@empty'' then Ret (Some (empty_depends c))
      else case replace_depends True d c of (c', none) \<Rightarrow>
        if \<not> mem then Ret None
        else if none then Ret (Some (c' @ [(CRINIT_CONFIG_KEYSTR_DEPENDS, Some d)]))
        else Ret (Some c'))"

text \<open>
  The insertion of a task and its release. The copy in the database takes the event of a
  dependency for adjacent to its name and is not a string when it is not.
\<close>

definition insert_draft :: "rtimEnv \<Rightarrow> nat \<Rightarrow> crinitTaskDraft \<Rightarrow> bool \<Rightarrow> world \<Rightarrow> (int \<times> world) run" where
  "insert_draft e n d overwrite w =
     bind_run (crinitTaskDBInsert (insGrowOk e n) (insFault e n) w (crinitTask.truncate d) overwrite) (\<lambda>(r, t, w).
       if innerPtr d \<or> (r \<noteq> -1 \<and> gapPtr d) then Undef
       else bind_run (crinitFreeTask t) (\<lambda>_. Ret (r, w)))"

definition crinitExecRtimCmdAddTask :: "rtimEnv \<Rightarrow> world \<Rightarrow> crinitRtimCmd \<Rightarrow> (crinitRtimCmd option \<times> world) run" where
  "crinitExecRtimCmdAddTask e w cmd =
     (if cmd_argc cmd \<noteq> 3 then respond_err e ADDTASK ''Wrong number of arguments.'' w
      else bind_run (crinitParseConf (rtimConf e 0) (confMem e 0 0) (globOpts w) (args cmd ! 0)) (\<lambda>(c, g).
        let w = w\<lparr>globOpts := g\<rparr> in
        case c of
          None \<Rightarrow> respond_err e ADDTASK ''Could not parse given config.'' w
        | Some c \<Rightarrow>
            bind_run (override_depends (memOk e) (args cmd ! 2) c) (\<lambda>c'. case c' of
              None \<Rightarrow> respond_err e ADDTASK ''Could not set dependencies to given string.'' w
            | Some c \<Rightarrow>
                bind_run (crinitTaskCreateFromConfKvList (rtimConf e 0) (\<lambda>i. confMem e 0 (Suc i)) c w) (\<lambda>(d, w). case d of
                  None \<Rightarrow> respond_err e ADDTASK ''Could not create task from config.'' w
                | Some d \<Rightarrow>
                    bind_run (insert_draft e 0 d (args cmd ! 1 = ''true'') w) (\<lambda>(r, w).
                      if r = -1 then respond_err e ADDTASK ''Could not insert new task into TaskDB.'' w
                      else respond_ok e ADDTASK w)))))"

definition on_db_ignore :: "(crinitTaskDB \<Rightarrow> (int \<times> crinitTaskDB) run) \<Rightarrow> world \<Rightarrow> world run" where
  "on_db_ignore f w = map_ret snd (on_db f w)"

text \<open>
  The loop over the task files, the \<open>n\<close>-th first, which is file \<open>Suc n\<close> of the command. An error is
  the response to give (opcode and text); on some of them spawning is enabled again, on the failed insertion it is not.
\<close>

fun series_loop :: "rtimEnv \<Rightarrow> string option \<Rightarrow> bool \<Rightarrow> nat \<Rightarrow> string option list \<Rightarrow> world \<Rightarrow>
    ((rtimVerb \<times> string) option \<times> world) run" where
  "series_loop e dir overwriteTasks n [] w = Ret (None, w)"
| "series_loop e dir overwriteTasks n (None # fs) w = Undef"
| "series_loop e dir overwriteTasks n (Some f # fs) w =
     (let fail = (\<lambda>msg w. map_ret (Pair (Some (ADDSERIES, msg)))
                    (on_db_ignore (\<lambda>ctx. crinitTaskDBSetSpawnInhibit ctx False) w)) in
      if \<not> crinitIsAbsPath f \<and> dir = None then Undef
      else if \<not> crinitIsAbsPath f \<and> \<not> pathMallocOk e n then fail ''Memory allocation error.'' w
      else bind_run (crinitParseConf (rtimConf e (Suc n)) (confMem e (Suc n) 0) (globOpts w)
                       (if crinitIsAbsPath f then f else the dir @ ''/'' @ f)) (\<lambda>(c, g).
        let w = w\<lparr>globOpts := g\<rparr> in
        case c of
          None \<Rightarrow> fail ''Could not parse config file.'' w
        | Some c \<Rightarrow>
            bind_run (crinitTaskCreateFromConfKvList (rtimConf e (Suc n)) (\<lambda>i. confMem e (Suc n) (Suc i)) c w) (\<lambda>(d, w). case d of
              None \<Rightarrow> fail ''Could not create task from config file.'' w
            | Some d \<Rightarrow>
                bind_run (insert_draft e n d overwriteTasks w) (\<lambda>(r, w).
                  if r = -1 then Ret (Some (ADDTASK, ''Could not insert new task into TaskDB.''), w)
                  else series_loop e dir overwriteTasks (Suc n) fs w))))"

text \<open>The array of task names may have been released before, see \<^const>\<open>crinitLoadTasks\<close>.\<close>

definition crinitExecRtimCmdAddSeries :: "rtimEnv \<Rightarrow> world \<Rightarrow> crinitRtimCmd \<Rightarrow> (crinitRtimCmd option \<times> world) run" where
  "crinitExecRtimCmdAddSeries e w cmd =
     (if cmd_argc cmd \<noteq> 2 then respond_err e ADDSERIES ''Wrong number of arguments.'' w
      else if \<not> crinitIsAbsPath (args cmd ! 0) then respond_err e ADDSERIES ''Path to series file must be absolute.'' w
      else bind_run (on_db (\<lambda>ctx. crinitTaskDBSetSpawnInhibit ctx True) w) (\<lambda>(r, w).
        if r = -1 then respond_err e ADDSERIES ''Could not inhibit process spawning to load new series file.'' w
        else bind_run (crinitGlobOptBorrow (globOpts w)) (\<lambda>g.
          if tasks g \<noteq> None \<and> optFreed g then Undef
          else case crinitGlobOptRemit (g\<lparr>tasks := None\<rparr>) of (r, g) \<Rightarrow>
            let w = w\<lparr>globOpts := g\<rparr> in
            if r = -1 then respond_err e ADDSERIES ''Could not release exclusive access to global option storage.'' w
            else bind_run (crinitLoadSeriesConf (rtimConf e 0) (confMem e 0) (args cmd ! 0) w) (\<lambda>(r, w).
              if r = -1 then respond_err e ADDSERIES ''Could not load series file.'' w
              else bind_run (crinitLoadTasks (rtimConf e 0) (\<lambda>i. confMem e 0 (i + 3)) (globOpts w)) (\<lambda>(s, g).
                let w = w\<lparr>globOpts := g\<rparr> in
                case s of
                  None \<Rightarrow> respond_err e ADDSERIES ''Could not load crinit tasks.'' w
                | Some s \<Rightarrow>
                    bind_run (series_loop e (baseDir s) (args cmd ! 1 = ''true'') 0 (fnames s) w) (\<lambda>(err, w).
                      case err of
                        Some (v, msg) \<Rightarrow> respond_err e v msg w
                      | None \<Rightarrow>
                          bind_run (on_db (\<lambda>ctx. crinitTaskDBSetSpawnInhibit ctx False) w) (\<lambda>(r, w).
                            if r = -1 then respond_err e ADDSERIES ''Could not re-enable spawning of processes.'' w
                            else respond_ok e ADDSERIES w)))))))"

section \<open>Enabling and disabling\<close>

abbreviation (input) enable_dep :: crinitTaskDep where
  "enable_dep \<equiv> \<lparr>depName = ''@ctl'', event = ''enable''\<rparr>"

definition crinitExecRtimCmdEnable :: "rtimEnv \<Rightarrow> world \<Rightarrow> crinitRtimCmd \<Rightarrow> (crinitRtimCmd option \<times> world) run" where
  "crinitExecRtimCmdEnable e w cmd =
     (if cmd_argc cmd \<noteq> 1 then respond_err e ENABLE ''Wrong number of arguments.'' w
      else if \<not> memOk e then respond_err e ENABLE ''Memory allocation error.'' w
      else bind_run (crinitTaskDBRemoveDepFromTask w enable_dep (args cmd ! 0)) (\<lambda>(r, w).
        if r = -1 then respond_err e ENABLE ''Could not remove 'enable' dependency from task.'' w
        else respond_ok e ENABLE w))"

definition crinitExecRtimCmdDisable :: "rtimEnv \<Rightarrow> world \<Rightarrow> crinitRtimCmd \<Rightarrow> (crinitRtimCmd option \<times> world) run" where
  "crinitExecRtimCmdDisable e w cmd =
     (if cmd_argc cmd \<noteq> 1 then respond_err e DISABLE ''Wrong number of arguments.'' w
      else if \<not> memOk e then respond_err e DISABLE ''Memory allocation error.'' w
      else bind_run (on_db (\<lambda>ctx. crinitTaskDBAddDepToTask (depReallocOk e) (depMallocOk e) ctx enable_dep (args cmd ! 0)) w)
        (\<lambda>(r, w).
          if r = -1 then respond_err e DISABLE ''Could not add dependency to task.'' w
          else respond_ok e DISABLE w))"

section \<open>Stopping, killing, restarting\<close>

abbreviation (input) SIGKILL :: int where "SIGKILL \<equiv> 9"
abbreviation (input) SIGTERM :: int where "SIGTERM \<equiv> 15"
abbreviation (input) SIGCONT :: int where "SIGCONT \<equiv> 18"

definition send_signal :: "rtimEnv \<Rightarrow> int \<Rightarrow> int \<Rightarrow> world \<Rightarrow> int \<times> world" where
  "send_signal e p sig w =
     (if killOk e p sig then (0, w\<lparr>trace := trace w @ [SignalSent p sig]\<rparr>) else (-1, w))"

text \<open>
  What \<open>STOP\<close> does to a task: start its stop commands, or send a signal. The error text, if
  any, and the world. Calling the spawn function through a null pointer is undefined.
\<close>

definition stop_task :: "rtimEnv \<Rightarrow> crinitTask \<Rightarrow> world \<Rightarrow> (string option \<times> world) run" where
  "stop_task e t w =
     (if stopCmds t \<noteq> [] then
        bind_run (db_lock (taskDB w)) (\<lambda>(err, ctx).
          if err \<noteq> 0 then Ret (Some ''Could not prepare to spawn STOP_COMMAND(s).'', w\<lparr>taskDB := ctx\<rparr>)
          else case spawnFunc ctx of
            None \<Rightarrow> Undef
          | Some f \<Rightarrow>
              if f t CRINIT_DISPATCH_THREAD_MODE_STOP = -1
              then Ret (Some ''Could not spawn STOP_COMMAND(s).'', w\<lparr>taskDB := db_unlock ctx\<rparr>)
              else Ret (None, w\<lparr>taskDB := db_unlock ctx,
                                trace := trace w @ [ThreadStarted (name t) CRINIT_DISPATCH_THREAD_MODE_STOP]\<rparr>))
      else if pid t \<le> 0 then Ret (Some ''No PID registered for task.'', w)
      else case send_signal e (pid t) SIGTERM w of (r, w) \<Rightarrow>
        Ret (if r = -1 then Some ''Could not send SIGTERM to process.'' else None, w))"

definition crinitExecRtimCmdStop :: "rtimEnv \<Rightarrow> world \<Rightarrow> crinitRtimCmd \<Rightarrow> (crinitRtimCmd option \<times> world) run" where
  "crinitExecRtimCmdStop e w cmd =
     (if cmd_argc cmd \<noteq> 1 then respond_err e STOP ''Wrong number of arguments.'' w
      else bind_run (crinitSetInhibitWait w True) (\<lambda>(r, w).
        if r = -1 then respond_err e STOP ''Could not inhibit waiting for processes.'' w
        else bind_run (on_db (\<lambda>ctx. crinitTaskDBSetTaskRespawnInhibit ctx True (args cmd ! 0)) w) (\<lambda>(r, w).
          if r \<noteq> 0 then respond_err e STOP ''Could not access task to set respawnInhibit.'' w
          else bind_run (crinitTaskDBGetTaskByName (getDupOk e) (getDupFault e) (taskDB w) (args cmd ! 0)) (\<lambda>(r, t, ctx).
            let w = w\<lparr>taskDB := ctx\<rparr> in
            if r \<noteq> 0 then respond_err e STOP ''Could not access task.'' w
            else bind_run (stop_task e (the t) w) (\<lambda>(err, w). case err of
              Some msg \<Rightarrow> respond_err e STOP msg w
            | None \<Rightarrow>
                bind_run (crinitSetInhibitWait w False) (\<lambda>(r, w).
                  if r = -1 then respond_err e STOP ''Could not reactivate waiting for processes.'' w
                  else respond_ok e STOP w))))))"

definition crinitExecRtimCmdKill :: "rtimEnv \<Rightarrow> world \<Rightarrow> crinitRtimCmd \<Rightarrow> (crinitRtimCmd option \<times> world) run" where
  "crinitExecRtimCmdKill e w cmd =
     (if cmd_argc cmd \<noteq> 1 then respond_err e KILL ''Wrong number of arguments.'' w
      else bind_run (crinitSetInhibitWait w True) (\<lambda>(r, w).
        if r = -1 then respond_err e STOP ''Could not inhibit waiting for processes.'' w
        else bind_run (crinitTaskDBGetTaskPID (taskDB w) (args cmd ! 0)) (\<lambda>(r, taskPid, ctx).
          let w = w\<lparr>taskDB := ctx\<rparr> in
          if r = -1 then respond_err e KILL ''Could not access task.'' w
          else if taskPid \<le> 0 then respond_err e KILL ''No PID registered for task.'' w
          else case send_signal e taskPid SIGKILL w of (r, w) \<Rightarrow>
            if r = -1 then respond_err e KILL ''Could not send SIGKILL to Process.'' w
            else bind_run (crinitSetInhibitWait w False) (\<lambda>(r, w).
              if r = -1 then respond_err e STOP ''Could not reactivate waiting for processes.'' w
              else respond_ok e KILL w))))"

definition crinitExecRtimCmdRestart :: "rtimEnv \<Rightarrow> world \<Rightarrow> crinitRtimCmd \<Rightarrow> (crinitRtimCmd option \<times> world) run" where
  "crinitExecRtimCmdRestart e w cmd =
     (if cmd_argc cmd \<noteq> 1 then respond_err e RESTART ''Wrong number of arguments.'' w
      else bind_run (crinitTaskDBGetTaskState (taskDB w) (args cmd ! 0)) (\<lambda>(r, s, ctx).
        let w = w\<lparr>taskDB := ctx\<rparr> in
        if r = -1 then respond_err e RESTART ''Could not get task state from TaskDB.'' w
        else if s AND (CRINIT_TASK_STATE_DONE OR CRINIT_TASK_STATE_FAILED) = 0
        then respond_err e RESTART ''Task is not either DONE or FAILED.'' w
        else bind_run (on_db (\<lambda>ctx. crinitTaskDBSetTaskRespawnInhibit ctx False (args cmd ! 0)) w) (\<lambda>(r, w).
          if r = -1 then respond_err e RESTART ''Failed to reset the task respawn inhibit flag.'' w
          else bind_run (on_db (\<lambda>ctx. crinitTaskDBSetTaskState (rtimClock e) ctx 0 (args cmd ! 0)) w) (\<lambda>(r, w).
            if r = -1 then respond_err e RESTART ''Could not reset task state.'' w
            else respond_ok e RESTART w))))"

section \<open>Notifications\<close>

text \<open>
  One argument of \<open>NOTIFY\<close>. The text in front of the first \<open>=\<close> is compared with each keyword
  over its own length only, so every prefix of a keyword, also the empty one, selects it.
\<close>

record notifyArgs =
  ntfPid :: int
  ntfReady :: int
  ntfStopping :: int

definition notify_arg :: "notifyArgs \<Rightarrow> string \<Rightarrow> notifyArgs" where
  "notify_arg n a =
     (case strchr a (CHR ''='') of
        None \<Rightarrow> n
      | Some rest \<Rightarrow>
          let cmpLen = length a - length rest; v = to_int (strtol10 (tl rest)) in
          if cmpLen < length a then
            let n = (if strncmp_eq a ''MAINPID'' cmpLen then n\<lparr>ntfPid := v\<rparr> else n);
                n = (if strncmp_eq a ''READY'' cmpLen then n\<lparr>ntfReady := v\<rparr> else n)
            in (if strncmp_eq a ''STOPPING'' cmpLen then n\<lparr>ntfStopping := v\<rparr> else n)
          else n)"

text \<open>
  The part for \<open>READY\<close> and \<open>STOPPING\<close>: new state, dependency, features. The error text holds
  the format directives: its arguments are not formatted.
\<close>

definition notify_state ::
  "rtimEnv \<Rightarrow> string \<Rightarrow> crinitTaskState \<Rightarrow> string \<Rightarrow> string \<Rightarrow> world \<Rightarrow> (string option \<times> world) run" where
  "notify_state e n s depEvent errMsg w =
     bind_run (on_db (\<lambda>ctx. crinitTaskDBSetTaskState (rtimClock e) ctx s n) w) (\<lambda>(r, w).
       if r = -1 then Ret (Some errMsg, w)
       else bind_run (crinitTaskDBFulfillDep w \<lparr>depName = n, event = depEvent\<rparr> None) (\<lambda>(r, w).
         if r = -1 then Ret (Some ''Could not fulfill dependency '%s:%s'.'', w)
         else bind_run (crinitTaskDBProvideFeatureByTaskName w n s) (\<lambda>(r, w).
           if r = -1 then Ret (Some ''Could not set features of spawned task '%s' as provided.'', w)
           else Ret (None, w))))"

definition crinitExecRtimCmdNotify :: "rtimEnv \<Rightarrow> world \<Rightarrow> crinitRtimCmd \<Rightarrow> (crinitRtimCmd option \<times> world) run" where
  "crinitExecRtimCmdNotify e w cmd =
     (if cmd_argc cmd < 2 then respond_err e NOTIFY ''Wrong number of arguments.'' w
      else let n = args cmd ! 0;
               a = foldl notify_arg \<lparr>ntfPid = -1, ntfReady = -1, ntfStopping = -1\<rparr> (tl (args cmd)) in
        bind_run (if ntfPid a > 0 then on_db (\<lambda>ctx. crinitTaskDBSetTaskPID ctx (ntfPid a) n) w else Ret (0, w)) (\<lambda>(r, w).
          if r = -1 then respond_err e NOTIFY ''Could not set main PID of task.'' w
          else bind_run
            (if ntfReady a > 0
             then notify_state e n (CRINIT_TASK_STATE_RUNNING OR CRINIT_TASK_STATE_NOTIFIED)
                    (CRINIT_TASK_EVENT_RUNNING @ CRINIT_TASK_EVENT_NOTIFY_SUFFIX)
                    ''Could not set task state to RUNNING.'' w
             else Ret (None, w))
            (\<lambda>(err, w). case err of
              Some msg \<Rightarrow> respond_err e NOTIFY msg w
            | None \<Rightarrow> bind_run
                (if ntfStopping a > 0
                 then notify_state e n (CRINIT_TASK_STATE_DONE OR CRINIT_TASK_STATE_NOTIFIED)
                        (CRINIT_TASK_EVENT_DONE @ CRINIT_TASK_EVENT_NOTIFY_SUFFIX)
                        ''Could not set task state to DONE.'' w
                 else Ret (None, w))
                (\<lambda>(err, w). case err of
                  Some msg \<Rightarrow> respond_err e NOTIFY msg w
                | None \<Rightarrow> respond_ok e NOTIFY w))))"

section \<open>Status and lists\<close>

definition show_time :: "timespec \<Rightarrow> string" where
  "show_time t = show_int (tv_sec t) @ ''.'' @ show_int9 (tv_nsec t)"

text \<open>The nine values of the format string, separated by newlines.\<close>

definition status_text :: "crinitTask \<Rightarrow> string \<Rightarrow> string \<Rightarrow> string" where
  "status_text t uname gname =
     digits_of (unat (state t)) @ ''\<newline>'' @ show_int (pid t) @ ''\<newline>'' @ show_time (createTime t) @ ''\<newline>'' @
     show_time (startTime t) @ ''\<newline>'' @ show_time (endTime t) @ ''\<newline>'' @ show_id (user t) @ ''\<newline>'' @
     show_id (group t) @ ''\<newline>'' @ uname @ ''\<newline>'' @ gname"

text \<open>Cuts the text at its first \<open>n\<close> newlines; a missing one would be a null pointer written through.\<close>

fun cut_lines :: "nat \<Rightarrow> string \<Rightarrow> string list run" where
  "cut_lines 0 s = Ret [s]"
| "cut_lines (Suc n) s =
     (case strchr s (CHR 0x0A) of
        None \<Rightarrow> Undef
      | Some rest \<Rightarrow> map_ret ((#) (take (length s - length rest) s)) (cut_lines n (tl rest)))"

definition crinitExecRtimCmdStatus :: "rtimEnv \<Rightarrow> world \<Rightarrow> crinitRtimCmd \<Rightarrow> (crinitRtimCmd option \<times> world) run" where
  "crinitExecRtimCmdStatus e w cmd =
     (if cmd_argc cmd \<noteq> 1 then respond_err e STATUS ''Wrong number of arguments.'' w
      else bind_run (crinitTaskDBBorrowTask (taskDB w) (args cmd ! 0)) (\<lambda>(r, ctx). case r of
        None \<Rightarrow> respond_err e STATUS ''Could not get access to requested task in TaskDB.'' (w\<lparr>taskDB := ctx\<rparr>)
      | Some i \<Rightarrow>
          let t = taskSet ctx ! i; w = w\<lparr>taskDB := snd (crinitTaskDBRemit ctx)\<rparr> in
          if \<not> namesOk e then Undef
          else if \<not> memOk e then respond_err e STATUS ''Memory allocation error.'' w
          else bind_run (cut_lines 8 (status_text t
              (case username t of None \<Rightarrow> ''root'' | Some u \<Rightarrow> u)
              (case groupname t of None \<Rightarrow> ''root'' | Some g \<Rightarrow> g))) (\<lambda>as.
            respond e STATUS (CRINIT_RTIMCMD_RES_OK # as) w)))"

definition crinitExecRtimCmdTaskList :: "rtimEnv \<Rightarrow> world \<Rightarrow> crinitRtimCmd \<Rightarrow> (crinitRtimCmd option \<times> world) run" where
  "crinitExecRtimCmdTaskList e w cmd =
     (if cmd_argc cmd \<noteq> 0 then respond_err e TASKLIST ''Wrong number of arguments.'' w
      else bind_run (crinitTaskDBExportTaskNamesToArray (namesCallocOk e) (namesDupFail e) (taskDB w)) (\<lambda>(r, ns, ctx).
        let w = w\<lparr>taskDB := ctx\<rparr> in
        if r = -1 then respond_err e STATUS ''Memory allocation error.'' w
        else if \<not> memOk e then respond_err e STATUS ''Memory allocation error.'' w
        else Ret (crinitBuildRtimCmdArray (argsMallocOk e) (backMallocOk e) (CRINIT_RTIMCMD_R TASKLIST)
                    (CRINIT_RTIMCMD_RES_OK # the ns), w)))"

text \<open>Numbers are printed into buffers of eight bytes, of which seven are used: six digits.\<close>

definition crinitExecRtimCmdGetVer :: "rtimEnv \<Rightarrow> world \<Rightarrow> crinitRtimCmd \<Rightarrow> (crinitRtimCmd option \<times> world) run" where
  "crinitExecRtimCmdGetVer e w cmd =
     (if cmd_argc cmd \<noteq> 0 then respond_err e GETVER ''Wrong number of arguments.'' w
      else case version e of (major, minor, micro, git) \<Rightarrow>
        respond e GETVER [CRINIT_RTIMCMD_RES_OK, take 6 (digits_of major), take 6 (digits_of minor),
                          take 6 (digits_of micro), git] w)"

section \<open>Shutdown\<close>

abbreviation (input) RB_POWER_OFF :: int where "RB_POWER_OFF \<equiv> 0x4321fedc"
abbreviation (input) RB_AUTOBOOT :: int where "RB_AUTOBOOT \<equiv> 0x01234567"

text \<open>The argument is converted to the enumeration, of which 1 is power-off and 2 reboot.\<close>

definition shutdown_cmd :: "string \<Rightarrow> int option" where
  "shutdown_cmd a =
     (let s = uint (word_of_int (strtol10 a) :: 32 word)
      in if s = 1 then Some RB_POWER_OFF else if s = 2 then Some RB_AUTOBOOT else None)"

definition crinitExecRtimCmdShutdown :: "rtimEnv \<Rightarrow> world \<Rightarrow> crinitRtimCmd \<Rightarrow> (crinitRtimCmd option \<times> world) run" where
  "crinitExecRtimCmdShutdown e w cmd =
     (if \<not> memOk e then respond_err e SHUTDOWN ''Memory allocation error.'' w
      else if cmd_argc cmd \<noteq> 1 then respond_err e SHUTDOWN ''Wrong number of arguments.'' w
      else case shutdown_cmd (args cmd ! 0) of
        None \<Rightarrow> respond_err e SHUTDOWN ''Invalid argument.'' w
      | Some c \<Rightarrow>
          if \<not> threadOk e then respond_err e SHUTDOWN ''Could not start shutdown thread.'' w
          else respond_ok e SHUTDOWN (w\<lparr>trace := trace w @ [ShutdownStarted c]\<rparr>))"

text \<open>
  The absolute time \<open>crinitGracePeriod\<close> sleeps until. \<open>clock_nanosleep\<close> returns its error
  number, so neither the retry nor the error branch, which test for -1, is ever taken.
\<close>

definition grace_deadline :: "timespec \<Rightarrow> nat \<Rightarrow> timespec" where
  "grace_deadline t micros =
     (let sec = tv_sec t + int (micros div 1000000);
          nsec = micros mod 1000000 * 1000 + nat (tv_nsec t)
      in \<lparr>tv_sec = sec + int (nsec div 1000000000), tv_nsec = int (nsec mod 1000000000)\<rparr>)"

definition crinitGracePeriod :: "timespec option \<Rightarrow> nat \<Rightarrow> world \<Rightarrow> int \<times> world" where
  "crinitGracePeriod now micros w =
     (case now of None \<Rightarrow> (-1, w) | Some t \<Rightarrow> (0, w\<lparr>trace := trace w @ [Slept (grace_deadline t micros)]\<rparr>))"

text \<open>The stop commands of all tasks, in a single hold of the lock; a failed start is only logged.\<close>

fun stop_all :: "(crinitTask \<Rightarrow> crinitDispatchThreadMode \<Rightarrow> int) option \<Rightarrow> crinitTask list \<Rightarrow> sysEvent list run" where
  "stop_all f [] = Ret []"
| "stop_all f (t # ts) =
     (if stopCmds t \<noteq> [] then
        (case f of
           None \<Rightarrow> Undef
         | Some g \<Rightarrow>
             map_ret (\<lambda>ev. (if g t CRINIT_DISPATCH_THREAD_MODE_STOP = -1 then []
                            else [ThreadStarted (name t) CRINIT_DISPATCH_THREAD_MODE_STOP]) @ ev) (stop_all f ts))
      else stop_all f ts)"

text \<open>
  The list of mount points, newest first, from the lines of \<open>/proc/mounts\<close>. \<open>tgt\<close> is the text in
  the first node, into which the next line is read, \<open>ml\<close> the rest of the list. The lines are
  shorter than the buffer of a node.
\<close>

fun mount_lines :: "string list \<Rightarrow> string \<Rightarrow> string list \<Rightarrow> bool \<Rightarrow> string list \<times> bool" where
  "mount_lines [] tgt ml ro = (tgt # ml, ro)"
| "mount_lines (l # ls) tgt ml ro =
     (case strtok_all (CHR '' '') l of
        dev # mp # rest \<Rightarrow>
          if dev = ''none'' then mount_lines ls [] ml ro
          else if mp = ''/'' then
            (case rest of
               fstype # opt # _ \<Rightarrow>
                 if \<not> strncmp_eq opt ''ro,'' 3 \<and> \<not> strncmp_eq opt ''ro '' 3 then mount_lines ls [] ml ro
                 else mount_lines ls (takeWhile (\<lambda>c. c = CHR '' '') l @ dev) ml True
             | _ \<Rightarrow> mount_lines ls [] ml ro)
          else mount_lines ls [] (mp # ml) ro
      | _ \<Rightarrow> mount_lines ls [] ml ro)"

definition crinitGenUnMountList :: "rtimEnv \<Rightarrow> (string list \<times> bool) option" where
  "crinitGenUnMountList e =
     (case mounts e of
        None \<Rightarrow> None
      | Some ls \<Rightarrow> if \<not> mountMemOk e then None else Some (mount_lines ls [] [] False))"

text \<open>Result code, and what the kernel was asked for with success.\<close>

definition crinitFsPrepareShutdown :: "rtimEnv \<Rightarrow> int \<times> sysEvent list" where
  "crinitFsPrepareShutdown e =
     (let (out, ev, ro) =
        (case crinitGenUnMountList e of
           None \<Rightarrow> (-1, [], False)
         | Some (um, ro) \<Rightarrow>
             let ts = filter (\<lambda>t. t \<noteq> []) um
             in (if list_all (umountOk e) ts then 0 else -1, map Unmounted (filter (umountOk e) ts), ro));
        (out, ev) = (if ro then (out, ev) else if remountOk e then (out, ev @ [RemountedRo]) else (-1, ev))
      in (out, ev @ [Synced]))"

text \<open>Each of the two grace periods reads the clock when it begins: \<open>rtimClock\<close> and \<open>rtimClockLater\<close>.\<close>

definition crinitShdnThread :: "rtimEnv \<Rightarrow> int \<Rightarrow> world \<Rightarrow> world run" where
  "crinitShdnThread e shutdownCmd w =
     bind_run (db_lock (taskDB w)) (\<lambda>(err, ctx).
     bind_run
       (if err = 0
        then map_ret (\<lambda>ev. (\<exists>t \<in> set (taskSet ctx). stopCmds t \<noteq> [],
                             w\<lparr>taskDB := db_unlock ctx, trace := trace w @ ev\<rparr>)) (stop_all (spawnFunc ctx) (taskSet ctx))
        else Ret (False, w\<lparr>taskDB := ctx\<rparr>))
       (\<lambda>(haveStopCommands, w).
     bind_run (crinitGlobOptGetUnsignedLL ShdGraceP (globOpts w)) (\<lambda>(r, gp, g).
       let w = w\<lparr>globOpts := g\<rparr>; gpMicros = (if r = -1 then 100000 else gp);
           w = (if haveStopCommands then snd (crinitGracePeriod (rtimClock e) gpMicros w) else w)
       in bind_run (on_db_ignore (\<lambda>ctx. crinitTaskDBSetSpawnInhibit ctx True) w) (\<lambda>w.
         let w = snd (send_signal e (-1) SIGCONT w);
             w = snd (send_signal e (-1) SIGTERM w);
             w = snd (crinitGracePeriod (rtimClockLater e) gpMicros w);
             w = snd (send_signal e (-1) SIGKILL w)
         in Ret (w\<lparr>trace := trace w @ snd (crinitFsPrepareShutdown e) @ [Rebooted shutdownCmd]\<rparr>)))))"

section \<open>Dispatch of commands\<close>

definition crinitExecRtimCmd :: "rtimEnv \<Rightarrow> world \<Rightarrow> crinitRtimCmd \<Rightarrow> (crinitRtimCmd option \<times> world) run" where
  "crinitExecRtimCmd e w cmd =
     (case op cmd of
        CRINIT_RTIMCMD_C v \<Rightarrow>
          (case v of
             ADDTASK \<Rightarrow> crinitExecRtimCmdAddTask e w cmd
           | ADDSERIES \<Rightarrow> crinitExecRtimCmdAddSeries e w cmd
           | ENABLE \<Rightarrow> crinitExecRtimCmdEnable e w cmd
           | DISABLE \<Rightarrow> crinitExecRtimCmdDisable e w cmd
           | STOP \<Rightarrow> crinitExecRtimCmdStop e w cmd
           | KILL \<Rightarrow> crinitExecRtimCmdKill e w cmd
           | RESTART \<Rightarrow> crinitExecRtimCmdRestart e w cmd
           | NOTIFY \<Rightarrow> crinitExecRtimCmdNotify e w cmd
           | STATUS \<Rightarrow> crinitExecRtimCmdStatus e w cmd
           | TASKLIST \<Rightarrow> crinitExecRtimCmdTaskList e w cmd
           | SHUTDOWN \<Rightarrow> crinitExecRtimCmdShutdown e w cmd
           | GETVER \<Rightarrow> crinitExecRtimCmdGetVer e w cmd)
      | CRINIT_RTIMCMD_R v \<Rightarrow> Ret (None, w))"

end
