(* ===== verification/RtimMsg.thy ===== *)
theory RtimMsg
  imports RtimCmd
begin

text \<open>
  Messages of runtime commands: what \<open>crinitParseRtimCmd\<close> reads from what
  \<open>crinitRtimCmdToMsgStr\<close> has written.
\<close>

abbreviation (input) nl :: char where "nl \<equiv> CRINIT_RTIMCMD_ARGDELIM"

section \<open>Tokens\<close>

lemma strtok_Nil [simp]: "strtok_all d [] = []"
  by (simp add: strtok_all.simps)

lemma strtok_delim [simp]: "strtok_all d (d # s) = strtok_all d s"
  by (simp add: strtok_all.simps [of d "d # s"] strtok_all.simps [of d s])

lemma strtok_Cons:
  "c \<noteq> d \<Longrightarrow> strtok_all d (c # s) = (c # takeWhile (\<lambda>c. c \<noteq> d) s) # strtok_all d (dropWhile (\<lambda>c. c \<noteq> d) s)"
  by (subst strtok_all.simps) simp

lemma drop_no_delim: "d \<notin> set s \<Longrightarrow> dropWhile (\<lambda>c. c \<noteq> d) s = []" "d \<notin> set s \<Longrightarrow> takeWhile (\<lambda>c. c \<noteq> d) s = s"
  by (induction s) auto

lemma strtok_word: "a \<noteq> [] \<Longrightarrow> d \<notin> set a \<Longrightarrow> strtok_all d a = [a]"
  by (cases a) (auto simp: strtok_Cons drop_no_delim)

lemma strtok_append: "strtok_all d (s @ d # t) = strtok_all d s @ strtok_all d t"
proof (induction s rule: length_induct)
  case (1 s)
  show ?case
  proof (cases s)
    case (Cons c s')
    show ?thesis
    proof (cases "c = d")
      case False
      let ?r = "dropWhile (\<lambda>c. c \<noteq> d) s'"
      have "dropWhile (\<lambda>c. c \<noteq> d) (s' @ d # t) = ?r @ d # t" "takeWhile (\<lambda>c. c \<noteq> d) (s' @ d # t) = takeWhile (\<lambda>c. c \<noteq> d) s'"
        by (induction s') auto
      moreover have "strtok_all d (?r @ d # t) = strtok_all d ?r @ strtok_all d t"
        using 1 Cons length_dropWhile_le [of "\<lambda>c. c \<noteq> d" s'] by (simp add: le_imp_less_Suc)
      ultimately show ?thesis using Cons False by (simp add: strtok_Cons)
    qed (use 1 Cons in simp)
  qed simp
qed

lemma count_args_strtok:
  "count_args (nl # s) = length (strtok_all nl s)"
  "x \<noteq> nl \<Longrightarrow> count_args (x # s) = length (strtok_all nl (dropWhile (\<lambda>c. c \<noteq> nl) s))"
proof (induction s arbitrary: x)
  case (Cons c s)
  {
    case 1
    then show ?case using Cons.IH by (cases "c = nl") (simp_all add: strtok_Cons)
  next
    case 2
    then show ?case using Cons.IH by (cases "c = nl") simp_all
  }
qed simp_all

lemma skip_delims_strtok: "\<exists>s'. skip_delims (nl # s) = nl # s' \<and> strtok_all nl s' = strtok_all nl s"
proof (induction s)
  case (Cons c s)
  then show ?case by (cases "c = nl") auto
qed auto

section \<open>Messages\<close>

definition delimited :: "string list \<Rightarrow> string" where
  "delimited as = concat (map (\<lambda>a. nl # a) as)"

lemma strtok_delimited: "strtok_all nl (delimited as) = concat (map (strtok_all nl) as)"
proof (induction as)
  case (Cons a as)
  show ?case
  proof (cases as)
    case (Cons b bs)
    then have "delimited (a # as) = nl # a @ nl # tl (delimited as)" "strtok_all nl (tl (delimited as)) = strtok_all nl (delimited as)"
      by (simp_all add: delimited_def)
    then show ?thesis using Cons.IH by (simp add: strtok_append)
  qed (simp add: delimited_def)
qed (simp add: delimited_def)

lemma args_update: "c\<lparr>args := as\<rparr> = \<lparr>op = op c, args = as\<rparr>"
  by (cases c) simp

text \<open>Every argument comes back as its non-empty lines.\<close>

lemma Parse_ToMsgStr:
  assumes "crinitOpStrGetByRtimOp (op c) = Some s"
  shows "crinitParseRtimCmd True True (s @ delimited (args c)) = Some (c\<lparr>args := concat (map (strtok_all nl) (args c))\<rparr>)"
proof -
  let ?d = "delimited (args c)" and ?as = "concat (map (strtok_all nl) (args c))"
  have hd: "?d = [] \<or> hd ?d = nl" by (cases "args c") (simp_all add: delimited_def)
  have o: "crinitRtimOpGetByOpStr (s @ ?d) = Some (op c)" by (rule OpGetByOpStr_OpStrGet [OF assms hd])
  have d: "dropWhile (\<lambda>c. c \<noteq> nl) (s @ ?d) = ?d"
    using OpStrGet_no_delim [OF assms] hd by (subst dropWhile_append2) (auto simp: dropWhile_eq_self_iff)
  show ?thesis
  proof (cases ?d)
    case Nil
    then have "args c = []" by (cases "args c") (simp_all add: delimited_def)
    then show ?thesis using o Nil unfolding crinitParseRtimCmd_def d by (simp add: args_update Let_def)
  next
    case (Cons x r)
    then have r: "?d = nl # r" using hd by simp
    then have "strtok_all nl r = ?as" using strtok_delimited [of "args c"] by simp
    moreover obtain r' where "skip_delims ?d = nl # r'" "strtok_all nl r' = strtok_all nl r"
      using skip_delims_strtok [of r] r by auto
    ultimately show ?thesis using o unfolding crinitParseRtimCmd_def d
      by (simp add: args_update Let_def count_args_strtok(1) del: count_args.simps concat.simps)
  qed
qed

definition msg_text :: "crinitRtimCmd \<Rightarrow> string" where
  "msg_text c = the (crinitOpStrGetByRtimOp (op c)) @ delimited (args c)"

lemma ToMsgStr_text: "crinitRtimCmdToMsgStr True c = Some (msg_text c, length (msg_text c) + 1)"
proof -
  obtain s where s: "crinitOpStrGetByRtimOp (op c) = Some s" using RtimOps_exhaustive by blast
  have "length (delimited as) = sum_list (map (\<lambda>a. length a + 1) as)" for as
    by (induction as) (simp_all add: delimited_def)
  then show ?thesis using s by (simp add: crinitRtimCmdToMsgStr_def msg_text_def delimited_def)
qed

lemma Parse_msg_text:
  assumes "\<forall>a \<in> set (args c). a \<noteq> [] \<and> CRINIT_RTIMCMD_ARGDELIM \<notin> set a"
  shows "crinitParseRtimCmd True True (msg_text c) = Some c"
proof -
  obtain s where s: "crinitOpStrGetByRtimOp (op c) = Some s" using RtimOps_exhaustive by blast
  have "concat (map (strtok_all nl) as) = as" if "\<forall>a \<in> set as. a \<noteq> [] \<and> nl \<notin> set a" for as
    using that by (induction as) (simp_all add: strtok_word)
  then show ?thesis using Parse_ToMsgStr [OF s] s assms by (simp add: msg_text_def)
qed

section \<open>Properties\<close>

text \<open>
  A command whose arguments are not empty and have no newline comes back unchanged when its
  message is parsed; the size given with the message is that of the text with its terminating zero.
\<close>

lemma message_roundtrip:
  assumes "\<forall>a \<in> set (args c). a \<noteq> [] \<and> CRINIT_RTIMCMD_ARGDELIM \<notin> set a"
  shows "\<exists>msg. crinitRtimCmdToMsgStr True c = Some (msg, length msg + 1) \<and> crinitParseRtimCmd True True msg = Some c"
  using ToMsgStr_text [of c] Parse_msg_text [OF assms] by blast

end
