(* ===== verification/ProcDipSpec.thy ===== *)
theory ProcDipSpec
  imports ProcDip World Samples
begin

unbundle bit_operations_syntax

text \<open>
  What the dispatch thread of a task does to the task database, \<open>src/src/procdip.c\<close>. \<open>ready caps n\<close>
  holds in a daemon in which the thread of task \<open>n\<close> can make progress: nothing is locked,
  waiting is not inhibited, the task is known, and \<open>caps\<close> are the default capabilities. It is an invariant of every step of the
  thread, and required of the other threads while the thread waits.
\<close>

section \<open>Progress\<close>

definition ready :: "string \<Rightarrow> string \<Rightarrow> world \<Rightarrow> bool" where
  "ready caps n w \<longleftrightarrow> world_ok w \<and> waitInhibitLock w = Unlocked \<and> \<not> inhibitWait w \<and>
     launcherCmd (globOpts w) \<noteq> None \<and> defaultCaps (globOpts w) = Some caps \<and> (\<exists>t. task_map (taskDB w) n = Some t \<and> failCount t < INT_MAX)"

lemma ready_update:
  "ready caps n w \<Longrightarrow> world_ok w' \<Longrightarrow> same_env w w' \<Longrightarrow> task_map (taskDB w') = (task_map (taskDB w))(n \<mapsto> t') \<Longrightarrow>
   failCount t' < INT_MAX \<Longrightarrow> ready caps n w'"
  by (simp add: ready_def same_env_def)

lemma ready_eased:
  assumes "ready caps n w" "world_ok w'" "same_env w w'" "all_eased w w'"
  shows "ready caps n w'"
proof -
  obtain t where t: "task_map (taskDB w) n = Some t" "failCount t < INT_MAX" using assms(1) by (auto simp: ready_def)
  obtain t' where "task_map (taskDB w') n = Some t'" "eased t t'" by (rule all_easedE [OF assms(4) t(1)])
  then show ?thesis using assms t eased_sel(4) [of t t'] by (simp add: ready_def same_env_def)
qed

lemma ready_trace [simp]: "ready caps n (w\<lparr>trace := x\<rparr>) = ready caps n w"
  by (simp add: ready_def world_ok_def)

lemma ReapPid_ready:
  "ready caps n w \<Longrightarrow> crinitReapPid wakes (None # rs) w p = Ret (0, w\<lparr>trace := trace w @ [Reaped p]\<rparr>)"
  by (simp add: crinitReapPid_def BlockOnWaitInhibit_free ready_def)

lemma SetPID_ready:
  assumes "ready caps n w" "task_map (taskDB w) n = Some t"
  shows "ret_sat (\<lambda>(r, w'). r = 0 \<and> ready caps n w' \<and> task_map (taskDB w') = (task_map (taskDB w))(n \<mapsto> t\<lparr>pid := p\<rparr>))
           (on_db (\<lambda>ctx. crinitTaskDBSetTaskPID ctx p n) w)"
proof -
  have ok: "world_ok w" "failCount t < INT_MAX" using assms by (auto simp: ready_def)
  have d: "distinct (deps t)" by (rule world_ok_deps [OF ok(1) assms(2)])
  show ?thesis
    by (rule ret_sat_mono [OF setPID.world_update [OF ok(1) assms(2)]])
       (use d ok(2) ready_update [OF assms(1)] in auto)
qed

lemma SetState_ready:
  assumes "ready caps n w" "task_map (taskDB w) n = Some t"
  shows "ret_sat (\<lambda>(r, w'). r = 0 \<and> world_ok w' \<and> same_env w w' \<and>
             task_map (taskDB w') = (task_map (taskDB w))(n \<mapsto> with_state (stamp now s) s t))
           (on_db (\<lambda>ctx. crinitTaskDBSetTaskState now ctx s n) w)"
proof -
  have ok: "world_ok w" "failCount t < INT_MAX" using assms by (auto simp: ready_def)
  have "distinct (deps t)" by (rule world_ok_deps [OF ok(1) assms(2)])
  then have "distinct (deps (with_state (stamp now s) s t))" by (simp add: with_state_def Let_def)
  from setState.world_update [OF ok(1) assms(2) ok(2) this] show ?thesis
    by (rule ret_sat_mono) auto
qed

section \<open>The commands of a task\<close>

lemma report_running_ready:
  assumes "ready caps (name t) w" "\<not> freed t"
  shows "ret_sat (\<lambda>(r, w'). r = 0 \<and> ready caps (name t) w') (report_running s t w)"
proof -
  let ?n = "name t" and ?d = "\<lparr>depName = name t, event = CRINIT_TASK_EVENT_RUNNING\<rparr>"
  obtain u where u: "task_map (taskDB w) ?n = Some u" "failCount u < INT_MAX" using assms(1) by (auto simp: ready_def)
  obtain w1 where w1: "on_db (\<lambda>ctx. crinitTaskDBSetTaskState (clockRun s) ctx CRINIT_TASK_STATE_RUNNING ?n) w = Ret (0, w1)"
    "world_ok w1" "same_env w w1" "task_map (taskDB w1) = (task_map (taskDB w))(?n \<mapsto> with_state (stamp (clockRun s) 2) 2 u)"
    using SetState_ready [OF assms(1) u(1), of "clockRun s" CRINIT_TASK_STATE_RUNNING] by (auto elim!: ret_satE)
  have r1: "ready caps ?n w1" using ready_update [OF assms(1) w1(2-4)] u(2) by (simp add: with_state_def)
  obtain w2 where w2: "crinitTaskDBFulfillDep w1 ?d None = Ret (0, w2)" "world_ok w2" "all_eased w1 w2" "same_env w1 w2"
    using FulfillDep_world [OF w1(2), of ?d] by (auto elim!: ret_satE)
  have r2: "ready caps ?n w2" by (rule ready_eased [OF r1 w2(2,4,3)])
  show ?thesis
    using w1(1) w2(1) ProvideFeature_world [OF w2(2) assms(2), of CRINIT_TASK_STATE_RUNNING]
    by (auto simp: report_running_def elim!: ret_satE intro: ready_eased [OF r2])
qed

text \<open>A task that is not started directly but through the launcher.\<close>

definition uses_launcher :: "crinitTask \<Rightarrow> bool" where
  "uses_launcher t \<longleftrightarrow> user t \<noteq> 0 \<or> group t \<noteq> 0 \<or> cgroup t \<noteq> None"

text \<open>The text of the capabilities a launched task starts with; without memory for it there are none.\<close>

definition launch_caps :: "string \<Rightarrow> spawnEnv \<Rightarrow> string" where
  "launch_caps caps s = (if capsStrdupOk s then caps else [])"

text \<open>
  What the thread needs to come to its end: it can duplicate its task and set the name of the task in its environment, the
  wait for command \<open>i\<close> ends, with \<open>out i\<close>, and meanwhile the other threads keep \<open>ready\<close>, the process can be reaped at
  once, and, for a launched task, the default capabilities are known ones and the arguments of each command fit into the
  array of their pointers. All else may fail.
\<close>

definition obliging :: "string \<Rightarrow> (nat \<Rightarrow> waitOutcome) \<Rightarrow> crinitTask \<Rightarrow> spawnEnv \<Rightarrow> bool" where
  "obliging caps out t s \<longleftrightarrow> dupMallocOk s \<and> dupCopyFault s = NoFault \<and> envGrowOk s \<and> envMallocOk s \<and> envFmtOk s \<and>
     (\<forall>i w. ready caps (name t) w \<longrightarrow> fst (waitid s i w) = out i \<and> ready caps (name t) (snd (waitid s i w))) \<and>
     (\<exists>rs. waitpidRes s = None # rs) \<and>
     (uses_launcher t \<longrightarrow> (\<exists>r m. crinitCapConvertToBitmask (spawnCaps s) 0 (launch_caps caps s) = Ret (r, m)) \<and>
        (\<forall>c \<in> set (cmds t). sum_list (map (\<lambda>a. length a + 1) (tl (argv c))) \<le> 8 * (argc c + 1)))"

text \<open>Command \<open>i\<close> can be started, its redirections and the arguments for the launcher included.\<close>

definition command_starts :: "string \<Rightarrow> crinitTask \<Rightarrow> spawnEnv \<Rightarrow> nat \<Rightarrow> bool" where
  "command_starts caps t s i \<longleftrightarrow> fileActInitOk s i \<and> fst (crinitPrepareIoRedirectionsForSpawn s (redirs t) []) \<noteq> -1 \<and>
     (uses_launcher t \<longrightarrow> launchMemOk s \<and> (\<exists>m. crinitCapConvertToBitmask (spawnCaps s) 0 (launch_caps caps s) = Ret (0, m))) \<and>
     fst (posixSpawn s i) = 0 \<and> snd (posixSpawn s i) \<noteq> -1"

lemma GetString_any:
  "optLock g = Unlocked \<Longrightarrow> get_str m g = Some x \<Longrightarrow>
   crinitGlobOptGetString b m g = Ret (if b then 0 else -1, if b then Some x else None, g)"
  by (simp add: crinitGlobOptGetString_def crinitGlobOptBorrow_def crinitGlobOptRemit_def remit_with_def)

lemma launcher_ready:
  assumes "ready caps (name t) w" "obliging caps out t s" "uses_launcher t" "c \<in> set (cmds t)" "argv c \<noteq> []"
  shows "\<exists>e av. crinitCreateLauncherParameters s c t cmd w = Ret (e, av, w) \<and>
    (e = 0 \<longleftrightarrow> launchMemOk s \<and> (\<exists>m. crinitCapConvertToBitmask (spawnCaps s) 0 (launch_caps caps s) = Ret (0, m)))"
proof -
  have g: "optLock (globOpts w) = Unlocked" "get_str DefaultCaps (globOpts w) = Some caps"
    using assms(1) by (auto simp: ready_def world_ok_def)
  obtain r m where m: "crinitCapConvertToBitmask (spawnCaps s) 0 (launch_caps caps s) = Ret (r, m)"
    "\<not> sum_list (map (\<lambda>a. length a + 1) (tl (argv c))) > 8 * (argc c + 1)"
    using assms(2-4) by (auto simp: obliging_def)
  show ?thesis
    using assms(5) m GetString_any [OF g, of "capsStrdupOk s"]
    by (cases "capsStrdupOk s"; cases "r = 0"; cases "launchMemOk s")
      (auto simp: crinitCreateLauncherParameters_def launch_caps_def Let_def)
qed

text \<open>What a started command does to the database and the process table until it has ended.\<close>

lemma handle_started:
  assumes "ready caps (name t) w" "\<not> freed t" "obliging caps out t s" "posixSpawn s i = (0, q)" "q \<noteq> -1"
  shows "ret_sat (\<lambda>(r, p', w'). r = (if out i = Exited 0 then 0 else -1) \<and> ready caps (name t) w')
    (case crinitSpawnSingleCommand s i cmd av env fa w of (e, p, w) \<Rightarrow>
       if e = -1 then Ret (-1, p, w)
       else bind_run (on_db (\<lambda>ctx. crinitTaskDBSetTaskPID ctx p (name t)) w) (\<lambda>(r, w).
         if r = -1 then Ret (-1, p, w)
         else bind_run (if i = 0 then report_running s t w else Ret (0, w)) (\<lambda>(r, w).
           if r = -1 then Ret (-1, p, w)
           else case waitid s i w of (out, w) \<Rightarrow>
             if out \<noteq> Exited 0 then Ret (-1, p, w)
             else bind_run (on_db (\<lambda>ctx. crinitTaskDBSetTaskPID ctx (-1) (name t)) w) (\<lambda>(_, w).
                  bind_run (crinitReapPid (waitWakes s) (waitpidRes s) w p) (\<lambda>(_, w). Ret (0, p, w))))))"
proof -
  let ?n = "name t"
  obtain rs where rs: "waitpidRes s = None # rs" using assms(3) by (auto simp: obliging_def)
  define w0 where "w0 = w\<lparr>trace := trace w @ [ProcessStarted cmd av env fa]\<rparr>"
  have r0: "ready caps ?n w0" using assms(1) by (simp add: w0_def)
  then obtain u where u: "task_map (taskDB w0) ?n = Some u" by (auto simp: ready_def)
  obtain w1 where w1: "on_db (\<lambda>ctx. crinitTaskDBSetTaskPID ctx q ?n) w0 = Ret (0, w1)" "ready caps ?n w1"
    using SetPID_ready [OF r0 u, of q] by (auto elim!: ret_satE)
  obtain w2 where w2: "(if i = 0 then report_running s t w1 else Ret (0, w1)) = Ret (0, w2)" "ready caps ?n w2"
    using report_running_ready [OF w1(2) assms(2), of s] w1(2) by (cases "i = 0") (auto elim!: ret_satE)
  define w3 where "w3 = snd (waitid s i w2)"
  have w3: "waitid s i w2 = (out i, w3)" "ready caps ?n w3"
    using assms(3) w2(2) by (auto simp: obliging_def w3_def prod_eq_iff)
  then obtain u3 where u3: "task_map (taskDB w3) ?n = Some u3" by (auto simp: ready_def)
  obtain w4 where w4: "on_db (\<lambda>ctx. crinitTaskDBSetTaskPID ctx (-1) ?n) w3 = Ret (0, w4)" "ready caps ?n w4"
    using SetPID_ready [OF w3(2) u3, of "-1"] by (auto elim!: ret_satE)
  show ?thesis
    using assms(4,5) w1(1) w2(1) w3 w4 rs ReapPid_ready [OF w4(2), of "waitWakes s" rs q]
    by (simp add: crinitSpawnSingleCommand_def w0_def [symmetric])
qed

lemma handle_command_ready:
  assumes "ready caps (name t) w" "\<not> freed t" "obliging caps out t s" "c \<in> set (cmds t)" "argv c \<noteq> []"
  shows "ret_sat (\<lambda>(r, p', w'). r = (if command_starts caps t s i \<and> out i = Exited 0 then 0 else -1) \<and> ready caps (name t) w')
           (handle_command s t (if uses_launcher t then Some cmd else None) b i c p w)"
proof -
  obtain e fa where fa: "crinitPrepareIoRedirectionsForSpawn s (redirs t) [] = (e, fa)"
    by (cases "crinitPrepareIoRedirectionsForSpawn s (redirs t) []")
  obtain x q where q: "posixSpawn s i = (x, q)" by (cases "posixSpawn s i")
  have launch: "\<exists>e cmd' av. (case if uses_launcher t then Some cmd else None of
        None \<Rightarrow> if argv c = [] then Undef else Ret (0, hd (argv c), argv c, w)
      | Some cmd \<Rightarrow> map_ret (\<lambda>(e, av, w). (e, cmd, av, w)) (crinitCreateLauncherParameters s c t cmd w)) = Ret (e, cmd', av, w) \<and>
      (e = 0 \<longleftrightarrow> (uses_launcher t \<longrightarrow> launchMemOk s \<and> (\<exists>m. crinitCapConvertToBitmask (spawnCaps s) 0 (launch_caps caps s) = Ret (0, m))))"
    using launcher_ready [OF assms(1,3) _ assms(4,5), of cmd] assms(5) by (cases "uses_launcher t") fastforce+
  then obtain e' cmd' av where l: "(case if uses_launcher t then Some cmd else None of
        None \<Rightarrow> if argv c = [] then Undef else Ret (0, hd (argv c), argv c, w)
      | Some cmd \<Rightarrow> map_ret (\<lambda>(e, av, w). (e, cmd, av, w)) (crinitCreateLauncherParameters s c t cmd w)) = Ret (e', cmd', av, w)"
    "e' = 0 \<longleftrightarrow> (uses_launcher t \<longrightarrow> launchMemOk s \<and> (\<exists>m. crinitCapConvertToBitmask (spawnCaps s) 0 (launch_caps caps s) = Ret (0, m)))"
    by blast
  show ?thesis
  proof (cases "command_starts caps t s i")
    case True
    then have "fileActInitOk s i" "e \<noteq> -1" "e' = 0" "x = 0" "q \<noteq> -1" using fa q l(2) by (auto simp: command_starts_def)
    then show ?thesis
      using handle_started [OF assms(1-3) q [unfolded \<open>x = 0\<close>] \<open>q \<noteq> -1\<close>,
        of cmd' av "case envp (taskEnv t) of None \<Rightarrow> [] | Some xs \<Rightarrow> env_entries xs" "if b then [] else fa"] fa True
      unfolding handle_command_def l(1) by simp
  next
    case False
    then show ?thesis
      using fa l(2) q assms(1) unfolding handle_command_def l(1)
      by (auto simp: command_starts_def crinitSpawnSingleCommand_def)
  qed
qed

lemma handle_loop_ready:
  assumes "ready caps (name t) w" "\<not> freed t" "obliging caps out t s" "set cs \<subseteq> set (cmds t)" "\<forall>c \<in> set cs. argv c \<noteq> []"
  shows "ret_sat (\<lambda>(r, p', w'). r = (if \<forall>j < length cs. command_starts caps t s (i + j) \<and> out (i + j) = Exited 0 then 0 else -1) \<and>
             ready caps (name t) w')
           (handle_loop s t (if uses_launcher t then Some cmd else None) b i cs p w)"
  using assms(1,4,5)
proof (induction cs arbitrary: i p w)
  case (Cons c cs)
  let ?good = "\<lambda>i. command_starts caps t s i \<and> out i = Exited 0"
  obtain r p1 w1 where c: "handle_command s t (if uses_launcher t then Some cmd else None) b i c p w = Ret (r, p1, w1)"
    "r = (if ?good i then 0 else -1)" "ready caps (name t) w1"
    using handle_command_ready [OF Cons.prems(1) assms(2,3), of c i cmd b p] Cons.prems(2,3) by (auto elim!: ret_satE)
  have "(\<forall>j < Suc (length cs). ?good (i + j)) \<longleftrightarrow> ?good i \<and> (\<forall>j < length cs. ?good (Suc i + j))"
    by (auto simp: less_Suc_eq_0_disj)
  then show ?case using c Cons.IH [of w1 "Suc i" p1] Cons.prems(2,3)
    by (cases "?good i"; cases "\<forall>j < length cs. ?good (Suc i + j)") auto
qed simp

section \<open>The end of the thread\<close>

lemma thread_done_ready:
  assumes "ready caps (name t) w" "\<not> freed t"
  shows "ret_sat (\<lambda>w'. world_ok w' \<and> same_env w w' \<and>
             (\<exists>u. task_map (taskDB w') (name t) = Some u \<and> state u = CRINIT_TASK_STATE_DONE \<and> failCount u = 0) \<and>
             (\<forall>u \<in> ran (task_map (taskDB w')). \<lparr>depName = name t, event = CRINIT_TASK_EVENT_DONE\<rparr> \<notin> set (deps u)))
           (thread_done s t w)"
proof -
  let ?n = "name t" and ?d = "\<lparr>depName = name t, event = CRINIT_TASK_EVENT_DONE\<rparr>"
  obtain u where u: "task_map (taskDB w) ?n = Some u" using assms(1) by (auto simp: ready_def)
  obtain w1 where w1: "report (clockEnd s) t CRINIT_TASK_STATE_DONE w = Ret (0, w1)" "world_ok w1" "same_env w w1"
    "task_map (taskDB w1) ?n = Some (with_state (stamp (clockEnd s) 4) 4 u)"
    using SetState_ready [OF assms(1) u, of "clockEnd s" CRINIT_TASK_STATE_DONE] by (auto simp: report_def elim!: ret_satE)
  obtain w2 where w2: "crinitTaskDBFulfillDep w1 ?d None = Ret (0, w2)" "world_ok w2" "all_eased w1 w2" "same_env w1 w2"
    "\<forall>u \<in> ran (task_map (taskDB w2)). ?d \<notin> set (deps u)"
    using FulfillDep_world [OF w1(2), of ?d] by (auto elim!: ret_satE)
  obtain w3 where w3: "crinitTaskDBProvideFeature w2 t CRINIT_TASK_STATE_DONE = Ret (0, w3)" "world_ok w3"
    "all_eased w2 w3" "same_env w2 w3"
    using ProvideFeature_world [OF w2(2) assms(2), of CRINIT_TASK_STATE_DONE] by (auto elim!: ret_satE)
  obtain v where v: "task_map (taskDB w3) ?n = Some v" "eased (with_state (stamp (clockEnd s) 4) 4 u) v"
    by (rule all_easedE [OF all_eased_trans [OF w2(3) w3(3)] w1(4)])
  have "state v = CRINIT_TASK_STATE_DONE \<and> failCount v = 0" using eased_sel(2,4) [OF v(2)] by (simp add: with_state_def)
  moreover have "same_env w w3" using same_env_trans [OF same_env_trans [OF w1(3) w2(4)] w3(4)] .
  ultimately show ?thesis
    using v(1) w1(1) w2(1) w3(1,2) all_eased_deps [OF w3(3) w2(5)] by (simp add: thread_done_def)
qed

lemma threadExitFail_ready:
  assumes "ready caps (name t) w" "\<not> freed t" "waitpidRes s = None # rs" "task_map (taskDB w) (name t) = Some u"
  shows "ret_sat (\<lambda>w'. world_ok w' \<and>
             (\<exists>v. task_map (taskDB w') (name t) = Some v \<and> state v = CRINIT_TASK_STATE_FAILED \<and> pid v = -1 \<and>
                  failCount v = failCount u + 1) \<and>
             (\<forall>v \<in> ran (task_map (taskDB w')). \<lparr>depName = name t, event = CRINIT_TASK_EVENT_FAILED\<rparr> \<notin> set (deps v)))
           (threadExitFail s t p w)"
proof -
  let ?n = "name t" and ?d = "\<lparr>depName = name t, event = CRINIT_TASK_EVENT_FAILED\<rparr>"
  let ?u = "with_state (stamp (clockEnd s) 8) 8 u"
  obtain w1 where w1: "report (clockEnd s) t CRINIT_TASK_STATE_FAILED w = Ret (0, w1)" "world_ok w1" "same_env w w1"
    "task_map (taskDB w1) ?n = Some ?u"
    using SetState_ready [OF assms(1,4), of "clockEnd s" CRINIT_TASK_STATE_FAILED] by (auto simp: report_def elim!: ret_satE)
  have d: "distinct (deps ?u)" using world_ok_deps [OF w1(2,4)] .
  obtain w2 where w2: "on_db (\<lambda>ctx. crinitTaskDBSetTaskPID ctx (-1) ?n) w1 = Ret (0, w2)" "world_ok w2" "same_env w1 w2"
    "task_map (taskDB w2) ?n = Some (?u\<lparr>pid := -1\<rparr>)"
    using setPID.world_update [OF w1(2,4), of "-1"] d by (auto elim!: ret_satE)
  define w3 where "w3 = (if p > 0 then w2\<lparr>trace := trace w2 @ [Reaped p]\<rparr> else w2)"
  have wait: "waitInhibitLock w2 = Unlocked \<and> \<not> inhibitWait w2"
    using assms(1) w1(3) w2(3) by (simp add: ready_def same_env_def)
  then have w3: "(if p > 0 then crinitReapPid (waitWakes s) (waitpidRes s) w2 p else Ret (0, w2)) = Ret (0, w3)"
    by (simp add: w3_def crinitReapPid_def BlockOnWaitInhibit_free assms(3))
  have w3': "world_ok w3" "task_map (taskDB w3) ?n = Some (?u\<lparr>pid := -1\<rparr>)"
    using w2(2,4) by (simp_all add: w3_def world_ok_def)
  obtain w4 where w4: "crinitTaskDBFulfillDep w3 ?d None = Ret (0, w4)" "world_ok w4" "all_eased w3 w4"
    "\<forall>u \<in> ran (task_map (taskDB w4)). ?d \<notin> set (deps u)"
    using FulfillDep_world [OF w3'(1), of ?d] by (auto elim!: ret_satE)
  obtain w5 where w5: "crinitTaskDBProvideFeature w4 t CRINIT_TASK_STATE_FAILED = Ret (0, w5)" "world_ok w5" "all_eased w4 w5"
    using ProvideFeature_world [OF w4(2) assms(2), of CRINIT_TASK_STATE_FAILED] by (auto elim!: ret_satE)
  obtain v where v: "task_map (taskDB w5) ?n = Some v" "eased (?u\<lparr>pid := -1\<rparr>) v"
    by (rule all_easedE [OF all_eased_trans [OF w4(3) w5(3)] w3'(2)])
  have "state v = CRINIT_TASK_STATE_FAILED \<and> pid v = -1 \<and> failCount v = failCount u + 1"
    using eased_sel(2-4) [OF v(2)] by (simp add: with_state_def)
  then show ?thesis
    using v(1) w1(1) w2(1) w3 w4 w5 all_eased_deps [OF w5(3) w4(4)] by (auto simp: threadExitFail_def)
qed

lemma remove_timers_ok: "pool_ok pool \<Longrightarrow> ret_sat pool_ok (remove_timers ds pool)"
proof (induction ds arbitrary: pool)
  case (Cons d ds)
  have "ret_sat pool_ok (if depName d = ''@timer'' then crinitTimerDBRemoveTimer pool (event d) else Ret pool)"
    using Cons.prems by (auto intro: ret_sat_mono [OF RemoveTimer_ok])
  then show ?case using Cons.IH by (auto intro: ret_sat_bind)
qed simp

section \<open>Properties\<close>

text \<open>All that a task has to do is done: its control group is set up and each command can be started and exits with 0.\<close>

definition succeeds :: "string \<Rightarrow> (nat \<Rightarrow> waitOutcome) \<Rightarrow> crinitTask \<Rightarrow> spawnEnv \<Rightarrow> bool" where
  "succeeds caps out t s \<longleftrightarrow> launcherStrdupOk s \<and>
     (case cgroup t of None \<Rightarrow> True | Some cg \<Rightarrow> fst (crinitCGroupConfigure (spawnCg s) cg) = 0) \<and>
     (\<forall>i < length (cmds t). command_starts caps t s i \<and> out i = Exited 0)"

text \<open>
  The task has ended, well or not, and no task waits for that end any more. A task with the option to rearm its trigger
  (\<open>again\<close>) is as it was loaded, with its trigger, if it has any, not yet fired.
\<close>

definition finished :: "string \<Rightarrow> bool \<Rightarrow> bool \<Rightarrow> world \<Rightarrow> bool" where
  "finished n again good w \<longleftrightarrow>
     (\<exists>u. task_map (taskDB w) n = Some u \<and>
        (if again then state u = CRINIT_TASK_STATE_LOADED \<and> triggered u = (trig u = [])
         else state u = (if good then CRINIT_TASK_STATE_DONE else CRINIT_TASK_STATE_FAILED)) \<and>
        (if good then failCount u = 0 else pid u = -1)) \<and>
     (\<forall>u \<in> ran (task_map (taskDB w)).
        \<lparr>depName = n, event = if good then CRINIT_TASK_EVENT_DONE else CRINIT_TASK_EVENT_FAILED\<rparr> \<notin> set (deps u))"

abbreviation rearms :: "crinitTask \<Rightarrow> bool" where "rearms t \<equiv> opts t AND CRINIT_TASK_OPT_TRIGGER_REARM \<noteq> 0"

lemma threadExit_ok:
  assumes "world_ok w" "task_wf t" "finished (name t) False good w"
  shows "ret_sat (\<lambda>w'. world_ok w' \<and> finished (name t) (rearms t) good w') (threadExit (Some t) w)"
proof (cases "rearms t")
  case True
  obtain old where old: "crinitDestroyTask t = Ret old" by (rule DestroyTask_wf [OF assms(2)])
  obtain u where u: "task_map (taskDB w) (name t) = Some u" "if good then failCount u = 0 else pid u = -1"
    using assms(3) by (auto simp: finished_def)
  have d: "distinct (deps u)" using world_ok_deps [OF assms(1) u(1)] .
  obtain w1 where w1: "on_db (\<lambda>ctx. crinitTaskRearmTrigger ctx (name t)) w = Ret (0, w1)" "world_ok w1"
    "task_map (taskDB w1) = (task_map (taskDB w))(name t \<mapsto> u\<lparr>triggered := trig u = [], state := CRINIT_TASK_STATE_LOADED\<rparr>)"
    using rearm.world_update [OF assms(1) u(1)] d by (auto elim!: ret_satE)
  have "finished (name t) True good w1"
    using assms(3) u unfolding finished_def w1(3) by (auto simp: ran_def)
  then show ?thesis using old w1 True by (simp add: threadExit_def crinitFreeTask_def)
next
  case False
  obtain old where old: "crinitDestroyTask t = Ret old" by (rule DestroyTask_wf [OF assms(2)])
  obtain pool where p: "remove_timers (trig t) (timerPool w) = Ret pool" "pool_ok pool"
    using remove_timers_ok [of "timerPool w" "trig t"] assms(1) by (auto simp: world_ok_def elim: ret_satE)
  show ?thesis using assms p old False by (simp add: threadExit_def crinitFreeTask_def world_ok_def finished_def)
qed

lemma HandleCommands_ready:
  assumes "ready caps (name t) w" "task_wf t" "obliging caps out t s"
  shows "ret_sat (\<lambda>(r, p, w'). (r = 0 \<longleftrightarrow> succeeds caps out t s) \<and> ready caps (name t) w') (crinitHandleCommands s (cmds t) t False w)"
proof -
  have c: "\<forall>c \<in> set (cmds t). argv c \<noteq> []" and f: "\<not> freed t" using assms(2) by (auto simp: task_wf_def)
  obtain cmd where l: "get_str LauncherCmd (globOpts w) = Some cmd" "optLock (globOpts w) = Unlocked"
    using assms(1) by (auto simp: ready_def world_ok_def)
  define w1 where "w1 = (case cgroup t of None \<Rightarrow> w | Some cg \<Rightarrow>
    w\<lparr>trace := trace w @ map CgroupChanged (snd (snd (crinitCGroupConfigure (spawnCg s) cg)))\<rparr>)"
  have r1: "ready caps (name t) w1" using assms(1) by (simp add: w1_def split: option.split)
  have "\<lbrakk>launcherStrdupOk s; case cgroup t of None \<Rightarrow> True | Some cg \<Rightarrow> fst (crinitCGroupConfigure (spawnCg s) cg) = 0\<rbrakk> \<Longrightarrow>
     crinitHandleCommands s (cmds t) t False w = handle_loop s t (if uses_launcher t then Some cmd else None) False 0 (cmds t) (-1) w1"
    using GetString_any [OF l(2,1), of True]
    by (cases "cgroup t") (auto simp: crinitHandleCommands_def w1_def uses_launcher_def Let_def split: prod.split)
  moreover have "\<not> (launcherStrdupOk s \<and> (case cgroup t of None \<Rightarrow> True | Some cg \<Rightarrow> fst (crinitCGroupConfigure (spawnCg s) cg) = 0)) \<Longrightarrow>
     \<exists>w'. crinitHandleCommands s (cmds t) t False w = Ret (-1, -1, w') \<and> ready caps (name t) w'"
    using GetString_any [OF l(2,1), of "launcherStrdupOk s"] assms(1)
    by (cases "launcherStrdupOk s") (auto simp: crinitHandleCommands_def Let_def split: option.splits prod.splits)
  ultimately show ?thesis
    using handle_loop_ready [OF r1 f assms(3) subset_refl c, of 0 cmd False "-1"]
    unfolding succeeds_def
    by (cases "launcherStrdupOk s \<and> (case cgroup t of None \<Rightarrow> True | Some cg \<Rightarrow> fst (crinitCGroupConfigure (spawnCg s) cg) = 0)")
      (auto elim!: ret_sat_mono split: if_splits)
qed

lemma thread_body_ready:
  assumes "ready caps (name t) w" "task_wf t" "env_inv (taskEnv t)" "obliging caps out t s"
  shows "ret_sat (\<lambda>(t', w'). task_wf t' \<and> name t' = name t \<and> opts t' = opts t \<and> world_ok w' \<and>
      finished (name t) False (succeeds caps out t s) w')
    (thread_body s t CRINIT_DISPATCH_THREAD_MODE_START w)"
proof -
  have env: "envGrowOk s" "envMallocOk s" "envFmtOk s" using assms(4) by (auto simp: obliging_def)
  obtain rs where rs: "waitpidRes s = None # rs" using assms(4) by (auto simp: obliging_def)
  obtain es where es: "crinitEnvSetSet True True True (taskEnv t) ''CRINIT_TASK_NAME'' (name t) = Ret (0, es)" "env_wf es"
    using es.set_abs [OF assms(3), of "''CRINIT_TASK_NAME''" "name t"] by (auto simp: env_inv_def elim!: ret_satE)
  define t' where "t' = t\<lparr>taskEnv := es\<rparr>"
  have t': "task_wf t'" "name t' = name t" "\<not> freed t'" "opts t' = opts t" "cmds t' = cmds t"
    using assms es(2) by (auto simp: t'_def task_wf_def)
  have o: "obliging caps out t' s" using assms(4) by (simp add: obliging_def t'_def uses_launcher_def)
  have g: "succeeds caps out t' s = succeeds caps out t s"
    by (simp add: succeeds_def command_starts_def uses_launcher_def t'_def)
  obtain r p w1 where w1: "crinitHandleCommands s (cmds t') t' False w = Ret (r, p, w1)" "r = 0 \<longleftrightarrow> succeeds caps out t s"
    "ready caps (name t') w1"
    using HandleCommands_ready [OF _ t'(1) o, of w] assms(1) t'(2) g by (auto elim!: ret_satE)
  then obtain u where u: "task_map (taskDB w1) (name t') = Some u" by (auto simp: ready_def)
  note ends = thread_done_ready [OF w1(3) t'(3), of s] threadExitFail_ready [OF w1(3) t'(3) rs u, of p]
  have b: "thread_body s t CRINIT_DISPATCH_THREAD_MODE_START w = map_ret (Pair t')
      (if succeeds caps out t s then thread_done s t' w1 else threadExitFail s t' p w1)"
    using es(1) env w1(1,2) by (simp add: thread_body_def t'_def Let_def)
  show ?thesis
    using ends t' unfolding b finished_def
    by (cases "succeeds caps out t s") (auto elim!: ret_satE)
qed

text \<open>
  C18: a dispatch thread that runs a task (mode START) comes to its end, with or without the launcher, and the task with it.
  If the launcher's name can be copied, the control group set up, and every command started, and every command exits with
  0, then the task is DONE, its failure count is 0, and no task waits for its end any more. If any of this goes wrong, it is
  FAILED, without a process id, and no task waits for its failure any more. A task whose trigger is rearmed is LOADED again
  instead, its trigger not yet fired. The theorem is about a thread that gets the memory to duplicate its task and to set
  the task's name in its environment, whose waits for its processes end and whose other threads keep the task known and
  waiting uninhibited meanwhile, and, with the launcher, whose default capabilities are known and whose arguments fit
  (see \<open>obliging\<close>).
\<close>

theorem dispatch_outcome:
  assumes "ready caps (name t) w" "i < length (taskSet (taskDB w))" "taskSet (taskDB w) ! i = t" "env_inv (taskEnv t)"
    "obliging caps out t s"
  shows "ret_sat (\<lambda>w'. world_ok w' \<and>
      finished (name t) (opts t AND CRINIT_TASK_OPT_TRIGGER_REARM \<noteq> 0) (succeeds caps out t s) w')
    (crinitDispatchThreadFunc s (InDB i) CRINIT_DISPATCH_THREAD_MODE_START w)"
proof -
  have db: "db_ok (taskDB w)" using assms(1) by (simp add: ready_def world_ok_def)
  have wf: "task_wf t" using db_okD(3) [OF db, of t] nth_mem [OF assms(2)] assms(3) by simp
  have "dupMallocOk s" "dupCopyFault s = NoFault" using assms(5) by (auto simp: obliging_def)
  moreover have "(taskDB w)\<lparr>taskSet := (taskSet (taskDB w))[i := t], lock := Unlocked\<rparr> = taskDB w"
    using assms(3) db by (cases "taskDB w") (auto simp: db_ok_def)
  ultimately have f: "crinitDispatchThreadFunc s (InDB i) CRINIT_DISPATCH_THREAD_MODE_START w =
      bind_run (thread_body s t CRINIT_DISPATCH_THREAD_MODE_START w) (\<lambda>(t', w). threadExit (Some t') w)"
    using db assms(2,3) TaskDup_same [OF wf]
    by (simp add: crinitDispatchThreadFunc_def Let_def db_ok_def upd_task_def)
  obtain t' w1 where w1: "thread_body s t CRINIT_DISPATCH_THREAD_MODE_START w = Ret (t', w1)" "task_wf t'" "name t' = name t"
    "opts t' = opts t" "world_ok w1" "finished (name t) False (succeeds caps out t s) w1"
    using thread_body_ready [OF assms(1) wf assms(4,5)] by (auto simp only: split_paired_all prod.case elim!: ret_satE)
  show ?thesis unfolding f w1(1) bind_run.simps prod.case
    using threadExit_ok [OF w1(5,2), of "succeeds caps out t s"] w1(3,4,6) by simp
qed

definition sampleSpawnEnv :: "(nat \<Rightarrow> waitOutcome) \<Rightarrow> spawnEnv" where
  "sampleSpawnEnv out =
     \<lparr>dupMallocOk = True, dupCopyFault = NoFault, envGrowOk = True, envMallocOk = True, envFmtOk = True,
      launcherStrdupOk = True, capsStrdupOk = True, spawnCaps = sampleCapEnv, spawnCg = sampleCgroupEnv,
      launchMemOk = True, fileActInitOk = (\<lambda>_. True), fileActAddOk = (\<lambda>_. True), mkfifoErr = (\<lambda>_. 0),
      statFifo = (\<lambda>_. None), posixSpawn = (\<lambda>i. (0, 100 + int i)), waitid = (\<lambda>i w. (out i, w)),
      waitWakes = [], waitpidRes = [None], clockRun = None, clockEnd = None\<rparr>"

definition sampleShell :: crinitTask where
  "sampleShell = (sampleTask ''a'')\<lparr>cmds := [\<lparr>argv = [''/bin/true'']\<rparr>, \<lparr>argv = [''/bin/false'']\<rparr>]\<rparr>"

definition sampleDaemon :: "crinitTask list \<Rightarrow> world" where
  "sampleDaemon ts = (sampleWorld ts)\<lparr>globOpts := crinitGlobOpts\<lparr>launcherCmd := Some ''/usr/bin/crinit-launch'',
     defaultCaps := Some []\<rparr>\<rparr>"

lemma sampleDaemon_sel [simp]:
  "taskDB (sampleDaemon ts) = sampleDB ts" "inhibitWait (sampleDaemon ts) = False"
  "waitInhibitLock (sampleDaemon ts) = Unlocked" "trace (sampleDaemon ts) = []"
  "world_ok (sampleDaemon ts) = world_ok (sampleWorld ts)"
  "optLock (globOpts (sampleDaemon ts)) = Unlocked" "slots (timerPool (sampleDaemon ts)) = []"
  "poolLock (timerPool (sampleDaemon ts)) = Unlocked"
  by (simp_all add: sampleDaemon_def world_ok_def crinitGlobOpts_def Let_def sampleWorld_def)

theorem dispatch_outcome_witness:
  "ret_sat (\<lambda>w'. map_option state (task_map (taskDB w') ''a'') = Some CRINIT_TASK_STATE_FAILED)
     (crinitDispatchThreadFunc (sampleSpawnEnv (\<lambda>i. if i = 0 then Exited 0 else Exited 1)) (InDB 0)
        CRINIT_DISPATCH_THREAD_MODE_START (sampleDaemon [sampleShell]))"
proof -
  let ?out = "\<lambda>i :: nat. if i = 0 then Exited 0 else Exited 1"
  have "task_wf sampleShell" using sampleTask_wf(1) [of "''a''"] by (auto simp: sampleShell_def task_wf_def)
  then have "world_ok (sampleDaemon [sampleShell])" by (simp add: sampleShell_def)
  then have r: "ready [] (name sampleShell) (sampleDaemon [sampleShell])"
    by (simp add: ready_def task_map_def sampleShell_def) (simp add: sampleDaemon_def)
  have o: "obliging [] ?out sampleShell (sampleSpawnEnv ?out)"
    by (auto simp: obliging_def sampleSpawnEnv_def sampleShell_def sampleTask_def uses_launcher_def)
  have f: "\<not> succeeds [] ?out sampleShell (sampleSpawnEnv ?out)"
    by (auto simp: succeeds_def sampleShell_def intro: exI [of _ 1])
  have a: "opts sampleShell AND CRINIT_TASK_OPT_TRIGGER_REARM = 0" by (simp add: sampleShell_def sampleTask_def)
  have "ret_sat (\<lambda>w'. world_ok w' \<and> finished (name sampleShell) (opts sampleShell AND CRINIT_TASK_OPT_TRIGGER_REARM \<noteq> 0)
        (succeeds [] ?out sampleShell (sampleSpawnEnv ?out)) w')
     (crinitDispatchThreadFunc (sampleSpawnEnv ?out) (InDB 0) CRINIT_DISPATCH_THREAD_MODE_START (sampleDaemon [sampleShell]))"
    by (rule dispatch_outcome [OF r _ _ _ o]) (use sampleEnv_wf in \<open>simp_all add: sampleShell_def sampleTask_def\<close>)
  then show ?thesis using f a by (elim ret_sat_mono) (auto simp: finished_def, auto simp: sampleShell_def)
qed

text \<open>
  A thread that cannot duplicate its task, for want of memory, reads through a null pointer
  on its way out.
\<close>

lemma dispatch_without_copy:
  assumes "\<not> dupMallocOk s" "lock (taskDB w) = Unlocked" "i < length (taskSet (taskDB w))"
  shows "crinitDispatchThreadFunc s (InDB i) mode w = Undef"
  using assms by (simp add: crinitDispatchThreadFunc_def crinitTaskDup_def threadExit_def)

text \<open>
  Preparing the arguments for the launcher reads past the end of the array of argument
  pointers as soon as the arguments have, with their terminating zeros, more bytes than the
  array: more than eight per argument, on average.
\<close>

lemma launcher_long_arguments:
  assumes "argv c \<noteq> []" "optLock (globOpts w) = Unlocked" "defaultCaps (globOpts w) = Some caps"
    "crinitCapConvertToBitmask (spawnCaps s) 0 caps = Ret (0, m)" "capsStrdupOk s" "launchMemOk s"
    "sum_list (map (\<lambda>a. length a + 1) (tl (argv c))) > 8 * (argc c + 1)"
  shows "crinitCreateLauncherParameters s c t cmd w = Undef"
  using assms by (simp add: crinitCreateLauncherParameters_def GetString_ok)

end
