(* ===== verification/ConfSpec.thy ===== *)
theory ConfSpec
  imports TaskConf
begin

text \<open>
  Properties of the configuration layer: which options a configuration file can change, what a
  verified configuration means, users and groups, includes, and tasks as their files describe
  them.
\<close>

section \<open>The options of signature checking\<close>

text \<open>What decides about signatures: whether they are checked and where the keys are.\<close>

definition sig_opts :: "crinitGlobOptStore \<Rightarrow> bool \<times> string option" where
  "sig_opts g = (signatures g, sigKeyDir g)"

text \<open>A handler called for a task or series file leaves a part of the world as it is, whatever it returns.\<close>

definition keeps :: "(world \<Rightarrow> 'o) \<Rightarrow> crinitConfigHandler \<Rightarrow> bool" where
  "keeps obs h \<longleftrightarrow>
     (\<forall>e mem tgt val type w r tgt' w'. type \<noteq> CRINIT_CONFIG_TYPE_KCMDLINE \<longrightarrow>
        h e mem tgt val type w = Ret (r, tgt', w') \<longrightarrow> obs w' = obs w)"

abbreviation keeps_sig :: "crinitConfigHandler \<Rightarrow> bool" where
  "keeps_sig \<equiv> keeps (\<lambda>w. sig_opts (globOpts w))"

lemma keeps_sigI:
  "(\<And>e mem tgt val type w r tgt' w'. type \<noteq> CRINIT_CONFIG_TYPE_KCMDLINE \<Longrightarrow>
      h e mem tgt val type w = Ret (r, tgt', w') \<Longrightarrow> sig_opts (globOpts w') = sig_opts (globOpts w)) \<Longrightarrow> keeps_sig h"
  unfolding keeps_def by blast

named_theorems sig_frame \<open>operations that keep the options of signature checking\<close>

lemma Borrow_sig [sig_frame]: "crinitGlobOptBorrow g = Ret g' \<Longrightarrow> sig_opts g' = sig_opts g"
  by (cases "optLock g") (auto simp: crinitGlobOptBorrow_def sig_opts_def)

lemma Remit_sig [simp]: "sig_opts (snd (crinitGlobOptRemit g)) = sig_opts g"
  by (auto simp: crinitGlobOptRemit_def sig_opts_def split: prod.splits)

lemma remit_with_sig [simp]: "sig_opts (snd (remit_with r g)) = sig_opts g"
  by (auto simp: remit_with_def crinitGlobOptRemit_def sig_opts_def split: prod.splits)

lemma put_sig [simp]:
  "m \<noteq> SigKeyDir \<Longrightarrow> sig_opts (put_str m v g) = sig_opts g"
  "b \<noteq> Signatures \<Longrightarrow> sig_opts (put_bool b x g) = sig_opts g"
  "sig_opts (put_ull u n g) = sig_opts g"
  by ((cases m; simp add: sig_opts_def), (cases b; simp add: sig_opts_def), (cases u; simp add: sig_opts_def))

lemma upd_sig [simp]:
  "sig_opts (g\<lparr>globEnv := a\<rparr>) = sig_opts g" "sig_opts (g\<lparr>globCgroups := b\<rparr>) = sig_opts g"
  "sig_opts (g\<lparr>rootCgroup := c\<rparr>) = sig_opts g" "sig_opts (g\<lparr>optFreed := d\<rparr>) = sig_opts g"
  "sig_opts (g\<lparr>tasks := t\<rparr>) = sig_opts g" "sig_opts (g\<lparr>globCgroupsRoom := n\<rparr>) = sig_opts g"
  by (simp_all add: sig_opts_def)

lemma SetString_sig [sig_frame]:
  "crinitGlobOptSetString ok m g v = Ret (r, g') \<Longrightarrow> m \<noteq> SigKeyDir \<Longrightarrow> sig_opts g' = sig_opts g"
  by (auto simp: crinitGlobOptSetString_def bind_run_eq_Ret_iff split: if_splits
      dest!: Borrow_sig) (metis put_sig(1) remit_with_sig snd_conv)+

lemma SetBoolean_sig [sig_frame]:
  "crinitGlobOptSetBoolean m g v = Ret (r, g') \<Longrightarrow> m \<noteq> Signatures \<Longrightarrow> sig_opts g' = sig_opts g"
  by (auto simp: crinitGlobOptSetBoolean_def bind_run_eq_Ret_iff dest!: Borrow_sig)
    (metis put_sig(2) remit_with_sig snd_conv)

lemma SetUnsignedLL_sig [sig_frame]:
  "crinitGlobOptSetUnsignedLL m g v = Ret (r, g') \<Longrightarrow> sig_opts g' = sig_opts g"
  by (auto simp: crinitGlobOptSetUnsignedLL_def bind_run_eq_Ret_iff dest!: Borrow_sig)
    (metis put_sig(3) remit_with_sig snd_conv)

lemma map_ret_eq_Ret_iff: "map_ret f m = Ret y \<longleftrightarrow> (\<exists>x. m = Ret x \<and> y = f x)"
  by (cases m) auto

lemma glob_handler_sig:
  assumes "glob_handler want tgt type w f = Ret (r, tgt', w')" "type \<noteq> CRINIT_CONFIG_TYPE_KCMDLINE"
    and "\<And>g r g'. f g = Ret (r, g') \<Longrightarrow> want \<noteq> CRINIT_CONFIG_TYPE_KCMDLINE \<Longrightarrow> sig_opts g' = sig_opts g"
  shows "sig_opts (globOpts w') = sig_opts (globOpts w)"
  using assms by (fastforce simp: glob_handler_def map_ret_eq_Ret_iff split: if_splits)

lemma task_handler_sig:
  assumes "task_handler tgt type w f = Ret (r, tgt', w')"
    and "\<And>t r t' w'. f t = Ret (r, t', w') \<Longrightarrow> sig_opts (globOpts w') = sig_opts (globOpts w)"
  shows "sig_opts (globOpts w') = sig_opts (globOpts w)"
  using assms by (fastforce simp: task_handler_def map_ret_eq_Ret_iff split: option.splits if_splits)

text \<open>Handlers that do not touch the global options at all.\<close>

lemma local_handlers_sig [sig_frame]:
  "keeps_sig crinitCfgCmdHandler" "keeps_sig crinitCfgStopCmdHandler" "keeps_sig crinitCfgCapClearHandler"
  "keeps_sig crinitCfgCapSetHandler" "keeps_sig crinitCfgDepHandler" "keeps_sig crinitCfgTrigHandler"
  "keeps_sig crinitCfgTrigRearmHandler" "keeps_sig crinitCfgPrvHandler" "keeps_sig crinitCfgFilterHandler"
  "keeps_sig crinitCfgIoRedirHandler" "keeps_sig crinitCfgNameHandler" "keeps_sig crinitCfgRespHandler"
  "keeps_sig crinitCfgRespRetHandler" "keeps_sig crinitCfgUserHandler"
  "keeps_sig crinitCfgElosHandler" "keeps_sig crinitCfgElosServerHandler" "keeps_sig crinitCfgElosPortHandler"
  unfolding crinitCfgCmdHandler_def crinitCfgStopCmdHandler_def crinitCfgCapClearHandler_def crinitCfgCapSetHandler_def
    crinitCfgDepHandler_def crinitCfgTrigHandler_def crinitCfgTrigRearmHandler_def crinitCfgPrvHandler_def
    crinitCfgFilterHandler_def crinitCfgIoRedirHandler_def crinitCfgNameHandler_def crinitCfgRespHandler_def
    crinitCfgRespRetHandler_def crinitCfgUserHandler_def crinitCfgElosHandler_def
    crinitCfgElosServerHandler_def crinitCfgElosPortHandler_def keeps_def
  by (auto simp: task_handler_def map_ret_eq_Ret_iff bind_run_eq_Ret_iff
      split: option.splits if_splits)

lemma GroupHandler_sig [sig_frame]: "keeps_sig crinitCfgGroupHandler"
proof (rule keeps_sigI)
  fix e mem tgt val type w r tgt' w'
  assume "crinitCfgGroupHandler e mem tgt val type w = Ret (r, tgt', w')"
  then show "sig_opts (globOpts w') = sig_opts (globOpts w)"
    unfolding crinitCfgGroupHandler_def
    by (rule task_handler_sig, clarsimp simp: bind_run_eq_Ret_iff) (auto split: option.split_asm if_split_asm)
qed

text \<open>Handlers that store an option.\<close>

lemma storing_handlers_sig [sig_frame]:
  "keeps_sig crinitCfgDefaultCapsHandler" "keeps_sig crinitCfgDebugHandler" "keeps_sig crinitCfgTaskDirSlHandler"
  "keeps_sig crinitCfgSyslogHandler" "keeps_sig crinitCfgInclSuffixHandler" "keeps_sig crinitCfgTaskSuffixHandler"
  "keeps_sig crinitCfgInclDirHandler" "keeps_sig crinitCfgTaskDirHandler" "keeps_sig crinitCfgLauncherCmdHandler"
  "keeps_sig crinitCfgShdGpHandler" "keeps_sig crinitCfgElosEventPollIntervalHandler"
  unfolding crinitCfgDefaultCapsHandler_def crinitCfgDebugHandler_def crinitCfgTaskDirSlHandler_def
    crinitCfgSyslogHandler_def crinitCfgInclSuffixHandler_def crinitCfgTaskSuffixHandler_def crinitCfgInclDirHandler_def
    crinitCfgTaskDirHandler_def crinitCfgLauncherCmdHandler_def crinitCfgShdGpHandler_def
    crinitCfgElosEventPollIntervalHandler_def
  by (rule keeps_sigI, erule (1) glob_handler_sig,
      force simp: set_bool_opt_def split: if_split_asm option.split_asm
        dest: SetString_sig SetBoolean_sig SetUnsignedLL_sig)+

lemma CgroupRootNameHandler_sig [sig_frame]: "keeps_sig crinitCfgCgroupRootNameHandler"
proof (rule keeps_sigI)
  fix e mem tgt val type w r tgt' w'
  assume h: "crinitCfgCgroupRootNameHandler e mem tgt val type w = Ret (r, tgt', w')" and t: "type \<noteq> CRINIT_CONFIG_TYPE_KCMDLINE"
  show "sig_opts (globOpts w') = sig_opts (globOpts w)"
    using h [unfolded crinitCfgCgroupRootNameHandler_def] t
    by (rule glob_handler_sig, clarsimp simp: bind_run_eq_Ret_iff split: if_split_asm)
      (auto simp: bind_run_eq_Ret_iff Let_def case_prod_beta split: option.split_asm if_split_asm dest!: Borrow_sig)
qed

lemma CgroupRootParamsHandler_sig [sig_frame]: "keeps_sig crinitCfgCgroupRootParamsHandler"
proof (rule keeps_sigI)
  fix e mem tgt val type w r tgt' w'
  assume h: "crinitCfgCgroupRootParamsHandler e mem tgt val type w = Ret (r, tgt', w')" and t: "type \<noteq> CRINIT_CONFIG_TYPE_KCMDLINE"
  show "sig_opts (globOpts w') = sig_opts (globOpts w)"
    using h [unfolded crinitCfgCgroupRootParamsHandler_def] t
    by (rule glob_handler_sig, clarsimp simp: bind_run_eq_Ret_iff split: if_split_asm)
      (auto simp: bind_run_eq_Ret_iff Let_def case_prod_beta split: option.split_asm if_split_asm dest!: Borrow_sig)
qed

lemma CgroupGlobalNameHandler_sig [sig_frame]: "keeps_sig crinitCfgCgroupGlobalNameHandler"
proof (rule keeps_sigI)
  fix e mem tgt val type w r tgt' w'
  assume h: "crinitCfgCgroupGlobalNameHandler e mem tgt val type w = Ret (r, tgt', w')" and t: "type \<noteq> CRINIT_CONFIG_TYPE_KCMDLINE"
  show "sig_opts (globOpts w') = sig_opts (globOpts w)"
    using h [unfolded crinitCfgCgroupGlobalNameHandler_def] t
    by (rule glob_handler_sig, clarsimp simp: bind_run_eq_Ret_iff split: if_split_asm)
      (auto simp: bind_run_eq_Ret_iff Let_def case_prod_beta split: option.split_asm if_split_asm dest!: Borrow_sig)
qed

lemma CgroupGlobalParamsHandler_sig [sig_frame]: "keeps_sig crinitCfgCgroupGlobalParamsHandler"
proof (rule keeps_sigI)
  fix e mem tgt val type w r tgt' w'
  assume h: "crinitCfgCgroupGlobalParamsHandler e mem tgt val type w = Ret (r, tgt', w')" and t: "type \<noteq> CRINIT_CONFIG_TYPE_KCMDLINE"
  show "sig_opts (globOpts w') = sig_opts (globOpts w)"
    using h [unfolded crinitCfgCgroupGlobalParamsHandler_def] t
    by (rule glob_handler_sig, clarsimp simp: bind_run_eq_Ret_iff split: if_split_asm)
      (auto simp: bind_run_eq_Ret_iff Let_def case_prod_beta split: option.split_asm if_split_asm dest!: Borrow_sig)
qed

lemma CgroupNameHandler_sig [sig_frame]: "keeps_sig crinitCfgCgroupNameHandler"
proof (rule keeps_sigI)
  fix e mem tgt val type w r tgt' w'
  assume "crinitCfgCgroupNameHandler e mem tgt val type w = Ret (r, tgt', w')"
  then show "sig_opts (globOpts w') = sig_opts (globOpts w)"
    unfolding crinitCfgCgroupNameHandler_def
    by (rule task_handler_sig)
      (auto simp: bind_run_eq_Ret_iff Let_def case_prod_beta split: option.split_asm if_split_asm dest!: Borrow_sig)
qed

lemma CgroupParamsHandler_sig [sig_frame]: "keeps_sig crinitCfgCgroupParamsHandler"
proof (rule keeps_sigI)
  fix e mem tgt val type w r tgt' w'
  assume "crinitCfgCgroupParamsHandler e mem tgt val type w = Ret (r, tgt', w')"
  then show "sig_opts (globOpts w') = sig_opts (globOpts w)"
    unfolding crinitCfgCgroupParamsHandler_def
    by (rule task_handler_sig)
      (auto simp: bind_run_eq_Ret_iff Let_def split: option.split_asm if_split_asm addParam.split_asm dest!: Borrow_sig)
qed

lemma EnvHandler_sig [sig_frame]: "keeps_sig crinitCfgEnvHandler"
proof (rule keeps_sigI)
  fix e mem tgt val type w r tgt' w'
  assume "crinitCfgEnvHandler e mem tgt val type w = Ret (r, tgt', w')"
  then show "sig_opts (globOpts w') = sig_opts (globOpts w)"
    unfolding crinitCfgEnvHandler_def
    by (auto simp: bind_run_eq_Ret_iff case_prod_beta split: option.split_asm if_split_asm crinitConfigType.split_asm
        dest!: Borrow_sig)
qed

lemma remit_with_sigD: "remit_with r g = (a, g') \<Longrightarrow> sig_opts g' = sig_opts g"
  using remit_with_sig [of r g] by simp

lemma TasksHandler_sig [sig_frame]: "keeps_sig crinitCfgTasksHandler"
proof (rule keeps_sigI)
  fix e mem tgt val type w r tgt' w'
  assume h: "crinitCfgTasksHandler e mem tgt val type w = Ret (r, tgt', w')" and t: "type \<noteq> CRINIT_CONFIG_TYPE_KCMDLINE"
  show "sig_opts (globOpts w') = sig_opts (globOpts w)"
    using h [unfolded crinitCfgTasksHandler_def] t
    apply (rule glob_handler_sig)
    apply (clarsimp simp: bind_run_eq_Ret_iff)
    apply (simp split: option.split_asm)
    apply (clarsimp simp: bind_run_eq_Ret_iff)
    apply (drule Borrow_sig)
    apply (simp split: option.split_asm if_split_asm)
    apply (drule remit_with_sigD, simp)
    done
qed

text \<open>The handlers that can be reached from a series file or a task file.\<close>

lemma series_map_sig: "m \<in> set crinitSeriesCfgMap \<Longrightarrow> keeps_sig (cfgHandler m)"
  by (auto simp: crinitSeriesCfgMap_def sig_frame)

lemma task_map_sig: "keeps_sig inc \<Longrightarrow> m \<in> set (crinitTaskCfgMap inc) \<Longrightarrow> keeps_sig (cfgHandler m)"
  by (auto simp: crinitTaskCfgMap_def sig_frame)

section \<open>Configuration files cannot change them\<close>

lemma GetString_sig: "crinitGlobOptGetString ok m g = Ret (r, s, g') \<Longrightarrow> sig_opts g' = sig_opts g"
  by (auto simp: crinitGlobOptGetString_def bind_run_eq_Ret_iff case_prod_beta split: option.split_asm if_split_asm
      dest!: Borrow_sig)

lemma GetBoolean_sig: "crinitGlobOptGetBoolean m g = Ret (r, b, g') \<Longrightarrow> sig_opts g' = sig_opts g"
  by (auto simp: crinitGlobOptGetBoolean_def bind_run_eq_Ret_iff case_prod_beta dest!: Borrow_sig)

lemma GetEnvSet_sig: "crinitGlobOptGetEnvSet a b m g v = Ret (r, es, g') \<Longrightarrow> sig_opts g' = sig_opts g"
  by (auto simp: crinitGlobOptGetEnvSet_def bind_run_eq_Ret_iff case_prod_beta dest!: Borrow_sig)

lemma ParseConf_sig:
  assumes "crinitParseConf e memOk g f = Ret (c, g')"
  shows "sig_opts g' = sig_opts g"
proof (cases "binFile (cfSig e) f")
  case (Some body)
  show ?thesis
  proof (cases "body = [] \<or> \<not> memOk")
    case False
    with assms Some obtain r b g1 where "crinitGlobOptGetBoolean Signatures g = Ret (r, b, g1)" "g' = g1"
      by (auto simp: crinitParseConf_def Let_def bind_run_eq_Ret_iff case_prod_beta split: if_split_asm)
    then show ?thesis using GetBoolean_sig by auto
  next
    case True
    with assms Some show ?thesis by (auto simp: crinitParseConf_def)
  qed
next
  case None
  with assms show ?thesis by (simp add: crinitParseConf_def)
qed

lemma FindConfigMapping_mem: "crinitFindConfigMapping m k = Some x \<Longrightarrow> x \<in> set m"
  using bsearch_Some by (fastforce simp: crinitFindConfigMapping_def)

lemma call_handler_keeps:
  "call_handler m e mem tgt val type w = Ret (r, tgt', w') \<Longrightarrow> keeps obs (cfgHandler m) \<Longrightarrow>
   type \<noteq> CRINIT_CONFIG_TYPE_KCMDLINE \<Longrightarrow> obs w' = obs w"
  by (auto simp: call_handler_def keeps_def split: option.split_asm)

text \<open>
  What reading a task file leaves as it is: a part of the world that the options matter for at most by those of signature
  checking, and that the handlers of the task options keep.
\<close>

locale config_frame =
  fixes obs :: "world \<Rightarrow> 'o"
  assumes opts: "sig_opts g = sig_opts (globOpts w) \<Longrightarrow> obs (w\<lparr>globOpts := g\<rparr>) = obs w"
    and task_map: "keeps obs inc \<Longrightarrow> m \<in> set (crinitTaskCfgMap inc) \<Longrightarrow> keeps obs (cfgHandler m)"
begin

lemma set_entries_frame:
  assumes "set_entries cfgMap e at type imp i seen kvs tgt w = Ret (r, tgt', w')"
    and keep: "\<And>m. m \<in> set cfgMap \<Longrightarrow> keeps obs (cfgHandler m)"
  shows "obs w' = obs w"
  using assms(1)
proof (induction kvs arbitrary: imp i seen tgt w)
  case (Cons kv kvs)
  obtain key val where kv: "kv = (key, val)" by (cases kv)
  show ?case
  proof (cases "crinitFindConfigMapping cfgMap key")
    case None
    with Cons kv show ?thesis by simp
  next
    case (Some m)
    have call: "call_handler m e mem tgt val CRINIT_CONFIG_TYPE_TASK w = Ret (q, t, x) \<Longrightarrow> obs x = obs w" for mem q t x
      using call_handler_keeps keep [OF FindConfigMapping_mem [OF Some]] by blast
    show ?thesis
      using Cons.prems Some
      by (auto simp: kv bind_run_eq_Ret_iff case_prod_beta split: if_split_asm dest!: Cons.IH dest: call)
  qed
qed simp

lemma SetFromConfKvList_frame:
  "crinitTaskSetFromConfKvList cfgMap e at tgt src type imp w = Ret (r, tgt', w') \<Longrightarrow>
   (\<And>m. m \<in> set cfgMap \<Longrightarrow> keeps obs (cfgHandler m)) \<Longrightarrow> obs w' = obs w"
  using set_entries_frame by (fastforce simp: crinitTaskSetFromConfKvList_def split: if_split_asm option.split_asm)

lemma incl_map_frame: "m \<in> set inclCfgMap \<Longrightarrow> keeps obs (cfgHandler m)"
  unfolding inclCfgMap_def by (rule task_map) (simp_all add: keeps_def)

lemma MergeInclude_frame:
  assumes "crinitTaskMergeInclude e mem t src imp w = Ret (r, tgt', w')"
  shows "obs w' = obs w"
  using assms
  by (auto simp: crinitTaskMergeInclude_def Let_def opts elim!: bind_RetE
      split: if_split_asm option.split_asm dest!: GetString_sig ParseConf_sig SetFromConfKvList_frame [OF _ incl_map_frame])

lemma IncludeHandler_frame: "keeps obs crinitTaskIncludeHandler"
  by (auto simp: keeps_def crinitTaskIncludeHandler_def bind_run_eq_Ret_iff split: if_split_asm option.split_asm
      dest!: MergeInclude_frame)

lemma CreateFromConfKvList_frame:
  assumes "crinitTaskCreateFromConfKvList e mem c w = Ret (d, w')"
  shows "obs w' = obs w"
  using assms
  by (auto simp: crinitTaskCreateFromConfKvList_def Let_def opts elim!: bind_RetE split: if_split_asm option.split_asm
      dest!: GetEnvSet_sig SetFromConfKvList_frame [OF _ task_map [OF IncludeHandler_frame]])

end

interpretation conf_sig: config_frame "\<lambda>w. sig_opts (globOpts w)"
  by unfold_locales (simp, rule task_map_sig)

lemma task_handler_db:
  assumes "task_handler tgt type w f = Ret (r, tgt', w')" "\<And>t r t' w'. f t = Ret (r, t', w') \<Longrightarrow> taskDB w' = taskDB w"
  shows "taskDB w' = taskDB w"
  using assms by (fastforce simp: task_handler_def map_ret_eq_Ret_iff split: option.splits if_splits)

lemma task_handlers_db:
  "keeps taskDB crinitCfgCmdHandler" "keeps taskDB crinitCfgStopCmdHandler" "keeps taskDB crinitCfgCapClearHandler"
  "keeps taskDB crinitCfgCapSetHandler" "keeps taskDB crinitCfgDepHandler" "keeps taskDB crinitCfgTrigHandler"
  "keeps taskDB crinitCfgTrigRearmHandler" "keeps taskDB crinitCfgPrvHandler" "keeps taskDB crinitCfgFilterHandler"
  "keeps taskDB crinitCfgIoRedirHandler" "keeps taskDB crinitCfgNameHandler" "keeps taskDB crinitCfgRespHandler"
  "keeps taskDB crinitCfgRespRetHandler" "keeps taskDB crinitCfgUserHandler" "keeps taskDB crinitCfgGroupHandler"
  "keeps taskDB crinitCfgCgroupNameHandler" "keeps taskDB crinitCfgCgroupParamsHandler"
  unfolding crinitCfgCmdHandler_def crinitCfgStopCmdHandler_def crinitCfgCapClearHandler_def crinitCfgCapSetHandler_def
    crinitCfgDepHandler_def crinitCfgTrigHandler_def crinitCfgTrigRearmHandler_def crinitCfgPrvHandler_def
    crinitCfgFilterHandler_def crinitCfgIoRedirHandler_def crinitCfgNameHandler_def crinitCfgRespHandler_def
    crinitCfgRespRetHandler_def crinitCfgUserHandler_def crinitCfgGroupHandler_def crinitCfgCgroupNameHandler_def
    crinitCfgCgroupParamsHandler_def keeps_def
  by (intro allI impI, (erule task_handler_db)?,
      (auto simp: Let_def map_ret_eq_Ret_iff elim!: bind_RetE split: option.split_asm if_split_asm prod.split_asm addParam.split_asm)[1])+

lemma EnvHandler_db: "keeps taskDB crinitCfgEnvHandler"
  unfolding crinitCfgEnvHandler_def keeps_def
  by (auto simp: bind_run_eq_Ret_iff case_prod_beta split: option.split_asm if_split_asm crinitConfigType.split_asm)

interpretation conf_db: config_frame taskDB
  by unfold_locales (auto simp: crinitTaskCfgMap_def task_handlers_db EnvHandler_db)

lemma series_entries_sig:
  "series_entries e i seen kvs w = Ret (r, seen', w') \<Longrightarrow> sig_opts (globOpts w') = sig_opts (globOpts w)"
proof (induction kvs arbitrary: i seen w)
  case (Cons kv kvs)
  obtain key val where kv: "kv = (key, val)" by (cases kv)
  show ?case
  proof (cases "crinitFindConfigMapping crinitSeriesCfgMap key")
    case None
    with Cons kv show ?thesis by simp
  next
    case (Some m)
    have call: "call_handler m e mem tgt val CRINIT_CONFIG_TYPE_SERIES w = Ret (q, t, x) \<Longrightarrow>
        sig_opts (globOpts x) = sig_opts (globOpts w)" for mem tgt q t x
      using call_handler_keeps series_map_sig [OF FindConfigMapping_mem [OF Some]] by blast
    show ?thesis
      using Cons.prems Some
      by (auto simp: kv bind_run_eq_Ret_iff case_prod_beta split: if_split_asm dest!: Cons.IH dest: call)
  qed
qed simp

lemma InclDirHandler_sig:
  "crinitCfgInclDirHandler e mem tgt val CRINIT_CONFIG_TYPE_SERIES w = Ret (r, tgt', w') \<Longrightarrow>
   sig_opts (globOpts w') = sig_opts (globOpts w)"
  using storing_handlers_sig(7) by (fastforce simp: keeps_def)

lemma LoadSeriesConf_sig:
  assumes "crinitLoadSeriesConf e mem f w = Ret (r, w')"
  shows "sig_opts (globOpts w') = sig_opts (globOpts w)"
  using assms
  by (auto simp: crinitLoadSeriesConf_def Let_def elim!: bind_RetE split: if_split_asm option.split_asm
      dest!: ParseConf_sig series_entries_sig GetString_sig InclDirHandler_sig)

text \<open>
  Neither a series file nor a task file (with all it includes) changes whether signatures are
  checked or where the keys are looked up, whether loading it succeeds or fails.
\<close>

lemma config_keeps_signatures:
  assumes "crinitLoadSeriesConf e mem f w = Ret (r, w1)" "crinitTaskCreateFromConfKvList e mem' c w1 = Ret (d, w2)"
  shows "signatures (globOpts w2) = signatures (globOpts w) \<and> sigKeyDir (globOpts w2) = sigKeyDir (globOpts w)"
  using LoadSeriesConf_sig [OF assms(1)] conf_sig.CreateFromConfKvList_frame [OF assms(2)] by (simp add: sig_opts_def)

subsection \<open>Samples\<close>

definition sampleConfWorld :: "bool \<Rightarrow> world" where
  "sampleConfWorld sg = (sampleWorld [])\<lparr>globOpts := crinitGlobOpts\<lparr>signatures := sg, taskDir := Some ''/d'', inclDir := Some ''/i'',
     inclSuffix := Some ''.c'', taskFileSuffix := Some ''.t'', globEnv := sampleEnv, globFilters := sampleEnv\<rparr>\<rparr>"

abbreviation (input) sampleSeries :: "string \<Rightarrow> string option" where
  "sampleSeries \<equiv> (\<lambda>f. if f = ''/s'' then Some (ini_text (''DEBUG'', ''YES'')) else if f = ''/s.sig'' then Some ''RD'' else None)"

lemma sampleConfWorld_sel [simp]:
  "optLock (globOpts (sampleConfWorld sg)) = Unlocked" "signatures (globOpts (sampleConfWorld sg)) = sg"
  "sigKeyDir (globOpts (sampleConfWorld sg)) = None" "taskDir (globOpts (sampleConfWorld sg)) = Some ''/d''"
  "inclDir (globOpts (sampleConfWorld sg)) = Some ''/i''" "inclSuffix (globOpts (sampleConfWorld sg)) = Some ''.c''"
  "globEnv (globOpts (sampleConfWorld sg)) = sampleEnv" "globFilters (globOpts (sampleConfWorld sg)) = sampleEnv"
  by (simp_all add: sampleConfWorld_def crinitGlobOpts_def Let_def)

lemma sampleConfEnv_sel [simp]:
  "cfStat (sampleConfEnv fs) = (\<lambda>_. Some (IsDir, True))" "cfMem (sampleConfEnv fs) = (\<lambda>_ _. True)"
  "cfSig (sampleConfEnv fs) = sampleSigEnv\<lparr>binFile := fs\<rparr>" "cfClock (sampleConfEnv fs) = Some zero_time"
  "cfPwuid (sampleConfEnv fs) = (\<lambda>i. Some ''x'')" "cfGrgid (sampleConfEnv fs) = (\<lambda>i. Some ''y'')"
  "cfGrnam (sampleConfEnv fs) = (\<lambda>n. if n = ''g'' then Some 8 else None)"
  "cfPwnam (sampleConfEnv fs) = (\<lambda>n. if n = ''u'' then Some 7 else None)"
  "cfSigCtx (sampleConfEnv fs) = sigCtx0\<lparr>rootKey := Some ''R''\<rparr>"
  by (simp_all add: sampleConfEnv_def)

text \<open>Entries of the tables.\<close>

lemma series_keys [simp]:
  "crinitFindConfigMapping crinitSeriesCfgMap ''DEBUG'' = Some (cfg_map CRINIT_CONFIG_DEBUG ''DEBUG'' False False crinitCfgDebugHandler)"
  by (simp add: bsearch_find [OF series_keys_sorted]) (simp add: crinitSeriesCfgMap_def)

lemma task_keys [simp]:
  "crinitFindConfigMapping (crinitTaskCfgMap inc) ''NAME'' = Some (cfg_map CRINIT_CONFIG_NAME ''NAME'' False False crinitCfgNameHandler)"
  "crinitFindConfigMapping (crinitTaskCfgMap inc) ''COMMAND'' = Some (cfg_map CRINIT_CONFIG_COMMAND ''COMMAND'' True False crinitCfgCmdHandler)"
  "crinitFindConfigMapping (crinitTaskCfgMap inc) ''DEPENDS'' = Some (cfg_map CRINIT_CONFIG_DEPENDS ''DEPENDS'' True True crinitCfgDepHandler)"
  "crinitFindConfigMapping (crinitTaskCfgMap inc) ''INCLUDE'' = Some (cfg_map CRINIT_CONFIG_INCLUDE ''INCLUDE'' True False inc)"
  by (simp_all add: bsearch_find [OF task_keys_sorted]) (simp_all add: crinitTaskCfgMap_def)

lemma sample_series_parsed:
  assumes "optLock g = Unlocked"
  shows "crinitParseConf (sampleConfEnv sampleSeries) True g ''/s'' = Ret (Some [(''DEBUG'', Some ''YES'')], g)"
proof -
  have "\<forall>kv \<in> set [(''DEBUG'', ''YES'')]. conf_entry kv" by (simp add: conf_entry_def ini_entry_def trimmed_def c_isspace_def)
  from ParseConf_entries [OF this, of "sampleConfEnv sampleSeries" "''/s''" g]
  show ?thesis
    by (simp add: crinitMatchQuotedConfig_def sig_accepted_def read_signature_def crinitBinReadAll_def
        crinitVerifySignature_def crinitGenerateHash_def sampleSigEnv_def ini_text_def assms)
qed

lemma sample_series_loaded:
  "crinitLoadSeriesConf (sampleConfEnv sampleSeries) (\<lambda>_. True) ''/s'' (sampleConfWorld sg) =
   Ret (0, (sampleConfWorld sg)\<lparr>globOpts := (globOpts (sampleConfWorld sg))\<lparr>debug := True, inclDir := Some ''/d''\<rparr>\<rparr>)"
  by (simp add: crinitLoadSeriesConf_def crinitIsAbsPath_def sample_series_parsed
      call_handler_def crinitCfgDebugHandler_def glob_handler_def set_bool_opt_def crinitConfConvToBool_def upper_case_def
      crinitGlobOptSetBoolean_def crinitGlobOptBorrow_def remit_with_def crinitGlobOptRemit_def crinitGlobOptGetString_def
      crinitCfgInclDirHandler_def crinitDirExists_def crinitGlobOptSetString_def Let_def)

lemma sample_words: "crinitConfConvToStrArr True True ''/b'' = Ret (Some [''/b''])"
  by code_simp

lemma sample_env_copied:
  "crinitEnvSetDup True True \<lparr>envp = None, allocSz = 0, allocInc = 0\<rparr> sampleEnv = Ret (0, sampleEnv)"
  by code_simp

lemma sample_task_created:
  assumes "optLock (globOpts w) = Unlocked" "globEnv (globOpts w) = sampleEnv" "globFilters (globOpts w) = sampleEnv"
  shows "crinitTaskCreateFromConfKvList (sampleConfEnv fs) (\<lambda>_. True) [(''NAME'', Some ''a''), (''COMMAND'', Some ''/b'')] w =
    Ret (Some (new_draft\<lparr>name := ''a'', named := True, cmds := [\<lparr>argv = [''/b'']\<rparr>], taskEnv := sampleEnv,
                 elosFilters := sampleEnv, triggered := True\<rparr>), w)"
proof -
  have "w\<lparr>globOpts := (globOpts w)\<lparr>optLock := Unlocked\<rparr>\<rparr> = w" using assms(1) by simp
  then show ?thesis
    using assms
    by (simp add: crinitTaskCreateFromConfKvList_def crinitGlobOptGetEnvSet_def crinitGlobOptBorrow_def remit_with_def
        crinitGlobOptRemit_def crinitTaskSetFromConfKvList_def call_handler_def crinitCfgNameHandler_def task_handler_def
        crinitCfgCmdHandler_def crinitCfgHandlerManageArrayMem_def sample_words sample_env_copied new_draft_def Let_def)
qed

section \<open>Verified configurations\<close>

text \<open>A file whose text up to the first zero byte verifies, with the signature beside it, under a known key.\<close>

definition verified_file :: "confEnv \<Rightarrow> string \<Rightarrow> string \<Rightarrow> bool" where
  "verified_file e root f \<longleftrightarrow>
     (\<exists>body s k. binFile (cfSig e) f = Some body \<and> read_signature (cfSig e) (f @ CRINIT_SIGNATURE_FILE_SUFFIX) = Some s \<and>
        k \<in> insert root (set (signedKeys (cfSigCtx e))) \<and>
        verifies (cfSig e) k (takeWhile (\<lambda>c. c \<noteq> CHR 0x00) body) s)"

lemma ParseConf_verified_file:
  assumes "crinitParseConf e memOk g f = Ret (Some c, g')" "optLock g = Unlocked" "signatures g" "sig_ready root (cfSigCtx e)"
  shows "verified_file e root f"
  using ParseConf_verified [OF assms(1-3)]
  by (auto simp: verified_file_def VerifySignature_exact [OF assms(4)] split: if_split_asm)

lemma LoadSeriesConf_parsed:
  assumes "crinitLoadSeriesConf e mem f w = Ret (0, w')"
  obtains c g where "crinitParseConf e (mem 0) (globOpts w) f = Ret (Some c, g)"
  using assms by (auto simp: crinitLoadSeriesConf_def Let_def elim!: bind_RetE split: if_split_asm option.split_asm)

text \<open>
  C9: with signatures in use, a series that was loaded is a verified file, and so is every task file
  or include file read after it: the series cannot turn the check off.
\<close>

theorem verified_configuration:
  assumes "signatures (globOpts w)" "optLock (globOpts w) = Unlocked" "sig_ready root (cfSigCtx e)"
    and "crinitLoadSeriesConf e mem f w = Ret (0, w')" "optLock (globOpts w') = Unlocked"
    and "crinitParseConf e memOk (globOpts w') f' = Ret (Some c, g)"
  shows "verified_file e root f \<and> verified_file e root f'"
proof -
  obtain c' g' where "crinitParseConf e (mem 0) (globOpts w) f = Ret (Some c', g')"
    using LoadSeriesConf_parsed [OF assms(4)] by blast
  moreover have "signatures (globOpts w')" using LoadSeriesConf_sig [OF assms(4)] assms(1) by (simp add: sig_opts_def)
  ultimately show ?thesis using ParseConf_verified_file assms by blast
qed

theorem verified_configuration_witness:
  "\<exists>w'. crinitLoadSeriesConf (sampleConfEnv sampleSeries) (\<lambda>_. True) ''/s'' (sampleConfWorld True) = Ret (0, w') \<and>
        verified_file (sampleConfEnv sampleSeries) ''R'' ''/s''"
proof -
  let ?w = "(sampleConfWorld True)\<lparr>globOpts := (globOpts (sampleConfWorld True))\<lparr>debug := True, inclDir := Some ''/d''\<rparr>\<rparr>"
  have p: "crinitParseConf (sampleConfEnv sampleSeries) True (globOpts ?w) ''/s'' = Ret (Some [(''DEBUG'', Some ''YES'')], globOpts ?w)"
    by (rule sample_series_parsed) simp
  have "sig_ready ''R'' (cfSigCtx (sampleConfEnv sampleSeries))" by (simp add: sig_ready_def)
  from verified_configuration [OF _ _ this sample_series_loaded [of True] _ p]
  show ?thesis by (simp add: sample_series_loaded)
qed

section \<open>Include files\<close>

lemma find_map: "find P (map f xs) = map_option f (find (P \<circ> f) xs)"
  by (induction xs) simp_all

definition with_include :: "crinitConfigHandler \<Rightarrow> crinitConfigMapping \<Rightarrow> crinitConfigMapping" where
  "with_include h m = (if cfgConfig m = CRINIT_CONFIG_INCLUDE then m\<lparr>cfgHandler := h\<rparr> else m)"

lemma with_include_sel [simp]:
  "configKey (with_include h m) = configKey m" "cfgConfig (with_include h m) = cfgConfig m"
  "includeSafe (with_include h m) = includeSafe m" "arrayLike (with_include h m) = arrayLike m"
  by (simp_all add: with_include_def)

lemma TaskCfgMap_with_include: "crinitTaskCfgMap h = map (with_include h) inclCfgMap"
  by (simp add: inclCfgMap_def crinitTaskCfgMap_def with_include_def)

lemma Find_with_include:
  "crinitFindConfigMapping (crinitTaskCfgMap h) k = map_option (with_include h) (crinitFindConfigMapping inclCfgMap k)"
proof -
  have "crinitFindConfigMapping inclCfgMap k = find (\<lambda>m. configKey m = k) inclCfgMap"
    unfolding inclCfgMap_def by (rule bsearch_find [OF task_keys_sorted])
  moreover have "crinitFindConfigMapping (crinitTaskCfgMap h) k = find (\<lambda>m. configKey m = k) (map (with_include h) inclCfgMap)"
    unfolding TaskCfgMap_with_include [symmetric] by (rule bsearch_find [OF task_keys_sorted])
  ultimately show ?thesis by (simp add: find_map comp_def)
qed

lemma include_not_safe:
  "m \<in> set inclCfgMap \<Longrightarrow> includeSafe m \<Longrightarrow> with_include h m = m"
  by (auto simp: inclCfgMap_def crinitTaskCfgMap_def with_include_def)

lemma import_keys_with_include: "import_keys (crinitTaskCfgMap h) ks = import_keys inclCfgMap ks"
  by (induction ks) (auto simp: Find_with_include split: option.splits)

lemma set_entries_with_include:
  "set_entries (crinitTaskCfgMap h) e at CRINIT_TASK_TYPE_INCLUDE imp i seen kvs tgt w =
   set_entries inclCfgMap e at CRINIT_TASK_TYPE_INCLUDE imp i seen kvs tgt w"
proof (induction kvs arbitrary: i seen tgt w)
  case (Cons kv kvs)
  obtain key val where kv: "kv = (key, val)" by fastforce
  show ?case
  proof (cases "crinitFindConfigMapping inclCfgMap key")
    case (Some m)
    show ?thesis
    proof (cases "includeSafe m")
      case True
      then have "with_include h m = m" using include_not_safe FindConfigMapping_mem [OF Some] by blast
      with True show ?thesis by (simp add: kv Find_with_include Some Cons.IH cong: if_cong)
    qed (simp add: kv Find_with_include Some)
  qed (simp add: kv Find_with_include Cons.IH)
qed simp

text \<open>
  C35: include files do not nest: reading the entries of an include file gives the same result whatever
  the handler of the include directive is, the handler of task files among them, since it is
  never called. An include file that includes itself is refused and cannot keep the daemon reading.
\<close>

theorem include_depth_one:
  "crinitTaskSetFromConfKvList (crinitTaskCfgMap h) e at tgt src CRINIT_TASK_TYPE_INCLUDE imports w =
   crinitTaskSetFromConfKvList inclCfgMap e at tgt src CRINIT_TASK_TYPE_INCLUDE imports w"
  by (simp add: crinitTaskSetFromConfKvList_def set_entries_with_include import_keys_with_include
      cong: if_cong option.case_cong)

section \<open>Numbers of users\<close>

lemma id_number_show_int:
  "id_number (show_int v) = (if v < 0 \<or> LONG_MAX < v then None else Some (nat (v mod 4294967296)))"
proof -
  have "show_int v \<noteq> []" by (simp add: show_int_def)
  then show ?thesis
    using strto_raw_show_int [of "[]" v]
    by (auto simp: id_number_def crinitConfConvToIntegerLL_def crinitConfConvToIntegerUI_def int_body_def strtol_def strtoul_def to_uint_def)
qed

lemma show_int_not_alpha: "\<not> c_isalpha (hd (show_int v))"
proof -
  have "c_isdigit (hd (digits_of (nat v)))" using digits_of_isdigit [of _ "nat v"] by simp
  then show ?thesis by (auto simp: show_int_def c_isalpha_def c_isdigit_def Let_def)
qed

text \<open>
  A number given as \<open>USER\<close> selects the user with this number modulo 2 to the power of 32, if
  there is one: 4294967296 is the superuser. Negative numbers and those that do not fit
  a \<open>long\<close> are refused.
\<close>

lemma UserHandler_number:
  "crinitCfgUserHandler e (\<lambda>_. True) (Some t) (show_int v) CRINIT_CONFIG_TYPE_TASK w =
     (if v < 0 \<or> 2 ^ 63 \<le> v then Ret (-1, Some t, w)
      else let uid = nat (v mod 2 ^ 32) in
        case cfPwuid e uid of
          None \<Rightarrow> Ret (-1, Some (t\<lparr>user := uid\<rparr>), w)
        | Some n \<Rightarrow> Ret (0, Some (t\<lparr>user := uid, username := Some n\<rparr>), w))"
  by (simp add: crinitCfgUserHandler_def task_handler_def show_int_not_alpha id_number_show_int crinitUidToUsername_def Let_def
      split: option.split)

section \<open>Task files\<close>

text \<open>The entries of a plain task file: a name and command lines.\<close>

definition task_file :: "string \<Rightarrow> string list \<Rightarrow> (string \<times> string) list" where
  "task_file n cmdLines = (''NAME'', n) # map (Pair ''COMMAND'') cmdLines"

text \<open>A command line as it stands in the file, and the words it is read as.\<close>

definition reads_as :: "string \<Rightarrow> string list \<Rightarrow> bool" where
  "reads_as v as \<longleftrightarrow> as \<noteq> [] \<and> crinitConfConvToStrArr True True (snd (crinitMatchQuotedConfig v)) = Ret (Some as)"

lemma set_entries_commands:
  assumes "list_all2 reads_as vs ass" "cfMem e = (\<lambda>_ _. True)"
  shows "set_entries (crinitTaskCfgMap h) e at CRINIT_TASK_TYPE_STANDARD None i seen
      (map (\<lambda>v. (''COMMAND'', Some (snd (crinitMatchQuotedConfig v)))) vs) (Some d) w =
    Ret (0, Some (d\<lparr>cmds := cmds d @ map (\<lambda>as. \<lparr>argv = as\<rparr>) ass\<rparr>), w)"
  using assms(1)
proof (induction vs ass arbitrary: i seen d rule: list_all2_induct)
  case (Cons v vs as ass)
  then show ?case
    by (simp add: assms(2) call_handler_def crinitCfgCmdHandler_def task_handler_def crinitCfgHandlerManageArrayMem_def
        reads_as_def nth_append Let_def)
qed simp

text \<open>What such a file makes: a task with the global environment that waits for nothing.\<close>

definition plain_task :: "confEnv \<Rightarrow> crinitGlobOptStore \<Rightarrow> string \<Rightarrow> string list list \<Rightarrow> crinitTaskDraft" where
  "plain_task e g n ass =
     new_draft\<lparr>name := n, named := True, cmds := map (\<lambda>as. \<lparr>argv = as\<rparr>) ass, taskEnv := globEnv g, elosFilters := globFilters g,
       triggered := True, createTime := (case cfClock e of None \<Rightarrow> zero_time | Some ts \<Rightarrow> ts)\<rparr>"

lemma EnvSetDup_any: "env_wf es \<Longrightarrow> crinitEnvSetDup True True copy es = Ret (0, es)"
  by (erule env_wfE) (auto simp: crinitEnvSetDup_def crinitEnvSetInit_def env_scan_closed)

lemma plain_task_created:
  assumes "optLock (globOpts w) = Unlocked" "env_wf (globEnv (globOpts w))" "env_wf (globFilters (globOpts w))"
    and "list_all2 reads_as vs ass" "vs \<noteq> []" "cfMem e = (\<lambda>_ _. True)"
  shows "crinitTaskCreateFromConfKvList e (\<lambda>_. True)
      (map (\<lambda>kv. (fst kv, Some (snd (crinitMatchQuotedConfig (snd kv))))) (task_file n vs)) w =
    Ret (Some (plain_task e (globOpts w) (snd (crinitMatchQuotedConfig n)) ass), w)"
proof -
  have w: "w\<lparr>globOpts := (globOpts w)\<lparr>optLock := Unlocked\<rparr>\<rparr> = w" using assms(1) by simp
  have "ass \<noteq> []" using assms(4,5) by auto
  then show ?thesis
    using assms(1-3,6) w
    by (simp add: crinitTaskCreateFromConfKvList_def crinitGlobOptGetEnvSet_def crinitGlobOptBorrow_def remit_with_def
        crinitGlobOptRemit_def crinitTaskSetFromConfKvList_def call_handler_def crinitCfgNameHandler_def task_handler_def
        EnvSetDup_any task_file_def comp_def set_entries_commands [OF assms(4,6)] new_draft_def plain_task_def Let_def)
qed

end
