(* ===== verification/RtimCmdSpec.thy ===== *)
theory RtimCmdSpec
  imports RtimMsg ProcDipSpec ConfSpec
begin

unbundle bit_operations_syntax

text \<open>
  What the handlers of runtime commands do to the daemon, \<open>src/src/rtimcmd.c\<close>: the tasks, the
  inhibition flags, the signals, and the response.
\<close>

section \<open>Queries\<close>

lemma relock_db [simp]: "lock ctx = l \<Longrightarrow> ctx\<lparr>lock := l\<rparr> = ctx"
  by (cases ctx) simp

lemma known_task:
  assumes "db_ok ctx" "task_map ctx n = Some t"
  obtains i where "crinitFindTask (ctx\<lparr>lock := Locked\<rparr>) n = Ret (Some i)" "i < length (taskSet ctx)" "taskSet ctx ! i = t" "name t = n"
proof -
  have wf: "db_wf ctx" using assms(1) by (simp add: db_ok_def)
  obtain i where i: "i < length (taskSet ctx)" "taskSet ctx ! i = t" "name t = n" by (rule task_map_Some [OF wf assms(2)])
  then have "crinitFindTask (ctx\<lparr>lock := Locked\<rparr>) n = Ret (Some i)" using wf by (intro FindTask_present) simp_all
  then show thesis using i by (rule that)
qed

lemma unknown_find:
  "db_ok ctx \<Longrightarrow> task_map ctx n = None \<Longrightarrow> crinitFindTask (ctx\<lparr>lock := Locked\<rparr>) n = Ret None"
  by (intro FindTask_absent) (simp_all add: db_ok_def task_map_None)

lemma GetTaskState_known:
  assumes "db_ok ctx" "task_map ctx n = Some t"
  shows "crinitTaskDBGetTaskState ctx n = Ret (0, state t, ctx)"
  by (rule known_task [OF assms]) (use assms(1) in \<open>simp add: crinitTaskDBGetTaskState_def db_ok_def\<close>)

lemma GetTaskPID_known:
  assumes "db_ok ctx" "task_map ctx n = Some t"
  shows "crinitTaskDBGetTaskPID ctx n = Ret (0, pid t, ctx)"
  by (rule known_task [OF assms]) (use assms(1) in \<open>simp add: crinitTaskDBGetTaskPID_def db_ok_def\<close>)

lemma GetTaskPID_unknown:
  "db_ok ctx \<Longrightarrow> task_map ctx n = None \<Longrightarrow> crinitTaskDBGetTaskPID ctx n = Ret (-1, -1, ctx)"
  by (simp add: crinitTaskDBGetTaskPID_def unknown_find db_ok_def)

lemma GetTaskByName_known:
  assumes "db_ok ctx" "task_map ctx n = Some t"
  shows "crinitTaskDBGetTaskByName True NoFault ctx n = Ret (0, Some t, ctx)"
proof -
  obtain i where i: "crinitFindTask (ctx\<lparr>lock := Locked\<rparr>) n = Ret (Some i)" "i < length (taskSet ctx)" "taskSet ctx ! i = t"
    by (rule known_task [OF assms])
  have "task_wf t" using db_okD(3) [OF assms(1), of t] nth_mem [OF i(2)] i(3) by simp
  moreover have "ctx\<lparr>taskSet := (taskSet ctx)[i := t], lock := Unlocked\<rparr> = ctx"
    using i(3) assms(1) by (cases ctx) (auto simp: db_ok_def)
  ultimately show ?thesis
    using i assms(1) TaskDup_same by (simp add: crinitTaskDBGetTaskByName_def db_ok_def upd_task_def Let_def)
qed

section \<open>Waiting\<close>

lemma SetInhibitWait_free [simp]:
  "waitInhibitLock w = Unlocked \<Longrightarrow> crinitSetInhibitWait w b = Ret (0, w\<lparr>inhibitWait := b, waitInhibitLock := Unlocked\<rparr>)"
  by (simp add: crinitSetInhibitWait_def)

text \<open>What another thread does between two looks at the condition, when it leaves the inhibition and its lock alone.\<close>

definition keeps_inhibited :: "(world \<Rightarrow> world) \<Rightarrow> bool" where
  "keeps_inhibited f \<longleftrightarrow> (\<forall>u. inhibitWait (f u) = inhibitWait u \<and> waitInhibitLock (f u) = waitInhibitLock u)"

lemma ReapPid_inhibited:
  assumes "waitInhibitLock w = Unlocked" "inhibitWait w" "\<forall>f \<in> set wakes. keeps_inhibited f"
  shows "crinitReapPid wakes rs w p = Blocked"
proof -
  have "inhibit_loop wakes u = Blocked" if "inhibitWait u" "waitInhibitLock u = Locked" for u
    using that assms(3) by (induction wakes arbitrary: u) (auto simp: Let_def keeps_inhibited_def)
  then show ?thesis using assms(1,2) by (simp add: crinitReapPid_def crinitBlockOnWaitInhibit_def)
qed

lemma ReapPid_lifted:
  assumes "waitInhibitLock w = Unlocked" "inhibitWait w"
  shows "crinitReapPid ((\<lambda>u. u\<lparr>inhibitWait := False\<rparr>) # wakes) (None # rs) w p =
    Ret (0, w\<lparr>inhibitWait := False, trace := trace w @ [Reaped p]\<rparr>)"
  using assms by (cases wakes; cases w) (simp_all add: crinitReapPid_def crinitBlockOnWaitInhibit_def Let_def)

lemma world_ok_irrelevant [simp]:
  "world_ok (w\<lparr>inhibitWait := b\<rparr>) = world_ok w" "world_ok (w\<lparr>waitInhibitLock := l\<rparr>) = world_ok w"
  "world_ok (w\<lparr>trace := x\<rparr>) = world_ok w"
  by (simp_all add: world_ok_def)

section \<open>Responses\<close>

abbreviation answer_mem :: "rtimEnv \<Rightarrow> bool" where
  "answer_mem e \<equiv> argsMallocOk e \<and> backMallocOk e"

lemma respond_mem [simp]: "answer_mem e \<Longrightarrow> respond e v as w = Ret (Some \<lparr>op = CRINIT_RTIMCMD_R v, args = as\<rparr>, w)"
  by (simp add: respond_def crinitBuildRtimCmd_def)

text \<open>A call whose response, if it gives one, has the opcode of the verb.\<close>

definition only_op :: "rtimVerb \<Rightarrow> (crinitRtimCmd option \<times> world) run \<Rightarrow> bool" where
  "only_op v m \<longleftrightarrow> (\<forall>res w'. m = Ret (Some res, w') \<longrightarrow> op res = CRINIT_RTIMCMD_R v)"

named_theorems only_op_intros

lemma only_op_respond [only_op_intros]: "only_op v (respond e v as w)"
  by (auto simp: only_op_def respond_def crinitBuildRtimCmd_def split: if_splits)

lemma only_op_bind [only_op_intros]: "(\<And>x. only_op v (f x)) \<Longrightarrow> only_op v (bind_run m f)"
  by (cases m) (auto simp: only_op_def)

lemma only_op_Undef [only_op_intros]: "only_op v Undef"
  by (simp add: only_op_def)

lemmas handler_defs = crinitExecRtimCmdAddTask_def crinitExecRtimCmdEnable_def crinitExecRtimCmdDisable_def
  crinitExecRtimCmdStop_def crinitExecRtimCmdRestart_def crinitExecRtimCmdNotify_def crinitExecRtimCmdStatus_def
  crinitExecRtimCmdGetVer_def crinitExecRtimCmdShutdown_def

lemma only_op_handlers:
  "only_op ADDTASK (crinitExecRtimCmdAddTask e w cmd)" "only_op ENABLE (crinitExecRtimCmdEnable e w cmd)"
  "only_op DISABLE (crinitExecRtimCmdDisable e w cmd)" "only_op STOP (crinitExecRtimCmdStop e w cmd)"
  "only_op RESTART (crinitExecRtimCmdRestart e w cmd)" "only_op NOTIFY (crinitExecRtimCmdNotify e w cmd)"
  "only_op STATUS (crinitExecRtimCmdStatus e w cmd)" "only_op GETVER (crinitExecRtimCmdGetVer e w cmd)"
  "only_op SHUTDOWN (crinitExecRtimCmdShutdown e w cmd)"
  unfolding handler_defs Let_def
  by (auto intro!: only_op_intros split: option.split prod.split)

section \<open>Properties\<close>

text \<open>
  A response to a command has the opcode of that command's response, for all commands but
  \<open>ADDSERIES\<close>, \<open>KILL\<close> and \<open>TASKLIST\<close>. A response is never taken for a command.
\<close>

lemma response_opcode:
  assumes "crinitExecRtimCmd e w cmd = Ret (Some res, w')"
  shows "\<exists>v. op cmd = CRINIT_RTIMCMD_C v \<and> (v \<notin> {ADDSERIES, KILL, TASKLIST} \<longrightarrow> op res = CRINIT_RTIMCMD_R v)"
proof (cases "op cmd")
  case (CRINIT_RTIMCMD_C v)
  then have "only_op v (crinitExecRtimCmd e w cmd)" if "v \<notin> {ADDSERIES, KILL, TASKLIST}"
    using that by (cases v) (simp_all add: crinitExecRtimCmd_def only_op_handlers)
  then show ?thesis using assms CRINIT_RTIMCMD_C by (auto simp: only_op_def)
next
  case (CRINIT_RTIMCMD_R v)
  then show ?thesis using assms by (simp add: crinitExecRtimCmd_def)
qed

abbreviation (input) sampleTaskFile :: "string \<Rightarrow> string option" where
  "sampleTaskFile \<equiv> (\<lambda>f. if f = ''/c'' then Some (concat (map ini_text (task_file ''c'' [''/b'']))) else None)"

definition sampleRtimEnv :: rtimEnv where
  "sampleRtimEnv =
     \<lparr>argsMallocOk = True, backMallocOk = True, memOk = True, namesOk = True, depReallocOk = True, depMallocOk = True,
      getDupOk = True, getDupFault = NoFault, insGrowOk = (\<lambda>_. True), insFault = (\<lambda>_. NoFault),
      pathMallocOk = (\<lambda>_. True), namesCallocOk = True, namesDupFail = None, rtimClock = Some \<lparr>tv_sec = 7, tv_nsec = 999999000\<rparr>,
      rtimClockLater = Some \<lparr>tv_sec = 9, tv_nsec = 5\<rparr>,
      killOk = (\<lambda>_ _. True), threadOk = True, version = (0, 15, 2, ''ab12''), rtimConf = (\<lambda>_. sampleConfEnv sampleTaskFile),
      confMem = (\<lambda>_ _. True),
      mounts = Some [''/dev/sda1 / ext4 rw,relatime 0 0'', ''/dev/sda2 /home ext4 rw 0 0'', ''/dev/sda3 /home/a ext4 rw 0 0''],
      mountMemOk = True, umountOk = (\<lambda>_. True), remountOk = True\<rparr>"

lemma sampleRtimEnv_sel [simp]:
  "argsMallocOk sampleRtimEnv" "backMallocOk sampleRtimEnv" "memOk sampleRtimEnv" "getDupOk sampleRtimEnv"
  "getDupFault sampleRtimEnv = NoFault" "killOk sampleRtimEnv p s" "depReallocOk sampleRtimEnv" "depMallocOk sampleRtimEnv"
  "rtimClock sampleRtimEnv = Some \<lparr>tv_sec = 7, tv_nsec = 999999000\<rparr>" "rtimClockLater sampleRtimEnv = Some \<lparr>tv_sec = 9, tv_nsec = 5\<rparr>" "rtimConf sampleRtimEnv n = sampleConfEnv sampleTaskFile"
  "confMem sampleRtimEnv = (\<lambda>_ _. True)" "insGrowOk sampleRtimEnv n" "insFault sampleRtimEnv n = NoFault"
  by (simp_all add: sampleRtimEnv_def)

text \<open>
  C28: \<open>STOP\<close> or \<open>KILL\<close> for a task that does not exist answers with an error and leaves waiting
  inhibited. A thread that wants to reap its ended process then blocks, however often it is woken, as long as no other
  thread lifts the inhibition; as soon as one has done so it reaps its process.
\<close>

theorem stop_unknown_task_blocks_reaping:
  assumes "world_ok w" "waitInhibitLock w = Unlocked" "task_map (taskDB w) n = None" "v = STOP \<or> v = KILL" "answer_mem e"
  shows "ret_sat (\<lambda>(res, w'). (\<exists>msg. res = Some \<lparr>op = CRINIT_RTIMCMD_R v, args = [CRINIT_RTIMCMD_RES_ERR, msg]\<rparr>) \<and>
           (\<forall>wakes rs p. (\<forall>f \<in> set wakes. keeps_inhibited f) \<longrightarrow> crinitReapPid wakes rs w' p = Blocked) \<and>
           (\<forall>wakes rs p. crinitReapPid ((\<lambda>u. u\<lparr>inhibitWait := False\<rparr>) # wakes) (None # rs) w' p =
              Ret (0, w'\<lparr>inhibitWait := False, trace := trace w' @ [Reaped p]\<rparr>)))
         (crinitExecRtimCmd e w \<lparr>op = CRINIT_RTIMCMD_C v, args = [n]\<rparr>)"
proof -
  define w1 where "w1 = w\<lparr>inhibitWait := True, waitInhibitLock := Unlocked\<rparr>"
  have w1: "crinitSetInhibitWait w True = Ret (0, w1)" "world_ok w1" "task_map (taskDB w1) n = None" "inhibitWait w1"
    "waitInhibitLock w1 = Unlocked" "db_ok (taskDB w1)"
    using assms by (simp_all add: w1_def world_ok_def)
  obtain w2 where w2: "on_db (\<lambda>ctx. crinitTaskDBSetTaskRespawnInhibit ctx True n) w1 = Ret (-1, w2)" "same_env w1 w2"
    using setRespawnInhibit.world_unknown [OF w1(2,3), of True] by (auto elim!: ret_satE)
  have i2: "waitInhibitLock w2 = Unlocked" "inhibitWait w2" using w1(4,5) w2(2) by (simp_all add: same_env_def)
  show ?thesis
  proof (cases "v = STOP")
    case True
    then show ?thesis
      using w1(1) w2(1) assms(5) ReapPid_inhibited [OF i2] ReapPid_lifted [OF i2]
      by (simp add: crinitExecRtimCmd_def crinitExecRtimCmdStop_def)
  next
    case False
    then show ?thesis
      using w1(1,3,6) assms(4,5) GetTaskPID_unknown [OF w1(6,3)] ReapPid_inhibited [OF w1(5,4)] ReapPid_lifted [OF w1(5,4)]
      by (simp add: crinitExecRtimCmd_def crinitExecRtimCmdKill_def Let_def)
  qed
qed

theorem stop_unknown_task_blocks_reaping_witness:
  "ret_sat (\<lambda>(res, w'). crinitReapPid [\<lambda>u. u] [None] w' 100 = Blocked \<and>
       crinitReapPid [\<lambda>u. u\<lparr>inhibitWait := False\<rparr>] [None] w' 100 = Ret (0, w'\<lparr>inhibitWait := False, trace := trace w' @ [Reaped 100]\<rparr>))
     (crinitExecRtimCmd sampleRtimEnv (sampleWorld [sampleTask ''a'']) \<lparr>op = CRINIT_RTIMCMD_C KILL, args = [''b'']\<rparr>)"
  by (rule ret_sat_mono [OF stop_unknown_task_blocks_reaping]) (auto simp: task_map_def keeps_inhibited_def)

text \<open>
  \<open>STOP\<close> for a running task without stop commands sends \<open>SIGTERM\<close> to its process and nothing
  else, lifts the inhibition of waiting again, and marks the task so that, if it respawns, no
  scheduling step starts it whatever its state becomes. No other task changes.
\<close>

lemma stop_task_terminates:
  assumes "world_ok w" "waitInhibitLock w = Unlocked" "task_map (taskDB w) n = Some t" "stopCmds t = []" "pid t > 0"
    "killOk e (pid t) SIGTERM" "getDupOk e" "getDupFault e = NoFault" "answer_mem e"
  shows "ret_sat (\<lambda>(res, w'). res = Some \<lparr>op = CRINIT_RTIMCMD_R STOP, args = [CRINIT_RTIMCMD_RES_OK]\<rparr> \<and>
      world_ok w' \<and> \<not> inhibitWait w' \<and> trace w' = trace w @ [SignalSent (pid t) SIGTERM] \<and>
      task_map (taskDB w') = (task_map (taskDB w))(n \<mapsto> t\<lparr>inhibitRespawn := True\<rparr>) \<and>
      (\<forall>s. opts t AND CRINIT_TASK_OPT_RESPAWN \<noteq> 0 \<longrightarrow> \<not> crinitTaskIsReady (t\<lparr>inhibitRespawn := True, state := s\<rparr>)))
    (crinitExecRtimCmd e w \<lparr>op = CRINIT_RTIMCMD_C STOP, args = [n]\<rparr>)"
proof -
  let ?t = "t\<lparr>inhibitRespawn := True\<rparr>"
  define w1 where "w1 = w\<lparr>inhibitWait := True, waitInhibitLock := Unlocked\<rparr>"
  have w1: "crinitSetInhibitWait w True = Ret (0, w1)" "world_ok w1" "task_map (taskDB w1) n = Some t"
    using assms by (simp_all add: w1_def)
  obtain w2 where w2: "on_db (\<lambda>ctx. crinitTaskDBSetTaskRespawnInhibit ctx True n) w1 = Ret (0, w2)" "world_ok w2"
    "task_map (taskDB w2) = (task_map (taskDB w1))(n \<mapsto> ?t)" "same_env w1 w2"
    using setRespawnInhibit.world_update [OF w1(2,3), of True] world_ok_deps [OF w1(2,3)] by (auto elim!: ret_satE)
  have g: "crinitTaskDBGetTaskByName True NoFault (taskDB w2) n = Ret (0, Some ?t, taskDB w2)"
    by (rule GetTaskByName_known) (use w2 in \<open>simp_all add: world_ok_def\<close>)
  have s: "stop_task e ?t w2 = Ret (None, w2\<lparr>trace := trace w2 @ [SignalSent (pid t) SIGTERM]\<rparr>)"
    using assms(4-6) by (simp add: stop_task_def send_signal_def)
  have u: "waitInhibitLock w2 = Unlocked" "trace w2 = trace w" "task_map (taskDB w1) = task_map (taskDB w)"
    using w2(4) by (simp_all add: same_env_def w1_def)
  have "crinitExecRtimCmd e w \<lparr>op = CRINIT_RTIMCMD_C STOP, args = [n]\<rparr> =
      Ret (Some \<lparr>op = CRINIT_RTIMCMD_R STOP, args = [CRINIT_RTIMCMD_RES_OK]\<rparr>,
           w2\<lparr>trace := trace w2 @ [SignalSent (pid t) SIGTERM], inhibitWait := False, waitInhibitLock := Unlocked\<rparr>)"
    using w1(1) w2(1) g s u(1) assms(7-9) by (simp add: crinitExecRtimCmd_def crinitExecRtimCmdStop_def Let_def)
  then show ?thesis using w2(2,3) u(2,3) by (auto simp: crinitTaskIsReady_def)
qed

section \<open>Commands and the scheduler\<close>

lemma task_map_in_set: "db_wf ctx \<Longrightarrow> task_map ctx n = Some t \<Longrightarrow> t \<in> set (taskSet ctx) \<and> name t = n"
  by (erule (1) task_map_Some) auto

lemma set_task_map: "db_wf ctx \<Longrightarrow> t \<in> set (taskSet ctx) \<Longrightarrow> task_map ctx (name t) = Some t"
  by (auto simp: in_set_conv_nth task_map_nth)

lemma SpawnReady_names:
  assumes "db_ok ctx"
  shows "ret_sat (\<lambda>(r, ctx', spawned). \<forall>t \<in> set spawned. \<exists>u. task_map ctx (name t) = Some u \<and> crinitTaskIsReady u)
           (crinitTaskDBSpawnReady ctx mode)"
proof -
  have l: "lock ctx = Unlocked" and wf: "db_wf ctx" using assms by (simp_all add: db_ok_def)
  have "\<forall>t \<in> set (taskSet ctx). task_wf t" using wf by (simp add: db_wf_def)
  from spawn_loop_wf [OF this, of "the (spawnFunc ctx)" mode] obtain r ts sp where
    sp: "spawn_loop (the (spawnFunc ctx)) mode (taskSet ctx) = Ret (r, ts, sp)"
    "\<forall>t \<in> set sp. \<exists>u \<in> set (taskSet ctx). crinitTaskIsReady u \<and> t = u\<lparr>state := CRINIT_TASK_STATE_STARTING\<rparr>"
    by (auto elim!: ret_satE)
  then have "\<forall>t \<in> set sp. \<exists>u. task_map ctx (name t) = Some u \<and> crinitTaskIsReady u"
    using set_task_map [OF wf] by fastforce
  then show ?thesis using l sp(1) by (auto simp: crinitTaskDBSpawnReady_def split: option.split)
qed

text \<open>
  \<open>RESTART\<close> of a finished task whose dependencies are fulfilled and that is triggered leads to
  its dispatch in the next scheduling step: also after \<open>STOP\<close>, and also if it does not respawn or
  has used up its retries.
\<close>

lemma restart_reschedules:
  assumes "world_ok w" "task_map (taskDB w) n = Some t" "state t AND (CRINIT_TASK_STATE_DONE OR CRINIT_TASK_STATE_FAILED) \<noteq> 0"
    "deps t = []" "triggered t" "failCount t < INT_MAX" "\<not> spawnInhibit (taskDB w)" "spawnFunc (taskDB w) = Some f"
    "\<forall>t m. f t m \<noteq> -1" "answer_mem e"
  shows "ret_sat (\<lambda>(r, ctx', spawned). n \<in> name ` set spawned)
    (bind_run (crinitExecRtimCmd e w \<lparr>op = CRINIT_RTIMCMD_C RESTART, args = [n]\<rparr>)
       (\<lambda>(res, w'). crinitTaskDBSpawnReady (taskDB w') mode))"
proof -
  have db: "db_ok (taskDB w)" using assms(1) by (simp add: world_ok_def)
  obtain w1 where w1: "on_db (\<lambda>ctx. crinitTaskDBSetTaskRespawnInhibit ctx False n) w = Ret (0, w1)" "world_ok w1"
    "task_map (taskDB w1) n = Some (t\<lparr>inhibitRespawn := False\<rparr>)" "same_env w w1"
    using setRespawnInhibit.world_update [OF assms(1,2), of False] assms(4) by (auto elim!: ret_satE)
  let ?u = "with_state (stamp (rtimClock e) 0) 0 (t\<lparr>inhibitRespawn := False\<rparr>)"
  have d: "distinct (deps ?u)" using assms(4) by (simp add: with_state_def)
  obtain w2 where w2: "on_db (\<lambda>ctx. crinitTaskDBSetTaskState (rtimClock e) ctx 0 n) w1 = Ret (0, w2)" "world_ok w2"
    "task_map (taskDB w2) n = Some ?u" "same_env w1 w2"
    using setState.world_update [OF w1(2,3) _ d] assms(6) by (auto elim!: ret_satE)
  have ok: "db_ok (taskDB w2)" "\<not> spawnInhibit (taskDB w2)" "spawnFunc (taskDB w2) = Some f"
    using w2 w1 assms(7,8) by (simp_all add: world_ok_def same_env_def)
  have "?u \<in> set (taskSet (taskDB w2))" "name ?u = n"
    using task_map_in_set [OF _ w2(3)] ok(1) by (auto simp: db_ok_def)
  moreover have "crinitTaskIsReady ?u" using assms(4,5) by (simp add: crinitTaskIsReady_def with_state_def)
  ultimately have "n \<in> name ` {t \<in> set (taskSet (taskDB w2)). crinitTaskIsReady t}" by blast
  then show ?thesis
    using w1(1) w2(1) SpawnReady_all [OF ok assms(9), of mode] GetTaskState_known [OF db assms(2)] assms(3,10)
    by (simp add: crinitExecRtimCmd_def crinitExecRtimCmdRestart_def Let_def image_image)
qed

text \<open>
  After a successful \<open>DISABLE\<close> no scheduling step dispatches the task.
\<close>

lemma disable_prevents_dispatch:
  assumes "world_ok w" "task_map (taskDB w) n = Some t" "memOk e" "depReallocOk e" "depMallocOk e" "answer_mem e"
  shows "ret_sat (\<lambda>(r, ctx', spawned). n \<notin> name ` set spawned)
    (bind_run (crinitExecRtimCmd e w \<lparr>op = CRINIT_RTIMCMD_C DISABLE, args = [n]\<rparr>)
       (\<lambda>(res, w'). crinitTaskDBSpawnReady (taskDB w') mode))"
proof -
  let ?u = "if enable_dep \<in> set (deps t) then t else t\<lparr>deps := deps t @ [enable_dep]\<rparr>"
  have d: "distinct (deps ?u)" using world_ok_deps [OF assms(1,2)] by simp
  obtain w1 where w1: "on_db (\<lambda>ctx. crinitTaskDBAddDepToTask True True ctx enable_dep n) w = Ret (0, w1)" "world_ok w1"
    "task_map (taskDB w1) n = Some ?u"
    using addDep.world_update [OF assms(1,2) _ d] by (auto elim!: ret_satE)
  have "\<not> crinitTaskIsReady ?u" by (auto simp: crinitTaskIsReady_def)
  then have "ret_sat (\<lambda>(r, ctx', spawned). n \<notin> name ` set spawned) (crinitTaskDBSpawnReady (taskDB w1) mode)"
    using w1(2,3) by (intro ret_sat_mono [OF SpawnReady_names]) (auto simp: world_ok_def)
  then show ?thesis
    using w1(1) assms(3-6) by (simp add: crinitExecRtimCmd_def crinitExecRtimCmdDisable_def)
qed

section \<open>Notifications\<close>

lemma ProvideFeatureByTaskName_world:
  assumes "world_ok w" "task_map (taskDB w) n = Some t"
  shows "ret_sat (\<lambda>(r, w'). r = 0 \<and> world_ok w' \<and> all_eased w w' \<and> same_env w w')
           (crinitTaskDBProvideFeatureByTaskName w n s)"
proof -
  have db: "db_ok (taskDB w)" using assms(1) by (simp add: world_ok_def)
  obtain i where i: "crinitFindTask ((taskDB w)\<lparr>lock := Locked\<rparr>) n = Ret (Some i)" "i < length (taskSet (taskDB w))"
    "taskSet (taskDB w) ! i = t" by (rule known_task [OF db assms(2)])
  have "\<not> freed t" using db_okD(3) [OF db, of t] nth_mem [OF i(2)] i(3) by (simp add: task_wf_def)
  then show ?thesis
    using ProvideFeature_world [OF assms(1)] i db by (simp add: crinitTaskDBProvideFeatureByTaskName_def db_ok_def)
qed

lemma notify_state_ok:
  assumes "world_ok w" "task_map (taskDB w) n = Some t" "failCount t < INT_MAX"
  shows "ret_sat (\<lambda>(err, w'). err = None \<and> world_ok w' \<and> same_env w w' \<and>
      (\<exists>u. task_map (taskDB w') n = Some u \<and> state u = s \<and> eased (with_state (stamp (rtimClock e) s) s t) u) \<and>
      (\<forall>u \<in> ran (task_map (taskDB w')). \<lparr>depName = n, event = ev\<rparr> \<notin> set (deps u))) (notify_state e n s ev msg w)"
proof -
  let ?u = "with_state (stamp (rtimClock e) s) s t"
  have d: "distinct (deps ?u)" using world_ok_deps [OF assms(1,2)] by (simp add: with_state_def Let_def)
  have st: "state ?u = s" by (simp add: with_state_def Let_def)
  obtain w1 where w1: "on_db (\<lambda>ctx. crinitTaskDBSetTaskState (rtimClock e) ctx s n) w = Ret (0, w1)" "world_ok w1"
    "task_map (taskDB w1) n = Some ?u" "same_env w w1"
    using setState.world_update [OF assms d] by (auto elim!: ret_satE)
  obtain w2 where w2: "crinitTaskDBFulfillDep w1 \<lparr>depName = n, event = ev\<rparr> None = Ret (0, w2)" "world_ok w2" "all_eased w1 w2"
    "same_env w1 w2" "\<forall>u \<in> ran (task_map (taskDB w2)). \<lparr>depName = n, event = ev\<rparr> \<notin> set (deps u)"
    using FulfillDep_world [OF w1(2), of "\<lparr>depName = n, event = ev\<rparr>"] by (auto elim!: ret_satE)
  obtain u2 where u2: "task_map (taskDB w2) n = Some u2" "eased ?u u2" by (rule all_easedE [OF w2(3) w1(3)])
  obtain w3 where w3: "crinitTaskDBProvideFeatureByTaskName w2 n s = Ret (0, w3)" "world_ok w3" "all_eased w2 w3" "same_env w2 w3"
    using ProvideFeatureByTaskName_world [OF w2(2) u2(1), of s] by (auto elim!: ret_satE)
  obtain u3 where u3: "task_map (taskDB w3) n = Some u3" "eased u2 u3" by (rule all_easedE [OF w3(3) u2(1)])
  have "state u3 = s" using eased_sel(2) [OF u3(2)] eased_sel(2) [OF u2(2)] st by simp
  moreover have "eased ?u u3" by (rule eased_trans [OF u2(2) u3(2)])
  moreover have "same_env w w3" using same_env_trans [OF same_env_trans [OF w1(4) w2(4)] w3(4)] .
  ultimately show ?thesis
    using w1(1) w2(1) w3(1,2) u3(1) all_eased_deps [OF w3(3) w2(5)] by (simp add: notify_state_def)
qed

lemma notify_READY: "notify_arg n ''READY=1'' = n\<lparr>ntfReady := 1\<rparr>"
  by (simp add: notify_arg_def strchr_def strncmp_eq_def strtol_def strto_raw_def is_digit_def c_isspace_def digits_value_def to_int_def Let_def)

text \<open>
  A task that reports \<open>READY=1\<close> is RUNNING and NOTIFIED afterwards, and no task waits any more
  for its notification.
\<close>

lemma notify_ready_fulfills:
  assumes "world_ok w" "task_map (taskDB w) n = Some t" "failCount t < INT_MAX" "answer_mem e"
  shows "ret_sat (\<lambda>(res, w'). res = Some \<lparr>op = CRINIT_RTIMCMD_R NOTIFY, args = [CRINIT_RTIMCMD_RES_OK]\<rparr> \<and> world_ok w' \<and>
      (\<exists>u. task_map (taskDB w') n = Some u \<and> state u = CRINIT_TASK_STATE_RUNNING OR CRINIT_TASK_STATE_NOTIFIED) \<and>
      (\<forall>u \<in> ran (task_map (taskDB w')). \<lparr>depName = n, event = ''spawn-notified''\<rparr> \<notin> set (deps u)))
    (crinitExecRtimCmd e w \<lparr>op = CRINIT_RTIMCMD_C NOTIFY, args = [n, ''READY=1'']\<rparr>)"
  using notify_state_ok [OF assms(1-3), where s = "CRINIT_TASK_STATE_RUNNING OR CRINIT_TASK_STATE_NOTIFIED" and
      ev = "''spawn-notified''" and e = e and msg = "''Could not set task state to RUNNING.''"] assms(4)
  by (auto simp: crinitExecRtimCmd_def crinitExecRtimCmdNotify_def notify_READY Let_def elim!: ret_satE)

text \<open>
  A notification argument is matched by any prefix of a keyword: with nothing in front of the
  equals sign it sets the process id and both flags at once.
\<close>

lemma notify_prefix_matches:
  "notify_arg n (CHR ''='' # s) =
     \<lparr>ntfPid = to_int (strtol10 s), ntfReady = to_int (strtol10 s), ntfStopping = to_int (strtol10 s)\<rparr>"
  by (cases n) (simp add: notify_arg_def strchr_def strncmp_eq_def Let_def)

section \<open>Adding a series\<close>

text \<open>
  When the series file of \<open>ADDSERIES\<close> cannot be opened, the command answers with an error and
  spawning stays inhibited: no scheduling step dispatches anything any more.
\<close>

lemma addseries_failure_stops_spawning:
  assumes "lock (taskDB w) = Unlocked" "optLock (globOpts w) = Unlocked" "crinitIsAbsPath f" "answer_mem e"
    and "binFile (cfSig (rtimConf e 0)) f = None" "\<not> optFreed (globOpts w)"
  shows "ret_sat (\<lambda>(res, w'). (\<exists>msg. res = Some \<lparr>op = CRINIT_RTIMCMD_R ADDSERIES, args = [CRINIT_RTIMCMD_RES_ERR, msg]\<rparr>) \<and>
      crinitTaskDBSpawnReady (taskDB w') mode = Ret (0, taskDB w', []))
    (crinitExecRtimCmd e w \<lparr>op = CRINIT_RTIMCMD_C ADDSERIES, args = [f, ov]\<rparr>)"
  using assms
  by (auto simp: crinitExecRtimCmd_def crinitExecRtimCmdAddSeries_def crinitTaskDBSetSpawnInhibit_def on_db_def Let_def
      crinitTaskDBSpawnReady_def crinitLoadSeriesConf_def crinitParseConf_def)

section \<open>Adding a task\<close>

text \<open>All allocations of the command succeed.\<close>

definition conf_mem :: "rtimEnv \<Rightarrow> bool" where
  "conf_mem e \<longleftrightarrow> answer_mem e \<and> insGrowOk e 0 \<and> insFault e 0 = NoFault \<and> confMem e 0 = (\<lambda>_. True) \<and> cfMem (rtimConf e 0) = (\<lambda>_ _. True)"

lemma plain_task_wf:
  assumes "env_wf (globEnv g)" "env_wf (globFilters g)" "list_all2 reads_as vs ass"
  shows "task_wf (crinitTask.truncate (plain_task c g n ass))"
proof -
  have "[] \<notin> set ass" using assms(3) by (induction rule: list_all2_induct) (auto simp: reads_as_def)
  then show ?thesis using assms(1,2) by (auto simp: task_wf_def plain_task_def new_draft_def Let_def crinitTask.defs)
qed

text \<open>
  C5: \<open>ADDTASK\<close> on a file with a name and command lines puts the task the file describes into the
  database, ready to run, with the commands in the order of the file and the global environment;
  a task of this name is only replaced when the command says so, and otherwise nothing changes.
\<close>

theorem addtask_installs:
  fixes e w f n vs
  defines "c \<equiv> rtimConf e 0" and "body \<equiv> concat (map ini_text (task_file n vs))" and "m \<equiv> snd (crinitMatchQuotedConfig n)"
  assumes "world_ok w" "env_wf (globEnv (globOpts w))" "env_wf (globFilters (globOpts w))" "conf_mem e"
    and "\<forall>kv \<in> set (task_file n vs). conf_entry kv" "list_all2 reads_as vs ass" "vs \<noteq> []"
    and "binFile (cfSig c) f = Some body" "sig_accepted c (globOpts w) f body"
  shows "ret_sat (\<lambda>(res, w'). world_ok w' \<and>
      (if task_map (taskDB w) m = None \<or> ov = ''true''
       then res = Some \<lparr>op = CRINIT_RTIMCMD_R ADDTASK, args = [CRINIT_RTIMCMD_RES_OK]\<rparr> \<and>
         (\<exists>t. task_map (taskDB w') = (task_map (taskDB w))(m \<mapsto> t) \<and> name t = m \<and> map argv (cmds t) = ass \<and>
              taskEnv t = globEnv (globOpts w) \<and> crinitTaskIsReady t)
       else (\<exists>msg. res = Some \<lparr>op = CRINIT_RTIMCMD_R ADDTASK, args = [CRINIT_RTIMCMD_RES_ERR, msg]\<rparr>) \<and> w' = w))
    (crinitExecRtimCmd e w \<lparr>op = CRINIT_RTIMCMD_C ADDTASK, args = [f, ov, ''@unchanged'']\<rparr>)"
proof -
  let ?t = "crinitTask.truncate (plain_task c (globOpts w) m ass)"
  have lock: "optLock (globOpts w) = Unlocked" using assms(4) by (simp add: world_ok_def)
  have "task_file n vs \<noteq> []" by (simp add: task_file_def)
  note parsed = ParseConf_entries [OF assms(8) this, of c f "globOpts w", folded body_def, OF assms(11) lock assms(12)]
  have mem: "cfMem c = (\<lambda>_ _. True)" using assms(7) by (simp add: conf_mem_def c_def)
  note created = plain_task_created [OF lock assms(5,6,9,10) mem, of n, folded m_def]
  have t: "name ?t = m" "map argv (cmds ?t) = ass" "taskEnv ?t = globEnv (globOpts w)" "crinitTaskIsReady ?t" "deps ?t = []"
    by (simp_all add: plain_task_def new_draft_def Let_def crinitTask.defs crinitTaskIsReady_def comp_def)
  have wf: "task_wf ?t" by (rule plain_task_wf [OF assms(5,6,9)])
  from Insert_ok [OF assms(4) wf, of "ov = ''true''"] t(5)
  obtain r w' where i: "crinitTaskDBInsert True NoFault w ?t (ov = ''true'') = Ret (r, ?t, w')" "world_ok w'"
    "if task_map (taskDB w) m = None \<or> ov = ''true'' then r = 0 \<and> task_map (taskDB w') = (task_map (taskDB w))(m \<mapsto> ?t) else r = -1 \<and> w' = w"
    by (auto elim!: ret_satE simp: t(1))
  obtain u where u: "crinitDestroyTask ?t = Ret u" using DestroyTask_wf [OF wf] by blast
  have "\<not> innerPtr (plain_task c (globOpts w) m ass)" "\<not> gapPtr (plain_task c (globOpts w) m ass)"
    by (simp_all add: plain_task_def new_draft_def Let_def)
  then have "insert_draft e 0 (plain_task c (globOpts w) m ass) (ov = ''true'') w = Ret (r, w')"
    using assms(7) i(1) u by (simp add: insert_draft_def conf_mem_def crinitFreeTask_def)
  then show ?thesis
    using assms(7) i(2,3) t parsed created
    by (auto simp: crinitExecRtimCmd_def crinitExecRtimCmdAddTask_def conf_mem_def c_def [symmetric] override_depends_def Let_def)
qed

theorem addtask_installs_witness:
  "ret_sat (\<lambda>(res, w'). \<exists>t. task_map (taskDB w') ''c'' = Some t \<and> map argv (cmds t) = [[''/b'']] \<and> crinitTaskIsReady t)
    (crinitExecRtimCmd sampleRtimEnv (sampleConfWorld False)
      \<lparr>op = CRINIT_RTIMCMD_C ADDTASK, args = [''/c'', ''false'', ''@unchanged'']\<rparr>)"
proof -
  let ?w = "sampleConfWorld False"
  have w: "world_ok ?w" "task_map (taskDB ?w) ''c'' = None" "env_wf (globEnv (globOpts ?w))" "env_wf (globFilters (globOpts ?w))"
    using sampleWorld_ok [of "[]"]
    by (simp_all add: world_ok_def sampleConfWorld_def crinitGlobOpts_def Let_def task_map_def sampleWorld_def sampleEnv_wf)
  have e: "conf_mem sampleRtimEnv" by (simp add: conf_mem_def)
  have kv: "\<forall>kv \<in> set (task_file ''c'' [''/b'']). conf_entry kv"
    by (simp add: task_file_def conf_entry_def ini_entry_def trimmed_def c_isspace_def)
  have r: "list_all2 reads_as [''/b''] [[''/b'']]" by (simp add: reads_as_def crinitMatchQuotedConfig_def sample_words)
  have n: "snd (crinitMatchQuotedConfig ''c'') = ''c''" by (simp add: crinitMatchQuotedConfig_def)
  show ?thesis
    by (rule ret_sat_mono [OF addtask_installs [OF w(1,3,4) e kv r]]) (auto simp: n w(2) sig_accepted_def)
qed

end
