(* ===== verification/ShutdownSpec.thy ===== *)
theory ShutdownSpec
  imports RtimCmdSpec
begin

text \<open>
  The shutdown thread of \<open>src/src/rtimcmd.c\<close>: the order of what it asks the operating system
  for, how long it waits, and the order in which file systems are unmounted.
\<close>

section \<open>The grace period\<close>

definition nanos :: "timespec \<Rightarrow> int" where
  "nanos t = tv_sec t * 1000000000 + tv_nsec t"

text \<open>
  The deadline of the grace period lies exactly the given number of microseconds after the
  current time, and its nanoseconds are within a second.
\<close>

lemma grace_deadline_exact:
  assumes "0 \<le> tv_nsec t"
  shows "nanos (grace_deadline t micros) = nanos t + 1000 * int micros \<and>
         0 \<le> tv_nsec (grace_deadline t micros) \<and> tv_nsec (grace_deadline t micros) < 1000000000"
proof -
  define q r where "q = micros div 1000000" and "r = micros mod 1000000"
  define m where "m = r * 1000 + nat (tv_nsec t)"
  have "micros = 1000000 * q + r" by (simp add: q_def r_def)
  moreover have "m = 1000000000 * (m div 1000000000) + m mod 1000000000" by simp
  then have "int m = 1000000000 * int (m div 1000000000) + int (m mod 1000000000)"
    by (metis of_nat_add of_nat_mult of_nat_numeral)
  moreover have "int m = int r * 1000 + tv_nsec t" using assms by (simp add: m_def)
  moreover have "grace_deadline t micros =
      \<lparr>tv_sec = tv_sec t + int q + int (m div 1000000000), tv_nsec = int (m mod 1000000000)\<rparr>"
    by (simp add: grace_deadline_def Let_def q_def r_def m_def)
  moreover have "m mod 1000000000 < 1000000000" by simp
  ultimately show ?thesis by (auto simp: nanos_def)
qed

section \<open>Unmounting\<close>

text \<open>The mount points of the lines, without those of \<open>none\<close> and without the root.\<close>

definition mount_point :: "string \<Rightarrow> string list" where
  "mount_point l = (case strtok_all (CHR '' '') l of
     dev # mp # _ \<Rightarrow> if dev = ''none'' \<or> mp = ''/'' then [] else [mp] | _ \<Rightarrow> [])"

definition ro_root :: "string \<Rightarrow> bool" where
  "ro_root l \<longleftrightarrow> (case strtok_all (CHR '' '') l of
     dev # mp # fstype # opt # _ \<Rightarrow> dev \<noteq> ''none'' \<and> mp = ''/'' \<and> (strncmp_eq opt ''ro,'' 3 \<or> strncmp_eq opt ''ro '' 3) | _ \<Rightarrow> False)"

lemma strtok_nonempty: "[] \<notin> set (strtok_all d s)"
proof (induction s rule: length_induct)
  case (1 s)
  show ?case
  proof (cases s)
    case (Cons c t)
    then show ?thesis using 1 length_dropWhile_le [of "\<lambda>c. c \<noteq> d" t]
      by (cases "c = d") (auto simp: strtok_Cons le_imp_less_Suc)
  qed simp
qed

lemma mount_lines_rw:
  assumes "\<forall>l \<in> set ls. \<not> ro_root l"
  shows "mount_lines ls [] ml ro = ([] # rev (concat (map mount_point ls)) @ ml, ro)"
  using assms
proof (induction ls arbitrary: ml)
  case (Cons l ls)
  have "mount_lines (l # ls) [] ml ro = mount_lines ls [] (rev (mount_point l) @ ml) ro"
    using Cons.prems by (auto simp: mount_point_def ro_root_def split: list.splits)
  then show ?case using Cons by simp
qed simp

text \<open>
  C29: with no read-only root among the mounts, the shutdown unmounts every mount point but the
  root, in the reverse of the order in which they were mounted, then makes the root read-only and
  writes everything back.
\<close>

theorem unmount_order:
  assumes "mounts e = Some ls" "mountMemOk e" "\<forall>t. umountOk e t" "remountOk e" "\<forall>l \<in> set ls. \<not> ro_root l"
  shows "crinitFsPrepareShutdown e = (0, map Unmounted (rev (concat (map mount_point ls))) @ [RemountedRo, Synced])"
proof -
  have ne: "t \<noteq> []" if "t \<in> set (mount_point l)" for t l
  proof -
    have "\<exists>dev r. strtok_all (CHR '' '') l = dev # t # r"
      using that by (auto simp: mount_point_def intro: sym split: list.splits if_splits)
    then show ?thesis using strtok_nonempty [of "CHR '' ''" l] by auto
  qed
  then have "filter (\<lambda>t. t \<noteq> []) (rev (concat (map mount_point ls))) = rev (concat (map mount_point ls))"
    by (auto simp: filter_id_conv)
  then show ?thesis
    using assms by (simp add: crinitFsPrepareShutdown_def crinitGenUnMountList_def mount_lines_rw list_all_iff)
qed

theorem unmount_order_witness:
  "snd (crinitFsPrepareShutdown sampleRtimEnv) = [Unmounted ''/home/a'', Unmounted ''/home'', RemountedRo, Synced]"
  using unmount_order [of sampleRtimEnv "the (mounts sampleRtimEnv)"]
  by (simp add: sampleRtimEnv_def mount_point_def ro_root_def strtok_all.simps strncmp_eq_def)

section \<open>The thread\<close>

lemma stop_all_started:
  assumes "\<forall>t m. f t m \<noteq> -1"
  shows "stop_all (Some f) ts = Ret (map (\<lambda>t. ThreadStarted (name t) CRINIT_DISPATCH_THREAD_MODE_STOP) (filter (\<lambda>t. stopCmds t \<noteq> []) ts))"
  using assms by (induction ts) auto

definition time_ns :: "timespec \<Rightarrow> int" where
  "time_ns t = tv_sec t * 1000000000 + tv_nsec t"

text \<open>The sleep ends the whole grace period after its begin.\<close>

lemma grace_deadline_ns: "0 \<le> tv_nsec t \<Longrightarrow> time_ns (grace_deadline t micros) = time_ns t + 1000 * int micros"
proof -
  assume "0 \<le> tv_nsec t"
  moreover have "1000 * (int micros mod 1000000) + int micros div 1000000 * 1000000000 = int micros * 1000" by presburger
  ultimately show ?thesis by (simp add: grace_deadline_def time_ns_def Let_def zdiv_int zmod_int algebra_simps)
qed

text \<open>
  C17: the shutdown thread starts the stop commands of all tasks that have some and gives them the
  grace period, then lets all processes continue, terminates them, waits for the grace period,
  kills them, prepares the file systems and reboots: in this order. Each of the two waits lasts for the grace period from
  the time at which it begins, so that there is one between \<open>SIGTERM\<close> and \<open>SIGKILL\<close> whether there are stop commands or not.
  From then on no scheduling step dispatches anything. Signals, threads and the clock are taken to work.
\<close>

theorem shutdown_sequence:
  assumes "lock (taskDB w) = Unlocked" "optLock (globOpts w) = Unlocked" "spawnFunc (taskDB w) = Some f" "\<forall>t m. f t m \<noteq> -1"
    "rtimClock e = Some now" "rtimClockLater e = Some later" "0 \<le> tv_nsec now" "0 \<le> tv_nsec later" "\<forall>s. killOk e (-1) s"
  defines "grace \<equiv> shdGraceP (globOpts w)"
    and "stopping \<equiv> filter (\<lambda>t. stopCmds t \<noteq> []) (taskSet (taskDB w))"
  shows "\<exists>d1 d2. time_ns d1 = time_ns now + 1000 * int grace \<and> time_ns d2 = time_ns later + 1000 * int grace \<and>
    ret_sat (\<lambda>w'. trace w' = trace w @ map (\<lambda>t. ThreadStarted (name t) CRINIT_DISPATCH_THREAD_MODE_STOP) stopping @
        (if stopping = [] then [] else [Slept d1]) @
        [SignalSent (-1) SIGCONT, SignalSent (-1) SIGTERM, Slept d2, SignalSent (-1) SIGKILL] @
        snd (crinitFsPrepareShutdown e) @ [Rebooted c] \<and>
      crinitTaskDBSpawnReady (taskDB w') mode = Ret (0, taskDB w', []))
    (crinitShdnThread e c w)"
proof -
  have "(\<exists>t \<in> set (taskSet (taskDB w)). stopCmds t \<noteq> []) \<longleftrightarrow> stopping \<noteq> []"
    by (auto simp: stopping_def filter_empty_conv)
  then have "ret_sat (\<lambda>w'. trace w' = trace w @ map (\<lambda>t. ThreadStarted (name t) CRINIT_DISPATCH_THREAD_MODE_STOP) stopping @
        (if stopping = [] then [] else [Slept (grace_deadline now grace)]) @
        [SignalSent (-1) SIGCONT, SignalSent (-1) SIGTERM, Slept (grace_deadline later grace), SignalSent (-1) SIGKILL] @
        snd (crinitFsPrepareShutdown e) @ [Rebooted c] \<and>
      crinitTaskDBSpawnReady (taskDB w') mode = Ret (0, taskDB w', []))
    (crinitShdnThread e c w)"
    using assms(1-6,9) stop_all_started [OF assms(4), of "taskSet (taskDB w)"]
    by (simp add: crinitShdnThread_def crinitGlobOptGetUnsignedLL_def on_db_ignore_def on_db_def Let_def
        crinitTaskDBSetSpawnInhibit_def crinitGracePeriod_def send_signal_def grace_def stopping_def [symmetric]
        crinitTaskDBSpawnReady_def)
  then show ?thesis using grace_deadline_ns [OF assms(7)] grace_deadline_ns [OF assms(8)] by blast
qed

theorem shutdown_sequence_witness:
  "\<exists>d1 d2. time_ns d1 < time_ns d2 \<and>
     ret_sat (\<lambda>w'. trace w' = [ThreadStarted ''a'' CRINIT_DISPATCH_THREAD_MODE_STOP, Slept d1, SignalSent (-1) SIGCONT, SignalSent (-1) SIGTERM,
         Slept d2, SignalSent (-1) SIGKILL] @ snd (crinitFsPrepareShutdown sampleRtimEnv) @ [Rebooted RB_POWER_OFF])
      (crinitShdnThread sampleRtimEnv RB_POWER_OFF
        (sampleWorld [(sampleTask ''a'')\<lparr>stopCmds := [\<lparr>argv = [''/bin/true'']\<rparr>]\<rparr>, sampleTask ''b'']))"
proof -
  let ?w = "sampleWorld [(sampleTask ''a'')\<lparr>stopCmds := [\<lparr>argv = [''/bin/true'']\<rparr>]\<rparr>, sampleTask ''b'']"
  have h: "lock (taskDB ?w) = Unlocked" "optLock (globOpts ?w) = Unlocked" "spawnFunc (taskDB ?w) = Some (\<lambda>t m. 0)"
    "\<forall>t m. (\<lambda>(t :: crinitTask) (m :: crinitDispatchThreadMode). 0 :: int) t m \<noteq> -1"
    "trace ?w = []" "stopCmds (sampleTask ''b'') = []" "name (sampleTask ''a'') = ''a''" "taskSet (taskDB ?w) = [(sampleTask ''a'')\<lparr>stopCmds := [\<lparr>argv = [''/bin/true'']\<rparr>]\<rparr>, sampleTask ''b'']"
    by (simp_all add: sampleWorld_def sampleDB_def sampleTask_def crinitGlobOpts_def Let_def)
  from shutdown_sequence [OF h(1-4) sampleRtimEnv_sel(9,10), where c = RB_POWER_OFF and mode = CRINIT_DISPATCH_THREAD_MODE_START]
  obtain d1 d2 where "time_ns d1 = time_ns \<lparr>tv_sec = 7, tv_nsec = 999999000\<rparr> + 1000 * int (shdGraceP (globOpts ?w))"
    "time_ns d2 = time_ns \<lparr>tv_sec = 9, tv_nsec = 5\<rparr> + 1000 * int (shdGraceP (globOpts ?w))"
    and r: "ret_sat (\<lambda>w'. trace w' = trace ?w @ map (\<lambda>t. ThreadStarted (name t) CRINIT_DISPATCH_THREAD_MODE_STOP) (filter (\<lambda>t. stopCmds t \<noteq> []) (taskSet (taskDB ?w))) @
        (if filter (\<lambda>t. stopCmds t \<noteq> []) (taskSet (taskDB ?w)) = [] then [] else [Slept d1]) @
        [SignalSent (-1) SIGCONT, SignalSent (-1) SIGTERM, Slept d2, SignalSent (-1) SIGKILL] @
        snd (crinitFsPrepareShutdown sampleRtimEnv) @ [Rebooted RB_POWER_OFF] \<and>
      crinitTaskDBSpawnReady (taskDB w') CRINIT_DISPATCH_THREAD_MODE_START = Ret (0, taskDB w', [])) (crinitShdnThread sampleRtimEnv RB_POWER_OFF ?w)"
    by auto
  then have "time_ns d1 < time_ns d2" by (simp add: time_ns_def)
  moreover note ret_sat_mono [OF r]
  ultimately show ?thesis using h(5-8) by (intro exI [of _ d1] exI [of _ d2]) simp
qed

end
