(* ===== verification/Getopt.thy ===== *)
theory Getopt
  imports Prelude
begin

text \<open>
  \<open>getopt_long\<close> of the GNU library, with which the programs read their command lines: abbreviations of long options,
  grouped short options, operands collected behind the options. The arguments are the table of long options and
  the string of short ones; all calls of a program are taken together.
\<close>

datatype hasArg = no_argument | required_argument | optional_argument

type_synonym optTable = "(string \<times> hasArg \<times> char) list"

text \<open>An option of the command line and its argument; the question mark stands for an error.\<close>

type_synonym optEvent = "char \<times> string option"

abbreviation (input) opt_error :: optEvent where "opt_error \<equiv> (CHR ''?'', None)"

text \<open>The option a name stands for: the one of that name, or the only one it is a prefix of.\<close>

definition find_long :: "optTable \<Rightarrow> string \<Rightarrow> (hasArg \<times> char) option" where
  "find_long longOpts n =
     (case filter (\<lambda>(k, _). k = n) longOpts of
        (_, o1) # _ \<Rightarrow> Some o1
      | [] \<Rightarrow> (case filter (\<lambda>(k, _). take (length n) k = n) longOpts of
                 [(_, o1)] \<Rightarrow> Some o1
               | _ \<Rightarrow> None))"

text \<open>A long option (without its dashes) and the argument behind it, if any: whether that one was used.\<close>

definition long_option :: "optTable \<Rightarrow> string \<Rightarrow> string option \<Rightarrow> optEvent \<times> bool" where
  "long_option longOpts a nxt =
     (let n = takeWhile (\<lambda>c. c \<noteq> CHR ''='') a in
      case find_long longOpts n of
        None \<Rightarrow> (opt_error, False)
      | Some (h, c) \<Rightarrow>
          if n \<noteq> a then
            if h = no_argument then (opt_error, False) else ((c, Some (drop (Suc (length n)) a)), False)
          else if h = required_argument then
            (case nxt of None \<Rightarrow> (opt_error, False) | Some v \<Rightarrow> ((c, Some v), True))
          else ((c, None), False))"

text \<open>Whether a short option is known, and if it takes an argument.\<close>

definition short_kind :: "string \<Rightarrow> char \<Rightarrow> bool option" where
  "short_kind optstring c =
     (if c = CHR '':'' then None
      else map_option (\<lambda>r. tl r \<noteq> [] \<and> hd (tl r) = CHR '':'') (strchr optstring c))"

fun short_options :: "string \<Rightarrow> string \<Rightarrow> string option \<Rightarrow> optEvent list \<times> bool" where
  "short_options optstring [] nxt = ([], False)"
| "short_options optstring (c # cs) nxt =
     (case short_kind optstring c of
        None \<Rightarrow> (case short_options optstring cs nxt of (os, u) \<Rightarrow> (opt_error # os, u))
      | Some False \<Rightarrow> (case short_options optstring cs nxt of (os, u) \<Rightarrow> ((c, None) # os, u))
      | Some True \<Rightarrow>
          if cs \<noteq> [] then ([(c, Some cs)], False)
          else case nxt of None \<Rightarrow> ([opt_error], False) | Some v \<Rightarrow> ([(c, Some v)], True))"

text \<open>All calls of \<open>getopt_long\<close>: the options, and the operands behind \<open>optind\<close>.\<close>

function getopt_long :: "optTable \<Rightarrow> string \<Rightarrow> string list \<Rightarrow> optEvent list \<times> string list" where
  "getopt_long longOpts optstring [] = ([], [])"
| "getopt_long longOpts optstring (a # as) =
     (let nxt = (if as = [] then None else Some (hd as)) in
      if a = ''--'' then ([], as)
      else if take 2 a = ''--'' then
        (case long_option longOpts (drop 2 a) nxt of (ev, used) \<Rightarrow>
           case getopt_long longOpts optstring (if used then tl as else as) of (os, r) \<Rightarrow> (ev # os, r))
      else if 2 \<le> length a \<and> hd a = CHR ''-'' then
        (case short_options optstring (tl a) nxt of (evs, used) \<Rightarrow>
           case getopt_long longOpts optstring (if used then tl as else as) of (os, r) \<Rightarrow> (evs @ os, r))
      else case getopt_long longOpts optstring as of (os, r) \<Rightarrow> (os, a # r))"
  by pat_completeness auto
termination by (relation "measure (\<lambda>(_, _, as). length as)") (auto simp: Let_def)

lemma getopt_long_assignment:
  assumes "find_long lo n = Some (h, c)" "h \<noteq> no_argument" "CHR ''='' \<notin> set n"
  shows "getopt_long lo os ((''--'' @ n @ ''='' @ v) # as) = ((c, Some v) # fst (getopt_long lo os as), snd (getopt_long lo os as))"
proof -
  have "takeWhile (\<lambda>c. c \<noteq> CHR ''='') (n @ CHR ''='' # v) = n"
    using assms(3) by (simp add: takeWhile_not_mem)
  then have "long_option lo (n @ CHR ''='' # v) nxt = ((c, Some v), False)" for nxt
    using assms by (simp add: long_option_def)
  then show ?thesis by (simp add: Let_def split: prod.splits)
qed

lemma getopt_long_operands: "getopt_long lo os (''--'' # as) = ([], as)"
  by simp

end
