(* ===== verification/Launch.thy ===== *)
theory Launch
  imports ProcDipSpec Getopt
begin

unbundle bit_operations_syntax

text \<open>
  The launcher, \<open>src/src/crinit-launch.c\<close>, in a build with capabilities and cgroups: the program
  a task's command is started through when it runs as another user or group, or in a cgroup.
  \<open>launchEnv\<close> is what the kernel answers to its system calls and allocations.
\<close>

section \<open>Command line\<close>

definition longOptions :: optTable where
  "longOptions =
     [(''help'', no_argument, CHR ''h''), (''version'', no_argument, CHR ''V''), (''cmd'', required_argument, CHR ''c''),
      (''user'', required_argument, CHR ''u''), (''groups'', required_argument, CHR ''g''),
      (''caps'', required_argument, CHR ''p''), (''cgroup'', optional_argument, CHR ''r'')]"

definition opts_str :: string where
  "opts_str = ''hc:u:g:V:p:r''"

text \<open>\<open>strtoul\<close> with base 16.\<close>

definition strtoul_hex :: "string \<Rightarrow> int" where
  "strtoul_hex s =
     (let t = dropWhile c_isspace s;
          neg = (t \<noteq> [] \<and> hd t = CHR ''-'');
          u = (if t \<noteq> [] \<and> (hd t = CHR ''-'' \<or> hd t = CHR ''+'') then tl t else t);
          x = (if 3 \<le> length u \<and> (take 2 u = ''0x'' \<or> take 2 u = ''0X'') \<and> is_hex (u ! 2) then drop 2 u else u);
          v = foldl (\<lambda>n c. 16 * n + int (hex_digit c)) 0 (takeWhile is_hex x)
      in if ULONG_MAX < v then ULONG_MAX else (if neg then - v else v) mod (ULONG_MAX + 1))"

section \<open>Groups\<close>

text \<open>The tokens of the list of groups; \<open>None\<close> is malformed input.\<close>

fun group_tokens :: "string list \<Rightarrow> nat list option" where
  "group_tokens [] = Some []"
| "group_tokens (t # ts) =
     (case strtoul 10 t of (v, erange, endptr) \<Rightarrow>
        if endptr = t \<or> endptr \<noteq> [] \<or> erange then None
        else map_option ((#) (to_uint v)) (group_tokens ts))"

definition crinitExtractGroups :: "bool \<Rightarrow> string \<Rightarrow> nat list option" where
  "crinitExtractGroups callocOk input =
     (let groupSize = length (filter (\<lambda>c. c = CHR '','') input) + 1 in
      if \<not> callocOk then None
      else case group_tokens (strtok_all (CHR '','') input) of
        None \<Rightarrow> None
      | Some gs \<Rightarrow> if length gs \<noteq> groupSize then None else Some gs)"

section \<open>The program\<close>

record launchEnv =
  lnCaps :: capEnv
  lnCg :: cgroupEnv
  lnPid :: int
  lnStrdupOk :: "char \<Rightarrow> bool"
  lnCallocOk :: bool
  lnArgvOk :: bool
  setgroupsOk :: "nat list \<Rightarrow> bool"
  setgidOk :: "nat \<Rightarrow> bool"
  setuidOk :: "nat \<Rightarrow> bool"
  execOk :: "string \<Rightarrow> bool"

text \<open>The credentials of the process.\<close>

record proc =
  puid :: nat
  pgid :: nat
  pgroups :: "nat list"
  pcaps :: procCaps

text \<open>How the program ends: it exits with a code, or another program takes its place.\<close>

datatype launchEnd = Exits int | Execs string "string list" proc

record launchOpts =
  lCmd :: "string option"
  lUser :: "nat option"
  lGroups :: "nat list option"
  lCaps :: "64 word"
  lCgroup :: "string option"

text \<open>One option: the variables of \<open>main\<close>, or the exit code. Duplicating a null pointer is undefined.\<close>

definition launch_option :: "launchEnv \<Rightarrow> launchOpts \<Rightarrow> optEvent \<Rightarrow> (int + launchOpts) run" where
  "launch_option e l ev =
     (case ev of (c, arg) \<Rightarrow>
        if c = CHR ''c'' then
          (if lCmd l \<noteq> None then Ret (Inl 1)
           else Ret (Inr (l\<lparr>lCmd := if lnStrdupOk e c then arg else None\<rparr>)))
        else if c = CHR ''u'' then
          (case strtoul 10 (the arg) of (v, erange, endptr) \<Rightarrow>
             if endptr = the arg \<or> endptr \<noteq> [] \<or> erange then Ret (Inl 1)
             else Ret (Inr (l\<lparr>lUser := Some (to_uint v)\<rparr>)))
        else if c = CHR ''g'' then
          (if lGroups l \<noteq> None then Ret (Inl 1)
           else case crinitExtractGroups (lnCallocOk e) (the arg) of
             None \<Rightarrow> Ret (Inl 1)
           | Some gs \<Rightarrow> Ret (Inr (l\<lparr>lGroups := Some gs\<rparr>)))
        else if c = CHR ''p'' then
          (case arg of None \<Rightarrow> Undef | Some a \<Rightarrow> Ret (Inr (l\<lparr>lCaps := word_of_int (strtoul_hex a)\<rparr>)))
        else if c = CHR ''r'' then
          (if lCgroup l \<noteq> None then Ret (Inl 1)
           else case arg of
             None \<Rightarrow> Undef
           | Some a \<Rightarrow> Ret (Inr (l\<lparr>lCgroup := if lnStrdupOk e c then Some a else None\<rparr>)))
        else if c = CHR ''V'' then Ret (Inl 0)
        else Ret (Inl 1))"

fun launch_options :: "launchEnv \<Rightarrow> launchOpts \<Rightarrow> optEvent list \<Rightarrow> (int + launchOpts) run" where
  "launch_options e l [] = Ret (Inr l)"
| "launch_options e l (ev # evs) =
     bind_run (launch_option e l ev) (\<lambda>r. case r of Inl x \<Rightarrow> Ret (Inl x) | Inr l \<Rightarrow> launch_options e l evs)"

text \<open>Group, supplementary groups and user; \<open>None\<close> when a call fails.\<close>

definition set_groups :: "launchEnv \<Rightarrow> nat list \<Rightarrow> proc \<Rightarrow> proc option" where
  "set_groups e gs p =
     (if gs = [] then Some p
      else if \<not> setgroupsOk e [] then None
      else if \<not> setgidOk e (hd gs) then None
      else let p = p\<lparr>pgroups := [], pgid := hd gs\<rparr> in
        if tl gs = [] then Some p
        else if \<not> setgroupsOk e (tl gs) then None
        else Some (p\<lparr>pgroups := tl gs\<rparr>))"

text \<open>On a change from the user 0 to another one the kernel clears the ambient set.\<close>

definition set_user :: "launchEnv \<Rightarrow> nat option \<Rightarrow> proc \<Rightarrow> proc option" where
  "set_user e u p =
     (case u of None \<Rightarrow> Some p | Some x \<Rightarrow> 
        if \<not> setuidOk e x then None
        else Some (p\<lparr>puid := x, pcaps := if puid p = 0 \<and> x \<noteq> 0 then (pcaps p)\<lparr>ambient := 0\<rparr> else pcaps p\<rparr>))"

text \<open>Inheritable and then ambient capabilities.\<close>

definition set_caps :: "launchEnv \<Rightarrow> 64 word \<Rightarrow> proc \<Rightarrow> proc option" where
  "set_caps e m p =
     (case crinitCapSetInheritable (lnCaps e) m (pcaps p) of (r, c) \<Rightarrow>
        if r = -1 then None
        else case crinitCapSetAmbient (lnCaps e) m c of (r, c) \<Rightarrow>
          if r = -1 then None else Some (p\<lparr>pcaps := c\<rparr>))"

text \<open>
  From the credentials to the execution. The name of the cgroup was released when the process
  had been assigned to it, and is released again on a failure.
\<close>

definition launch_exec :: "launchEnv \<Rightarrow> launchOpts \<Rightarrow> string \<Rightarrow> string list \<Rightarrow> proc \<Rightarrow> launchEnd run" where
  "launch_exec e l cmd av p =
     (let failureExit = (if lCgroup l \<noteq> None then Undef else Ret (Exits 1)) in
      case set_groups e (case lGroups l of None \<Rightarrow> [] | Some gs \<Rightarrow> gs) p of
        None \<Rightarrow> failureExit
      | Some p \<Rightarrow>
          (case set_user e (lUser l) p of
             None \<Rightarrow> failureExit
           | Some p \<Rightarrow>
               (case set_caps e (lCaps l) p of
                  None \<Rightarrow> failureExit
                | Some p \<Rightarrow> if \<not> execOk e cmd then failureExit else Ret (Execs cmd av p))))"

text \<open>\<open>main\<close>, on the arguments behind the name of the program. The second component is what was done to the cgroup.\<close>

definition launch_main :: "launchEnv \<Rightarrow> string list \<Rightarrow> proc \<Rightarrow> (launchEnd \<times> cgOp list) run" where
  "launch_main e as p =
     (case getopt_long longOptions opts_str as of (evs, operands) \<Rightarrow>
        bind_run (launch_options e \<lparr>lCmd = None, lUser = None, lGroups = None, lCaps = 0, lCgroup = None\<rparr> evs) (\<lambda>r. case r of
          Inl x \<Rightarrow> Ret (Exits x, [])
        | Inr l \<Rightarrow>
            (case lCmd l of
               None \<Rightarrow> Ret (Exits 1, [])
             | Some cmd \<Rightarrow>
                 if \<not> lnArgvOk e then Ret (Exits 1, [])
                 else case crinitCapRetainPermitted (lnCaps e) (pcaps p) of (r, c) \<Rightarrow>
                   if r = -1 then Ret (Exits 1, [])
                   else let p = p\<lparr>pcaps := c\<rparr> in
                     case lCgroup l of
                       None \<Rightarrow> map_ret (\<lambda>x. (x, [])) (launch_exec e l cmd (cmd # operands) p)
                     | Some n \<Rightarrow>
                         (case crinitCGroupAssignPID (lnCg e) \<lparr>cgName = n, groupFd = -1, parent = None, config = None\<rparr> (lnPid e) of
                            (r, _, ops) \<Rightarrow>
                              if r \<noteq> 0 then Ret (Exits 1, ops)
                              else map_ret (\<lambda>x. (x, ops)) (launch_exec e l cmd (cmd # operands) p)))))"

section \<open>Lemmas\<close>

lemma strtok_all_list:
  assumes "x \<noteq> []" "d \<notin> set x" "\<forall>y \<in> set ys. y \<noteq> [] \<and> d \<notin> set y"
  shows "strtok_all d (x @ concat (map (\<lambda>y. d # y) ys)) = x # ys"
  using assms
proof (induction ys arbitrary: x)
  case Nil
  then have "dropWhile (\<lambda>c. c = d) x = x" by (cases x) auto
  moreover have t: "takeWhile (\<lambda>c. c \<noteq> d) x = x" "dropWhile (\<lambda>c. c \<noteq> d) x = []" using Nil by auto
  ultimately show ?case
    using Nil by (simp add: strtok_all.simps [of d x] strtok_all.simps [of d "[]"] t del: dropWhile_eq_Nil_conv takeWhile_eq_all_conv)
next
  case (Cons y ys)
  let ?r = "d # y @ concat (map (\<lambda>y. d # y) ys)"
  have "dropWhile (\<lambda>c. c = d) (x @ ?r) = x @ ?r" using Cons.prems by (cases x) auto
  moreover have "takeWhile (\<lambda>c. c \<noteq> d) (x @ ?r) = x" "dropWhile (\<lambda>c. c \<noteq> d) (x @ ?r) = ?r"
    using Cons.prems by (auto simp: takeWhile_not_mem dropWhile_append)
  moreover have "strtok_all d ?r = strtok_all d (y @ concat (map (\<lambda>y. d # y) ys))"
    by (simp add: strtok_all.simps [of d ?r] strtok_all.simps [of d "y @ concat (map (\<lambda>y. d # y) ys)"])
  ultimately show ?case using Cons by (simp add: strtok_all.simps [of d "x @ ?r"])
qed

lemma show_int_chars: "c \<in> set (show_int v) \<Longrightarrow> c_isdigit c \<or> c = CHR ''-''"
  using digits_of_isdigit by (auto simp: show_int_def split: if_splits)

lemma show_id_text: "show_id n \<noteq> []" "CHR '','' \<notin> set (show_id n)"
  using show_int_chars [of "CHR '',''" "to_int (int n)"] by (auto simp: show_id_def show_int_def c_isdigit_def)

text \<open>Ids survive being printed as signed numbers and read back as unsigned ones.\<close>

lemma ExtractGroups_param:
  assumes "\<forall>g \<in> set (g0 # gs). g < 4294967296"
  shows "crinitExtractGroups True (show_id g0 @ crinitCreateSupGroupsParamString gs) = Some (g0 # gs)"
proof -
  have s: "show_id g0 @ crinitCreateSupGroupsParamString gs =
      show_id g0 @ concat (map (\<lambda>y. CHR '','' # y) (map show_id gs))"
    by (simp add: crinitCreateSupGroupsParamString_def comp_def)
  have toks: "strtok_all (CHR '','') (show_id g0 @ crinitCreateSupGroupsParamString gs) = map show_id (g0 # gs)"
    unfolding s by (subst strtok_all_list) (auto simp: show_id_text)
  have none: "filter (\<lambda>c. c = CHR '','') (show_id n) = []" for n
    using show_id_text(2) [of n] by (auto simp: filter_empty_conv)
  have count: "length (filter (\<lambda>c. c = CHR '','') (show_id g0 @ crinitCreateSupGroupsParamString gs)) = length gs"
    using none by (simp add: crinitCreateSupGroupsParamString_def filter_concat comp_def length_concat sum_list_triv)
  have "group_tokens (map show_id hs) = Some hs" if "\<forall>g \<in> set hs. g < 4294967296" for hs
    using that
  proof (induction hs)
    case (Cons h hs)
    then obtain v where "strtoul 10 (show_id h) = (v, False, [])" "to_uint v = h" using strtoul_show_id [of h] by auto
    then show ?case using Cons show_id_text(1) [of h] by auto
  qed simp
  from this [OF assms] show ?thesis using toks count by (simp add: crinitExtractGroups_def)
qed

lemma show_hex_Nil [simp]: "show_hex n \<noteq> []"
  by (simp add: show_hex.simps [of n] Let_def)

lemma hex_digit_char:
  fixes d :: nat
  assumes "d < 16"
  defines "c \<equiv> char_of (if d < 10 then 48 + d else 87 + d) :: char"
  shows "is_hex c" "hex_digit c = d" "\<not> c_isspace c" "c \<noteq> CHR ''-''" "c \<noteq> CHR ''+''" "c \<noteq> CHR ''x''" "c \<noteq> CHR ''X''"
proof -
  have o: "of_char c = (if d < 10 then 48 + d else 87 + d)" using assms(1) by (simp add: c_def)
  show "is_hex c" "hex_digit c = d" "\<not> c_isspace c"
    using assms(1) by (auto simp: is_hex_def c_isdigit_def hex_digit_def c_isspace_def o Let_def)
  show "c \<noteq> CHR ''-''" "c \<noteq> CHR ''+''" "c \<noteq> CHR ''x''" "c \<noteq> CHR ''X''"
    by (rule notI, use o assms(1) in \<open>simp split: if_splits\<close>)+
qed


lemma show_hex_chars: "c \<in> set (show_hex n) \<Longrightarrow> \<exists>d < 16 :: nat. c = char_of (if d < 10 then 48 + d else 87 + d)"
proof (induction n rule: show_hex.induct)
  case (1 n)
  have "c = char_of (if n mod 16 < 10 then 48 + n mod 16 else 87 + n mod 16) \<or> \<not> n < 16 \<and> c \<in> set (show_hex (n div 16))"
    using 1(2) by (subst (asm) show_hex.simps) (auto simp: Let_def split: if_splits)
  then show ?case
  proof
    assume c: "c = char_of (if n mod 16 < 10 then 48 + n mod 16 else 87 + n mod 16)"
    have "n mod 16 < 16" by simp
    with c show ?thesis by blast
  next
    assume "\<not> n < 16 \<and> c \<in> set (show_hex (n div 16))"
    then show ?thesis using 1(1) by blast
  qed
qed

lemma show_hex_value: "foldl (\<lambda>n c. 16 * n + int (hex_digit c)) 0 (show_hex n) = int n"
proof (induction n rule: show_hex.induct)
  case (1 n)
  have d: "hex_digit (char_of (if n mod 16 < 10 then 48 + n mod 16 else 87 + n mod 16)) = n mod 16"
    using hex_digit_char(2) [of "n mod 16"] by simp
  show ?case
  proof (cases "n < 16")
    case True
    then show ?thesis using hex_digit_char(2) [of n] by (simp add: show_hex.simps [of n] Let_def)
  next
    case False
    then have "foldl (\<lambda>n c. 16 * n + int (hex_digit c)) 0 (show_hex (n div 16)) = int (n div 16)" using 1 by simp
    then show ?thesis using False d
      by (simp add: show_hex.simps [of n] Let_def zdiv_int zmod_int del: of_nat_mod of_nat_div)
  qed
qed

lemma strtoul_hex_show:
  assumes "n < 18446744073709551616"
  shows "strtoul_hex (show_hex n) = int n"
proof -
  obtain c cs where s: "show_hex n = c # cs" by (meson list.exhaust show_hex_Nil)
  have ok: "\<forall>x \<in> set (show_hex n). is_hex x \<and> \<not> c_isspace x \<and> x \<noteq> CHR ''-'' \<and> x \<noteq> CHR ''+'' \<and> x \<noteq> CHR ''x'' \<and> x \<noteq> CHR ''X''"
  proof
    fix x
    assume "x \<in> set (show_hex n)"
    from show_hex_chars [OF this] obtain d :: nat where "d < 16" "x = char_of (if d < 10 then 48 + d else 87 + d)" by auto
    then show "is_hex x \<and> \<not> c_isspace x \<and> x \<noteq> CHR ''-'' \<and> x \<noteq> CHR ''+'' \<and> x \<noteq> CHR ''x'' \<and> x \<noteq> CHR ''X''"
      using hex_digit_char [of d] by simp
  qed
  have c: "c \<in> set (show_hex n)" by (simp add: s)
  then have "dropWhile c_isspace (show_hex n) = show_hex n" using ok unfolding s by simp
  moreover have t: "takeWhile is_hex (show_hex n) = show_hex n"
    using ok by (simp add: takeWhile_eq_all_conv)
  moreover have "\<not> (take 2 (show_hex n) = ''0x'' \<or> take 2 (show_hex n) = ''0X'')"
  proof
    assume "take 2 (show_hex n) = ''0x'' \<or> take 2 (show_hex n) = ''0X''"
    then have "CHR ''x'' \<in> set (take 2 (show_hex n)) \<or> CHR ''X'' \<in> set (take 2 (show_hex n))" by auto
    then have "CHR ''x'' \<in> set (show_hex n) \<or> CHR ''X'' \<in> set (show_hex n)" by (meson in_set_takeD)
    then show False using ok by blast
  qed
  moreover have "hd (show_hex n) \<noteq> CHR ''-''" "hd (show_hex n) \<noteq> CHR ''+''" using ok c by (simp_all add: s)
  ultimately show ?thesis using assms by (simp add: strtoul_hex_def show_hex_value Let_def t del: takeWhile_eq_all_conv)
qed

section \<open>From the daemon to the process\<close>

text \<open>What the kernel has to allow for a process with these credentials.\<close>

definition permits :: "launchEnv \<Rightarrow> crinitTask \<Rightarrow> 64 word \<Rightarrow> bool" where
  "permits e t m \<longleftrightarrow> grants (lnCaps e) m \<and> lnStrdupOk e (CHR ''c'') \<and> lnStrdupOk e (CHR ''r'') \<and> lnCallocOk e \<and> lnArgvOk e \<and>
     setgroupsOk e [] \<and> setgroupsOk e (supGroups t) \<and> setgidOk e (group t) \<and> setuidOk e (user t) \<and>
     (\<forall>x. execOk e x) \<and> lnPid e > 0 \<and> cgBase (lnCg e) \<and>
     (\<forall>cg. cgroup t = Some cg \<longrightarrow> cgDir (lnCg e) (cg_path cg) \<noteq> None \<and> cgFile (lnCg e) (cg_path cg) ''cgroup.procs'' \<and>
        cgWriteOk (lnCg e) (cg_path cg) ''cgroup.procs'' (show_int (lnPid e) @ [CHR 0x0A]))"

definition ids_ok :: "crinitTask \<Rightarrow> bool" where
  "ids_ok t \<longleftrightarrow> user t < 4294967296 \<and> (\<forall>g \<in> set (group t # supGroups t). g < 4294967296)"

lemma find_long_names:
  "find_long longOptions ''cmd'' = Some (required_argument, CHR ''c'')" "find_long longOptions ''user'' = Some (required_argument, CHR ''u'')"
  "find_long longOptions ''group'' = Some (required_argument, CHR ''g'')" "find_long longOptions ''caps'' = Some (required_argument, CHR ''p'')"
  "find_long longOptions ''cgroup'' = Some (optional_argument, CHR ''r'')"
  by (simp_all add: find_long_def longOptions_def)

text \<open>The options of the launcher that stand for a task and a capability mask.\<close>

definition launch_params :: "crinitTask \<Rightarrow> 64 word \<Rightarrow> string list \<Rightarrow> string list" where
  "launch_params t m av =
     [''--cmd='' @ hd av, ''--user='' @ show_id (user t),
      ''--group='' @ show_id (group t) @ crinitCreateSupGroupsParamString (supGroups t), ''--caps='' @ show_hex (unat m)] @
     (case cgroup t of None \<Rightarrow> [] | Some cg \<Rightarrow> [''--cgroup='' @ cg_path cg]) @ [''--''] @ tl av"

lemma getopt_launch_params:
  "getopt_long longOptions opts_str (launch_params t m av) =
     ([(CHR ''c'', Some (hd av)), (CHR ''u'', Some (show_id (user t))),
       (CHR ''g'', Some (show_id (group t) @ crinitCreateSupGroupsParamString (supGroups t))), (CHR ''p'', Some (show_hex (unat m)))] @
      (case cgroup t of None \<Rightarrow> [] | Some cg \<Rightarrow> [(CHR ''r'', Some (cg_path cg))]), tl av)"
proof -
  note o = getopt_long_assignment [OF find_long_names(1)] getopt_long_assignment [OF find_long_names(2)]
    getopt_long_assignment [OF find_long_names(3)] getopt_long_assignment [OF find_long_names(4)]
    getopt_long_assignment [OF find_long_names(5)]
  show ?thesis unfolding launch_params_def
    by (cases "cgroup t") (use o getopt_long_operands [where as = "tl av"] in \<open>simp_all del: getopt_long.simps\<close>)
qed

lemma launch_options_params:
  assumes "ids_ok t" "lnStrdupOk e (CHR ''c'')" "lnStrdupOk e (CHR ''r'')" "lnCallocOk e"
  shows "launch_options e \<lparr>lCmd = None, lUser = None, lGroups = None, lCaps = 0, lCgroup = None\<rparr>
      (fst (getopt_long longOptions opts_str (launch_params t m av))) =
    Ret (Inr \<lparr>lCmd = Some (hd av), lUser = Some (user t), lGroups = Some (group t # supGroups t), lCaps = m,
              lCgroup = map_option cg_path (cgroup t)\<rparr>)"
proof -
  obtain v where v: "strtoul 10 (show_id (user t)) = (v, False, [])" "to_uint v = user t"
    using assms(1) strtoul_show_id [of "user t"] by (auto simp: ids_ok_def)
  have g: "crinitExtractGroups True (show_id (group t) @ crinitCreateSupGroupsParamString (supGroups t)) = Some (group t # supGroups t)"
    using assms(1) by (intro ExtractGroups_param) (simp add: ids_ok_def)
  have "unat m < 2 ^ LENGTH(64)" by (rule unsigned_less)
  then have "unat m < 18446744073709551616" by simp
  then have "word_of_int (strtoul_hex (show_hex (unat m))) = m" by (simp add: strtoul_hex_show)
  then show ?thesis unfolding getopt_launch_params
    by (cases "cgroup t") (use v g assms(2-4) show_id_text(1) [of "user t"] in \<open>simp_all add: launch_option_def\<close>)
qed

lemma set_groups_ok:
  assumes "permits e t m"
  shows "set_groups e (group t # supGroups t) p = Some (p\<lparr>pgid := group t, pgroups := supGroups t\<rparr>)"
  using assms by (cases p) (auto simp: set_groups_def permits_def Let_def)

lemma set_caps_ok:
  assumes "permits e t m"
  shows "set_caps e m p = Some (p\<lparr>pcaps := (pcaps p)\<lparr>inheritable := m, ambient := m\<rparr>\<rparr>)"
proof -
  have "(a AND m) OR m = m" for a by (rule bit_word_eqI) (auto simp: bit_simps)
  then show ?thesis using assms by (simp add: set_caps_def permits_def CapSetInheritable_exact CapSetAmbient_exact)
qed

lemma AssignPID_path:
  assumes "permits e t m" "cgroup t = Some cg"
  shows "\<exists>cg'. crinitCGroupAssignPID (lnCg e) \<lparr>cgName = cg_path cg, groupFd = -1, parent = None, config = None\<rparr> (lnPid e) =
    (0, cg', [CgWrite (cg_path cg) ''cgroup.procs'' (show_int (lnPid e) @ [CHR 0x0A])])"
  using assms
  by (auto simp: crinitCGroupAssignPID_def crinitCgroupOpen_def crinitCgroupSetParam_def permits_def cg_path_def [of "\<lparr>cgName = _, groupFd = _, parent = _, config = _\<rparr>"] Let_def)

lemma launch_main_params:
  assumes "ids_ok t" "permits e t m" "av \<noteq> []"
  shows "launch_main e (launch_params t m av) p =
    Ret (Execs (hd av) av
        \<lparr>puid = user t, pgid = group t, pgroups = supGroups t,
         pcaps = \<lparr>inheritable = m, ambient = m, secureBits = secureBits (pcaps p) OR SECBIT_KEEP_CAPS\<rparr>\<rparr>,
      (case cgroup t of None \<Rightarrow> [] | Some cg \<Rightarrow> [CgWrite (cg_path cg) ''cgroup.procs'' (show_int (lnPid e) @ [CHR 0x0A])]))"
proof -
  have o: "launch_options e \<lparr>lCmd = None, lUser = None, lGroups = None, lCaps = 0, lCgroup = None\<rparr>
      (fst (getopt_long longOptions opts_str (launch_params t m av))) =
    Ret (Inr \<lparr>lCmd = Some (hd av), lUser = Some (user t), lGroups = Some (group t # supGroups t), lCaps = m,
              lCgroup = map_option cg_path (cgroup t)\<rparr>)" (is "_ = Ret (Inr ?l)")
    using assms by (intro launch_options_params) (simp_all add: permits_def)
  have x: "launch_exec e ?l (hd av) av q =
      Ret (Execs (hd av) av (q\<lparr>puid := user t, pgid := group t, pgroups := supGroups t,
        pcaps := (pcaps q)\<lparr>inheritable := m, ambient := m\<rparr>\<rparr>))" for q
    using assms(2) set_groups_ok [OF assms(2)] set_caps_ok [OF assms(2)]
    by (simp add: launch_exec_def set_user_def permits_def)
  have r: "crinitCapRetainPermitted (lnCaps e) (pcaps p) = (0, (pcaps p)\<lparr>secureBits := secureBits (pcaps p) OR SECBIT_KEEP_CAPS\<rparr>)"
    using assms(2) by (simp add: crinitCapRetainPermitted_def permits_def grants_def)
  have a: "lnArgvOk e" "hd av # tl av = av" "snd (getopt_long longOptions opts_str (launch_params t m av)) = tl av"
    using assms by (simp_all add: permits_def getopt_launch_params)
  show ?thesis
  proof (cases "cgroup t")
    case None
    then show ?thesis using o x r a by (cases "getopt_long longOptions opts_str (launch_params t m av)"; cases p; cases "pcaps p") (simp add: launch_main_def)
  next
    case (Some cg)
    with AssignPID_path [OF assms(2) Some] show ?thesis using o x r a
      by (cases "getopt_long longOptions opts_str (launch_params t m av)"; cases p; cases "pcaps p") (auto simp: launch_main_def)
  qed
qed

lemma CreateLauncherParameters_params:
  assumes "argv taskCmd \<noteq> []" "optLock (globOpts w) = Unlocked" "defaultCaps (globOpts w) = Some caps" "capsStrdupOk s"
    "crinitCapConvertToBitmask (spawnCaps s) 0 caps = Ret (0, d)"
    "crinitCreateLauncherParameters s taskCmd t launcher w = Ret (0, av, w')"
  shows "av = launcher # launch_params t ((d AND NOT (capabilitiesClear t)) OR capabilitiesSet t) (argv taskCmd)"
proof -
  have "cgroup_param cg = cg_path cg" for cg by (simp add: cgroup_param_def cg_path_def split: option.splits)
  then show ?thesis using assms
    by (auto simp: crinitCreateLauncherParameters_def launch_params_def Let_def crinitGlobOptGetString_def crinitGlobOptBorrow_def
        crinitGlobOptRemit_def remit_with_def split: if_splits option.splits)
qed

text \<open>
  C16: the arguments the daemon prepares for a command make the launcher execute exactly that
  command, as the user, the group and with the supplementary groups of the task, in its cgroup,
  and with its effective capabilities as inheritable and ambient set: the default ones without
  those the task clears and with those it sets.
\<close>

theorem launched_process:
  assumes "crinitCreateLauncherParameters s taskCmd t launcher w = Ret (0, av, w')"
    and "argv taskCmd \<noteq> []" "optLock (globOpts w) = Unlocked" "defaultCaps (globOpts w) = Some caps" "capsStrdupOk s"
    and "crinitCapConvertToBitmask (spawnCaps s) 0 caps = Ret (0, d)"
    and "ids_ok t" "permits e t ((d AND NOT (capabilitiesClear t)) OR capabilitiesSet t)"
  shows "launch_main e (tl av) p =
    Ret (Execs (hd (argv taskCmd)) (argv taskCmd)
        \<lparr>puid = user t, pgid = group t, pgroups = supGroups t,
         pcaps = \<lparr>inheritable = (d AND NOT (capabilitiesClear t)) OR capabilitiesSet t,
                  ambient = (d AND NOT (capabilitiesClear t)) OR capabilitiesSet t,
                  secureBits = secureBits (pcaps p) OR SECBIT_KEEP_CAPS\<rparr>\<rparr>,
      (case cgroup t of None \<Rightarrow> [] | Some cg \<Rightarrow> [CgWrite (cg_path cg) ''cgroup.procs'' (show_int (lnPid e) @ [CHR 0x0A])]))"
  using CreateLauncherParameters_params [OF assms(2-6,1)] launch_main_params [OF assms(7,8,2)]
  by simp

definition sampleLaunchEnv :: launchEnv where
  "sampleLaunchEnv =
     \<lparr>lnCaps = sampleCapEnv, lnCg = sampleCgroupEnv, lnPid = 7, lnStrdupOk = (\<lambda>_. True), lnCallocOk = True, lnArgvOk = True,
      setgroupsOk = (\<lambda>_. True), setgidOk = (\<lambda>_. True), setuidOk = (\<lambda>_. True), execOk = (\<lambda>_. True)\<rparr>"

theorem launched_process_witness:
  "\<exists>av w'. crinitCreateLauncherParameters (sampleSpawnEnv (\<lambda>_. Exited 0)) \<lparr>argv = [''/x'', ''y'']\<rparr>
       ((sampleTask ''a'')\<lparr>user := 4294967295, group := 3, supGroups := [4, 5], capabilitiesSet := 32, cgroup := Some sampleCgroup\<rparr>)
       ''/l'' (sampleDaemon []) = Ret (0, av, w') \<and>
     launch_main sampleLaunchEnv (tl av)
       \<lparr>puid = 0, pgid = 0, pgroups = [0], pcaps = \<lparr>inheritable = 0, ambient = 0, secureBits = 0\<rparr>\<rparr> =
     Ret (Execs ''/x'' [''/x'', ''y'']
       \<lparr>puid = 4294967295, pgid = 3, pgroups = [4, 5], pcaps = \<lparr>inheritable = 32, ambient = 32, secureBits = 16\<rparr>\<rparr>,
       [CgWrite ''a'' ''cgroup.procs'' [CHR ''7'', CHR 0x0A]])"
proof -
  let ?s = "sampleSpawnEnv (\<lambda>_. Exited 0)" and ?c = "\<lparr>argv = [''/x'', ''y'']\<rparr>" and
    ?t = "(sampleTask ''a'')\<lparr>user := 4294967295, group := 3, supGroups := [4, 5], capabilitiesSet := 32, cgroup := Some sampleCgroup\<rparr>"
  have d: "optLock (globOpts (sampleDaemon [])) = Unlocked" "defaultCaps (globOpts (sampleDaemon [])) = Some []"
    by (simp_all add: sampleDaemon_def crinitGlobOpts_def Let_def)
  have b: "crinitCapConvertToBitmask (spawnCaps ?s) 0 [] = Ret (0, 0)"
    by (simp add: crinitCapConvertToBitmask_def crinitConfConvToStrArr_def argv_words.simps sampleSpawnEnv_def sampleCapEnv_def)
  obtain av w' where r: "crinitCreateLauncherParameters ?s ?c ?t ''/l'' (sampleDaemon []) = Ret (0, av, w')"
    using d b by (auto simp: crinitCreateLauncherParameters_def crinitGlobOptGetString_def crinitGlobOptBorrow_def
        crinitGlobOptRemit_def remit_with_def Let_def sampleSpawnEnv_def)
  have p: "permits sampleLaunchEnv ?t ((0 AND NOT (capabilitiesClear ?t)) OR capabilitiesSet ?t)"
    by (simp add: permits_def grants_def sampleLaunchEnv_def sampleCapEnv_def sampleCgroupEnv_def)
  have i: "ids_ok ?t" by (simp add: ids_ok_def)
  have k: "cg_path sampleCgroup = ''a''" by (simp add: cg_path_def sampleCgroup_def)
  have n: "show_int 7 = ''7''" by code_simp
  show ?thesis using r launched_process [OF r _ d _ b i p]
    by (simp add: sampleSpawnEnv_def k n sampleLaunchEnv_def)
qed

end
