(* ===== verification/Daemon.thy ===== *)
theory Daemon
  imports RtimCmdSpec
begin

unbundle bit_operations_syntax

text \<open>
  The daemon as a transition system: scheduling steps, the reports and the ends of the dispatch threads, dependencies
  and features, new tasks, the runtime commands and the shutdown, in any order. A state is the world with
  the names of the tasks that have a thread which runs them, or one which stops them. The invariant is that no task has
  two threads that run it at once. Some steps can break it: they are named, and the invariant is for the runs without them.
\<close>

section \<open>Busy tasks\<close>

text \<open>A task that has been dispatched and whose end has not been reported.\<close>

definition busy :: "crinitTask \<Rightarrow> bool" where
  "busy t \<longleftrightarrow> state t AND (CRINIT_TASK_STATE_RUNNING OR CRINIT_TASK_STATE_STARTING) \<noteq> 0 \<and>
     state t AND (CRINIT_TASK_STATE_DONE OR CRINIT_TASK_STATE_FAILED) = 0"

lemma busy_not_ready: "busy t \<Longrightarrow> \<not> crinitTaskIsReady t"
  by (simp add: busy_def crinitTaskIsReady_def)

lemma busy_state: "state t' = state t \<Longrightarrow> busy t' = busy t"
  by (simp add: busy_def)

text \<open>A step that keeps the world consistent and every busy task busy.\<close>

definition calm :: "world \<Rightarrow> world \<Rightarrow> bool" where
  "calm w w' \<longleftrightarrow> world_ok w' \<and>
     (\<forall>n t. task_map (taskDB w) n = Some t \<longrightarrow> busy t \<longrightarrow> (\<exists>t'. task_map (taskDB w') n = Some t' \<and> busy t'))"

lemma calmI:
  "world_ok w' \<Longrightarrow> (\<And>n t. task_map (taskDB w) n = Some t \<Longrightarrow> busy t \<Longrightarrow> \<exists>t'. task_map (taskDB w') n = Some t' \<and> busy t') \<Longrightarrow>
   calm w w'"
  by (auto simp: calm_def)

lemma calm_ok: "calm w w' \<Longrightarrow> world_ok w'"
  by (simp add: calm_def)

lemma calm_refl: "world_ok w \<Longrightarrow> calm w w"
  by (simp add: calm_def)

lemma calm_trans: "calm w w' \<Longrightarrow> calm w' w'' \<Longrightarrow> calm w w''"
  unfolding calm_def by blast

lemma calm_irrelevant [simp]:
  "calm w (w'\<lparr>trace := x\<rparr>) = calm w w'" "calm w (w'\<lparr>inhibitWait := b\<rparr>) = calm w w'" "calm w (w'\<lparr>waitInhibitLock := m\<rparr>) = calm w w'"
  by (simp_all add: calm_def)

lemma calm_eased: "world_ok w' \<Longrightarrow> all_eased w w' \<Longrightarrow> calm w w'"
  by (rule calmI) (auto elim!: all_easedE dest: eased_sel(2) busy_state)

context task_update
begin

lemma calm_step:
  assumes "world_ok w" "on_db (\<lambda>ctx. op ctx n) w = Ret (r, w')"
    and "\<And>t. pre t" "\<And>t. distinct (deps t) \<Longrightarrow> distinct (deps (upd t))" "\<And>t. state (upd t) = state t"
  shows "calm w w'"
proof (cases "task_map (taskDB w) n")
  case None
  then show ?thesis using world_unknown [OF assms(1) None] assms(2) by (auto simp: calm_def)
next
  case (Some t)
  then have "distinct (deps (upd t))" using assms(4) world_ok_deps [OF assms(1)] by blast
  then show ?thesis
    using world_update [OF assms(1) Some assms(3)] assms(2,5) busy_state [of "upd t" t] Some by (auto intro!: calmI)
qed

end

section \<open>Operations on the database\<close>

lemma RespawnInhibit_calm:
  "world_ok w \<Longrightarrow> on_db (\<lambda>ctx. crinitTaskDBSetTaskRespawnInhibit ctx b n) w = Ret (r, w') \<Longrightarrow> calm w w'"
  by (erule (1) setRespawnInhibit.calm_step) simp_all

lemma SetPID_calm: "world_ok w \<Longrightarrow> on_db (\<lambda>ctx. crinitTaskDBSetTaskPID ctx p n) w = Ret (r, w') \<Longrightarrow> calm w w'"
  by (erule (1) setPID.calm_step) simp_all

lemma AddDep_calm:
  assumes "world_ok w" "on_db (\<lambda>ctx. crinitTaskDBAddDepToTask a b ctx d n) w = Ret (r, w')"
  shows "calm w w'"
proof (cases "on_db (\<lambda>ctx. crinitTaskDBAddDepToTask True True ctx d n) w = Ret (r, w')")
  case True
  then show ?thesis by (rule addDep.calm_step [OF assms(1)]) auto
next
  case False
  have "lock (taskDB w) = Unlocked" using assms(1) by (simp add: world_ok_def db_ok_def)
  with False assms(2) have "w' = w"
    by (auto simp: on_db_def crinitTaskDBAddDepToTask_def map_ret_eq_Ret_iff elim!: bind_RetE split: option.split_asm if_split_asm)
  then show ?thesis using assms(1) by (simp add: calm_refl)
qed

text \<open>A dependency is taken from one task, wherever in the database it is.\<close>

lemma RemoveStruct_calm:
  assumes "world_ok w" "i < length (taskSet (taskDB w))"
    and "crinitTaskDBRemoveDepFromTaskStruct (taskSet (taskDB w) ! i) d (timerPool w) = Ret (u, p)"
    and "released (taskDB w) db'" "taskSet db' = (taskSet (taskDB w))[i := u]"
  shows "calm w (w\<lparr>taskDB := db', timerPool := p\<rparr>)"
proof -
  let ?db = "taskDB w" and ?t = "taskSet (taskDB w) ! i"
  have db: "db_ok ?db" and pool: "pool_ok (timerPool w)" using assms(1) by (simp_all add: world_ok_def)
  have t: "?t \<in> set (taskSet ?db)" using assms(2) by simp
  have wf: "task_wf ?t" and d: "distinct (deps ?t)" using db_okD(3) [OF db t] assms(1) t by (simp_all add: world_ok_def)
  have u: "pool_ok p" "distinct (deps u)" "u = ?t\<lparr>deps := deps u, triggered := triggered ?t \<or> d \<in> set (trig ?t)\<rparr>"
    using RemoveDep_ok [OF task_wf_not_freed [OF wf] d pool, of d] assms(3) by auto
  have un: "name u = name ?t" "state u = state ?t" "task_wf u" using wf by (subst u(3), simp)+
  note m = task_update_ok [OF db assms(2) un(1,3) assms(4,5)]
  have "set (taskSet db') \<subseteq> insert u (set (taskSet ?db))" by (simp add: assms(5) set_update_subset_insert)
  then have "world_ok (w\<lparr>taskDB := db', timerPool := p\<rparr>)" using assms(1) m(1) u(1,2) by (auto simp: world_ok_def)
  moreover have "task_map ?db (name ?t) = Some ?t" using db assms(2) by (simp add: task_map_nth db_ok_def)
  ultimately show ?thesis using m(2) busy_state [OF un(2)] by (auto intro!: calmI)
qed

lemma RemoveDep_calm:
  assumes "world_ok w" "crinitTaskDBRemoveDepFromTask w d n = Ret (r, w')"
  shows "calm w w'"
proof (cases "task_map (taskDB w) n")
  case None
  then have "w' = w" using assms by (auto simp: crinitTaskDBRemoveDepFromTask_def world_ok_def unknown_find db_ok_def)
  then show ?thesis using assms(1) by (simp add: calm_refl)
next
  case (Some t)
  let ?db = "taskDB w"
  have db: "db_ok ?db" using assms(1) by (simp add: world_ok_def)
  obtain i where i: "crinitFindTask (?db\<lparr>lock := Locked\<rparr>) n = Ret (Some i)" "i < length (taskSet ?db)"
    by (rule known_task [OF db Some])
  then obtain u p where u: "crinitTaskDBRemoveDepFromTaskStruct (taskSet ?db ! i) d (timerPool w) = Ret (u, p)"
      "w' = w\<lparr>taskDB := ?db\<lparr>taskSet := (taskSet ?db)[i := u], changed := Suc (changed ?db), lock := Unlocked\<rparr>, timerPool := p\<rparr>"
    using assms(2) db
    by (auto simp: crinitTaskDBRemoveDepFromTask_def db_ok_def upd_task_def pthread_cond_broadcast_def elim!: bind_RetE)
  show ?thesis unfolding u(2) by (rule RemoveStruct_calm [OF assms(1) i(2) u(1)]) (simp_all add: released_def)
qed

lemma FulfillDep_calm:
  assumes "world_ok w" "crinitTaskDBFulfillDep w d target = Ret (r, w')" "\<forall>i. target = Some i \<longrightarrow> i < length (taskSet (taskDB w))"
  shows "calm w w'"
proof (cases target)
  case None
  then show ?thesis using FulfillDep_world [OF assms(1), of d] assms(2) by (auto intro: calm_eased)
next
  case (Some i)
  let ?db = "taskDB w"
  have "lock ?db = Unlocked" using assms(1) by (simp add: world_ok_def db_ok_def)
  then obtain u p where u: "crinitTaskDBRemoveDepFromTaskStruct (taskSet ?db ! i) d (timerPool w) = Ret (u, p)"
      "w' = w\<lparr>taskDB := ?db\<lparr>taskSet := (taskSet ?db)[i := u], changed := Suc (changed ?db), lock := Unlocked\<rparr>, timerPool := p\<rparr>"
    using assms(2) Some by (auto simp: crinitTaskDBFulfillDep_def pthread_cond_broadcast_def elim!: bind_RetE)
  show ?thesis unfolding u(2) by (rule RemoveStruct_calm [OF assms(1) _ u(1)]) (use assms(3) Some in \<open>simp_all add: released_def\<close>)
qed

text \<open>Reporting a state changes one task, whatever its failure count.\<close>

lemma SetState_effect:
  assumes "world_ok w" "on_db (\<lambda>ctx. crinitTaskDBSetTaskState now ctx s n) w = Ret (r, w')"
  shows "world_ok w'" "m \<noteq> n \<Longrightarrow> task_map (taskDB w') m = task_map (taskDB w) m"
    "task_map (taskDB w) n = Some t \<Longrightarrow> \<exists>t'. task_map (taskDB w') n = Some t' \<and> state t' = s"
proof -
  let ?db = "taskDB w"
  have db: "db_ok ?db" using assms(1) by (simp add: world_ok_def)
  have "world_ok w' \<and> (m \<noteq> n \<longrightarrow> task_map (taskDB w') m = task_map (taskDB w) m) \<and>
    (task_map (taskDB w) n = Some t \<longrightarrow> (\<exists>t'. task_map (taskDB w') n = Some t' \<and> state t' = s))"
  proof (cases "task_map ?db n")
    case None
    then show ?thesis using setState.world_unknown [OF assms(1) None, of now s] assms(2) by auto
  next
    case (Some u)
    obtain i where i: "crinitFindTask (?db\<lparr>lock := Locked\<rparr>) n = Ret (Some i)" "i < length (taskSet ?db)" "taskSet ?db ! i = u" "name u = n"
      by (rule known_task [OF db Some])
    obtain ts v where v: "set_state ts s u = Ret v"
      "w' = w\<lparr>taskDB := ?db\<lparr>taskSet := (taskSet ?db)[i := v], changed := Suc (changed ?db), lock := Unlocked\<rparr>\<rparr>"
      using assms(2) db i
      by (auto simp: on_db_def crinitTaskDBSetTaskState_def map_ret_eq_Ret_iff db_ok_def upd_task_def pthread_cond_broadcast_def Let_def
          elim!: bind_RetE)
    have eq: "state v = s" "name v = name u" "task_wf v = task_wf u" "deps v = deps u"
      using v(1) by (auto simp: set_state_def Let_def split: if_splits)
    have wf: "task_wf u" using db_okD(3) [OF db, of u] nth_mem [OF i(2)] i(3) by simp
    have "db_ok (taskDB w')" "task_map (taskDB w') = (task_map ?db)(n \<mapsto> v)"
      using task_update_ok [OF db i(2), of v "taskDB w'"] i eq wf by (simp_all add: v(2) released_def)
    moreover have "set (taskSet (taskDB w')) \<subseteq> insert v (set (taskSet ?db))" by (simp add: v(2) set_update_subset_insert)
    ultimately show ?thesis
      using assms(1) eq world_ok_deps [OF assms(1) Some] by (auto simp: world_ok_def v(2))
  qed
  then show "world_ok w'" "m \<noteq> n \<Longrightarrow> task_map (taskDB w') m = task_map (taskDB w) m"
    "task_map (taskDB w) n = Some t \<Longrightarrow> \<exists>t'. task_map (taskDB w') n = Some t' \<and> state t' = s" by blast+
qed

section \<open>Scheduling\<close>

text \<open>What scheduling does to one task: its state may change, but not if it is busy.\<close>

definition scheduled :: "crinitTask \<Rightarrow> crinitTask \<Rightarrow> bool" where
  "scheduled t t' \<longleftrightarrow> t' = t\<lparr>state := state t'\<rparr> \<and> (busy t \<longrightarrow> t' = t)"

lemma scheduled_sel: "scheduled t t' \<Longrightarrow> name t' = name t \<and> deps t' = deps t \<and> task_wf t' = task_wf t"
  by (cases t, cases t') (simp add: scheduled_def task_wf_def)

lemma scheduled_intros: "scheduled t t" "\<not> busy t \<Longrightarrow> scheduled t (t\<lparr>state := s\<rparr>)"
  by (simp_all add: scheduled_def)

text \<open>The tasks a thread was started for: dispatching them did not fail.\<close>

definition threads_of :: "(crinitTask \<Rightarrow> crinitDispatchThreadMode \<Rightarrow> int) \<Rightarrow> crinitDispatchThreadMode \<Rightarrow> crinitTask list \<Rightarrow> crinitTask list" where
  "threads_of f mode sp = filter (\<lambda>t. f t mode \<noteq> -1) sp"

lemma spawn_loop_threads:
  assumes "spawn_loop f mode ts = Ret (r, ts', sp)"
  shows "list_all2 scheduled ts ts' \<and> set (threads_of f mode sp) \<subseteq> {t \<in> set ts'. busy t} \<and>
    name ` set sp \<subseteq> name ` {t \<in> set ts. \<not> busy t} \<and> (distinct (map name ts) \<longrightarrow> distinct (map name sp))"
  using assms
proof (induction ts arbitrary: r ts' sp)
  case (Cons t ts)
  have same: "list_all2 scheduled ts ts" by (rule list.rel_refl) (rule scheduled_intros)
  let ?t = "t\<lparr>state := CRINIT_TASK_STATE_STARTING\<rparr>"
  have b: "busy ?t" by (simp add: busy_def)
  show ?case
  proof (cases "crinitTaskIsReady t")
    case True
    then have nb: "\<not> busy t" using busy_not_ready by blast
    show ?thesis
    proof (cases "f ?t mode = -1")
      case True
      then show ?thesis using Cons.prems \<open>crinitTaskIsReady t\<close> nb same by (auto simp: Let_def threads_of_def scheduled_intros split: if_splits)
    next
      case False
      then obtain ts1 sp1 where s: "spawn_loop f mode ts = Ret (r, ts1, sp1)" "ts' = ?t # ts1" "sp = ?t # sp1"
        using Cons.prems True by (auto simp: Let_def map_ret_eq_Ret_iff split: if_splits)
      from Cons.IH [OF s(1)] have "name ` set sp1 \<subseteq> name ` set ts" by auto
      then show ?thesis using Cons.IH [OF s(1)] nb b False by (auto simp: s(2,3) scheduled_intros threads_of_def)
    qed
  next
    case False
    then obtain ts1 where s: "spawn_loop f mode ts = Ret (r, ts1, sp)" "ts' = t # ts1"
      using Cons.prems by (auto simp: map_ret_eq_Ret_iff)
    then show ?thesis using Cons.IH [OF s(1)] by (auto simp: s(2) scheduled_intros)
  qed
qed (simp add: threads_of_def)

lemma list_all2_scheduled:
  "list_all2 scheduled ts ts' \<Longrightarrow> map name ts' = map name ts \<and> (\<forall>u \<in> set ts'. \<exists>t \<in> set ts. scheduled t u)"
  by (induction rule: list_all2_induct) (auto dest: scheduled_sel)

lemma SpawnReady_threads:
  assumes "world_ok w" "crinitTaskDBSpawnReady (taskDB w) mode = Ret (r, ctx, sp)"
  defines "th \<equiv> threads_of (the (spawnFunc (taskDB w))) mode sp" and "w' \<equiv> w\<lparr>taskDB := ctx\<rparr>"
  shows "calm w w'" "distinct (map name th)"
    "t \<in> set th \<Longrightarrow> task_map ctx (name t) = Some t \<and> busy t \<and> (\<exists>u. task_map (taskDB w) (name t) = Some u \<and> \<not> busy u)"
proof -
  let ?db = "taskDB w"
  have db: "db_ok ?db" "db_wf ?db" "lock ?db = Unlocked" using assms(1) by (simp_all add: world_ok_def db_ok_def)
  have "calm w w' \<and> distinct (map name th) \<and>
    (t \<in> set th \<longrightarrow> task_map ctx (name t) = Some t \<and> busy t \<and> (\<exists>u. task_map ?db (name t) = Some u \<and> \<not> busy u))"
  proof (cases "spawnInhibit ?db \<or> spawnFunc ?db = None")
    case True
    then have "ctx = ?db" "sp = []" using assms(2) db(3) by (auto simp: crinitTaskDBSpawnReady_def split: if_splits)
    then show ?thesis using assms(1) by (simp add: w'_def th_def threads_of_def calm_refl)
  next
    case False
    then obtain f where f: "spawnFunc ?db = Some f" by auto
    with False obtain ts where l: "spawn_loop f mode (taskSet ?db) = Ret (r, ts, sp)" and ctx: "ctx = ?db\<lparr>taskSet := ts\<rparr>"
      using assms(2) db(3) by (auto simp: crinitTaskDBSpawnReady_def elim!: bind_RetE)
    note s = spawn_loop_threads [OF l]
    have n: "map name ts = map name (taskSet ?db)" and old: "\<forall>u \<in> set ts. \<exists>t \<in> set (taskSet ?db). scheduled t u"
      using list_all2_scheduled s by blast+
    have wf: "db_wf ctx"
      using db(2) n map_eq_imp_length_eq [OF n] old by (auto simp: ctx db_wf_def dest: scheduled_sel)
    have d: "\<forall>u \<in> set ts. distinct (deps u)" using old assms(1) scheduled_sel by (fastforce simp: world_ok_def)
    have rel: "rel_option scheduled (task_map ?db m) (task_map ctx m)" for m
      using list_all2_task_map [of scheduled "taskSet ?db" ts m] s scheduled_sel by (simp add: task_map_def ctx)
    have "calm w w'"
    proof (rule calmI)
      show "world_ok w'" using assms(1) wf d by (simp add: world_ok_def w'_def db_ok_def ctx)
    next
      fix m u assume "task_map ?db m = Some u" "busy u"
      then show "\<exists>t'. task_map (taskDB w') m = Some t' \<and> busy t'" using rel [of m] by (auto simp: w'_def option_rel_Some1 scheduled_def)
    qed
    moreover have "distinct (map name sp)" using s db(2) by (simp add: db_wf_def)
    then have "distinct (map name th)" by (simp add: th_def threads_of_def distinct_map_filter)
    moreover have "task_map ctx (name t) = Some t \<and> busy t \<and> (\<exists>u. task_map ?db (name t) = Some u \<and> \<not> busy u)" if "t \<in> set th"
    proof -
      have t: "t \<in> set ts" "busy t" "name t \<in> name ` {t \<in> set (taskSet ?db). \<not> busy t}"
        using that s by (auto simp: th_def f threads_of_def)
      then show ?thesis using set_task_map [OF wf, of t] set_task_map [OF db(2)] by (auto simp: ctx)
    qed
    ultimately show ?thesis by blast
  qed
  then show "calm w w'" "distinct (map name th)"
    "t \<in> set th \<Longrightarrow> task_map ctx (name t) = Some t \<and> busy t \<and> (\<exists>u. task_map ?db (name t) = Some u \<and> \<not> busy u)" by blast+
qed

section \<open>Commands\<close>

lemma SetInhibitWait_calm: "crinitSetInhibitWait w b = Ret (r, w') \<Longrightarrow> calm w0 w' = calm w0 w"
  by (auto simp: crinitSetInhibitWait_def elim!: bind_RetE split: if_split_asm prod.split_asm)

lemma send_signal_calm: "send_signal e p sig w = (r, w') \<Longrightarrow> calm w0 w' = calm w0 w"
  by (auto simp: send_signal_def split: if_split_asm)

lemma respond_same: "respond e v as w = Ret (res, w') \<Longrightarrow> w' = w"
  by (simp add: respond_def)

lemma stop_task_calm:
  assumes "world_ok w" "stop_task e t w = Ret (err, w')"
  shows "calm w w'"
proof -
  have "lock (taskDB w) = Unlocked" using assms(1) by (simp add: world_ok_def db_ok_def)
  with assms show ?thesis
    by (auto simp: stop_task_def calm_refl send_signal_calm elim!: bind_RetE split: if_split_asm option.split_asm prod.split_asm)
qed

lemma read_only_calm:
  assumes "world_ok w"
  shows "crinitTaskDBGetTaskState (taskDB w) n = Ret (r, s, ctx) \<Longrightarrow> ctx = taskDB w \<and> (r \<noteq> -1 \<longrightarrow> (\<exists>t. task_map (taskDB w) n = Some t \<and> s = state t))"
    and "crinitTaskDBGetTaskPID (taskDB w) n = Ret (r, p, ctx) \<Longrightarrow> ctx = taskDB w"
    and "crinitTaskDBGetTaskByName True NoFault (taskDB w) n = Ret (r, out, ctx) \<Longrightarrow> ctx = taskDB w"
proof -
  have db: "db_ok (taskDB w)" using assms by (simp add: world_ok_def)
  note known = GetTaskState_known [OF db] GetTaskPID_known [OF db] GetTaskByName_known [OF db]
  show "crinitTaskDBGetTaskState (taskDB w) n = Ret (r, s, ctx) \<Longrightarrow> ctx = taskDB w \<and> (r \<noteq> -1 \<longrightarrow> (\<exists>t. task_map (taskDB w) n = Some t \<and> s = state t))"
    using known(1) [of n] db by (cases "task_map (taskDB w) n") (auto simp: crinitTaskDBGetTaskState_def unknown_find db_ok_def)
  show "crinitTaskDBGetTaskPID (taskDB w) n = Ret (r, p, ctx) \<Longrightarrow> ctx = taskDB w"
    using known(2) [of n] db by (cases "task_map (taskDB w) n") (auto simp: GetTaskPID_unknown)
  show "crinitTaskDBGetTaskByName True NoFault (taskDB w) n = Ret (r, out, ctx) \<Longrightarrow> ctx = taskDB w"
    using known(3) [of n] db by (cases "task_map (taskDB w) n") (auto simp: crinitTaskDBGetTaskByName_def unknown_find db_ok_def)
qed

lemma Enable_calm: "world_ok w \<Longrightarrow> crinitExecRtimCmdEnable e w cmd = Ret (res, w') \<Longrightarrow> calm w w'"
  by (auto simp: crinitExecRtimCmdEnable_def calm_refl elim!: bind_RetE split: if_split_asm dest!: respond_same dest: RemoveDep_calm)

lemma Disable_calm: "world_ok w \<Longrightarrow> crinitExecRtimCmdDisable e w cmd = Ret (res, w') \<Longrightarrow> calm w w'"
  by (auto simp: crinitExecRtimCmdDisable_def calm_refl elim!: bind_RetE split: if_split_asm dest!: respond_same dest: AddDep_calm)

lemma SetInhibitWait_ok: "world_ok w \<Longrightarrow> crinitSetInhibitWait w b = Ret (r, w') \<Longrightarrow> world_ok w' \<and> calm w w'"
  using SetInhibitWait_calm calm_refl calm_ok by blast

lemma Kill_calm:
  assumes "world_ok w" "crinitExecRtimCmdKill e w cmd = Ret (res, w')"
  shows "calm w w'"
proof -
  have "calm w (b\<lparr>taskDB := ctx\<rparr>)"
    if "crinitSetInhibitWait w True = Ret (r, b)" "crinitTaskDBGetTaskPID (taskDB b) n = Ret (r', p, ctx)" for r b r' n p ctx
    using SetInhibitWait_ok [OF assms(1) that(1)] read_only_calm(2) [OF _ that(2)] by simp
  then show ?thesis
    using assms
    by (auto simp: crinitExecRtimCmdKill_def calm_refl Let_def SetInhibitWait_calm send_signal_calm elim!: bind_RetE
        split: if_split_asm prod.split_asm dest!: respond_same)
qed

lemma Stop_calm:
  assumes "world_ok w" "crinitExecRtimCmdStop e w cmd = Ret (res, w')" "getDupOk e" "getDupFault e = NoFault"
  shows "calm w w'"
proof -
  have inh: "calm w w1"
    if "crinitSetInhibitWait w True = Ret (r, b)" "on_db (\<lambda>ctx. crinitTaskDBSetTaskRespawnInhibit ctx True n) b = Ret (r', w1)" for r b r' n w1
    using SetInhibitWait_ok [OF assms(1) that(1)] RespawnInhibit_calm [OF _ that(2)] calm_trans by blast
  have get: "w1\<lparr>taskDB := ctx\<rparr> = w1"
    if "calm w w1" "crinitTaskDBGetTaskByName True NoFault (taskDB w1) n = Ret (r, out, ctx)" for w1 n r out ctx
    using read_only_calm(3) [OF calm_ok [OF that(1)] that(2)] by simp
  have stop: "calm w w2" if "stop_task e t w1 = Ret (err, w2)" "calm w w1" for w1 t err w2
    using stop_task_calm [OF calm_ok [OF that(2)] that(1)] that(2) calm_trans by blast
  show ?thesis
    using assms
    by (auto simp: crinitExecRtimCmdStop_def calm_refl Let_def SetInhibitWait_calm elim!: bind_RetE
        split: if_split_asm option.split_asm dest!: respond_same simp: get [OF inh]) (rule inh, assumption, assumption | rule stop [OF _ inh], assumption, assumption, assumption)+
qed

lemma Restart_calm:
  assumes "world_ok w" "crinitExecRtimCmdRestart e w cmd = Ret (res, w')"
  shows "calm w w'"
proof -
  let ?n = "args cmd ! 0"
  have "calm w w2"
    if g: "crinitTaskDBGetTaskState (taskDB w) ?n = Ret (r, s, ctx)" "r \<noteq> -1" "s AND (CRINIT_TASK_STATE_DONE OR CRINIT_TASK_STATE_FAILED) \<noteq> 0"
      and i: "on_db (\<lambda>ctx. crinitTaskDBSetTaskRespawnInhibit ctx False ?n) w = Ret (r1, w1)"
      and s: "on_db (\<lambda>ctx. crinitTaskDBSetTaskState (rtimClock e) ctx 0 ?n) w1 = Ret (r2, w2)" for r s ctx r1 w1 r2 w2
  proof -
    obtain t where t: "task_map (taskDB w) ?n = Some t" "s = state t" using read_only_calm(1) [OF assms(1) g(1)] g(2) by auto
    have c: "calm w w1" by (rule RespawnInhibit_calm [OF assms(1) i])
    note e = SetState_effect [OF calm_ok [OF c] s]
    have "\<not> busy t" using g(3) t(2) by (simp add: busy_def)
    then show ?thesis using c e(1) e(2) t(1) unfolding calm_def by (metis option.inject)
  qed
  moreover have "ctx = taskDB w" if "crinitTaskDBGetTaskState (taskDB w) ?n = Ret (r, s, ctx)" for r s ctx
    using read_only_calm(1) [OF assms(1) that] by simp
  ultimately show ?thesis
    using assms
    by (auto simp: crinitExecRtimCmdRestart_def calm_refl Let_def elim!: bind_RetE split: if_split_asm
        dest!: respond_same) (erule (1) RespawnInhibit_calm)
qed

lemma notify_state_calm:
  assumes "world_ok w" "notify_state e n s ev msg w = Ret (err, w')"
    and "s AND (CRINIT_TASK_STATE_RUNNING OR CRINIT_TASK_STATE_STARTING) \<noteq> 0" "s AND (CRINIT_TASK_STATE_DONE OR CRINIT_TASK_STATE_FAILED) = 0"
  shows "calm w w'"
proof -
  obtain r w1 where w1: "on_db (\<lambda>ctx. crinitTaskDBSetTaskState (rtimClock e) ctx s n) w = Ret (r, w1)"
    using assms(2) by (auto simp: notify_state_def elim!: bind_RetE)
  note eff = SetState_effect [OF assms(1) w1]
  have c1: "calm w w1"
  proof (rule calmI)
    fix m t assume t: "task_map (taskDB w) m = Some t" "busy t"
    show "\<exists>t'. task_map (taskDB w1) m = Some t' \<and> busy t'"
      using eff(2) [of m] eff(3) [of t] t assms(3,4) by (cases "m = n") (auto simp: busy_def)
  qed (rule eff)
  show ?thesis
  proof (cases "r = -1")
    case True
    then show ?thesis using c1 w1 assms(2) by (simp add: notify_state_def)
  next
    case False
    then obtain t where "task_map (taskDB w) n = Some t"
      using setState.world_unknown [OF assms(1), of n "rtimClock e" s] w1 by (cases "task_map (taskDB w) n") auto
    then obtain t1 where t1: "task_map (taskDB w1) n = Some t1" using eff(3) by blast
    obtain w2 where w2: "crinitTaskDBFulfillDep w1 \<lparr>depName = n, event = ev\<rparr> None = Ret (0, w2)" "world_ok w2" "all_eased w1 w2"
      using FulfillDep_world [OF eff(1), of "\<lparr>depName = n, event = ev\<rparr>"] by (auto elim!: ret_satE)
    obtain t2 where t2: "task_map (taskDB w2) n = Some t2" by (rule all_easedE [OF w2(3) t1])
    obtain w3 where w3: "crinitTaskDBProvideFeatureByTaskName w2 n s = Ret (0, w3)" "world_ok w3" "all_eased w2 w3"
      using ProvideFeatureByTaskName_world [OF w2(2) t2, of s] by (auto elim!: ret_satE)
    have "w' = w3" using w1 w2(1) w3(1) False assms(2) by (simp add: notify_state_def)
    then show ?thesis using calm_trans [OF c1 calm_trans [OF calm_eased [OF w2(2,3)] calm_eased [OF w3(2,3)]]] by simp
  qed
qed

text \<open>A notification that says the task is stopping.\<close>

definition announces_stop :: "crinitRtimCmd \<Rightarrow> bool" where
  "announces_stop cmd \<longleftrightarrow> ntfStopping (foldl notify_arg \<lparr>ntfPid = -1, ntfReady = -1, ntfStopping = -1\<rparr> (tl (args cmd))) > 0"

lemma Notify_calm:
  assumes "world_ok w" "crinitExecRtimCmdNotify e w cmd = Ret (res, w')" "\<not> announces_stop cmd"
  shows "calm w w'"
proof -
  let ?n = "args cmd ! 0" and ?s = "CRINIT_TASK_STATE_RUNNING OR CRINIT_TASK_STATE_NOTIFIED :: crinitTaskState"
  define a where "a = foldl notify_arg \<lparr>ntfPid = -1, ntfReady = -1, ntfStopping = -1\<rparr> (tl (args cmd))"
  have s: "?s AND (CRINIT_TASK_STATE_RUNNING OR CRINIT_TASK_STATE_STARTING) \<noteq> 0" "?s AND (CRINIT_TASK_STATE_DONE OR CRINIT_TASK_STATE_FAILED) = 0"
    by simp_all
  show ?thesis
  proof (cases "cmd_argc cmd < 2")
    case True
    then show ?thesis using assms(1,2) by (auto simp: crinitExecRtimCmdNotify_def calm_refl dest!: respond_same)
  next
    case False
    then obtain r w1 where p: "(if ntfPid a > 0 then on_db (\<lambda>ctx. crinitTaskDBSetTaskPID ctx (ntfPid a) ?n) w else Ret (0, w)) = Ret (r, w1)"
      using assms(2) by (auto simp: crinitExecRtimCmdNotify_def Let_def a_def [symmetric] elim!: bind_RetE)
    then have c: "calm w w1" using SetPID_calm [OF assms(1)] assms(1) by (auto simp: calm_refl split: if_split_asm)
    have st: "calm w w2" if "notify_state e ?n ?s ev msg w1 = Ret (err, w2)" for ev msg err w2
      using calm_trans [OF c notify_state_calm [OF calm_ok [OF c] that s]] .
    show ?thesis
      using assms(2,3) False p c st [simplified]
      by (auto simp: crinitExecRtimCmdNotify_def announces_stop_def Let_def a_def [symmetric] elim!: bind_RetE
          split: if_split_asm option.split_asm dest!: respond_same)
  qed
qed

lemma reading_same:
  assumes "world_ok w"
  shows "crinitExecRtimCmdStatus e w cmd = Ret (res, w') \<Longrightarrow> w' = w"
    and "crinitExecRtimCmdTaskList e w cmd = Ret (res, w') \<Longrightarrow> w' = w"
    and "crinitExecRtimCmdGetVer e w cmd = Ret (res, w') \<Longrightarrow> w' = w"
proof -
  have u: "lock (taskDB w) = Unlocked" using assms by (simp add: world_ok_def db_ok_def)
  then have same: "w\<lparr>taskDB := (taskDB w)\<lparr>lock := Unlocked\<rparr>\<rparr> = w" by (cases w; cases "taskDB w") simp
  show "crinitExecRtimCmdStatus e w cmd = Ret (res, w') \<Longrightarrow> w' = w"
    using u same by (auto simp: crinitExecRtimCmdStatus_def crinitTaskDBBorrowTask_def crinitTaskDBRemit_def Let_def
        elim!: bind_RetE split: if_split_asm option.split_asm dest!: respond_same)
  show "crinitExecRtimCmdTaskList e w cmd = Ret (res, w') \<Longrightarrow> w' = w"
    using u same by (auto simp: crinitExecRtimCmdTaskList_def crinitTaskDBExportTaskNamesToArray_def Let_def
        elim!: bind_RetE split: if_split_asm option.split_asm dest!: respond_same)
  show "crinitExecRtimCmdGetVer e w cmd = Ret (res, w') \<Longrightarrow> w' = w"
    by (auto simp: crinitExecRtimCmdGetVer_def split: if_split_asm prod.split_asm dest!: respond_same)
qed

lemma Shutdown_calm: "world_ok w \<Longrightarrow> crinitExecRtimCmdShutdown e w cmd = Ret (res, w') \<Longrightarrow> calm w w'"
  by (auto simp: crinitExecRtimCmdShutdown_def calm_refl split: if_split_asm option.split_asm dest!: respond_same)

lemma events_calm [simp]:
  "calm w0 (snd (send_signal e p sig w)) = calm w0 w" "calm w0 (snd (crinitGracePeriod now micros w)) = calm w0 w"
  by (simp_all add: send_signal_def crinitGracePeriod_def split: option.split)

lemma SpawnInhibit_calm:
  assumes "world_ok w" "on_db (\<lambda>ctx. crinitTaskDBSetSpawnInhibit ctx b) w = Ret (r, w')"
  shows "calm w w'"
proof -
  have "taskSet (taskDB w') = taskSet (taskDB w) \<and> lock (taskDB w') = Unlocked \<and> timerPool w' = timerPool w \<and> globOpts w' = globOpts w \<and>
      taskSetSize (taskDB w') = taskSetSize (taskDB w)"
    using assms by (auto simp: on_db_def crinitTaskDBSetSpawnInhibit_def Let_def pthread_cond_broadcast_def world_ok_def db_ok_def)
  then show ?thesis using assms(1) by (auto simp: calm_def world_ok_def db_ok_def db_wf_def task_map_def)
qed

lemma ShdnThread_calm:
  assumes "world_ok w" "crinitShdnThread e c w = Ret w'"
  shows "calm w w'"
proof -
  have u: "lock (taskDB w) = Unlocked" "optLock (globOpts w) = Unlocked" using assms(1) by (simp_all add: world_ok_def db_ok_def)
  have g: "\<exists>r gp. crinitGlobOptGetUnsignedLL ShdGraceP (globOpts w) = Ret (r, gp, globOpts w)"
    using u(2) by (simp add: crinitGlobOptGetUnsignedLL_def crinitGlobOptBorrow_def remit_with_def crinitGlobOptRemit_def)
  have t: "w\<lparr>taskDB := (taskDB w)\<lparr>lock := Unlocked\<rparr>, trace := x\<rparr> = w\<lparr>trace := x\<rparr>" for x
    using u(1) by (cases w; cases "taskDB w") simp
  obtain ev where ev: "stop_all (spawnFunc (taskDB w)) (taskSet (taskDB w)) = Ret ev"
    using assms(2) u(1) by (auto simp: crinitShdnThread_def map_ret_eq_Ret_iff elim!: bind_RetE)
  obtain r gp where gp: "crinitGlobOptGetUnsignedLL ShdGraceP (globOpts w) = Ret (r, gp, globOpts w)" using g by blast
  define w0 where "w0 = w\<lparr>trace := trace w @ ev, globOpts := globOpts w\<rparr>"
  define w1 where "w1 = (if \<exists>t\<in>set (taskSet (taskDB w)). stopCmds t \<noteq> []
    then snd (crinitGracePeriod (rtimClock e) (if r = -1 then 100000 else gp) w0) else w0)"
  have "calm w w0" using assms(1) by (simp add: w0_def calm_def world_ok_def)
  then have w1: "calm w w1" by (simp add: w1_def)
  obtain r2 w2 where w2: "on_db (\<lambda>ctx. crinitTaskDBSetSpawnInhibit ctx True) w1 = Ret (r2, w2)" "calm w w' = calm w w2"
    using assms(2) u ev gp t
    by (auto simp: crinitShdnThread_def on_db_ignore_def Let_def map_ret_eq_Ret_iff elim!: bind_RetE split del: if_split)
      (unfold w1_def w0_def, blast)
  show ?thesis using calm_trans [OF w1 SpawnInhibit_calm [OF calm_ok [OF w1] w2(1)]] w2(2) by simp
qed

section \<open>The transition system\<close>

text \<open>
  A state of the daemon: the world, the threads that run a task and have not reported its end, those that run the stop
  commands of a task and have not reported their end, and those that have reported but not yet ended, all by the name of the task.
\<close>

record daemon =
  dWorld :: world
  dStart :: "string list"
  dStop :: "string list"
  dEnded :: "string list"

datatype daemonStep = Schedule | Running | Ended | StopRunning | StopEnded | Exit | LateRearm | SetPid | Reap | Fulfil | Feature |
  Insert | Overwrite | Command crinitRtimCmd | LateRestart | Shutdown

definition stop_threads :: "world \<Rightarrow> world \<Rightarrow> string list" where
  "stop_threads w w' = concat (map (\<lambda>ev. case ev of ThreadStarted n CRINIT_DISPATCH_THREAD_MODE_STOP \<Rightarrow> [n] | _ \<Rightarrow> [])
     (drop (length (trace w)) (trace w')))"

text \<open>
  The steps of the daemon that return. A dispatch thread reports that it is running and how it ends, sets the
  process id, reaps its process, fulfils dependencies and provides features, and at last, at \<open>threadExit\<close>, rearms the trigger of
  its task or removes its timers. A thread that stops a task reports like one that runs it. The timers and the event log
  fulfil dependencies, too. New tasks come from the configuration. A runtime command is one step; \<open>RESTART\<close>, which reads
  the state of the task and resets it in separate holds of the lock, is also split, for a reset that comes late. The
  memory for the tasks that are copied is available.
\<close>

inductive daemon_step :: "daemonStep \<Rightarrow> daemon \<Rightarrow> daemon \<Rightarrow> bool" where
  schedule: "crinitTaskDBSpawnReady (taskDB (dWorld d)) CRINIT_DISPATCH_THREAD_MODE_START = Ret (r, ctx, sp) \<Longrightarrow>
    daemon_step Schedule d (d\<lparr>dWorld := (dWorld d)\<lparr>taskDB := ctx\<rparr>, dStart :=
      map name (threads_of (the (spawnFunc (taskDB (dWorld d)))) CRINIT_DISPATCH_THREAD_MODE_START sp) @ dStart d\<rparr>)"
| running: "n \<in> set (dStart d) \<Longrightarrow> on_db (\<lambda>ctx. crinitTaskDBSetTaskState now ctx CRINIT_TASK_STATE_RUNNING n) (dWorld d) = Ret (r, w') \<Longrightarrow>
    daemon_step Running d (d\<lparr>dWorld := w'\<rparr>)"
| ended: "n \<in> set (dStart d) \<Longrightarrow> s = CRINIT_TASK_STATE_DONE \<or> s = CRINIT_TASK_STATE_FAILED \<Longrightarrow>
    on_db (\<lambda>ctx. crinitTaskDBSetTaskState now ctx s n) (dWorld d) = Ret (r, w') \<Longrightarrow>
    daemon_step Ended d (d\<lparr>dWorld := w', dStart := remove1 n (dStart d), dEnded := n # dEnded d\<rparr>)"
| stop_running: "n \<in> set (dStop d) \<Longrightarrow> on_db (\<lambda>ctx. crinitTaskDBSetTaskState now ctx CRINIT_TASK_STATE_RUNNING n) (dWorld d) = Ret (r, w') \<Longrightarrow>
    daemon_step StopRunning d (d\<lparr>dWorld := w'\<rparr>)"
| stop_ended: "n \<in> set (dStop d) \<Longrightarrow> s = CRINIT_TASK_STATE_DONE \<or> s = CRINIT_TASK_STATE_FAILED \<Longrightarrow>
    on_db (\<lambda>ctx. crinitTaskDBSetTaskState now ctx s n) (dWorld d) = Ret (r, w') \<Longrightarrow>
    daemon_step StopEnded d (d\<lparr>dWorld := w', dStop := remove1 n (dStop d), dEnded := n # dEnded d\<rparr>)"
| thread_exit: "name c \<in> set (dEnded d) \<Longrightarrow> task_wf c \<Longrightarrow> threadExit (Some c) (dWorld d) = Ret w' \<Longrightarrow>
    daemon_step (if rearms c \<and> name c \<in> set (dStart d) then LateRearm else Exit) d
      (d\<lparr>dWorld := w', dEnded := remove1 (name c) (dEnded d)\<rparr>)"
| set_pid: "on_db (\<lambda>ctx. crinitTaskDBSetTaskPID ctx p n) (dWorld d) = Ret (r, w') \<Longrightarrow> daemon_step SetPid d (d\<lparr>dWorld := w'\<rparr>)"
| reap: "crinitReapPid [] rs (dWorld d) p = Ret (r, w') \<Longrightarrow> daemon_step Reap d (d\<lparr>dWorld := w'\<rparr>)"
| fulfil: "\<forall>i. target = Some i \<longrightarrow> i < length (taskSet (taskDB (dWorld d))) \<Longrightarrow>
    crinitTaskDBFulfillDep (dWorld d) dep target = Ret (r, w') \<Longrightarrow> daemon_step Fulfil d (d\<lparr>dWorld := w'\<rparr>)"
| feature: "\<not> freed t \<Longrightarrow> crinitTaskDBProvideFeature (dWorld d) t s = Ret (r, w') \<Longrightarrow> daemon_step Feature d (d\<lparr>dWorld := w'\<rparr>)"
| insertion: "task_wf t \<Longrightarrow> distinct (deps t) \<Longrightarrow> crinitTaskDBInsert True NoFault (dWorld d) t overwrite = Ret (r, t', w') \<Longrightarrow>
    daemon_step (if overwrite then Overwrite else Insert) d (d\<lparr>dWorld := w'\<rparr>)"
| command: "getDupOk e \<Longrightarrow> getDupFault e = NoFault \<Longrightarrow> crinitExecRtimCmd e (dWorld d) cmd = Ret (res, w') \<Longrightarrow>
    daemon_step (Command cmd) d (d\<lparr>dWorld := w', dStop := stop_threads (dWorld d) w' @ dStop d\<rparr>)"
| late_restart: "on_db (\<lambda>ctx. crinitTaskDBSetTaskRespawnInhibit ctx False n) (dWorld d) = Ret (r, w') \<Longrightarrow>
    on_db (\<lambda>ctx. crinitTaskDBSetTaskState now ctx 0 n) w' = Ret (r', w'') \<Longrightarrow> daemon_step LateRestart d (d\<lparr>dWorld := w''\<rparr>)"
| shutdown: "crinitShdnThread e c (dWorld d) = Ret w' \<Longrightarrow>
    daemon_step Shutdown d (d\<lparr>dWorld := w', dStop := stop_threads (dWorld d) w' @ dStop d\<rparr>)"

inductive daemon_run :: "daemonStep list \<Rightarrow> daemon \<Rightarrow> daemon \<Rightarrow> bool" where
  stay: "daemon_run [] d d"
| go: "daemon_step l d d' \<Longrightarrow> daemon_run ls d' d'' \<Longrightarrow> daemon_run (l # ls) d d''"

text \<open>
  The steps that can make a task ready while a thread runs it: a task that is replaced, by an insertion or by a command that
  adds tasks, a notification that the task is stopping, the end of its stop commands, and a trigger rearmed or a task
  reset after the task has been started again.
\<close>

fun disturbs :: "daemonStep \<Rightarrow> bool" where
  "disturbs (Command cmd) =
     (case op cmd of
        CRINIT_RTIMCMD_C ADDTASK \<Rightarrow> True
      | CRINIT_RTIMCMD_C ADDSERIES \<Rightarrow> True
      | CRINIT_RTIMCMD_C NOTIFY \<Rightarrow> announces_stop cmd
      | _ \<Rightarrow> False)"
| "disturbs l = (l \<in> {StopEnded, LateRearm, Overwrite, LateRestart})"

text \<open>The threads belong to different tasks, all of them busy.\<close>

definition threads_ok :: "world \<Rightarrow> string list \<Rightarrow> bool" where
  "threads_ok w th \<longleftrightarrow> world_ok w \<and> distinct th \<and> (\<forall>n \<in> set th. \<exists>t. task_map (taskDB w) n = Some t \<and> busy t)"

lemma threads_ok_calm: "threads_ok w th \<Longrightarrow> calm w w' \<Longrightarrow> threads_ok w' th"
  unfolding threads_ok_def calm_def by fastforce

lemma threads_ok_world: "threads_ok w th \<Longrightarrow> world_ok w"
  by (simp add: threads_ok_def)

lemma command_calm:
  assumes "world_ok w" "getDupOk e" "getDupFault e = NoFault" "\<not> disturbs (Command cmd)" "crinitExecRtimCmd e w cmd = Ret (res, w')"
  shows "calm w w'"
proof (cases "op cmd")
  case (CRINIT_RTIMCMD_C v)
  then show ?thesis
    using assms calm_refl [OF assms(1)]
    by (cases v) (auto simp: crinitExecRtimCmd_def dest: Enable_calm Disable_calm Stop_calm Kill_calm Restart_calm Notify_calm
        Shutdown_calm reading_same [OF assms(1)])
next
  case (CRINIT_RTIMCMD_R v)
  then show ?thesis using assms by (simp add: crinitExecRtimCmd_def calm_refl)
qed

lemma Insert_calm:
  assumes "world_ok w" "task_wf t" "distinct (deps t)" "crinitTaskDBInsert True NoFault w t False = Ret (r, t', w')"
  shows "calm w w'"
  using Insert_ok [OF assms(1-3), of False] assms(4) by (auto simp: calm_def split: if_split_asm)

lemma ReapPid_calm: "world_ok w \<Longrightarrow> crinitReapPid [] rs w p = Ret (r, w') \<Longrightarrow> calm w w'"
  by (auto simp: crinitReapPid_def crinitBlockOnWaitInhibit_def calm_refl Let_def elim!: bind_RetE split: if_split_asm prod.split_asm)

lemma schedule_ok:
  assumes "threads_ok w th" "crinitTaskDBSpawnReady (taskDB w) mode = Ret (r, ctx, sp)"
  shows "threads_ok (w\<lparr>taskDB := ctx\<rparr>) (map name (threads_of (the (spawnFunc (taskDB w))) mode sp) @ th)"
proof -
  note s = SpawnReady_threads [OF threads_ok_world [OF assms(1)] assms(2)]
  let ?new = "threads_of (the (spawnFunc (taskDB w))) mode sp"
  have "name t \<notin> set th" if "t \<in> set ?new" for t
    using s(3) [OF that] assms(1) by (auto simp: threads_ok_def)
  then have "distinct (map name ?new @ th)" using s(2) assms(1) by (auto simp: threads_ok_def)
  moreover have "threads_ok (w\<lparr>taskDB := ctx\<rparr>) th" by (rule threads_ok_calm [OF assms(1) s(1)])
  ultimately show ?thesis using s(3) by (auto simp: threads_ok_def)
qed

lemma report_ok:
  assumes "threads_ok w th" "on_db (\<lambda>ctx. crinitTaskDBSetTaskState now ctx s n) w = Ret (r, w')"
  shows "threads_ok w' (remove1 n th)" "s = CRINIT_TASK_STATE_RUNNING \<Longrightarrow> threads_ok w' th"
proof -
  note e = SetState_effect [OF threads_ok_world [OF assms(1)] assms(2)]
  have th: "distinct th" "\<forall>m \<in> set th. \<exists>t. task_map (taskDB w) m = Some t \<and> busy t" using assms(1) by (auto simp: threads_ok_def)
  show "threads_ok w' (remove1 n th)" using e(1,2) th by (auto simp: threads_ok_def set_remove1_eq)
  assume s: "s = CRINIT_TASK_STATE_RUNNING"
  have "\<exists>t. task_map (taskDB w') m = Some t \<and> busy t" if "m \<in> set th" for m
  proof (cases "m = n")
    case True
    then show ?thesis using th(2) that e(3) s by (fastforce simp: busy_def)
  qed (use th(2) that e(2) in auto)
  then show "threads_ok w' th" using e(1) th(1) by (auto simp: threads_ok_def)
qed

lemma exit_ok:
  assumes "threads_ok w th" "task_wf c" "threadExit (Some c) w = Ret w'" "\<not> (rearms c \<and> name c \<in> set th)"
  shows "threads_ok w' th"
proof (cases "rearms c")
  case True
  obtain r where w': "on_db (\<lambda>ctx. crinitTaskRearmTrigger ctx (name c)) w = Ret (r, w')"
    using assms(3) True by (auto simp: threadExit_def map_ret_eq_Ret_iff elim!: bind_RetE)
  have ok: "world_ok w" "name c \<notin> set th" using assms True by (auto simp: threads_ok_def)
  have "world_ok w' \<and> (\<forall>m. m \<noteq> name c \<longrightarrow> task_map (taskDB w') m = task_map (taskDB w) m)"
  proof (cases "task_map (taskDB w) (name c)")
    case None
    then show ?thesis using rearm.world_unknown [OF ok(1) None] w' by auto
  next
    case (Some t)
    then show ?thesis using rearm.world_update [OF ok(1) Some] world_ok_deps [OF ok(1) Some] w' by auto
  qed
  then show ?thesis using assms(1) ok(2) unfolding threads_ok_def by metis
next
  case False
  have "calm w w'"
    using assms(1,3) False remove_timers_ok [of "timerPool w" "trig c"]
    by (auto simp: threadExit_def map_ret_eq_Ret_iff threads_ok_def world_ok_def calm_def elim!: bind_RetE)
  then show ?thesis by (rule threads_ok_calm [OF assms(1)])
qed

lemma daemon_step_ok:
  assumes "daemon_step l d d'" "threads_ok (dWorld d) (dStart d)" "\<not> disturbs l"
  shows "threads_ok (dWorld d') (dStart d')"
proof -
  note ok = threads_ok_world [OF assms(2)]
  note calm = threads_ok_calm [OF assms(2)]
  note rep = report_ok [OF assms(2)]
  show ?thesis
    using assms(1,3)
  proof (cases rule: daemon_step.cases)
    case (schedule r ctx sp)
    then show ?thesis using schedule_ok [OF assms(2)] by simp
  next
    case (thread_exit c w')
    then show ?thesis using exit_ok [OF assms(2) thread_exit(4,5)] assms(3) by (auto split: if_split_asm)
  next
    case (feature t s r w')
    then show ?thesis using ProvideFeature_world [OF ok feature(3), of s] calm calm_eased by auto
  next
    case (insertion t ov r t' w')
    then show ?thesis using Insert_calm [OF ok] calm assms(3) by (cases ov) auto
  next
    case (command e cmd res w')
    then show ?thesis using command_calm [OF ok command(3,4)] calm assms(3) by simp
  next
    case (reap rs p r w')
    then show ?thesis using ReapPid_calm [OF ok] calm by simp
  next
    case (set_pid p n r w')
    then show ?thesis using SetPID_calm [OF ok set_pid(3)] calm by simp
  next
    case (fulfil target dep r w')
    then show ?thesis using FulfillDep_calm [OF ok fulfil(4,3)] calm by simp
  next
    case (shutdown e c w')
    then show ?thesis using ShdnThread_calm [OF ok] calm by simp
  next
    case (running n now r w')
    then show ?thesis using rep(2) [OF running(4)] by simp
  next
    case (stop_running n now r w')
    then show ?thesis using rep(2) [OF stop_running(4)] by simp
  next
    case (ended n s now r w')
    then show ?thesis using rep(1) [OF ended(5)] by simp
  qed auto
qed

lemma daemon_run_ok:
  "daemon_run ls d d' \<Longrightarrow> threads_ok (dWorld d) (dStart d) \<Longrightarrow> \<forall>l \<in> set ls. \<not> disturbs l \<Longrightarrow> threads_ok (dWorld d') (dStart d')"
  by (induction rule: daemon_run.induct) (auto dest: daemon_step_ok)

text \<open>
  C1: whatever the daemon does, in any order of steps from a consistent start without threads, as long as no step is one of those
  that can disturb a running task (see \<open>disturbs\<close>: a task replaced by an insertion that overwrites, the commands \<open>ADDTASK\<close> and
  \<open>ADDSERIES\<close>, a notification with \<open>STOPPING\<close>, the end of stop commands, a late rearming of a trigger and a late \<open>RESTART\<close>): no task has
  two threads that run it, a task with such a thread is never ready to be dispatched again, the database stays
  consistent, and its lock is free, so that the next scheduling step returns. Threads that run stop commands, and threads that
  have reported the end of their task, are not counted.
\<close>

theorem one_thread_per_task:
  assumes "daemon_run ls \<lparr>dWorld = w, dStart = [], dStop = [], dEnded = []\<rparr> d" "world_ok w" "\<forall>l \<in> set ls. \<not> disturbs l"
  shows "world_ok (dWorld d) \<and> distinct (dStart d) \<and>
    (\<forall>n \<in> set (dStart d). \<exists>t. task_map (taskDB (dWorld d)) n = Some t \<and> \<not> crinitTaskIsReady t) \<and>
    ret_sat (\<lambda>_. True) (crinitTaskDBSpawnReady (taskDB (dWorld d)) mode)"
proof -
  have "threads_ok w []" using assms(2) by (simp add: threads_ok_def)
  then have ok: "world_ok (dWorld d)" "distinct (dStart d)" "\<forall>n \<in> set (dStart d). \<exists>t. task_map (taskDB (dWorld d)) n = Some t \<and> busy t"
    using daemon_run_ok [OF assms(1) _ assms(3)] by (simp_all add: threads_ok_def)
  have "ret_sat (\<lambda>_. True) (crinitTaskDBSpawnReady (taskDB (dWorld d)) mode)"
    using ok(1) by (auto intro: ret_sat_mono [OF SpawnReady_names] simp: world_ok_def)
  then show ?thesis using ok busy_not_ready by blast
qed

theorem one_thread_per_task_witness:
  "\<exists>d. daemon_run [Schedule] \<lparr>dWorld = sampleWorld [sampleTask ''a''], dStart = [], dStop = [], dEnded = []\<rparr> d \<and> dStart d = [''a''] \<and>
     (\<exists>t. task_map (taskDB (dWorld d)) ''a'' = Some t \<and> \<not> crinitTaskIsReady t)"
proof -
  let ?t = "(sampleTask ''a'')\<lparr>state := CRINIT_TASK_STATE_STARTING\<rparr>"
  let ?d = "\<lparr>dWorld = sampleWorld [sampleTask ''a''], dStart = [], dStop = [], dEnded = []\<rparr>"
  let ?d' = "?d\<lparr>dWorld := (dWorld ?d)\<lparr>taskDB := (sampleDB [sampleTask ''a''])\<lparr>taskSet := [?t]\<rparr>\<rparr>, dStart := [''a'']\<rparr>"
  have "crinitTaskDBSpawnReady (taskDB (dWorld ?d)) CRINIT_DISPATCH_THREAD_MODE_START =
      Ret (0, (sampleDB [sampleTask ''a''])\<lparr>taskSet := [?t]\<rparr>, [?t])"
    by (subst SpawnReady_all [where f = "\<lambda>t m. 0"]) (simp_all add: crinitTaskIsReady_def started_def)
  from daemon_step.schedule [OF this] have "daemon_step Schedule ?d ?d'" by (simp add: threads_of_def)
  then have r: "daemon_run [Schedule] ?d ?d'" by (blast intro: daemon_run.intros)
  show ?thesis using r one_thread_per_task [OF r] by (intro exI [of _ ?d']) auto
qed

section \<open>Notifications\<close>




section \<open>Steps that disturb\<close>













end
