(* ===== verification/ThrPool.thy ===== *)
theory ThrPool
  imports CLib
begin

text \<open>
  The pool of worker threads of the server, \<open>src/src/thrpool.c\<close>. The three counters are \<open>size_t\<close>
  and wrap around. The workers themselves are not modelled here: what a pool knows of them is how many it has
  created and how many of them have not reported to be busy. The watchdog thread is the round its endless
  loop repeats, entered when the condition variable is signalled.
\<close>

record crinitThreadPool =
  tpSize :: "64 word"
  tpSizeIncrement :: "64 word"
  threadAvail :: "64 word"
  tpLock :: mutex

abbreviation (input) CRINIT_THREADPOOL_DEFAULT_INITIAL_SIZE :: "64 word" where "CRINIT_THREADPOOL_DEFAULT_INITIAL_SIZE \<equiv> 8"

definition crinitDryPoolThreshold :: "64 word \<Rightarrow> 64 word" where
  "crinitDryPoolThreshold n = n div 10"

text \<open>What the operating system answers: the attributes of the threads, and the \<open>i\<close>-th creation.\<close>

record thrEnv =
  attrOk :: bool
  createOk :: "nat \<Rightarrow> bool"

section \<open>Growing\<close>

text \<open>The loop of \<open>crinitThreadPoolGrow\<close> over the threads from number \<open>i\<close> on, \<open>k\<close> of them.\<close>

fun grow_loop :: "thrEnv \<Rightarrow> nat \<Rightarrow> nat \<Rightarrow> crinitThreadPool \<Rightarrow> int \<times> crinitThreadPool" where
  "grow_loop e i 0 p = (0, p)"
| "grow_loop e i (Suc k) p =
     (if \<not> createOk e i then (-1, p)
      else grow_loop e (Suc i) k (p\<lparr>tpSize := tpSize p + 1, threadAvail := threadAvail p + 1\<rparr>))"

definition crinitThreadPoolGrow :: "thrEnv \<Rightarrow> crinitThreadPool \<Rightarrow> 64 word \<Rightarrow> (int \<times> crinitThreadPool) run" where
  "crinitThreadPoolGrow e p newSize =
     bind_run (pthread_mutex_lock (tpLock p)) (\<lambda>(err, m).
       let p = p\<lparr>tpLock := m\<rparr>; unlock = (\<lambda>p. p\<lparr>tpLock := snd (pthread_mutex_unlock (tpLock p))\<rparr>) in
       if err \<noteq> 0 then Ret (-1, p)
       else if newSize \<le> tpSize p then Ret (-1, unlock p)
       else if \<not> attrOk e then Ret (-1, unlock p)
       else case grow_loop e (unat (tpSize p)) (unat newSize - unat (tpSize p)) p of (r, p) \<Rightarrow> Ret (r, unlock p))"

text \<open>
  The initialisation of a pool. \<open>None\<close> stands for a structure that is not used after a failure of the mutex.
  When the worker threads cannot be created the watchdog thread is left running.
\<close>

definition crinitThreadPoolInit :: "bool \<Rightarrow> bool \<Rightarrow> bool \<Rightarrow> thrEnv \<Rightarrow> 64 word \<Rightarrow> (int \<times> crinitThreadPool option) run" where
  "crinitThreadPoolInit mutexOk mallocOk watchdogOk e initialSize =
     (if \<not> mutexOk then Ret (-1, None)
      else let n = (if initialSize = 0 then CRINIT_THREADPOOL_DEFAULT_INITIAL_SIZE else initialSize);
               p = \<lparr>tpSize = 0, tpSizeIncrement = n, threadAvail = 0, tpLock = Unlocked\<rparr> in
        if \<not> mallocOk \<or> \<not> attrOk e \<or> \<not> watchdogOk then Ret (-1, Some p)
        else bind_run (crinitThreadPoolGrow e p n) (\<lambda>(r, p). Ret (if r = -1 then -1 else 0, Some p)))"

section \<open>Reports of the workers\<close>

text \<open>Result, whether the watchdog is signalled, and the pool.\<close>

definition crinitThreadPoolThreadBusyCallback :: "crinitThreadPool \<Rightarrow> (int \<times> bool \<times> crinitThreadPool) run" where
  "crinitThreadPoolThreadBusyCallback p =
     bind_run (pthread_mutex_lock (tpLock p)) (\<lambda>(err, m).
       if err \<noteq> 0 then Ret (-1, False, p\<lparr>tpLock := m\<rparr>)
       else let p = p\<lparr>threadAvail := threadAvail p - 1\<rparr>
         in Ret (0, threadAvail p \<le> crinitDryPoolThreshold (tpSize p), p\<lparr>tpLock := snd (pthread_mutex_unlock m)\<rparr>))"

definition crinitThreadPoolThreadAvailCallback :: "crinitThreadPool \<Rightarrow> (int \<times> crinitThreadPool) run" where
  "crinitThreadPoolThreadAvailCallback p =
     bind_run (pthread_mutex_lock (tpLock p)) (\<lambda>(err, m).
       if err \<noteq> 0 then Ret (-1, p\<lparr>tpLock := m\<rparr>)
       else Ret (0, p\<lparr>threadAvail := threadAvail p + 1, tpLock := snd (pthread_mutex_unlock m)\<rparr>))"

definition watchdog_round :: "thrEnv \<Rightarrow> crinitThreadPool \<Rightarrow> crinitThreadPool run" where
  "watchdog_round e p =
     bind_run (pthread_mutex_lock (tpLock p)) (\<lambda>(err, m).
       let p = p\<lparr>tpLock := m\<rparr>; p' = p\<lparr>tpLock := snd (pthread_mutex_unlock m)\<rparr> in
       if err \<noteq> 0 then Ret p
       else if threadAvail p \<le> crinitDryPoolThreshold (tpSize p)
       then map_ret snd (crinitThreadPoolGrow e p' (tpSize p + tpSizeIncrement p))
       else Ret p')"

section \<open>Lemmas\<close>

lemma grow_loop_all:
  assumes "\<forall>j. createOk e j"
  shows "grow_loop e i k p = (0, p\<lparr>tpSize := tpSize p + of_nat k, threadAvail := threadAvail p + of_nat k\<rparr>)"
  using assms by (induction k arbitrary: i p) (simp_all add: algebra_simps)

text \<open>Growing by a number of threads that are all created adds them to both counters, as long as the size does not wrap.\<close>

lemma Grow_all:
  assumes "tpLock p = Unlocked" "attrOk e" "\<forall>j. createOk e j" "tpSize p < tpSize p + n"
  shows "crinitThreadPoolGrow e p (tpSize p + n) =
    Ret (0, p\<lparr>tpSize := tpSize p + n, threadAvail := threadAvail p + n\<rparr>)"
proof -
  have "(of_nat (unat (tpSize p + n) - unat (tpSize p)) :: 64 word) = n"
    using assms(4) by (simp add: of_nat_diff word_less_nat_alt order_less_imp_le)
  then show ?thesis
    using assms by (simp add: crinitThreadPoolGrow_def grow_loop_all Let_def)
qed

lemma Busy_ok:
  "tpLock p = Unlocked \<Longrightarrow> crinitThreadPoolThreadBusyCallback p =
    Ret (0, threadAvail p - 1 \<le> crinitDryPoolThreshold (tpSize p), p\<lparr>threadAvail := threadAvail p - 1\<rparr>)"
  by (cases p) (simp add: crinitThreadPoolThreadBusyCallback_def Let_def)

lemma Avail_ok:
  "tpLock p = Unlocked \<Longrightarrow> crinitThreadPoolThreadAvailCallback p = Ret (0, p\<lparr>threadAvail := threadAvail p + 1\<rparr>)"
  by (cases p) (simp add: crinitThreadPoolThreadAvailCallback_def)

lemma watchdog_ok:
  assumes "tpLock p = Unlocked" "attrOk e" "\<forall>j. createOk e j" "tpSize p < tpSize p + tpSizeIncrement p"
  shows "watchdog_round e p =
    Ret (if threadAvail p \<le> crinitDryPoolThreshold (tpSize p)
         then p\<lparr>tpSize := tpSize p + tpSizeIncrement p, threadAvail := threadAvail p + tpSizeIncrement p\<rparr> else p)"
proof -
  have "p\<lparr>tpLock := tpLock p\<rparr> = p" by simp
  then have p: "p\<lparr>tpLock := Unlocked\<rparr> = p" unfolding assms(1) .
  show ?thesis unfolding watchdog_round_def using assms Grow_all [OF assms] by (simp add: p Let_def)
qed

end
