(* ===== verification/Server.thy ===== *)
theory Server
  imports RtimCmd ThrPool
begin

unbundle bit_operations_syntax

text \<open>
  The interface server, \<open>src/src/notiserv.c\<close>: the socket file, the receiving and sending of strings, the check of
  permissions, and what a worker thread does for one connection. A packet of the socket is a string of
  bytes; with it comes its control message, if there is one, whose data are the credentials of the sender. The packets of a client are a list of such answers of \<open>recvmsg\<close>, with \<open>None\<close> for an error;
  after the last one the client has closed the connection. A receive cuts a packet to the size of the buffer.
\<close>

section \<open>Packets\<close>

record ucred =
  crPid :: int
  crUid :: nat
  crGid :: nat

record cmsghdr =
  cmsg_len :: nat
  cmsg_level :: int
  cmsg_type :: int
  cmsg_data :: ucred

type_synonym packet = "string \<times> cmsghdr option"

abbreviation (input) CMSG_LEN_UCRED :: nat where "CMSG_LEN_UCRED \<equiv> 28"
abbreviation (input) SOL_SOCKET :: int where "SOL_SOCKET \<equiv> 1"
abbreviation (input) SCM_CREDENTIALS :: int where "SCM_CREDENTIALS \<equiv> 2"

definition crinitCmsgHdrCheck :: "cmsghdr option \<Rightarrow> bool" where
  "crinitCmsgHdrCheck cmh =
     (case cmh of
        None \<Rightarrow> False
      | Some h \<Rightarrow>
          if cmsg_len h \<noteq> CMSG_LEN_UCRED then False
          else if cmsg_level h \<noteq> SOL_SOCKET then False
          else if cmsg_type h \<noteq> SCM_CREDENTIALS then False
          else True)"

definition recv_packet :: "nat \<Rightarrow> packet option list \<Rightarrow> packet option \<times> packet option list" where
  "recv_packet n ms =
     (case ms of
        [] \<Rightarrow> (Some ([], None), [])
      | None # ms \<Rightarrow> (None, ms)
      | Some (d, cr) # ms \<Rightarrow> (Some (take n d, cr), ms))"

section \<open>Strings\<close>

text \<open>Result and the packets sent; the arguments say whether the two calls of \<open>send\<close> succeed.\<close>

definition crinitSendStr :: "bool \<Rightarrow> bool \<Rightarrow> string \<Rightarrow> int \<times> string list" where
  "crinitSendStr lenOk strOk s =
     (if \<not> lenOk then (-1, [])
      else if \<not> strOk then (-1, [bytes_of_size (length s + 1)])
      else (0, [bytes_of_size (length s + 1), s @ [CHR 0x00]]))"

definition crinitUcredCheckEqual :: "ucred \<Rightarrow> ucred \<Rightarrow> bool" where
  "crinitUcredCheckEqual a b \<longleftrightarrow> crPid a = crPid b \<and> crUid a = crUid b \<and> crGid a = crGid b"

text \<open>
  The string and the credentials of the sender. With an announced length of 0 the terminating zero is
  written in front of the buffer, if \<open>malloc\<close> returns one.
\<close>

definition crinitRecvStr :: "(nat \<Rightarrow> bool) \<Rightarrow> packet option list \<Rightarrow> (string \<times> ucred) option run" where
  "crinitRecvStr mallocOk ms =
     (case recv_packet 8 ms of
        (None, _) \<Rightarrow> Ret None
      | (Some (d, cmHdr0), ms) \<Rightarrow>
          if length d \<noteq> 8 then Ret None
          else if \<not> crinitCmsgHdrCheck cmHdr0 then Ret None
          else
            let dataLen = size_of_bytes d in
            if \<not> mallocOk dataLen then Ret None
            else (case recv_packet dataLen ms of
              (None, _) \<Rightarrow> Ret None
            | (Some (d, cmHdr1), _) \<Rightarrow>
                if length d \<noteq> dataLen then Ret None
                else if dataLen = 0 then Undef
                else if \<not> crinitCmsgHdrCheck cmHdr1 then Ret None
                else if \<not> crinitUcredCheckEqual (cmsg_data (the cmHdr0)) (cmsg_data (the cmHdr1)) then Ret None
                else Ret (Some (c_string (butlast d), cmsg_data (the cmHdr0)))))"

section \<open>Permissions\<close>

record serverEnv =
  srvEuid :: nat
  srvCapget :: "int \<Rightarrow> 32 word option"
  srvAccept :: bool
  srvPasscred :: bool
  srvSend :: "nat \<Rightarrow> bool"
  srvMalloc :: "nat \<Rightarrow> bool"
  srvParse :: "bool \<times> bool"
  srvBuild :: "bool \<times> bool"
  srvMsg :: bool
  srvRtim :: rtimEnv

abbreviation (input) CAP_SYS_BOOT :: nat where "CAP_SYS_BOOT \<equiv> 22"

text \<open>\<open>srvCapget\<close> gives the first word of the effective capabilities of a process.\<close>

definition crinitProcCapget :: "serverEnv \<Rightarrow> int \<Rightarrow> 32 word option" where
  "crinitProcCapget e p = srvCapget e p"

definition crinitCheckPerm :: "serverEnv \<Rightarrow> crinitRtimOp \<Rightarrow> ucred \<Rightarrow> bool" where
  "crinitCheckPerm e opc passedCreds =
     (case opc of
        CRINIT_RTIMCMD_C v \<Rightarrow>
          if v \<in> {ADDTASK, ADDSERIES, ENABLE, DISABLE, STOP, KILL, RESTART, NOTIFY} then crUid passedCreds = srvEuid e
          else if v \<in> {STATUS, TASKLIST, GETVER} then True
          else (case crinitProcCapget e (crPid passedCreds) of
            None \<Rightarrow> False
          | Some effective \<Rightarrow> effective AND push_bit CAP_SYS_BOOT 1 \<noteq> 0)
      | CRINIT_RTIMCMD_R v \<Rightarrow> False)"

section \<open>A connection\<close>

text \<open>\<open>cmd.op + 1\<close>; after the last opcode there is none that can be printed.\<close>

definition next_op :: "crinitRtimOp \<Rightarrow> crinitRtimOp option" where
  "next_op opc = (case dropWhile (\<lambda>x. x \<noteq> opc) (map fst crinitRtimOps) of x # y # r \<Rightarrow> Some y | _ \<Rightarrow> None)"

text \<open>The answer to a command: the permission is refused or the command is executed.\<close>

definition answer_cmd :: "serverEnv \<Rightarrow> ucred \<Rightarrow> crinitRtimCmd \<Rightarrow> world \<Rightarrow> (crinitRtimCmd option \<times> world) run" where
  "answer_cmd e creds cmd w =
     (if \<not> crinitCheckPerm e (op cmd) creds
      then Ret (case next_op (op cmd) of
                  None \<Rightarrow> None
                | Some c \<Rightarrow> crinitBuildRtimCmd (fst (srvBuild e)) (snd (srvBuild e)) c [CRINIT_RTIMCMD_RES_ERR, ''Permission denied.''], w)
      else crinitExecRtimCmd (srvRtim e) w cmd)"

text \<open>
  One round of \<open>crinitConnThread\<close>: whether the watchdog of the pool is signalled, the packets sent, the
  world and the pool. Only a connection that is served to its end reports the thread as available again.
\<close>

definition conn_round :: "serverEnv \<Rightarrow> packet option list \<Rightarrow> world \<Rightarrow> crinitThreadPool \<Rightarrow>
    (bool \<times> string list \<times> world \<times> crinitThreadPool) run" where
  "conn_round e ms w p =
     bind_run (crinitThreadPoolThreadBusyCallback p) (\<lambda>(_, wake, p).
       if \<not> srvAccept e \<or> \<not> srvPasscred e then Ret (wake, [], w, p)
       else case crinitSendStr (srvSend e 0) (srvSend e 1) ''RTR'' of (r, rtr) \<Rightarrow>
         if r = -1 then Ret (wake, rtr, w, p)
         else bind_run (crinitRecvStr (srvMalloc e) ms) (\<lambda>m. case m of
           None \<Rightarrow> Ret (wake, rtr, w, p)
         | Some (clientMsg, msgCreds) \<Rightarrow>
             (case crinitParseRtimCmd (fst (srvParse e)) (snd (srvParse e)) clientMsg of
                None \<Rightarrow> Ret (wake, rtr, w, p)
              | Some cmd \<Rightarrow>
                  bind_run (answer_cmd e msgCreds cmd w) (\<lambda>(res, w). case res of
                    None \<Rightarrow> Ret (wake, rtr, w, p)
                  | Some res \<Rightarrow>
                      (case crinitRtimCmdToMsgStr (srvMsg e) res of
                         None \<Rightarrow> Ret (wake, rtr, w, p)
                       | Some (resStr, _) \<Rightarrow>
                           (case crinitSendStr (srvSend e 2) (srvSend e 3) resStr of (r, ans) \<Rightarrow>
                              if r = -1 then Ret (wake, rtr @ ans, w, p)
                              else bind_run (crinitThreadPoolThreadAvailCallback p) (\<lambda>(_, p).
                                Ret (wake, rtr @ ans, w, p))))))))"

section \<open>Starting the server\<close>

text \<open>The loop of \<open>crinitMkdirp\<close>: \<open>mk\<close> gives the error of \<open>mkdir\<close>, 0 if there is none; the paths tried are returned.\<close>

lemma dropWhile_shorter: "d \<in> set xs \<Longrightarrow> length (dropWhile P xs) - Suc 0 < length xs"
  using length_dropWhile_le [of P xs] length_pos_if_in_set [of d xs] by linarith

function mkdirp_loop :: "(string \<Rightarrow> int) \<Rightarrow> string \<Rightarrow> string \<Rightarrow> int \<times> string list" where
  "mkdirp_loop mk front runner =
     (let pathName = front @ takeWhile (\<lambda>c. c \<noteq> CHR ''/'') runner; rest = dropWhile (\<lambda>c. c \<noteq> CHR ''/'') runner in
      if mk pathName \<noteq> 0 \<and> mk pathName \<noteq> EEXIST then (-1, [pathName])
      else if rest = [] then (0, [pathName])
      else case mkdirp_loop mk (pathName @ ''/'') (tl rest) of (r, ps) \<Rightarrow> (r, pathName # ps))"
  by pat_completeness auto
termination
  by (relation "measure (\<lambda>(mk, front, runner). length runner)") (auto intro: dropWhile_shorter)

declare mkdirp_loop.simps [simp del]

definition crinitMkdirp :: "(string \<Rightarrow> int) \<Rightarrow> string \<Rightarrow> int \<times> string list" where
  "crinitMkdirp mk pathName = mkdirp_loop mk (takeWhile (\<lambda>c. c = CHR ''/'') pathName) (dropWhile (\<lambda>c. c = CHR ''/'') pathName)"

abbreviation (input) SUN_PATH_SIZE :: nat where "SUN_PATH_SIZE \<equiv> 108"

text \<open>The path that was bound, cut to the size of the address; \<open>bindOk\<close> fails for a path that exists.\<close>

definition crinitCreateSockFile :: "bool \<Rightarrow> (string \<Rightarrow> bool) \<Rightarrow> bool \<Rightarrow> string \<Rightarrow> int \<times> string option" where
  "crinitCreateSockFile socketOk bindOk listenOk pathName =
     (let sunPath = take (SUN_PATH_SIZE - 1) pathName in
      if \<not> socketOk \<or> \<not> bindOk sunPath then (-1, None)
      else if \<not> listenOk then (-1, Some sunPath)
      else (0, Some sunPath))"

text \<open>\<open>dirname\<close> of the C library.\<close>

definition dirname :: "string \<Rightarrow> string" where
  "dirname pathName =
     (let slash = (\<lambda>c. c = CHR ''/''); base = dropWhile slash (rev pathName); up = dropWhile (\<lambda>c. \<not> slash c) base in
      if base = [] then (if pathName = [] then ''.'' else ''/'')
      else if up = [] then ''.''
      else if dropWhile slash up = [] then ''/''
      else rev (dropWhile slash up))"

record startEnv =
  stDup :: bool
  stMkdir :: "string \<Rightarrow> int"
  stSocket :: bool
  stBind :: "string \<Rightarrow> bool"
  stListen :: bool
  stMutex :: bool
  stMalloc :: bool
  stWatchdog :: bool
  stThr :: thrEnv

text \<open>Result, the socket path, the file creation mask if it was changed, and the pool.\<close>

definition crinitStartInterfaceServer :: "startEnv \<Rightarrow> string \<Rightarrow> (int \<times> string option \<times> nat option \<times> crinitThreadPool option) run" where
  "crinitStartInterfaceServer e sockFile =
     (if \<not> stDup e then Ret (-1, None, None, None)
      else if fst (crinitMkdirp (stMkdir e) (dirname sockFile)) = -1 then Ret (-1, None, None, None)
      else case crinitCreateSockFile (stSocket e) (stBind e) (stListen e) sockFile of (r, bound) \<Rightarrow>
        if r = -1 then Ret (-1, bound, Some 0, None)
        else bind_run (crinitThreadPoolInit (stMutex e) (stMalloc e) (stWatchdog e) (stThr e) 0) (\<lambda>(r, p).
          Ret (if r = -1 then -1 else 0, bound, Some 18, p)))"

end
