(* ===== verification/Client.thy ===== *)
theory Client
  imports Server
begin

text \<open>
  The client side: the transfer of a command and its response, \<open>src/src/sockcom.c\<close>, and the client library,
  \<open>src/src/crinit-client.c\<close>. A connection is what its calls of the operating system answer, with the
  packets the server sends as a list, \<open>None\<close> for an error of \<open>recv\<close>; the packets the client sends are returned.
\<close>

section \<open>Transfer\<close>

record connEnv =
  cnSocket :: bool
  cnConnect :: bool
  cnSend :: "nat \<Rightarrow> bool"
  cnMalloc :: "nat \<Rightarrow> bool"
  cnBuild :: "bool \<times> bool"
  cnMsg :: bool
  cnParse :: "bool \<times> bool"
  incoming :: "string option list"

definition recv_bytes :: "nat \<Rightarrow> string option list \<Rightarrow> string option \<times> string option list" where
  "recv_bytes n ms = (case ms of [] \<Rightarrow> (Some [], []) | None # ms \<Rightarrow> (None, ms) | Some d # ms \<Rightarrow> (Some (take n d), ms))"

text \<open>A length packet.\<close>

definition recv_size :: "string option list \<Rightarrow> nat option \<times> string option list" where
  "recv_size ms =
     (case recv_bytes 8 ms of
        (None, ms) \<Rightarrow> (None, ms)
      | (Some d, ms) \<Rightarrow> (if length d \<noteq> 8 then None else Some (size_of_bytes d), ms))"

definition crinitWaitForRtr :: "string option list \<Rightarrow> int \<times> string option list" where
  "crinitWaitForRtr ms =
     (case recv_size ms of
        (None, ms) \<Rightarrow> (-1, ms)
      | (Some recvLen, ms) \<Rightarrow>
          if recvLen \<noteq> 4 then (-1, ms)
          else (case recv_bytes recvLen ms of
            (None, ms) \<Rightarrow> (-1, ms)
          | (Some d, ms) \<Rightarrow>
              if length d \<noteq> recvLen then (-1, ms)
              else (if strncmp_eq (c_string (butlast d)) ''RTR'' 3 then 0 else -1, ms)))"

text \<open>The result and the packets still to come.\<close>

definition crinitConnect :: "connEnv \<Rightarrow> string \<Rightarrow> int \<times> string option list" where
  "crinitConnect e sockFile =
     (if \<not> cnSocket e then (-1, incoming e)
      else if length sockFile \<ge> SUN_PATH_SIZE then (-1, incoming e)
      else if \<not> cnConnect e then (-1, incoming e)
      else crinitWaitForRtr (incoming e))"

definition crinitSend :: "connEnv \<Rightarrow> crinitRtimCmd \<Rightarrow> int \<times> string list" where
  "crinitSend e cmd =
     (case crinitRtimCmdToMsgStr (cnMsg e) cmd of
        None \<Rightarrow> (-1, [])
      | Some (sendStr, sendLen) \<Rightarrow>
          if \<not> cnSend e 0 then (-1, [])
          else if \<not> cnSend e 1 then (-1, [bytes_of_size sendLen])
          else (0, [bytes_of_size sendLen, sendStr @ [CHR 0x00]]))"

text \<open>As in the server, a length of 0 makes the terminating zero go in front of the buffer.\<close>

definition crinitRecv :: "connEnv \<Rightarrow> string option list \<Rightarrow> crinitRtimCmd option run" where
  "crinitRecv e ms =
     (case recv_size ms of
        (None, _) \<Rightarrow> Ret None
      | (Some recvLen, ms) \<Rightarrow>
          if \<not> cnMalloc e recvLen then Ret None
          else (case recv_bytes recvLen ms of
            (None, _) \<Rightarrow> Ret None
          | (Some d, _) \<Rightarrow>
              if length d \<noteq> recvLen then Ret None
              else if recvLen = 0 then Undef
              else Ret (crinitParseRtimCmd (fst (cnParse e)) (snd (cnParse e)) (c_string (butlast d)))))"

definition crinitXfer :: "connEnv \<Rightarrow> string \<Rightarrow> crinitRtimCmd \<Rightarrow> (crinitRtimCmd option \<times> string list) run" where
  "crinitXfer e sockFile cmd =
     (case crinitConnect e sockFile of (r, ms) \<Rightarrow>
        if r = -1 then Ret (None, [])
        else case crinitSend e cmd of (r, sent) \<Rightarrow>
          if r = -1 then Ret (None, sent)
          else bind_run (crinitRecv e ms) (\<lambda>res. Ret (res, sent)))"

section \<open>The library\<close>

record crinitClient =
  crinitNotifyName :: string
  crinitSockFile :: string
  clientOpts :: crinitGlobOptStore

definition crinitLibInit :: "string option \<Rightarrow> crinitClient \<Rightarrow> crinitClient run" where
  "crinitLibInit envNotifyName c =
     map_ret (\<lambda>(r, g). c\<lparr>clientOpts := g, crinitNotifyName := (case envNotifyName of None \<Rightarrow> ''@undefined'' | Some n \<Rightarrow> n)\<rparr>)
       (crinitGlobOptSetBoolean Debug (clientOpts c) False)"

definition crinitLibDestroy :: "crinitClient \<Rightarrow> crinitClient run" where
  "crinitLibDestroy c = map_ret (\<lambda>g. c\<lparr>clientOpts := g\<rparr>) (crinitGlobOptDestroy (clientOpts c))"

definition crinitClientSetVerbose :: "bool \<Rightarrow> crinitClient \<Rightarrow> (int \<times> crinitClient) run" where
  "crinitClientSetVerbose v c = map_ret (\<lambda>(r, g). (r, c\<lparr>clientOpts := g\<rparr>)) (crinitGlobOptSetBoolean Debug (clientOpts c) v)"

definition crinitClientSetNotifyTaskName :: "string option \<Rightarrow> crinitClient \<Rightarrow> crinitClient" where
  "crinitClientSetNotifyTaskName taskName c = (case taskName of None \<Rightarrow> c | Some n \<Rightarrow> c\<lparr>crinitNotifyName := n\<rparr>)"

definition crinitClientSetSocketPath :: "string option \<Rightarrow> crinitClient \<Rightarrow> crinitClient" where
  "crinitClientSetSocketPath sockFile c = (case sockFile of None \<Rightarrow> c | Some f \<Rightarrow> c\<lparr>crinitSockFile := f\<rparr>)"

definition crinitResponseCheck :: "crinitRtimCmd \<Rightarrow> crinitRtimOp \<Rightarrow> int" where
  "crinitResponseCheck res resCode =
     (if op res \<noteq> resCode then -1
      else if args res = [] then -1
      else if args res ! 0 = CRINIT_RTIMCMD_RES_OK then 0
      else -1)"

text \<open>Building the command and transferring it, as every function of the library does; then checking the response.\<close>

definition client_xfer :: "connEnv \<Rightarrow> crinitClient \<Rightarrow> rtimVerb \<Rightarrow> string list \<Rightarrow> (crinitRtimCmd option \<times> string list) run" where
  "client_xfer e c v as =
     (case crinitBuildRtimCmd (fst (cnBuild e)) (snd (cnBuild e)) (CRINIT_RTIMCMD_C v) as of
        None \<Rightarrow> Ret (None, [])
      | Some cmd \<Rightarrow> crinitXfer e (crinitSockFile c) cmd)"

definition client_call :: "connEnv \<Rightarrow> crinitClient \<Rightarrow> rtimVerb \<Rightarrow> string list \<Rightarrow> (int \<times> string list) run" where
  "client_call e c v as =
     bind_run (client_xfer e c v as) (\<lambda>(res, sent). case res of
       None \<Rightarrow> Ret (-1, sent)
     | Some res \<Rightarrow> Ret (crinitResponseCheck res (CRINIT_RTIMCMD_R v), sent))"

definition sd_notify :: "connEnv \<Rightarrow> crinitClient \<Rightarrow> string option \<Rightarrow> (int \<times> string list) run" where
  "sd_notify e c st = (case st of None \<Rightarrow> Ret (-1, []) | Some st \<Rightarrow> client_call e c NOTIFY [crinitNotifyName c, st])"

text \<open>\<open>formatted\<close> is what the format and its arguments give.\<close>

definition sd_notifyf :: "connEnv \<Rightarrow> crinitClient \<Rightarrow> bool \<Rightarrow> string \<Rightarrow> (int \<times> string list) run" where
  "sd_notifyf e c mallocOk formatted = (if \<not> mallocOk then Ret (-1, []) else sd_notify e c (Some formatted))"

definition crinitClientTaskAdd :: "connEnv \<Rightarrow> crinitClient \<Rightarrow> string \<Rightarrow> bool \<Rightarrow> string option \<Rightarrow> (int \<times> string list) run" where
  "crinitClientTaskAdd e c configFilePath overwrite forceDeps =
     client_call e c ADDTASK
       [configFilePath, if overwrite then ''true'' else ''false'',
        case forceDeps of None \<Rightarrow> ''@unchanged'' | Some d \<Rightarrow> if d = [] then ''@empty'' else d]"

definition crinitClientSeriesAdd :: "connEnv \<Rightarrow> crinitClient \<Rightarrow> string \<Rightarrow> bool \<Rightarrow> (int \<times> string list) run" where
  "crinitClientSeriesAdd e c seriesFilePath overwriteTasks =
     client_call e c ADDSERIES [seriesFilePath, if overwriteTasks then ''true'' else ''false'']"

definition crinitClientTaskEnable :: "connEnv \<Rightarrow> crinitClient \<Rightarrow> string \<Rightarrow> (int \<times> string list) run" where
  "crinitClientTaskEnable e c taskName = client_call e c ENABLE [taskName]"

definition crinitClientTaskDisable :: "connEnv \<Rightarrow> crinitClient \<Rightarrow> string \<Rightarrow> (int \<times> string list) run" where
  "crinitClientTaskDisable e c taskName = client_call e c DISABLE [taskName]"

definition crinitClientTaskStop :: "connEnv \<Rightarrow> crinitClient \<Rightarrow> string \<Rightarrow> (int \<times> string list) run" where
  "crinitClientTaskStop e c taskName = client_call e c STOP [taskName]"

definition crinitClientTaskKill :: "connEnv \<Rightarrow> crinitClient \<Rightarrow> string \<Rightarrow> (int \<times> string list) run" where
  "crinitClientTaskKill e c taskName = client_call e c KILL [taskName]"

definition crinitClientTaskRestart :: "connEnv \<Rightarrow> crinitClient \<Rightarrow> string \<Rightarrow> (int \<times> string list) run" where
  "crinitClientTaskRestart e c taskName = client_call e c RESTART [taskName]"

text \<open>The number is printed into a buffer of two bytes.\<close>

definition crinitClientShutdown :: "connEnv \<Rightarrow> crinitClient \<Rightarrow> int \<Rightarrow> (int \<times> string list) run" where
  "crinitClientShutdown e c sCmd = client_call e c SHUTDOWN [take 1 (show_int sCmd)]"

section \<open>Status of a task\<close>

text \<open>
  The members of a task list entry but the name; they are the output arguments of the status query, all of which
  are taken to be given. \<open>erange\<close> says that \<open>errno\<close> is \<open>ERANGE\<close> already before the query: no call resets it.
\<close>

record crinitTaskListEntry =
  tePid :: int
  teState :: "64 word"
  teCreateTime :: timespec
  teStartTime :: timespec
  teEndTime :: timespec
  teGid :: nat
  teUid :: nat
  teUsername :: string
  teGroupname :: string

definition status_number :: "bool \<Rightarrow> int \<times> bool \<times> string \<Rightarrow> string \<Rightarrow> int option" where
  "status_number erange r s = (case r of (v, out, endPtr) \<Rightarrow> if endPtr = s \<or> erange \<or> out then None else Some v)"

text \<open>
  A time. The check for a missing point comes after the addition and never holds, so the fraction is then read
  from an address that is no object.
\<close>

definition status_time :: "bool \<Rightarrow> string \<Rightarrow> timespec option run" where
  "status_time erange s =
     (case status_number erange (strtol 10 s) s of
        None \<Rightarrow> Ret None
      | Some sec \<Rightarrow>
          (case strchr s (CHR ''.'') of
             None \<Rightarrow> Undef
           | Some p \<Rightarrow>
               Ret (map_option (\<lambda>nsec. \<lparr>tv_sec = sec, tv_nsec = nsec\<rparr>) (status_number erange (strtol 10 (tl p)) (tl p)))))"

definition bind_opt :: "'a option run \<Rightarrow> ('a \<Rightarrow> 'b option run) \<Rightarrow> 'b option run" where
  "bind_opt m f = bind_run m (\<lambda>r. case r of None \<Rightarrow> Ret None | Some a \<Rightarrow> f a)"

definition parse_status :: "bool \<Rightarrow> bool \<times> bool \<Rightarrow> string list \<Rightarrow> crinitTaskListEntry option run" where
  "parse_status erange dupOk as =
     bind_opt (Ret (status_number erange (strtoul 10 (as ! 1)) (as ! 1))) (\<lambda>s.
     bind_opt (Ret (status_number erange (strtol 10 (as ! 2)) (as ! 2))) (\<lambda>pid.
     bind_opt (status_time erange (as ! 3)) (\<lambda>ct.
     bind_opt (status_time erange (as ! 4)) (\<lambda>st.
     bind_opt (status_time erange (as ! 5)) (\<lambda>et.
     bind_opt (Ret (status_number erange (strtoul 10 (as ! 6)) (as ! 6))) (\<lambda>uid.
     bind_opt (Ret (status_number erange (strtoul 10 (as ! 7)) (as ! 7))) (\<lambda>gid.
       Ret (if fst dupOk \<and> snd dupOk
            then Some \<lparr>tePid = to_int pid, teState = word_of_int s, teCreateTime = ct, teStartTime = st,
                       teEndTime = et, teGid = to_uint gid, teUid = to_uint uid,
                       teUsername = as ! 8, teGroupname = as ! 9\<rparr>
            else None))))))))"

text \<open>Going on after a transfer that succeeded; the packets that were sent come with the result.\<close>

definition bind_sent :: "('a option \<times> string list) run \<Rightarrow> ('a \<Rightarrow> ('b option \<times> string list) run) \<Rightarrow> ('b option \<times> string list) run" where
  "bind_sent m f = bind_run m (\<lambda>(r, sent). case r of
     None \<Rightarrow> Ret (None, sent)
   | Some a \<Rightarrow> map_ret (\<lambda>(r, more). (r, sent @ more)) (f a))"

definition crinitClientTaskGetStatus ::
  "connEnv \<Rightarrow> crinitClient \<Rightarrow> bool \<Rightarrow> bool \<times> bool \<Rightarrow> string \<Rightarrow> (crinitTaskListEntry option \<times> string list) run" where
  "crinitClientTaskGetStatus e c erange dupOk taskName =
     bind_sent (client_xfer e c STATUS [taskName]) (\<lambda>res.
       if crinitResponseCheck res (CRINIT_RTIMCMD_R STATUS) = 0 \<and> length (args res) = 10
       then map_ret (\<lambda>t. (t, [])) (parse_status erange dupOk (args res))
       else Ret (None, []))"

section \<open>Task list\<close>

text \<open>
  What the query of a task list meets: the connection of the list query, its allocations, and for the \<open>i\<close>-th task
  the connection and the copies of its strings.
\<close>

record listEnv =
  leConn :: connEnv
  leMalloc :: bool
  leTasksMalloc :: "nat \<Rightarrow> bool"
  leErange :: bool
  leStatus :: "nat \<Rightarrow> connEnv"
  leDup :: "nat \<Rightarrow> bool \<times> bool"
  leNameDup :: "nat \<Rightarrow> bool"

fun list_entries ::
  "listEnv \<Rightarrow> crinitClient \<Rightarrow> nat \<Rightarrow> string list \<Rightarrow> ((string \<times> crinitTaskListEntry) list option \<times> string list) run" where
  "list_entries e c i [] = Ret (Some [], [])"
| "list_entries e c i (n # ns) =
     bind_sent (crinitClientTaskGetStatus (leStatus e i) c (leErange e) (leDup e i) n) (\<lambda>t.
       if \<not> leNameDup e i then Ret (None, [])
       else bind_sent (list_entries e c (Suc i) ns) (\<lambda>ts. Ret (Some ((n, t) # ts), [])))"

definition crinitClientGetTaskList ::
  "listEnv \<Rightarrow> crinitClient \<Rightarrow> ((string \<times> crinitTaskListEntry) list option \<times> string list) run" where
  "crinitClientGetTaskList e c =
     bind_sent (client_xfer (leConn e) c TASKLIST []) (\<lambda>res.
       if crinitResponseCheck res (CRINIT_RTIMCMD_R TASKLIST) = -1 then Ret (None, [])
       else if \<not> leMalloc e then Ret (None, [])
       else if \<not> leTasksMalloc e (length (args res) - 1) then Ret (None, [])
       else list_entries e c 0 (tl (args res)))"

section \<open>Version\<close>

record crinitVersion =
  vMajor :: nat
  vMinor :: nat
  vMicro :: nat
  vGit :: string

definition version_number :: "string \<Rightarrow> nat option" where
  "version_number s = (case strtoul 10 s of (v, _, endPtr) \<Rightarrow> if endPtr = s then None else Some (nat (v mod 256)))"

definition crinitClientGetVersion :: "connEnv \<Rightarrow> crinitClient \<Rightarrow> (crinitVersion option \<times> string list) run" where
  "crinitClientGetVersion e c =
     bind_sent (client_xfer e c GETVER []) (\<lambda>res.
       Ret (if crinitResponseCheck res (CRINIT_RTIMCMD_R GETVER) \<noteq> 0 then None
            else if length (args res) \<noteq> 5 \<and> length (args res) \<noteq> 4 then None
            else (case (version_number (args res ! 1), version_number (args res ! 2), version_number (args res ! 3)) of
              (Some ma, Some mi, Some mc) \<Rightarrow>
                Some \<lparr>vMajor = ma, vMinor = mi, vMicro = mc,
                      vGit = (if length (args res) < 5 then [] else take 40 (args res ! 4))\<rparr>
            | _ \<Rightarrow> None), []))"

end
