(* ===== verification/ServerSpec.thy ===== *)
theory ServerSpec
  imports Client Daemon
begin

text \<open>
  The two ends of a connection together: what a client sends is what the server receives, what a client without
  permissions can and cannot do, and what connections that fail do to the pool of the server.
\<close>

section \<open>Packets\<close>

text \<open>A command that arrives as it was sent: its arguments are not empty and have neither newline nor zero.\<close>

definition sendable :: "crinitRtimCmd \<Rightarrow> bool" where
  "sendable c \<longleftrightarrow> list_all (\<lambda>a. a \<noteq> [] \<and> CRINIT_RTIMCMD_ARGDELIM \<notin> set a \<and> CHR 0x00 \<notin> set a) (args c) \<and>
     length (msg_text c) + 1 < 2 ^ 64"

lemma RtimOps_no_zero: "list_all (\<lambda>(c, s). CHR 0x00 \<notin> set s) crinitRtimOps"
  by code_simp

lemma sendableD:
  assumes "sendable c"
  shows "c_string (msg_text c) = msg_text c" "crinitParseRtimCmd True True (msg_text c) = Some c"
    "size_of_bytes (bytes_of_size (Suc (length (msg_text c)))) = Suc (length (msg_text c))"
proof -
  obtain s where s: "crinitOpStrGetByRtimOp (op c) = Some s" using RtimOps_exhaustive by blast
  have "CHR 0x00 \<notin> set s" using OpStrGet_in [OF s] RtimOps_no_zero by (auto simp: list_all_iff)
  then have "CHR 0x00 \<notin> set (msg_text c)"
    using assms s by (auto simp: msg_text_def delimited_def sendable_def list_all_iff)
  then show "c_string (msg_text c) = msg_text c" by (auto simp: c_string_def takeWhile_eq_all_conv)
  show "crinitParseRtimCmd True True (msg_text c) = Some c"
    using assms by (intro Parse_msg_text) (auto simp: sendable_def list_all_iff)
  show "size_of_bytes (bytes_of_size (Suc (length (msg_text c)))) = Suc (length (msg_text c))"
    using assms by (intro size_of_bytes_of_size) (simp add: sendable_def)
qed

text \<open>The packets of a command, and these packets with the credentials the kernel adds to them.\<close>

definition wire :: "crinitRtimCmd \<Rightarrow> string list" where
  "wire c = [bytes_of_size (length (msg_text c) + 1), msg_text c @ [CHR 0x00]]"

definition creds_hdr :: "ucred \<Rightarrow> cmsghdr" where
  "creds_hdr cr = \<lparr>cmsg_len = CMSG_LEN_UCRED, cmsg_level = SOL_SOCKET, cmsg_type = SCM_CREDENTIALS, cmsg_data = cr\<rparr>"

definition from_peer :: "ucred \<Rightarrow> string list \<Rightarrow> packet option list" where
  "from_peer cr ds = map (\<lambda>d. Some (d, Some (creds_hdr cr))) ds"

lemma creds_hdr [simp]: "crinitCmsgHdrCheck (Some (creds_hdr cr))" "cmsg_data (creds_hdr cr) = cr"
  by (simp_all add: creds_hdr_def crinitCmsgHdrCheck_def)

abbreviation rtr_packets :: "string list" where
  "rtr_packets \<equiv> [bytes_of_size 4, ''RTR'' @ [CHR 0x00]]"

lemma SendStr_rtr: "crinitSendStr True True ''RTR'' = (0, rtr_packets)"
  by (simp add: crinitSendStr_def eval_nat_numeral)

lemma SendStr_wire: "crinitSendStr True True (msg_text c) = (0, wire c)"
  by (simp add: crinitSendStr_def wire_def)

lemma RecvStr_wire: "sendable c \<Longrightarrow> crinitRecvStr (\<lambda>_. True) (from_peer cr (wire c)) = Ret (Some (msg_text c, cr))"
  by (simp add: crinitRecvStr_def recv_packet_def from_peer_def wire_def sendableD Let_def crinitUcredCheckEqual_def)

lemma Recv_wire: "sendable c \<Longrightarrow> cnMalloc e = (\<lambda>_. True) \<Longrightarrow> cnParse e = (True, True) \<Longrightarrow>
    crinitRecv e (map Some (wire c)) = Ret (Some c)"
  by (simp add: crinitRecv_def recv_size_def recv_bytes_def wire_def sendableD)

lemma WaitForRtr_rtr: "crinitWaitForRtr (map Some (rtr_packets @ ds)) = (0, map Some ds)"
  by (simp add: crinitWaitForRtr_def recv_size_def recv_bytes_def size_of_bytes_of_size strncmp_eq_def c_string_def)

section \<open>An exchange\<close>

definition server_up :: "serverEnv \<Rightarrow> bool" where
  "server_up e \<longleftrightarrow> srvAccept e \<and> srvPasscred e \<and> srvSend e = (\<lambda>_. True) \<and> srvMalloc e = (\<lambda>_. True) \<and>
     srvParse e = (True, True) \<and> srvBuild e = (True, True) \<and> srvMsg e"

definition client_up :: "connEnv \<Rightarrow> crinitClient \<Rightarrow> bool" where
  "client_up e c \<longleftrightarrow> cnSocket e \<and> cnConnect e \<and> cnSend e = (\<lambda>_. True) \<and> cnMalloc e = (\<lambda>_. True) \<and>
     cnBuild e = (True, True) \<and> cnMsg e \<and> cnParse e = (True, True) \<and> length (crinitSockFile c) < SUN_PATH_SIZE"

lemma conn_round_served:
  assumes "server_up e" "tpLock p = Unlocked" "sendable cmd" "sendable res"
    "answer_cmd e cr cmd w = Ret (Some res, w')"
  shows "\<exists>wake. conn_round e (from_peer cr (wire cmd)) w p = Ret (wake, rtr_packets @ wire res, w', p)"
  using assms RecvStr_wire [OF assms(3)] Busy_ok [OF assms(2)]
  by (simp add: conn_round_def server_up_def SendStr_rtr SendStr_wire sendableD ToMsgStr_text Avail_ok)

lemma client_xfer_served:
  assumes "client_up e c" "sendable \<lparr>op = CRINIT_RTIMCMD_C v, args = as\<rparr>" "sendable res"
    "incoming e = map Some (rtr_packets @ wire res)"
  shows "client_xfer e c v as = Ret (Some res, wire \<lparr>op = CRINIT_RTIMCMD_C v, args = as\<rparr>)"
  using assms Recv_wire [OF assms(3), of e] WaitForRtr_rtr [of "wire res"]
  by (simp add: client_xfer_def client_up_def crinitBuildRtimCmd_def crinitXfer_def crinitConnect_def crinitSend_def ToMsgStr_text wire_def)

section \<open>Commands that only read\<close>

lemma cut_lines_Cons: "nl \<notin> set a \<Longrightarrow> cut_lines (Suc n) (a @ nl # s) = map_ret ((#) a) (cut_lines n s)"
  "nl \<notin> set a \<Longrightarrow> cut_lines (numeral k) (a @ nl # s) = map_ret ((#) a) (cut_lines (pred_numeral k) s)"
  by (simp_all add: strchr_append numeral_eq_Suc)

lemma digits_of_no_newline: "nl \<notin> set (digits_of n)"
  using show_int_no_newline [of "int n"] by (simp add: show_int_def)

lemmas no_newline = digits_of_no_newline show_int_no_newline show_int9_no_newline

lemma status_text_lines:
  "cut_lines 8 (status_text t u g) =
     map_ret (\<lambda>ls. [digits_of (unat (state t)), show_int (pid t), show_time (createTime t), show_time (startTime t),
          show_time (endTime t), show_id (user t), show_id (group t)] @ ls) (cut_lines 1 (u @ nl # g))"
proof -
  have "nl \<notin> set (show_time x)" "nl \<notin> set (show_id n)" for x n
    by (simp_all add: show_time_def show_id_def no_newline)
  then show ?thesis
    by (cases "cut_lines (Suc 0) (u @ nl # g)")
      (simp_all add: status_text_def cut_lines_Cons no_newline del: cut_lines.simps(2))
qed

lemma cut_status_text:
  "nl \<notin> set u \<Longrightarrow> cut_lines 8 (status_text t u g) =
     Ret [digits_of (unat (state t)), show_int (pid t), show_time (createTime t), show_time (startTime t),
          show_time (endTime t), show_id (user t), show_id (group t), u, g]"
  by (simp add: status_text_lines cut_lines_Cons del: cut_lines.simps(2))

lemma status_text_cut: "\<exists>ls. cut_lines 8 (status_text t u g) = Ret ls"
  using strchr_None_iff [of "u @ nl # g" nl] by (auto simp: status_text_lines)

lemma BorrowTask_known:
  assumes "db_ok ctx" "task_map ctx n = Some t"
  obtains i where "crinitTaskDBBorrowTask ctx n = Ret (Some i, ctx\<lparr>lock := Locked\<rparr>)" "taskSet ctx ! i = t"
proof -
  obtain i where "crinitFindTask (ctx\<lparr>lock := Locked\<rparr>) n = Ret (Some i)" "i < length (taskSet ctx)" "taskSet ctx ! i = t"
    by (rule known_task [OF assms])
  then show thesis using assms(1) by (intro that [of i]) (simp_all add: crinitTaskDBBorrowTask_def db_ok_def)
qed

lemma Status_known:
  assumes "world_ok w" "namesOk e" "memOk e" "answer_mem e" "task_map (taskDB w) n = Some t"
    "\<forall>u. username t = Some u \<longrightarrow> nl \<notin> set u"
  shows "crinitExecRtimCmdStatus e w \<lparr>op = c, args = [n]\<rparr> =
    Ret (Some \<lparr>op = CRINIT_RTIMCMD_R STATUS, args = CRINIT_RTIMCMD_RES_OK #
      [digits_of (unat (state t)), show_int (pid t), show_time (createTime t), show_time (startTime t),
       show_time (endTime t), show_id (user t), show_id (group t),
       case username t of None \<Rightarrow> ''root'' | Some u \<Rightarrow> u, case groupname t of None \<Rightarrow> ''root'' | Some g \<Rightarrow> g]\<rparr>, w)"
proof -
  have db: "db_ok (taskDB w)" using assms(1) by (simp add: world_ok_def)
  obtain i where "crinitTaskDBBorrowTask (taskDB w) n = Ret (Some i, taskDB w\<lparr>lock := Locked\<rparr>)" "taskSet (taskDB w) ! i = t"
    by (rule BorrowTask_known [OF db assms(5)])
  moreover have "nl \<notin> set (case username t of None \<Rightarrow> ''root'' | Some u \<Rightarrow> u)"
    using assms(6) by (simp split: option.split)
  ultimately show ?thesis using assms db
    by (simp add: crinitExecRtimCmdStatus_def crinitTaskDBRemit_def cut_status_text db_ok_def Let_def)
qed

lemma Status_same:
  assumes "world_ok w" "namesOk e"
  shows "\<exists>res. crinitExecRtimCmdStatus e w cmd = Ret (res, w)"
proof (cases "cmd_argc cmd = 1")
  case True
  have db: "db_ok (taskDB w)" using assms(1) by (simp add: world_ok_def)
  show ?thesis
  proof (cases "task_map (taskDB w) (args cmd ! 0)")
    case None
    then show ?thesis using True db
      by (simp add: crinitExecRtimCmdStatus_def crinitTaskDBBorrowTask_def unknown_find db_ok_def respond_def)
  next
    case (Some t)
    obtain i where "crinitTaskDBBorrowTask (taskDB w) (args cmd ! 0) = Ret (Some i, taskDB w\<lparr>lock := Locked\<rparr>)"
      by (rule BorrowTask_known [OF db Some])
    moreover obtain ls where "cut_lines 8 (status_text (taskSet (taskDB w) ! i)
        (case username (taskSet (taskDB w) ! i) of None \<Rightarrow> ''root'' | Some u \<Rightarrow> u)
        (case groupname (taskSet (taskDB w) ! i) of None \<Rightarrow> ''root'' | Some g \<Rightarrow> g)) = Ret ls"
      using status_text_cut by blast
    ultimately show ?thesis using assms True db
      by (simp add: crinitExecRtimCmdStatus_def crinitTaskDBRemit_def db_ok_def Let_def respond_def)
  qed
qed (simp add: crinitExecRtimCmdStatus_def respond_def)

lemma TaskList_same:
  assumes "world_ok w"
  shows "\<exists>res. crinitExecRtimCmdTaskList e w cmd = Ret (res, w)"
proof -
  have db: "lock (taskDB w) = Unlocked" using assms by (simp add: world_ok_def db_ok_def)
  have "\<not> freed t" if "t \<in> set (taskSet (taskDB w))" for t
    using db_okD(3) [of "taskDB w" t] assms that by (simp add: world_ok_def task_wf_def)
  then have "\<exists>r ns. crinitTaskDBExportTaskNamesToArray (namesCallocOk e) (namesDupFail e) (taskDB w) = Ret (r, ns, taskDB w)"
    using db by (auto simp: crinitTaskDBExportTaskNamesToArray_def dest: in_set_takeD split: option.split)
  then show ?thesis by (auto simp: crinitExecRtimCmdTaskList_def respond_def Let_def)
qed

lemma GetVer_same: "\<exists>res. crinitExecRtimCmdGetVer e w cmd = Ret (res, w)"
  by (simp add: crinitExecRtimCmdGetVer_def respond_def split: prod.split)

section \<open>Permissions\<close>

text \<open>A sender that is neither the user crinit runs as nor has the capability to shut down the system.\<close>

definition unprivileged :: "serverEnv \<Rightarrow> ucred \<Rightarrow> bool" where
  "unprivileged e cr \<longleftrightarrow> crUid cr \<noteq> srvEuid e \<and>
     (case srvCapget e (crPid cr) of None \<Rightarrow> True | Some effective \<Rightarrow> \<not> bit effective CAP_SYS_BOOT)"

lemma and_push_bit_0: "\<not> bit c n \<Longrightarrow> c AND push_bit n 1 = 0" for c :: "32 word"
  by (auto intro!: bit_eqI simp: bit_and_iff bit_exp_iff)

lemma unprivileged_answer:
  assumes "world_ok w" "namesOk (srvRtim e)" "unprivileged e cr"
  shows "\<exists>res. answer_cmd e cr cmd w = Ret (res, w)"
proof (cases "crinitCheckPerm e (op cmd) cr")
  case True
  moreover have "c AND push_bit CAP_SYS_BOOT 1 = 0" if "\<not> bit c CAP_SYS_BOOT" for c :: "32 word"
    using and_push_bit_0 [OF that] by simp
  ultimately have "op cmd \<in> CRINIT_RTIMCMD_C ` {STATUS, TASKLIST, GETVER}"
    using assms(3) by (auto simp: crinitCheckPerm_def unprivileged_def crinitProcCapget_def
        split: crinitRtimOp.split_asm if_split_asm option.split_asm)
  then show ?thesis
    using True Status_same [OF assms(1,2)] TaskList_same [OF assms(1)] GetVer_same
    by (auto simp: answer_cmd_def crinitExecRtimCmd_def)
qed (simp add: answer_cmd_def)

text \<open>A first packet that announces a length of zero, with the credentials of its sender, before anything but a failure to receive.\<close>

definition announces_zero :: "packet option list \<Rightarrow> bool" where
  "announces_zero ms \<longleftrightarrow> (\<exists>d h r. ms = Some (d, h) # r \<and> 8 \<le> length d \<and> crinitCmsgHdrCheck h \<and> size_of_bytes (take 8 d) = 0 \<and>
     (r = [] \<or> hd r \<noteq> None))"

lemma RecvStr_outcome:
  "if announces_zero ms \<and> mallocOk 0 then crinitRecvStr mallocOk ms = Undef
   else \<exists>m. crinitRecvStr mallocOk ms = Ret m \<and> (\<forall>s cr. m = Some (s, cr) \<longrightarrow> (\<exists>d h. Some (d, Some h) \<in> set ms \<and> cr = cmsg_data h))"
proof (cases ms)
  case (Cons m r)
  show ?thesis
  proof (cases m)
    case (Some x)
    then obtain d h where m: "m = Some (d, h)" by (cases x) simp
    have "\<not> crinitCmsgHdrCheck None" by (simp add: crinitCmsgHdrCheck_def)
    then show ?thesis using Cons m
      by (cases h; cases r) (auto simp: announces_zero_def crinitRecvStr_def recv_packet_def Let_def split: option.split)
  qed (simp add: Cons crinitRecvStr_def recv_packet_def announces_zero_def)
qed (simp add: crinitRecvStr_def recv_packet_def announces_zero_def)

section \<open>Samples\<close>

definition sampleServerEnv :: serverEnv where
  "sampleServerEnv =
     \<lparr>srvEuid = 0, srvCapget = (\<lambda>p. if p = 1 then Some (- 1) else Some 0), srvAccept = True, srvPasscred = True,
      srvSend = (\<lambda>_. True), srvMalloc = (\<lambda>_. True), srvParse = (True, True), srvBuild = (True, True), srvMsg = True,
      srvRtim = sampleRtimEnv\<rparr>"

definition sampleConnEnv :: connEnv where
  "sampleConnEnv =
     \<lparr>cnSocket = True, cnConnect = True, cnSend = (\<lambda>_. True), cnMalloc = (\<lambda>_. True), cnBuild = (True, True),
      cnMsg = True, cnParse = (True, True), incoming = []\<rparr>"

definition sampleClient :: crinitClient where
  "sampleClient = \<lparr>crinitNotifyName = ''a'', crinitSockFile = ''/run/crinit/crinit.sock'', clientOpts = crinitGlobOpts\<rparr>"

definition userCreds :: ucred where
  "userCreds = \<lparr>crPid = 400, crUid = 1000, crGid = 1000\<rparr>"

definition rootCreds :: ucred where
  "rootCreds = \<lparr>crPid = 1, crUid = 0, crGid = 0\<rparr>"

definition samplePool8 :: crinitThreadPool where
  "samplePool8 = \<lparr>tpSize = 8, tpSizeIncrement = 8, threadAvail = 8, tpLock = Unlocked\<rparr>"

lemma sample_up [simp]:
  "server_up sampleServerEnv" "client_up sampleConnEnv sampleClient" "tpLock samplePool8 = Unlocked"
  "unprivileged sampleServerEnv userCreds" "srvRtim sampleServerEnv = sampleRtimEnv" "namesOk sampleRtimEnv"
  by (simp_all add: server_up_def client_up_def sampleServerEnv_def sampleConnEnv_def sampleClient_def samplePool8_def
      unprivileged_def userCreds_def sampleRtimEnv_def)

section \<open>Properties\<close>

text \<open>
  C12: whatever packets a client sends that is not the user of the daemon and lacks the capability to shut
  the system down, the connection is served without a change of the world: no task, timer, option or process is
  touched. There is one exception, and it is exact: if the first packet announces a length of zero, the server writes in front
  of the buffer it has allocated, before it looks at the permissions of the sender.
\<close>

theorem unprivileged_harmless:
  assumes "world_ok w" "tpLock p = Unlocked" "namesOk (srvRtim e)"
    and "\<forall>d h. Some (d, Some h) \<in> set ms \<longrightarrow> unprivileged e (cmsg_data h)"
  shows "if announces_zero ms \<and> srvAccept e \<and> srvPasscred e \<and> srvSend e 0 \<and> srvSend e 1 \<and> srvMalloc e 0
    then conn_round e ms w p = Undef
    else \<exists>wake sent p'. conn_round e ms w p = Ret (wake, sent, w, p')"
proof -
  let ?Q = "\<lambda>(_ :: bool, _ :: string list, w', _ :: crinitThreadPool). w' = w"
  let ?greets = "srvAccept e \<and> srvPasscred e \<and> srvSend e 0 \<and> srvSend e 1"
  consider (zero) "announces_zero ms" "srvMalloc e 0" ?greets | (silent) "\<not> ?greets" | (other) "\<not> (announces_zero ms \<and> srvMalloc e 0)" by blast
  then show ?thesis
  proof cases
    case zero
    then show ?thesis using RecvStr_outcome [of ms "srvMalloc e"] Busy_ok [OF assms(2)] by (simp add: conn_round_def crinitSendStr_def)
  next
    case silent
    then show ?thesis using Busy_ok [OF assms(2)] by (auto simp: conn_round_def crinitSendStr_def)
  next
    case other
    then obtain m where m: "crinitRecvStr (srvMalloc e) ms = Ret m"
      "\<forall>s cr. m = Some (s, cr) \<longrightarrow> (\<exists>d h. Some (d, Some h) \<in> set ms \<and> cr = cmsg_data h)"
      using RecvStr_outcome [of ms "srvMalloc e"] by auto
    have ans: "ret_sat (\<lambda>(_, w'). w' = w) (answer_cmd e cr cmd w)" if "m = Some (s, cr)" for s cr cmd
      using unprivileged_answer [OF assms(1,3)] assms(4) m(2) that by (metis (mono_tags, lifting) old.prod.case ret_sat.simps(1))
    have "ret_sat ?Q (conn_round e ms w p)"
      unfolding conn_round_def Busy_ok [OF assms(2)] m(1) bind_run.simps
      by (intro ret_sat_branches ret_sat_bind [OF ans]) (simp_all add: Avail_ok assms(2))
    then show ?thesis using other by (elim ret_satE) auto
  qed
qed

theorem unprivileged_harmless_witness:
  "(\<exists>wake sent p'. conn_round sampleServerEnv
     (from_peer userCreds (wire \<lparr>op = CRINIT_RTIMCMD_C STOP, args = [''a'']\<rparr>)) (sampleWorld [sampleTask ''a'']) samplePool8 =
     Ret (wake, sent, sampleWorld [sampleTask ''a''], p')) \<and>
   conn_round sampleServerEnv (from_peer userCreds [bytes_of_size 0]) (sampleWorld [sampleTask ''a'']) samplePool8 = Undef"
proof -
  have "msg_text \<lparr>op = CRINIT_RTIMCMD_C STOP, args = [''a'']\<rparr> = ''C_STOP'' @ nl # ''a''" by code_simp
  then have z: "\<not> announces_zero (from_peer userCreds (wire \<lparr>op = CRINIT_RTIMCMD_C STOP, args = [''a'']\<rparr>))"
    "announces_zero (from_peer userCreds [bytes_of_size 0])"
    by (auto simp: announces_zero_def from_peer_def wire_def size_of_bytes_of_size)
  have u: "\<forall>d h. Some (d, Some h) \<in> set (from_peer userCreds ds) \<longrightarrow> unprivileged sampleServerEnv (cmsg_data h)" for ds
    by (auto simp: from_peer_def)
  have "srvAccept sampleServerEnv \<and> srvPasscred sampleServerEnv \<and> srvSend sampleServerEnv 0 \<and> srvSend sampleServerEnv 1 \<and> srvMalloc sampleServerEnv 0"
    by (simp add: sampleServerEnv_def)
  then show ?thesis using z unprivileged_harmless [OF _ _ _ u, of "sampleWorld [sampleTask ''a'']" samplePool8] by simp
qed

text \<open>
  C14: when a client calls a function of the library and the server handles its connection, the server
  receives the command that was called, the world becomes what executing it gives, the worker is available again,
  and the call returns 0 exactly if the response has the opcode of the command and says that it succeeded.
\<close>

theorem client_call_served:
  assumes "server_up e" "client_up ce c" "tpLock p = Unlocked"
    and "sendable \<lparr>op = CRINIT_RTIMCMD_C v, args = as\<rparr>" "sendable res"
    and "answer_cmd e cr \<lparr>op = CRINIT_RTIMCMD_C v, args = as\<rparr> w = Ret (Some res, w')"
  shows "\<exists>wake sent reply. conn_round e (from_peer cr sent) w p = Ret (wake, reply, w', p) \<and>
     client_call (ce\<lparr>incoming := map Some reply\<rparr>) c v as =
       Ret (if op res = CRINIT_RTIMCMD_R v \<and> args res \<noteq> [] \<and> hd (args res) = CRINIT_RTIMCMD_RES_OK then 0 else -1, sent)"
proof -
  let ?ce = "ce\<lparr>incoming := map Some (rtr_packets @ wire res)\<rparr>"
  have "client_up ?ce c" using assms(2) by (simp add: client_up_def)
  from client_xfer_served [OF this assms(4,5)]
  have "client_call ?ce c v as = Ret (if op res = CRINIT_RTIMCMD_R v \<and> args res \<noteq> [] \<and>
      hd (args res) = CRINIT_RTIMCMD_RES_OK then 0 else -1, wire \<lparr>op = CRINIT_RTIMCMD_C v, args = as\<rparr>)"
    by (simp add: client_call_def crinitResponseCheck_def hd_conv_nth)
  with conn_round_served [OF assms(1,3,4,5,6)] show ?thesis by blast
qed

theorem client_call_served_witness:
  "\<exists>wake sent reply.
     conn_round sampleServerEnv (from_peer userCreds sent) (sampleWorld []) samplePool8 = Ret (wake, reply, sampleWorld [], samplePool8) \<and>
     client_call (sampleConnEnv\<lparr>incoming := map Some reply\<rparr>) sampleClient GETVER [] = Ret (0, sent)"
proof -
  let ?res = "\<lparr>op = CRINIT_RTIMCMD_R GETVER, args = [''RES_OK'', ''0'', ''15'', ''2'', ''ab12'']\<rparr>"
  have "msg_text \<lparr>op = CRINIT_RTIMCMD_C GETVER, args = []\<rparr> = ''C_GETVER''"
    "msg_text ?res = ''R_GETVER'' @ delimited (args ?res)" by code_simp+
  then have "sendable \<lparr>op = CRINIT_RTIMCMD_C GETVER, args = []\<rparr>" "sendable ?res"
    by (simp_all add: sendable_def delimited_def)
  moreover have "digits_of 0 = ''0''" "digits_of 15 = ''15''" "digits_of 2 = ''2''" by code_simp+
  then have "answer_cmd sampleServerEnv userCreds \<lparr>op = CRINIT_RTIMCMD_C GETVER, args = []\<rparr> (sampleWorld []) =
      Ret (Some ?res, sampleWorld [])"
    by (simp add: answer_cmd_def crinitCheckPerm_def crinitExecRtimCmd_def crinitExecRtimCmdGetVer_def del: digits_of.simps)
      (simp add: sampleRtimEnv_def del: digits_of.simps)
  ultimately show ?thesis using client_call_served [OF sample_up(1-3), of GETVER "[]" ?res] by simp
qed

end
