(* ===== verification/PoolSpec.thy ===== *)
theory PoolSpec
  imports ServerSpec
begin

text \<open>
  What connections that fail do to the pool of worker threads: a worker reports that it is busy as soon as it has
  accepted a connection, and reports that it is available only after a connection it has served to its end.
\<close>

text \<open>Connections that are closed before a command was sent, one after the other, with the watchdog whenever it is signalled.\<close>

fun serve_closed :: "serverEnv \<Rightarrow> thrEnv \<Rightarrow> nat \<Rightarrow> world \<Rightarrow> crinitThreadPool \<Rightarrow> (world \<times> crinitThreadPool) run" where
  "serve_closed e te 0 w p = Ret (w, p)"
| "serve_closed e te (Suc k) w p =
     bind_run (conn_round e [] w p) (\<lambda>(wake, _, w, p).
     bind_run (if wake then watchdog_round te p else Ret p) (\<lambda>p. serve_closed e te k w p))"

lemma conn_round_closed:
  assumes "tpLock p = Unlocked"
  shows "\<exists>sent. conn_round e [] w p =
    Ret (threadAvail p - 1 \<le> crinitDryPoolThreshold (tpSize p), sent, w, p\<lparr>threadAvail := threadAvail p - 1\<rparr>)"
  using Busy_ok [OF assms] by (simp add: conn_round_def crinitRecvStr_def recv_packet_def split: prod.split)

text \<open>A pool with \<open>j\<close> workers that are not reported as available, though nothing keeps them busy.\<close>

definition leaked :: "nat \<Rightarrow> crinitThreadPool \<Rightarrow> bool" where
  "leaked j p \<longleftrightarrow> tpLock p = Unlocked \<and> tpSizeIncrement p = 8 \<and> 0 < unat (threadAvail p) \<and>
     unat (tpSize p) = unat (threadAvail p) + j \<and> unat (tpSize p) \<le> 8 + 8 * j"

lemma unat_minus_1: "0 < unat a \<Longrightarrow> unat (a - 1) = unat a - 1" for a :: "64 word"
  by (metis gr_implies_not0 unat_0 unat_minus_one)

lemma unat_plus_8: "unat a < 2 ^ 60 \<Longrightarrow> unat (a + 8) = unat a + 8" for a :: "64 word"
  by (subst unat_add_lem [THEN iffD1]) simp_all

lemma leaked_step:
  assumes "leaked j p" "attrOk te" "\<forall>i. createOk te i" "j < 2 ^ 32"
  shows "\<exists>p'. serve_closed e te (Suc k) w p = serve_closed e te k w p' \<and> leaked (Suc j) p'"
proof -
  let ?p = "p\<lparr>threadAvail := threadAvail p - 1\<rparr>"
  let ?dry = "threadAvail ?p \<le> crinitDryPoolThreshold (tpSize ?p)"
  let ?p' = "if ?dry then ?p\<lparr>tpSize := tpSize ?p + 8, threadAvail := threadAvail ?p + 8\<rparr> else ?p"
  have p: "tpLock p = Unlocked" "tpSizeIncrement p = 8" "0 < unat (threadAvail p)"
      "unat (tpSize p) = unat (threadAvail p) + j" "unat (tpSize p) \<le> 8 + 8 * j"
    using assms(1) by (simp_all add: leaked_def)
  then have small: "unat (tpSize p) < 2 ^ 60" "unat (threadAvail p - 1) < 2 ^ 60" "unat (threadAvail p - 1) = unat (threadAvail p) - 1"
    using assms(4) by (simp_all add: unat_minus_1)
  have "watchdog_round te ?p = Ret ?p'" if ?dry
    using watchdog_ok [of ?p te] assms(2,3) p that unat_plus_8 [OF small(1)] by (simp add: word_less_nat_alt)
  moreover obtain sent where "conn_round e [] w p = Ret (?dry, sent, w, ?p)"
    using conn_round_closed [OF p(1)] by fastforce
  ultimately have "serve_closed e te (Suc k) w p = serve_closed e te k w ?p'" by simp
  moreover have "leaked (Suc j) ?p'"
  proof (cases ?dry)
    case True
    then show ?thesis using p small unat_plus_8 [OF small(1)] unat_plus_8 [OF small(2)] by (simp add: leaked_def)
  next
    case False
    then have "0 < unat (threadAvail p - 1)"
      by (simp add: word_le_nat_alt not_le)
    then show ?thesis using False p small by (simp add: leaked_def)
  qed
  ultimately show ?thesis by blast
qed

lemma leaked_steps:
  assumes "leaked j p" "attrOk te" "\<forall>i. createOk te i" "j + k \<le> 2 ^ 32"
  shows "\<exists>p'. serve_closed e te k w p = Ret (w, p') \<and> leaked (j + k) p'"
  using assms(1,4)
proof (induction k arbitrary: j p)
  case (Suc k)
  obtain p' where "serve_closed e te (Suc k) w p = serve_closed e te k w p'" "leaked (Suc j) p'"
    using leaked_step [OF Suc.prems(1) assms(2,3)] Suc.prems(2) by fastforce
  then show ?case using Suc.IH [of "Suc j" p'] Suc.prems(2) by simp
qed simp

lemma Init_leaked_0:
  assumes "attrOk te" "\<forall>i. createOk te i"
  shows "\<exists>p. crinitThreadPoolInit True True True te 0 = Ret (0, Some p) \<and> leaked 0 p"
  using Grow_all [of "\<lparr>tpSize = 0, tpSizeIncrement = 8, threadAvail = 0, tpLock = Unlocked\<rparr>" te 8] assms
  by (simp add: crinitThreadPoolInit_def leaked_def Let_def)

text \<open>
  C36: connections that are closed before a command was sent use up the workers the pool counts as
  available. After \<open>k\<close> of them, one at a time and with no client left, the pool has created more than \<open>k\<close> threads.
\<close>

theorem closed_connections_grow_pool:
  assumes "attrOk te" "\<forall>i. createOk te i" "k \<le> 2 ^ 32"
  shows "\<exists>p p'. crinitThreadPoolInit True True True te 0 = Ret (0, Some p) \<and>
    serve_closed e te k w p = Ret (w, p') \<and> k < unat (tpSize p')"
proof -
  obtain p where p: "crinitThreadPoolInit True True True te 0 = Ret (0, Some p)" "leaked 0 p"
    using Init_leaked_0 [OF assms(1,2)] by blast
  obtain p' where "serve_closed e te k w p = Ret (w, p')" "leaked k p'"
    using leaked_steps [OF p(2) assms(1,2), of k] assms(3) by auto
  then show ?thesis using p(1) by (auto simp: leaked_def)
qed

theorem closed_connections_grow_pool_witness:
  "\<exists>p p'. crinitThreadPoolInit True True True \<lparr>attrOk = True, createOk = (\<lambda>_. True)\<rparr> 0 = Ret (0, Some p) \<and>
    serve_closed sampleServerEnv \<lparr>attrOk = True, createOk = (\<lambda>_. True)\<rparr> 1000 (sampleWorld []) p = Ret (sampleWorld [], p') \<and>
    1000 < unat (tpSize p')"
  by (rule closed_connections_grow_pool) simp_all

end
