(* ===== verification/ClientSpec.thy ===== *)
theory ClientSpec
  imports ServerSpec
begin

text \<open>
  The status of a task as a client sees it: the server prints the values of the task into a text, cuts it into
  arguments and sends them; the client reads the numbers back.
\<close>

section \<open>Reading numbers back\<close>

lemma show_int_Nil [simp]: "show_int v \<noteq> []" "[] \<noteq> show_int v"
  using not_sym [OF digits_of_Nil] by (simp_all add: show_int_def)

lemma digits_of_show_int: "digits_of n = show_int (int n)"
  by (simp add: show_int_def)

lemma status_strtol:
  "LONG_MIN \<le> v \<Longrightarrow> v \<le> LONG_MAX \<Longrightarrow> status_number False (strtol 10 (show_int v)) (show_int v) = Some v"
  using strtol_show_int [of v "[]"] by (simp add: status_number_def)

lemma status_strtoul:
  "\<bar>v\<bar> \<le> ULONG_MAX \<Longrightarrow> status_number False (strtoul 10 (show_int v)) (show_int v) = Some (v mod (ULONG_MAX + 1))"
  using strto_raw_show_int [of "[]" v] by (simp add: status_number_def strtoul_def)

lemma strto_raw_digits:
  assumes "ds \<noteq> []" "\<forall>c \<in> set ds. c_isdigit c"
  shows "strto_raw 10 ds = (digits_value 10 ds, [])"
proof -
  obtain d r where d: "ds = d # r" using assms(1) by (cases ds) auto
  have "takeWhile (is_digit 10) ds = ds" using assms(2) by (auto simp: takeWhile_eq_all_conv is_digit_isdigit)
  then show ?thesis using assms(2) digit_not_space [of d] by (simp add: strto_raw_def d)
qed

lemma strtol_show_int9:
  assumes "0 \<le> v" "v \<le> LONG_MAX"
  shows "strtol 10 (show_int9 v) = (v, False, [])"
proof -
  let ?ds = "replicate (9 - length (digits_of (nat v))) (CHR ''0'') @ digits_of (nat v)"
  have "show_int9 v = ?ds" using assms(1) by (simp add: show_int9_def Let_def)
  moreover have "strto_raw 10 ?ds = (digits_value 10 ?ds, [])"
    using digits_of_isdigit by (intro strto_raw_digits) (auto simp: c_isdigit_def)
  ultimately show ?thesis using assms by (simp add: strtol_def digits_value_zeros digits_value_digits_of)
qed

lemma no_point: "CHR ''.'' \<notin> set (show_int v)"
proof -
  have "\<not> c_isdigit (CHR ''.'')" by (simp add: c_isdigit_def)
  then show ?thesis using digits_of_isdigit by (auto simp: show_int_def)
qed

lemma status_time_show_time:
  assumes "LONG_MIN \<le> tv_sec x" "tv_sec x \<le> LONG_MAX" "0 \<le> tv_nsec x" "tv_nsec x \<le> LONG_MAX"
  shows "status_time False (show_time x) = Ret (Some x)"
proof -
  have "strtol 10 (show_time x) = (tv_sec x, False, CHR ''.'' # show_int9 (tv_nsec x))"
    using strtol_show_int [of "tv_sec x" "CHR ''.'' # show_int9 (tv_nsec x)"] assms(1,2)
    by (simp add: show_time_def c_isdigit_def)
  moreover have "CHR ''.'' # show_int9 (tv_nsec x) \<noteq> show_time x"
    by (simp add: show_time_def)
  moreover have "strchr (show_time x) (CHR ''.'') = Some (CHR ''.'' # show_int9 (tv_nsec x))"
    using strchr_append [OF no_point] by (simp add: show_time_def)
  moreover have "show_int9 (tv_nsec x) \<noteq> []" by (simp add: show_int9_def Let_def)
  ultimately show ?thesis
    using strtol_show_int9 [OF assms(3,4)] by (simp add: status_time_def status_number_def)
qed

lemma to_int_range: "\<bar>to_int v\<bar> \<le> ULONG_MAX"
  using sint_range_size [of "word_of_int v :: 32 word"] by (auto simp: to_int_def word_size)

lemma to_uint_show_id:
  assumes "n < 2 ^ 32"
  shows "\<exists>v. status_number False (strtoul 10 (show_id n)) (show_id n) = Some v \<and> to_uint v = n"
  using strtoul_show_id [of n] assms by (auto simp: status_number_def show_id_def)

section \<open>The values of a task\<close>

text \<open>What the types of the source give for the values of a task, and names that can be sent.\<close>

definition time_fits :: "timespec \<Rightarrow> bool" where
  "time_fits x \<longleftrightarrow> LONG_MIN \<le> tv_sec x \<and> tv_sec x \<le> LONG_MAX \<and> 0 \<le> tv_nsec x \<and> tv_nsec x \<le> LONG_MAX"

definition name_fits :: "string \<Rightarrow> bool" where
  "name_fits s \<longleftrightarrow> s \<noteq> [] \<and> CRINIT_RTIMCMD_ARGDELIM \<notin> set s \<and> CHR 0x00 \<notin> set s \<and> length s < 2 ^ 32"

definition status_fits :: "crinitTask \<Rightarrow> bool" where
  "status_fits t \<longleftrightarrow> - (2 ^ 31) \<le> pid t \<and> pid t < 2 ^ 31 \<and> time_fits (createTime t) \<and> time_fits (startTime t) \<and>
     time_fits (endTime t) \<and> user t < 2 ^ 32 \<and> group t < 2 ^ 32 \<and>
     (case username t of None \<Rightarrow> True | Some u \<Rightarrow> name_fits u) \<and> (case groupname t of None \<Rightarrow> True | Some g \<Rightarrow> name_fits g)"

abbreviation root_or :: "string option \<Rightarrow> string" where
  "root_or n \<equiv> (case n of None \<Rightarrow> ''root'' | Some u \<Rightarrow> u)"

definition status_fields :: "crinitTask \<Rightarrow> string list" where
  "status_fields t =
     [digits_of (unat (state t)), show_int (pid t), show_time (createTime t), show_time (startTime t),
      show_time (endTime t), show_id (user t), show_id (group t), root_or (username t), root_or (groupname t)]"

definition status_entry :: "crinitTask \<Rightarrow> crinitTaskListEntry" where
  "status_entry t =
     \<lparr>tePid = pid t, teState = state t, teCreateTime = createTime t, teStartTime = startTime t, teEndTime = endTime t,
      teGid = group t, teUid = user t, teUsername = root_or (username t), teGroupname = root_or (groupname t)\<rparr>"

lemma parse_status_fields:
  assumes "status_fits t"
  shows "parse_status False (True, True) (ok # status_fields t) = Ret (Some (status_entry t))"
proof -
  have fits: "time_fits (createTime t)" "time_fits (startTime t)" "time_fits (endTime t)" "user t < 2 ^ 32" "group t < 2 ^ 32"
      "- (2 ^ 31) \<le> pid t" "pid t < 2 ^ 31"
    using assms by (simp_all add: status_fits_def)
  have time: "status_time False (show_time x) = Ret (Some x)" if "time_fits x" for x
    using that by (intro status_time_show_time) (simp_all add: time_fits_def)
  obtain u where u: "status_number False (strtoul 10 (show_id (user t))) (show_id (user t)) = Some u" "to_uint u = user t"
    using to_uint_show_id [OF fits(4)] by blast
  obtain g where g: "status_number False (strtoul 10 (show_id (group t))) (show_id (group t)) = Some g" "to_uint g = group t"
    using to_uint_show_id [OF fits(5)] by blast
  have "uint (state t) < 2 ^ LENGTH(64)" by (rule unsigned_less)
  then have s: "status_number False (strtoul 10 (digits_of (unat (state t)))) (digits_of (unat (state t))) = Some (int (unat (state t)))"
    using status_strtoul [of "int (unat (state t))"] by (simp add: digits_of_show_int)
  have p: "status_number False (strtol 10 (show_int (pid t))) (show_int (pid t)) = Some (pid t)"
    using fits(6,7) by (intro status_strtol) simp_all
  show ?thesis
    using u(2) g(2) fits(6,7) time [OF fits(1)] time [OF fits(2)] time [OF fits(3)]
    by (simp add: parse_status_def status_fields_def bind_opt_def s p u(1) g(1) to_int_id status_entry_def)
qed

lemma show_int_no_zero: "CHR 0x00 \<notin> set (show_int v)" "CHR 0x00 \<notin> set (show_int9 v)"
proof -
  have "\<not> c_isdigit (CHR 0x00)" by (simp add: c_isdigit_def)
  then show "CHR 0x00 \<notin> set (show_int v)" "CHR 0x00 \<notin> set (show_int9 v)"
    using digits_of_isdigit by (auto simp: show_int_def show_int9_def Let_def)
qed

lemma length_show_int:
  assumes "\<bar>v\<bar> \<le> ULONG_MAX"
  shows "length (show_int v) \<le> 22" "length (show_int9 v) \<le> 31"
proof -
  have "nat \<bar>v\<bar> < 10 ^ 20" using assms by simp
  then have "length (digits_of (nat \<bar>v\<bar>)) \<le> 21" using length_digits_of [of "nat \<bar>v\<bar>" 21] by simp
  then show "length (show_int v) \<le> 22" "length (show_int9 v) \<le> 31"
    by (auto simp: show_int_def show_int9_def Let_def abs_if split: if_split_asm)
qed

lemma status_fields_fit:
  assumes "status_fits t"
  shows "list_all name_fits (status_fields t)"
proof -
  have name: "case n of None \<Rightarrow> True | Some u \<Rightarrow> name_fits u \<Longrightarrow> name_fits (root_or n)" for n
    by (cases n) (simp_all add: name_fits_def)
  have names: "name_fits (root_or (username t))" "name_fits (root_or (groupname t))"
    by (rule name; use assms in \<open>simp add: status_fits_def\<close>)+
  have int: "name_fits (show_int v)" if "\<bar>v\<bar> \<le> ULONG_MAX" for v
    using length_show_int(1) [OF that] show_int_no_newline show_int_no_zero by (simp add: name_fits_def)
  have time: "name_fits (show_time x)" if "time_fits x" for x
  proof -
    have "\<bar>tv_sec x\<bar> \<le> ULONG_MAX" "\<bar>tv_nsec x\<bar> \<le> ULONG_MAX" using that by (auto simp: time_fits_def)
    then have "length (show_int (tv_sec x)) \<le> 22" "length (show_int9 (tv_nsec x)) \<le> 31"
      by (auto intro: length_show_int)
    then show ?thesis using no_newline show_int_no_zero by (simp add: name_fits_def show_time_def)
  qed
  have id: "name_fits (show_id n)" for n
    unfolding show_id_def by (rule int [OF to_int_range])
  have "uint (state t) < 2 ^ LENGTH(64)" by (rule unsigned_less)
  then have "name_fits (digits_of (unat (state t)))"
    using int by (simp add: digits_of_show_int)
  moreover have "\<bar>pid t\<bar> \<le> ULONG_MAX" using assms by (auto simp: status_fits_def)
  ultimately show ?thesis using names time id int assms by (simp add: status_fields_def status_fits_def)
qed

lemma RtimOps_short: "list_all (\<lambda>(c, s). length s \<le> 11) crinitRtimOps"
  by code_simp

lemma fits_sendable:
  assumes "list_all name_fits as" "length as \<le> 2 ^ 20"
  shows "sendable \<lparr>op = c, args = as\<rparr>"
proof -
  obtain s where s: "crinitOpStrGetByRtimOp c = Some s" using RtimOps_exhaustive by blast
  have "length s \<le> 11" using OpStrGet_in [OF s] RtimOps_short by (auto simp: list_all_iff)
  moreover have "length (delimited as) \<le> length as * 2 ^ 32"
    using assms(1) by (induction as) (simp_all add: delimited_def name_fits_def)
  moreover have "length as * 2 ^ 32 \<le> 2 ^ 20 * 2 ^ 32" using assms(2) by (intro mult_right_mono) simp_all
  ultimately have "length (msg_text \<lparr>op = c, args = as\<rparr>) + 1 < 2 ^ 64" by (simp add: msg_text_def s)
  then show ?thesis using assms(1) by (auto simp: sendable_def list_all_iff name_fits_def)
qed

section \<open>Properties\<close>

text \<open>
  C15: when a client asks for the status of a task, whoever it is, it gets the state, the process, the times
  and the owner the database has for the task, although they travel as text, from the very packets that the call sends; and the
  world is unchanged.
\<close>

theorem status_reported:
  assumes "server_up e" "client_up ce c" "tpLock p = Unlocked" "world_ok w"
    and "namesOk (srvRtim e)" "memOk (srvRtim e)" "answer_mem (srvRtim e)"
    and "task_map (taskDB w) n = Some t" "name_fits n" "status_fits t"
  shows "\<exists>wake sent reply. conn_round e (from_peer cr sent) w p = Ret (wake, reply, w, p) \<and>
     crinitClientTaskGetStatus (ce\<lparr>incoming := map Some reply\<rparr>) c False (True, True) n =
       Ret (Some \<lparr>tePid = pid t, teState = state t, teCreateTime = createTime t, teStartTime = startTime t, teEndTime = endTime t,
         teGid = group t, teUid = user t, teUsername = root_or (username t), teGroupname = root_or (groupname t)\<rparr>, sent)"
proof -
  let ?cmd = "\<lparr>op = CRINIT_RTIMCMD_C STATUS, args = [n]\<rparr>"
  let ?res = "\<lparr>op = CRINIT_RTIMCMD_R STATUS, args = CRINIT_RTIMCMD_RES_OK # status_fields t\<rparr>"
  let ?ce = "ce\<lparr>incoming := map Some (rtr_packets @ wire ?res)\<rparr>"
  have send: "sendable ?cmd" "sendable ?res"
    using assms(9) status_fields_fit [OF assms(10)]
    by (auto intro!: fits_sendable simp: status_fields_def name_fits_def)
  have "\<forall>u. username t = Some u \<longrightarrow> nl \<notin> set u" using assms(10) by (auto simp: status_fits_def name_fits_def)
  then have "answer_cmd e cr ?cmd w = Ret (Some ?res, w)"
    using Status_known [OF assms(4-8)]
    by (simp add: answer_cmd_def crinitCheckPerm_def crinitExecRtimCmd_def status_fields_def)
  then have server: "\<exists>wake. conn_round e (from_peer cr (wire ?cmd)) w p = Ret (wake, rtr_packets @ wire ?res, w, p)"
    by (rule conn_round_served [OF assms(1,3) send])
  have "client_up ?ce c" using assms(2) by (simp add: client_up_def)
  then have xfer: "client_xfer ?ce c STATUS [n] = Ret (Some ?res, wire ?cmd)"
    using client_xfer_served [OF _ send] by simp
  moreover have "length (status_fields t) = 9" by (simp add: status_fields_def)
  ultimately have "crinitClientTaskGetStatus ?ce c False (True, True) n = Ret (Some (status_entry t), wire ?cmd)"
    using parse_status_fields [OF assms(10)] by (simp add: crinitClientTaskGetStatus_def bind_sent_def crinitResponseCheck_def)
  with server xfer show ?thesis by (fastforce simp: status_entry_def)
qed

theorem status_reported_witness:
  "\<exists>wake sent reply.
     conn_round sampleServerEnv (from_peer userCreds sent) (sampleWorld [(sampleTask ''a'')\<lparr>pid := 77\<rparr>]) samplePool8 =
       Ret (wake, reply, sampleWorld [(sampleTask ''a'')\<lparr>pid := 77\<rparr>], samplePool8) \<and>
     map_ret (\<lambda>(t, sent). (map_option tePid t, sent)) (crinitClientTaskGetStatus (sampleConnEnv\<lparr>incoming := map Some reply\<rparr>) sampleClient False (True, True) ''a'') =
       Ret (Some 77, sent)"
proof -
  let ?t = "(sampleTask ''a'')\<lparr>pid := 77\<rparr>"
  have "task_wf ?t" using sampleTask_wf(1) [of "''a''"] by (simp add: task_wf_def)
  then have "world_ok (sampleWorld [?t])" "task_map (taskDB (sampleWorld [?t])) ''a'' = Some ?t"
    by (simp_all add: task_map_def)
  moreover have "name_fits ''a''" "status_fits ?t"
    by (simp_all add: name_fits_def status_fits_def time_fits_def sampleTask_def)
  ultimately have *: "world_ok (sampleWorld [?t])" "task_map (taskDB (sampleWorld [?t])) ''a'' = Some ?t"
    "name_fits ''a''" "status_fits ?t" by blast+
  from status_reported [OF sample_up(1-3) *(1) _ _ _ *(2-4), of userCreds] show ?thesis by fastforce
qed

end
