(* ===== verification/Ctl.thy ===== *)
theory Ctl
  imports Client Getopt
begin

text \<open>
  The control program, \<open>src/src/crinit-ctl.c\<close>: its command line, the call of the client library each action stands
  for, and what it prints. The usage texts and the error messages are left out. The result is the exit code, the lines
  that are printed and the packets that are sent to the daemon; \<open>Ret (1, [], [])\<close> is an exit with a failure before any.
\<close>

section \<open>Command line\<close>

record ctlArgs =
  ctlOverwrite :: bool
  ctlIgnoreDeps :: bool
  ctlOverDeps :: "string option"
  ctlVerbose :: bool

definition ctlOptions :: optTable where
  "ctlOptions =
     [(''help'', no_argument, CHR ''h''), (''ignore-deps'', no_argument, CHR ''i''),
      (''override-deps'', required_argument, CHR ''d''), (''overwrite'', no_argument, CHR ''f''),
      (''verbose'', no_argument, CHR ''v'')]"

text \<open>One turn of the loop over the options; \<open>None\<close> prints the usage and ends.\<close>

definition ctl_option :: "optEvent \<Rightarrow> ctlArgs \<Rightarrow> ctlArgs option" where
  "ctl_option ev a =
     (case ev of (c, v) \<Rightarrow>
        if c = CHR ''i'' then Some (a\<lparr>ctlIgnoreDeps := True\<rparr>)
        else if c = CHR ''d'' then Some (a\<lparr>ctlOverDeps := v\<rparr>)
        else if c = CHR ''f'' then Some (a\<lparr>ctlOverwrite := True\<rparr>)
        else if c = CHR ''v'' then Some (a\<lparr>ctlVerbose := True\<rparr>)
        else None)"

fun ctl_options :: "optEvent list \<Rightarrow> ctlArgs \<Rightarrow> ctlArgs option" where
  "ctl_options [] a = Some a"
| "ctl_options (ev # evs) a = (case ctl_option ev a of None \<Rightarrow> None | Some a \<Rightarrow> ctl_options evs a)"

definition crinitParamCheck :: "string \<Rightarrow> string \<Rightarrow> string \<Rightarrow> bool" where
  "crinitParamCheck inputParam cmpShort cmpLong \<longleftrightarrow> inputParam = cmpShort \<or> inputParam = cmpLong"

text \<open>\<open>basename\<close> of the C library.\<close>

definition basename :: "string \<Rightarrow> string" where
  "basename p =
     (if p = [] then ''.''
      else case dropWhile (\<lambda>c. c = CHR ''/'') (rev p) of
        [] \<Rightarrow> ''/''
      | q \<Rightarrow> rev (takeWhile (\<lambda>c. c \<noteq> CHR ''/'') q))"

section \<open>Output\<close>

definition crinitTaskStateToStr :: "64 word \<Rightarrow> string" where
  "crinitTaskStateToStr s =
     (let notified = s AND CRINIT_TASK_STATE_NOTIFIED \<noteq> 0; s = s AND NOT CRINIT_TASK_STATE_NOTIFIED in
      if s = CRINIT_TASK_STATE_LOADED then ''loaded''
      else if s = CRINIT_TASK_STATE_STARTING then ''starting''
      else if s = CRINIT_TASK_STATE_RUNNING then (if notified then ''running (notified)'' else ''running'')
      else if s = CRINIT_TASK_STATE_DONE then (if notified then ''done (notified)'' else ''done'')
      else if s = CRINIT_TASK_STATE_FAILED then (if notified then ''failed (notified)'' else ''failed'')
      else ''(invalid)'')"

abbreviation (input) TIME_REPR_MAX_LEN :: nat where "TIME_REPR_MAX_LEN \<equiv> 64"

definition time_repr :: "timespec \<Rightarrow> string" where
  "time_repr t =
     take (TIME_REPR_MAX_LEN - 1)
       (if tv_sec t = 0 \<and> tv_nsec t = 0 then ''n/a'' else show_int (tv_sec t) @ ''.'' @ show_int9 (tv_nsec t) @ ''s'')"

text \<open>The user and group numbers are printed as signed ones.\<close>

definition status_line :: "crinitTaskListEntry \<Rightarrow> string" where
  "status_line t =
     ''Status: '' @ crinitTaskStateToStr (teState t) @ '', PID: '' @ show_int (tePid t) @ '' CTime: '' @ time_repr (teCreateTime t) @
     '' STime: '' @ time_repr (teStartTime t) @ '' ETime: '' @ time_repr (teEndTime t) @
     '' USER: '' @ teUsername t @ ''('' @ show_int (to_int (int (teUid t))) @ '') GROUP: '' @ teGroupname t @
     ''('' @ show_int (to_int (int (teGid t))) @ '')''"

definition pad_right :: "nat \<Rightarrow> string \<Rightarrow> string" where
  "pad_right n s = s @ replicate (n - length s) CHR '' ''"

definition pad_left :: "nat \<Rightarrow> string \<Rightarrow> string" where
  "pad_left n s = replicate (n - length s) CHR '' '' @ s"

definition max_len :: "nat \<Rightarrow> string list \<Rightarrow> nat" where
  "max_len n ss = fold (\<lambda>s m. if length s > m then length s else m) ss n"

definition list_row :: "nat \<Rightarrow> nat \<Rightarrow> nat \<Rightarrow> string \<Rightarrow> string \<Rightarrow> string \<Rightarrow> string \<Rightarrow> string \<Rightarrow> string" where
  "list_row nl ul gl n p u g s =
     pad_right nl n @ ''  '' @ pad_left 4 p @ ''  '' @ pad_right ul u @ '' '' @ pad_right gl g @ '' '' @ s"

definition list_table :: "(string \<times> crinitTaskListEntry) list \<Rightarrow> string list" where
  "list_table ts =
     (let nl = max_len 0 (map fst ts); ul = max_len (length ''USER'') (map (teUsername \<circ> snd) ts);
          gl = max_len (length ''GROUP'') (map (teGroupname \<circ> snd) ts) in
      list_row nl ul gl ''NAME'' ''PID'' ''USER'' ''GROUP'' ''STATUS'' #
      map (\<lambda>(n, t). list_row nl ul gl n (show_int (tePid t)) (teUsername t) (teGroupname t) (crinitTaskStateToStr (teState t))) ts)"

section \<open>Actions\<close>

record ctlEnv =
  ctlSock :: "string option"
  ctlConn :: connEnv
  ctlErange :: bool
  ctlDup :: "bool \<times> bool"
  ctlList :: listEnv
  ctlLibVersion :: crinitVersion

definition version_text :: "crinitVersion \<Rightarrow> string" where
  "version_text v =
     digits_of (vMajor v) @ ''.'' @ digits_of (vMinor v) @ ''.'' @ digits_of (vMicro v) @ (if vGit v = [] then '''' else ''.'') @ vGit v"

text \<open>The number of the build, which is that of the library.\<close>

definition crinitGetVersionString :: "crinitVersion \<Rightarrow> string" where
  "crinitGetVersionString v =
     (if vGit v \<noteq> [] then digits_of (vMajor v) @ ''.'' @ digits_of (vMinor v) @ ''.'' @ digits_of (vMicro v) @ ''.'' @ vGit v
      else digits_of (vMajor v) @ ''.'' @ digits_of (vMinor v) @ ''.'' @ digits_of (vMicro v))"

definition crinitPrintVersion :: "ctlEnv \<Rightarrow> crinitClient \<Rightarrow> (string list \<times> string list) run" where
  "crinitPrintVersion e c =
     map_ret (\<lambda>(v, sent). ([''crinit-ctl version '' @ crinitGetVersionString (ctlLibVersion e), ''crinit-client library version '' @ version_text (ctlLibVersion e)] @
         (case v of None \<Rightarrow> [] | Some v \<Rightarrow> [''crinit daemon version '' @ version_text v]), sent))
       (crinitClientGetVersion (ctlConn e) c)"

text \<open>The exit code after a call of the library.\<close>

definition call_end :: "(int \<times> string list) run \<Rightarrow> (int \<times> string list \<times> string list) run" where
  "call_end m = map_ret (\<lambda>(r, sent). (if r = -1 then 1 else 0, [], sent)) m"

text \<open>An action on one operand.\<close>

definition with_operand :: "string list \<Rightarrow> (string \<Rightarrow> (int \<times> string list) run) \<Rightarrow> (int \<times> string list \<times> string list) run" where
  "with_operand ops f = (case ops of [] \<Rightarrow> Ret (1, [], []) | p # _ \<Rightarrow> call_end (f p))"

definition with_path :: "string list \<Rightarrow> (string \<Rightarrow> (int \<times> string list) run) \<Rightarrow> (int \<times> string list \<times> string list) run" where
  "with_path ops f =
     (case ops of [] \<Rightarrow> Ret (1, [], []) | p # _ \<Rightarrow> if \<not> crinitIsAbsPath p then Ret (1, [], []) else call_end (f p))"

text \<open>
  Looking for the second operand of \<open>notify\<close> the program reads the array that has the name of the program in front, so
  that it finds the first one again: a missing notification is only refused by the library.
\<close>

definition ctl_notify :: "connEnv \<Rightarrow> crinitClient \<Rightarrow> string list \<Rightarrow> (int \<times> string list \<times> string list) run" where
  "ctl_notify e c ops =
     (case ops of
        [] \<Rightarrow> Ret (1, [], [])
      | n # st \<Rightarrow> call_end (sd_notify e (crinitClientSetNotifyTaskName (Some n) c) (if st = [] then None else Some (hd st))))"

definition ctl_status :: "ctlEnv \<Rightarrow> crinitClient \<Rightarrow> string list \<Rightarrow> (int \<times> string list \<times> string list) run" where
  "ctl_status e c ops =
     (case ops of
        [] \<Rightarrow> Ret (1, [], [])
      | n # _ \<Rightarrow> map_ret (\<lambda>(t, sent). case t of None \<Rightarrow> (1, [], sent) | Some t \<Rightarrow> (0, [status_line t], sent))
          (crinitClientTaskGetStatus (ctlConn e) c (ctlErange e) (ctlDup e) n))"

definition ctl_list :: "ctlEnv \<Rightarrow> crinitClient \<Rightarrow> string list \<Rightarrow> (int \<times> string list \<times> string list) run" where
  "ctl_list e c ops =
     (if ops \<noteq> [] then Ret (1, [], [])
      else map_ret (\<lambda>(ts, sent). case ts of None \<Rightarrow> (1, [], sent) | Some ts \<Rightarrow> (0, list_table ts, sent)) (crinitClientGetTaskList (ctlList e) c))"

abbreviation (input) CRINIT_SHD_POWEROFF :: int where "CRINIT_SHD_POWEROFF \<equiv> 1"
abbreviation (input) CRINIT_SHD_REBOOT :: int where "CRINIT_SHD_REBOOT \<equiv> 2"

definition ctl_action :: "ctlEnv \<Rightarrow> crinitClient \<Rightarrow> ctlArgs \<Rightarrow> string \<Rightarrow> string list \<Rightarrow> (int \<times> string list \<times> string list) run" where
  "ctl_action e c a action ops =
     (let overDeps = (if ctlIgnoreDeps a then Some ''@empty'' else ctlOverDeps a); conn = ctlConn e in
      if action = ''addtask'' then with_path ops (\<lambda>p. crinitClientTaskAdd conn c p (ctlOverwrite a) overDeps)
      else if action = ''addseries'' then with_path ops (\<lambda>p. crinitClientSeriesAdd conn c p (ctlOverwrite a))
      else if action = ''enable'' then with_operand ops (crinitClientTaskEnable conn c)
      else if action = ''disable'' then with_operand ops (crinitClientTaskDisable conn c)
      else if action = ''stop'' then with_operand ops (crinitClientTaskStop conn c)
      else if action = ''kill'' then with_operand ops (crinitClientTaskKill conn c)
      else if action = ''restart'' then with_operand ops (crinitClientTaskRestart conn c)
      else if action = ''status'' then ctl_status e c ops
      else if action = ''notify'' then ctl_notify conn c ops
      else if action = ''list'' then ctl_list e c ops
      else if basename action = ''poweroff'' then call_end (crinitClientShutdown conn c CRINIT_SHD_POWEROFF)
      else if basename action = ''reboot'' then call_end (crinitClientShutdown conn c CRINIT_SHD_REBOOT)
      else Ret (1, [], []))"

text \<open>The program: its exit code, the lines it prints and the packets it sends.\<close>

definition ctl_main :: "ctlEnv \<Rightarrow> crinitClient \<Rightarrow> string \<Rightarrow> string list \<Rightarrow> (int \<times> string list \<times> string list) run" where
  "ctl_main e c prog as =
     (let c = crinitClientSetSocketPath (ctlSock e) c;
          shortcut = (basename prog = ''poweroff'' \<or> basename prog = ''reboot'') in
      if \<not> shortcut \<and> as = [] then Ret (1, [], [])
      else if \<not> shortcut \<and> list_ex (\<lambda>x. crinitParamCheck x ''-V'' ''--version'') (prog # as) then map_ret (Pair 1) (crinitPrintVersion e c)
      else case (if shortcut then prog # as else as) of
        [] \<Rightarrow> Ret (1, [], [])
      | action # rest \<Rightarrow>
          (case getopt_long ctlOptions ''hd:fiv'' rest of (evs, ops) \<Rightarrow>
           case ctl_options evs \<lparr>ctlOverwrite = False, ctlIgnoreDeps = False, ctlOverDeps = None, ctlVerbose = False\<rparr> of
             None \<Rightarrow> Ret (1, [], [])
           | Some a \<Rightarrow> bind_run (crinitClientSetVerbose (ctlVerbose a) c) (\<lambda>(_, c). ctl_action e c a action ops)))"

end
