(* ===== verification/CtlSpec.thy ===== *)
theory CtlSpec
  imports Ctl ServerSpec
begin

text \<open>
  From the command line of the control program to the handler in the daemon and back: a request, how it is written
  on the command line, and the command the daemon is to execute for it.
\<close>

datatype ctlRequest =
  AddTask string bool "string option"
| AddSeries string bool
| OnTask rtimVerb string
| Notify string string
| ShutDown bool

fun task_action :: "rtimVerb \<Rightarrow> string" where
  "task_action ENABLE = ''enable''"
| "task_action DISABLE = ''disable''"
| "task_action STOP = ''stop''"
| "task_action KILL = ''kill''"
| "task_action RESTART = ''restart''"
| "task_action _ = ''''"

definition deps_option :: "string \<Rightarrow> string" where
  "deps_option d = ''--override-deps='' @ d"

fun request_line :: "ctlRequest \<Rightarrow> string list" where
  "request_line (AddTask p ow ds) =
     [''addtask''] @ (if ow then [''-f''] else []) @ (case ds of None \<Rightarrow> [] | Some d \<Rightarrow> [deps_option d]) @ [''--'', p]"
| "request_line (AddSeries p ow) = [''addseries''] @ (if ow then [''--overwrite''] else []) @ [''--'', p]"
| "request_line (OnTask v n) = [task_action v, ''--'', n]"
| "request_line (Notify n st) = [''notify'', ''--'', n, st]"
| "request_line (ShutDown r) = [if r then ''reboot'' else ''poweroff'']"

fun request_cmd :: "ctlRequest \<Rightarrow> rtimVerb \<times> string list" where
  "request_cmd (AddTask p ow ds) =
     (ADDTASK, [p, if ow then ''true'' else ''false'',
                case ds of None \<Rightarrow> ''@unchanged'' | Some d \<Rightarrow> if d = [] then ''@empty'' else d])"
| "request_cmd (AddSeries p ow) = (ADDSERIES, [p, if ow then ''true'' else ''false''])"
| "request_cmd (OnTask v n) = (v, [n])"
| "request_cmd (Notify n st) = (NOTIFY, [n, st])"
| "request_cmd (ShutDown r) = (SHUTDOWN, [if r then ''2'' else ''1''])"

text \<open>Paths are absolute; a request for the version is found anywhere on the command line.\<close>

abbreviation (input) no_version :: "string \<Rightarrow> bool" where
  "no_version s \<equiv> s \<noteq> ''-V'' \<and> s \<noteq> ''--version''"

fun request_ok :: "ctlRequest \<Rightarrow> bool" where
  "request_ok (AddTask p ow ds) = crinitIsAbsPath p"
| "request_ok (AddSeries p ow) = crinitIsAbsPath p"
| "request_ok (OnTask v n) = (v \<in> {ENABLE, DISABLE, STOP, KILL, RESTART} \<and> no_version n)"
| "request_ok (Notify n st) = (no_version n \<and> no_version st)"
| "request_ok (ShutDown r) = True"

section \<open>The call of the library\<close>

lemma client_call_sock:
  "crinitSockFile c = crinitSockFile c' \<Longrightarrow> client_call e c v as = client_call e c' v as"
  by (simp add: client_call_def client_xfer_def cong: option.case_cong)

lemma SetVerbose_ok:
  assumes "optLock (clientOpts c) = Unlocked"
  obtains r c' where "crinitClientSetVerbose v c = Ret (r, c')" "crinitSockFile c' = crinitSockFile c"
  using assms by (simp add: crinitClientSetVerbose_def crinitGlobOptSetBoolean_def map_ret_def Let_def split: prod.splits)

abbreviation no_args :: ctlArgs where
  "no_args \<equiv> \<lparr>ctlOverwrite = False, ctlIgnoreDeps = False, ctlOverDeps = None, ctlVerbose = False\<rparr>"

text \<open>What the options of a request say.\<close>

fun request_args :: "ctlRequest \<Rightarrow> ctlArgs" where
  "request_args (AddTask p ow ds) = no_args\<lparr>ctlOverwrite := ow, ctlOverDeps := ds\<rparr>"
| "request_args (AddSeries p ow) = no_args\<lparr>ctlOverwrite := ow\<rparr>"
| "request_args _ = no_args"

fun request_operands :: "ctlRequest \<Rightarrow> string list" where
  "request_operands (AddTask p ow ds) = [p]"
| "request_operands (AddSeries p ow) = [p]"
| "request_operands (OnTask v n) = [n]"
| "request_operands (Notify n st) = [n, st]"
| "request_operands (ShutDown r) = []"

lemma override_deps:
  "getopt_long ctlOptions os (deps_option d # as) =
     ((CHR ''d'', Some d) # fst (getopt_long ctlOptions os as), snd (getopt_long ctlOptions os as))"
  using getopt_long_assignment [of ctlOptions "''override-deps''" required_argument "CHR ''d''" os d as]
  by (simp add: find_long_def ctlOptions_def deps_option_def)

lemma overwrite_options:
  "getopt_long ctlOptions ''hd:fiv'' (''-f'' # as) = ((CHR ''f'', None) # fst (getopt_long ctlOptions ''hd:fiv'' as), snd (getopt_long ctlOptions ''hd:fiv'' as))"
  "getopt_long ctlOptions ''hd:fiv'' (''--overwrite'' # as) =
     ((CHR ''f'', None) # fst (getopt_long ctlOptions ''hd:fiv'' as), snd (getopt_long ctlOptions ''hd:fiv'' as))"
  by (simp_all add: long_option_def find_long_def ctlOptions_def short_kind_def strchr_def split: prod.splits)

lemma request_options:
  "\<exists>evs. getopt_long ctlOptions ''hd:fiv'' (tl (request_line r)) = (evs, request_operands r) \<and> ctl_options evs no_args = Some (request_args r)"
  by (cases r) (auto simp: override_deps overwrite_options ctl_option_def split: option.splits simp del: getopt_long.simps(2)
      simp add: getopt_long_operands)

section \<open>Requests served\<close>

lemma request_no_version: "request_ok r \<Longrightarrow> x \<in> set (request_line r) \<Longrightarrow> no_version x"
  by (cases r) (auto simp: deps_option_def crinitIsAbsPath_def split: if_split_asm option.split_asm)

lemma shutdown_numbers: "show_int 1 = ''1''" "show_int 2 = ''2''"
  by code_simp+

lemma request_action:
  assumes "request_ok r" "request_cmd r = (v, as)"
  shows "ctl_action e c (request_args r) (hd (request_line r)) (request_operands r) = call_end (client_call (ctlConn e) c v as)"
  using assms
  by (cases r) (auto simp: ctl_action_def with_path_def with_operand_def ctl_notify_def sd_notify_def basename_def
      crinitClientTaskAdd_def crinitClientSeriesAdd_def crinitClientTaskEnable_def crinitClientTaskDisable_def
      crinitClientTaskStop_def crinitClientTaskKill_def crinitClientTaskRestart_def crinitClientShutdown_def
      crinitClientSetNotifyTaskName_def shutdown_numbers intro!: arg_cong [of _ _ call_end] client_call_sock)

lemma ctl_main_request:
  assumes "request_ok r" "request_cmd r = (v, as)" "basename prog \<notin> {''poweroff'', ''reboot''}" "no_version prog"
    and "ctlSock e = None" "optLock (clientOpts c) = Unlocked"
  shows "ctl_main e c prog (request_line r) = call_end (client_call (ctlConn e) c v as)"
proof -
  obtain evs where evs: "getopt_long ctlOptions ''hd:fiv'' (tl (request_line r)) = (evs, request_operands r)"
    "ctl_options evs no_args = Some (request_args r)" using request_options by blast
  obtain ret c' where c': "crinitClientSetVerbose (ctlVerbose (request_args r)) c = Ret (ret, c')" "crinitSockFile c' = crinitSockFile c"
    using SetVerbose_ok [OF assms(6)] by metis
  obtain x xs where line: "request_line r = x # xs" by (cases r) auto
  have "\<not> list_ex (\<lambda>x. crinitParamCheck x ''-V'' ''--version'') (prog # request_line r)"
    using request_no_version [OF assms(1)] assms(4) by (auto simp: list_ex_iff crinitParamCheck_def)
  then show ?thesis
    using evs c'(1) assms(3,5) line request_action [OF assms(1,2), of e c'] client_call_sock [OF c'(2)]
    by (simp add: ctl_main_def crinitClientSetSocketPath_def del: getopt_long.simps)
qed

text \<open>
  C13: a request on the command line of the control program reaches the handler in the daemon: the packets the program
  sends are those the daemon answers, the world becomes what executing the command of the request gives, and, given that answer,
  the program exits with 0 exactly if the daemon says that it succeeded.
\<close>

theorem ctl_request_served:
  assumes "request_ok r" "request_cmd r = (v, as)" "basename prog \<notin> {''poweroff'', ''reboot''}" "no_version prog"
    and "ctlSock e = None" "optLock (clientOpts c) = Unlocked"
    and "server_up se" "client_up (ctlConn e) c" "tpLock p = Unlocked"
    and "sendable \<lparr>op = CRINIT_RTIMCMD_C v, args = as\<rparr>" "sendable res"
    and "answer_cmd se cr \<lparr>op = CRINIT_RTIMCMD_C v, args = as\<rparr> w = Ret (Some res, w')"
  shows "\<exists>wake sent reply. conn_round se (from_peer cr sent) w p = Ret (wake, reply, w', p) \<and>
     ctl_main (e\<lparr>ctlConn := (ctlConn e)\<lparr>incoming := map Some reply\<rparr>\<rparr>) c prog (request_line r) =
       Ret (if op res = CRINIT_RTIMCMD_R v \<and> args res \<noteq> [] \<and> hd (args res) = CRINIT_RTIMCMD_RES_OK then 0 else 1, [], sent)"
proof -
  let ?conn = "(ctlConn e)\<lparr>incoming := map Some (rtr_packets @ wire res)\<rparr>"
  have "client_up ?conn c" using assms(8) by (simp add: client_up_def)
  from client_xfer_served [OF this assms(10,11)]
  have "client_call ?conn c v as = Ret (if op res = CRINIT_RTIMCMD_R v \<and> args res \<noteq> [] \<and>
      hd (args res) = CRINIT_RTIMCMD_RES_OK then 0 else -1, wire \<lparr>op = CRINIT_RTIMCMD_C v, args = as\<rparr>)"
    by (simp add: client_call_def crinitResponseCheck_def hd_conv_nth)
  then have "ctl_main (e\<lparr>ctlConn := ?conn\<rparr>) c prog (request_line r) =
      Ret (if op res = CRINIT_RTIMCMD_R v \<and> args res \<noteq> [] \<and> hd (args res) = CRINIT_RTIMCMD_RES_OK then 0 else 1, [],
        wire \<lparr>op = CRINIT_RTIMCMD_C v, args = as\<rparr>)"
    using ctl_main_request [OF assms(1-4), of "e\<lparr>ctlConn := ?conn\<rparr>" c] assms(5,6) by (simp add: call_end_def)
  with conn_round_served [OF assms(7,9-12)] show ?thesis by blast
qed

definition sampleCtlEnv :: ctlEnv where
  "sampleCtlEnv =
     \<lparr>ctlSock = None, ctlConn = sampleConnEnv, ctlErange = False, ctlDup = (True, True),
      ctlList = \<lparr>leConn = sampleConnEnv, leMalloc = True, leTasksMalloc = (\<lambda>_. True), leErange = False, leStatus = (\<lambda>_. sampleConnEnv),
        leDup = (\<lambda>_. (True, True)), leNameDup = (\<lambda>_. True)\<rparr>,
      ctlLibVersion = \<lparr>vMajor = 0, vMinor = 15, vMicro = 2, vGit = ''''\<rparr>\<rparr>"

theorem ctl_request_served_witness:
  "\<exists>wake sent reply w'.
     conn_round sampleServerEnv (from_peer rootCreds sent) (sampleWorld [sampleTask ''a'']) samplePool8 = Ret (wake, reply, w', samplePool8) \<and>
     ctl_main (sampleCtlEnv\<lparr>ctlConn := sampleConnEnv\<lparr>incoming := map Some reply\<rparr>\<rparr>) sampleClient ''crinit-ctl'' [''disable'', ''--'', ''a''] = Ret (0, [], sent)"
proof -
  let ?cmd = "\<lparr>op = CRINIT_RTIMCMD_C DISABLE, args = [''a'']\<rparr>" and ?res = "\<lparr>op = CRINIT_RTIMCMD_R DISABLE, args = [''RES_OK'']\<rparr>"
  have "msg_text ?cmd = ''C_DISABLE'' @ delimited (args ?cmd)" "msg_text ?res = ''R_DISABLE'' @ delimited (args ?res)" by code_simp+
  then have s: "sendable ?cmd" "sendable ?res" by (simp_all add: sendable_def delimited_def)
  have "\<exists>w'. answer_cmd sampleServerEnv rootCreds ?cmd (sampleWorld [sampleTask ''a'']) = Ret (Some ?res, w')"
    by (simp add: answer_cmd_def crinitCheckPerm_def crinitExecRtimCmd_def crinitExecRtimCmdDisable_def
      on_db_def crinitTaskDBAddDepToTask_def respond_def crinitBuildRtimCmd_def db_lock_def db_unlock_def crinitFindTask_def upd_task_def sampleRtimEnv_def)  (simp add: rootCreds_def sampleServerEnv_def)
  then obtain w' where "answer_cmd sampleServerEnv rootCreds ?cmd (sampleWorld [sampleTask ''a'']) = Ret (Some ?res, w')" ..
  moreover have "basename ''crinit-ctl'' = ''crinit-ctl''" by (simp add: basename_def)
  moreover have "optLock (clientOpts sampleClient) = Unlocked" by (simp add: sampleClient_def crinitGlobOpts_def Let_def)
  ultimately show ?thesis
    using ctl_request_served [of "OnTask DISABLE ''a''" DISABLE "[''a'']" "''crinit-ctl''" sampleCtlEnv sampleClient
        sampleServerEnv samplePool8 ?res rootCreds "sampleWorld [sampleTask ''a'']" w'] s
    by (fastforce simp: sampleCtlEnv_def)
qed

end
