(* ===== verification/MinSetup.thy ===== *)
theory MinSetup
  imports Cgroup
begin

text \<open>
  Minimal setup of the system, \<open>src/src/minsetup.c\<close>, in a build with cgroups: the process that reaps zombies, the
  directories and the file systems the daemon needs. The kernel answers each call with an error number, 0 for none. Modes are written in decimal: 493 is 0755, 365 is 0555, 18 is 0022.
\<close>

abbreviation (input) EBUSY :: int where "EBUSY \<equiv> 16"
abbreviation (input) MS_NOSUID :: nat where "MS_NOSUID \<equiv> 2"
abbreviation (input) MS_NODEV :: nat where "MS_NODEV \<equiv> 4"
abbreviation (input) MS_NOEXEC :: nat where "MS_NOEXEC \<equiv> 8"

abbreviation (input) CRINIT_CGROUP_PATH :: string where "CRINIT_CGROUP_PATH \<equiv> ''/sys/fs/cgroup''"

record mountOp =
  mntTarget :: string
  mntType :: string
  mntFlags :: nat
  mntData :: "string option"

record setupEnv =
  suMkdir :: "string \<Rightarrow> int"
  suMount :: "mountOp \<Rightarrow> int"

text \<open>What has been done to the system, in order, and the file mode creation mask.\<close>

datatype setupOp = MadeDir string nat | Mounted mountOp

record setupState =
  suUmask :: nat
  suDone :: "setupOp list"

section \<open>The reaper\<close>

text \<open>\<open>None\<close> is a failed \<open>fork\<close>. The parent waits for children for ever.\<close>

definition crinitForkZombieReaper :: "int option \<Rightarrow> int run" where
  "crinitForkZombieReaper forkRes =
     (case forkRes of None \<Rightarrow> Ret (-1) | Some p \<Rightarrow> if p \<noteq> 0 then Blocked else Ret 0)"

section \<open>File systems\<close>

text \<open>A directory and the file system mounted on it; that they exist already is no error.\<close>

definition make_dir :: "setupEnv \<Rightarrow> string \<Rightarrow> nat \<Rightarrow> setupState \<Rightarrow> int \<times> setupState" where
  "make_dir e d mode s =
     (if suMkdir e d = 0 then (0, s\<lparr>suDone := suDone s @ [MadeDir d mode]\<rparr>)
      else if suMkdir e d \<noteq> EEXIST then (-1, s)
      else (0, s))"

definition do_mount :: "setupEnv \<Rightarrow> mountOp \<Rightarrow> setupState \<Rightarrow> int \<times> setupState" where
  "do_mount e m s =
     (if suMount e m = 0 then (0, s\<lparr>suDone := suDone s @ [Mounted m]\<rparr>)
      else if suMount e m \<noteq> EBUSY then (-1, s)
      else (0, s))"

definition dir_mount :: "setupEnv \<Rightarrow> nat \<times> mountOp \<Rightarrow> setupState \<Rightarrow> int \<times> setupState" where
  "dir_mount e dm s =
     (case dm of (mode, m) \<Rightarrow> case make_dir e (mntTarget m) mode s of (r, s) \<Rightarrow> if r = -1 then (-1, s) else do_mount e m s)"

fun dir_mounts :: "setupEnv \<Rightarrow> (nat \<times> mountOp) list \<Rightarrow> setupState \<Rightarrow> int \<times> setupState" where
  "dir_mounts e [] s = (0, s)"
| "dir_mounts e (dm # dms) s = (case dir_mount e dm s of (r, s) \<Rightarrow> if r = -1 then (-1, s) else dir_mounts e dms s)"

definition devtmpfs :: "nat \<times> mountOp" where
  "devtmpfs = (493, \<lparr>mntTarget = ''/dev'', mntType = ''devtmpfs'', mntFlags = MS_NOEXEC + MS_NOSUID, mntData = None\<rparr>)"

definition crinitMountDevtmpfs :: "setupEnv \<Rightarrow> setupState \<Rightarrow> int \<times> setupState" where
  "crinitMountDevtmpfs e s =
     (case dir_mounts e [devtmpfs] (s\<lparr>suUmask := 0\<rparr>) of (r, s) \<Rightarrow> if r = -1 then (-1, s) else (0, s\<lparr>suUmask := 18\<rparr>))"

definition system_mounts :: "(nat \<times> mountOp) list" where
  "system_mounts =
     [(365, \<lparr>mntTarget = ''/proc'', mntType = ''proc'', mntFlags = MS_NODEV + MS_NOEXEC + MS_NOSUID, mntData = None\<rparr>),
      (365, \<lparr>mntTarget = ''/sys'', mntType = ''sysfs'', mntFlags = MS_NODEV + MS_NOEXEC + MS_NOSUID, mntData = None\<rparr>),
      (493, \<lparr>mntTarget = ''/dev/pts'', mntType = ''devpts'', mntFlags = MS_NOEXEC + MS_NOSUID,
               mntData = Some ''mode=0620,ptmxmode=0666,gid=5''\<rparr>),
      (493, \<lparr>mntTarget = ''/run'', mntType = ''tmpfs'', mntFlags = MS_NODEV + MS_NOEXEC + MS_NOSUID, mntData = None\<rparr>)]"

definition cgroup_mount :: "string option \<Rightarrow> mountOp" where
  "cgroup_mount d =
     \<lparr>mntTarget = CRINIT_CGROUP_PATH, mntType = ''cgroup2'', mntFlags = MS_NODEV + MS_NOEXEC + MS_NOSUID, mntData = d\<rparr>"

definition cgroup_mounts :: "mountOp list" where
  "cgroup_mounts = map cgroup_mount [Some ''nsdelegate,memory_recursiveprot'', Some ''nsdelegate'', None]"

text \<open>The file system of the cgroups, with fewer options on each further attempt.\<close>

fun mount_first :: "setupEnv \<Rightarrow> mountOp list \<Rightarrow> setupState \<Rightarrow> int \<times> setupState" where
  "mount_first e [] s = (-1, s)"
| "mount_first e (m # ms) s = (case do_mount e m s of (r, s) \<Rightarrow> if r = -1 then mount_first e ms s else (0, s))"

definition crinitSetupSystemFs :: "setupEnv \<Rightarrow> setupState \<Rightarrow> int \<times> setupState" where
  "crinitSetupSystemFs e s =
     (case dir_mounts e system_mounts (s\<lparr>suUmask := 0\<rparr>) of (r, s) \<Rightarrow>
        if r = -1 then (-1, s)
        else case mount_first e cgroup_mounts s of (r, s) \<Rightarrow>
          if r = -1 then (-1, s) else (0, s\<lparr>suUmask := 18\<rparr>))"

section \<open>Lemmas\<close>

text \<open>A call that does not keep the setup from going on.\<close>

definition dm_ok :: "setupEnv \<Rightarrow> nat \<times> mountOp \<Rightarrow> bool" where
  "dm_ok e dm \<longleftrightarrow> suMkdir e (mntTarget (snd dm)) \<in> {0, EEXIST} \<and> suMount e (snd dm) \<in> {0, EBUSY}"

text \<open>What is done for a directory, for a file system, and for both.\<close>

definition made :: "setupEnv \<Rightarrow> nat \<times> mountOp \<Rightarrow> setupOp list" where
  "made e dm = (if suMkdir e (mntTarget (snd dm)) = 0 then [MadeDir (mntTarget (snd dm)) (fst dm)] else [])"

definition mounted :: "setupEnv \<Rightarrow> mountOp \<Rightarrow> setupOp list" where
  "mounted e m = (if suMount e m = 0 then [Mounted m] else [])"

abbreviation made_mounted :: "setupEnv \<Rightarrow> nat \<times> mountOp \<Rightarrow> setupOp list" where
  "made_mounted e dm \<equiv> made e dm @ mounted e (snd dm)"

lemma dir_mount_exact:
  "dir_mount e dm s = (if dm_ok e dm then (0, s\<lparr>suDone := suDone s @ made_mounted e dm\<rparr>)
     else (-1, s\<lparr>suDone := suDone s @ made e dm\<rparr>))"
  by (auto simp: dir_mount_def make_dir_def do_mount_def dm_ok_def made_def mounted_def split: prod.split)

text \<open>Up to the first failure.\<close>

definition done_up_to :: "setupEnv \<Rightarrow> (nat \<times> mountOp) list \<Rightarrow> setupOp list" where
  "done_up_to e dms = concat (map (made_mounted e) (takeWhile (dm_ok e) dms)) @
     (case dropWhile (dm_ok e) dms of [] \<Rightarrow> [] | dm # _ \<Rightarrow> made e dm)"

lemma dir_mounts_exact:
  "dir_mounts e dms s = (if list_all (dm_ok e) dms then 0 else -1, s\<lparr>suDone := suDone s @ done_up_to e dms\<rparr>)"
  by (induction dms arbitrary: s) (simp_all add: dir_mount_exact done_up_to_def)

lemma mount_first_exact:
  "mount_first e ms s =
    (case find (\<lambda>m. suMount e m \<in> {0, EBUSY}) ms of
       None \<Rightarrow> (-1, s)
     | Some m \<Rightarrow> (0, s\<lparr>suDone := suDone s @ mounted e m\<rparr>))"
  by (induction ms) (auto simp: do_mount_def mounted_def)

section \<open>Properties\<close>

text \<open>
  C37: the setup of the system goes through \<open>/proc\<close>, \<open>/sys\<close>, \<open>/dev/pts\<close> and \<open>/run\<close>, in this order and with these modes. Of each it
  makes the directory if it is missing and then mounts the file system if it is not mounted; at the first call that
  fails otherwise it stops, with nothing done after it, and the file mode creation mask is left at 0. After these four the
  file system of the cgroups is mounted with the first of three sets of options that is accepted. The setup succeeds
  exactly if no call fails in this way; then the mask is 022.
\<close>

theorem system_setup:
  "map (\<lambda>(mode, m). (mntTarget m, mntType m, mode)) system_mounts =
     [(''/proc'', ''proc'', 365), (''/sys'', ''sysfs'', 365), (''/dev/pts'', ''devpts'', 493), (''/run'', ''tmpfs'', 493)] \<and>
   crinitSetupSystemFs e s =
     (if \<not> list_all (dm_ok e) system_mounts then (-1, s\<lparr>suUmask := 0, suDone := suDone s @ done_up_to e system_mounts\<rparr>)
      else let four = suDone s @ concat (map (made_mounted e) system_mounts) in
        case find (\<lambda>m. suMount e m \<in> {0, EBUSY}) cgroup_mounts of
          None \<Rightarrow> (-1, s\<lparr>suUmask := 0, suDone := four\<rparr>)
        | Some m \<Rightarrow> (0, s\<lparr>suUmask := 18, suDone := four @ mounted e m\<rparr>))"
proof -
  have "done_up_to e system_mounts = concat (map (made_mounted e) system_mounts)" if "list_all (dm_ok e) system_mounts"
    using that by (simp add: done_up_to_def list_all_iff takeWhile_eq_all_conv [THEN iffD2] dropWhile_eq_Nil_conv [THEN iffD2])
  then have "crinitSetupSystemFs e s =
     (if \<not> list_all (dm_ok e) system_mounts then (-1, s\<lparr>suUmask := 0, suDone := suDone s @ done_up_to e system_mounts\<rparr>)
      else let four = suDone s @ concat (map (made_mounted e) system_mounts) in
        case find (\<lambda>m. suMount e m \<in> {0, EBUSY}) cgroup_mounts of
          None \<Rightarrow> (-1, s\<lparr>suUmask := 0, suDone := four\<rparr>)
        | Some m \<Rightarrow> (0, s\<lparr>suUmask := 18, suDone := four @ mounted e m\<rparr>))"
    by (cases "find (\<lambda>m. suMount e m \<in> {0, EBUSY}) cgroup_mounts")
      (simp_all add: crinitSetupSystemFs_def dir_mounts_exact mount_first_exact Let_def)
  then show ?thesis by (simp add: system_mounts_def)
qed

theorem system_setup_witness:
  "crinitSetupSystemFs \<lparr>suMkdir = (\<lambda>d. if d = ''/sys'' then 30 else 0), suMount = (\<lambda>m. 0)\<rparr> \<lparr>suUmask = 63, suDone = []\<rparr> =
     (-1, \<lparr>suUmask = 0, suDone = [MadeDir ''/proc'' 365, Mounted (snd (system_mounts ! 0))]\<rparr>)"
  using system_setup [of "\<lparr>suMkdir = (\<lambda>d. if d = ''/sys'' then 30 else 0), suMount = (\<lambda>m. 0)\<rparr>" "\<lparr>suUmask = 63, suDone = []\<rparr>"]
  by (simp add: system_mounts_def dm_ok_def done_up_to_def made_def mounted_def)

end
