(* ===== verification/Boot.thy ===== *)
theory Boot
  imports Server MinSetup Getopt
begin

text \<open>
  The daemon's \<open>main\<close>, \<open>src/src/crinit.c\<close>: the command line, the system setup, the options, the signature keys, the
  series file, the tasks, the timers and the server, up to the loop that schedules tasks for ever. Printing is not
  part of the model. Every failure ends the program with 1 after the options were released.
\<close>

section \<open>Command line\<close>

record crinitArgs =
  subReaper :: int
  sysMounts :: bool
  useKmsg :: bool

abbreviation (input) SUBREAPER_FLAG_UNCHANGED :: int where "SUBREAPER_FLAG_UNCHANGED \<equiv> -1"
abbreviation (input) SUBREAPER_FLAG_RESET :: int where "SUBREAPER_FLAG_RESET \<equiv> 0"
abbreviation (input) SUBREAPER_FLAG_SET :: int where "SUBREAPER_FLAG_SET \<equiv> 1"

text \<open>An option that only sets a flag is given a character here that stands for the flag and its value.\<close>

definition optDef :: optTable where
  "optDef =
     [(''help'', no_argument, CHR ''h''), (''version'', no_argument, CHR ''V''), (''child-subreaper'', no_argument, CHR ''1''),
      (''no-child-subreaper'', no_argument, CHR ''2''), (''sys-mounts'', no_argument, CHR ''3''),
      (''no-sys-mounts'', no_argument, CHR ''4''), (''use-kmsg'', no_argument, CHR ''5''), (''no-use-kmsg'', no_argument, CHR ''6'')]"

text \<open>\<open>None\<close> if the program ends with the version or the usage.\<close>

definition boot_option :: "optEvent \<Rightarrow> crinitArgs \<Rightarrow> crinitArgs option" where
  "boot_option ev a =
     (let c = fst ev in
      if c = CHR ''1'' then Some (a\<lparr>subReaper := SUBREAPER_FLAG_SET\<rparr>)
      else if c = CHR ''2'' then Some (a\<lparr>subReaper := SUBREAPER_FLAG_RESET\<rparr>)
      else if c = CHR ''3'' then Some (a\<lparr>sysMounts := True\<rparr>)
      else if c = CHR ''4'' then Some (a\<lparr>sysMounts := False\<rparr>)
      else if c = CHR ''5'' then Some (a\<lparr>useKmsg := True\<rparr>)
      else if c = CHR ''6'' then Some (a\<lparr>useKmsg := False\<rparr>)
      else None)"

fun boot_options :: "optEvent list \<Rightarrow> crinitArgs \<Rightarrow> crinitArgs option" where
  "boot_options [] a = Some a"
| "boot_options (ev # evs) a = (case boot_option ev a of None \<Rightarrow> None | Some a \<Rightarrow> boot_options evs a)"

section \<open>Environment\<close>

record bootEnv =
  bPidOne :: bool
  bUseKmsg :: bool
  bSeries :: string
  bSetup :: setupEnv
  bPrctlSet :: bool
  bPrctlGet :: "int option"
  bFork :: "int option"
  bDefaults :: buildDefaults
  bInitFault :: "nat option"
  bConf :: "nat \<Rightarrow> confEnv"
  bMem :: "nat \<Rightarrow> nat \<Rightarrow> bool"
  bSigCtx :: crinitSigCtx
  bCg :: cgroupEnv
  bTdbOk :: "bool \<times> bool \<times> bool"
  bTimerOk :: "bool \<times> bool \<times> bool \<times> bool"
  bSpawn :: "crinitTask \<Rightarrow> crinitDispatchThreadMode \<Rightarrow> int"
  bPathOk :: "nat \<Rightarrow> bool"
  bGrowOk :: "nat \<Rightarrow> bool"
  bCopyFault :: "nat \<Rightarrow> copyFault"
  bSockEnv :: "string option"
  bSockFile :: string
  bStart :: startEnv

datatype bootEnd = Exit int | MainLoop "crinitThreadPool option"

abbreviation (input) CRINIT_SIGNATURE_DEFAULT_ROOT_KEY_DESC :: string where
  "CRINIT_SIGNATURE_DEFAULT_ROOT_KEY_DESC \<equiv> ''crinit-root''"

section \<open>Steps\<close>

text \<open>The two places where the system is prepared; whether to go on.\<close>

definition boot_reaper :: "bootEnv \<Rightarrow> crinitArgs \<Rightarrow> bool run" where
  "boot_reaper e a =
     (if subReaper a \<noteq> SUBREAPER_FLAG_UNCHANGED \<and> \<not> bPrctlSet e then Ret False
      else let sr = (if subReaper a = SUBREAPER_FLAG_UNCHANGED \<and> \<not> bPidOne e
                     then (case bPrctlGet e of None \<Rightarrow> subReaper a | Some v \<Rightarrow> v) else subReaper a) in
        if bPidOne e \<or> sr \<noteq> SUBREAPER_FLAG_RESET then map_ret (\<lambda>r. r \<noteq> -1) (crinitForkZombieReaper (bFork e))
        else Ret True)"

definition boot_system :: "bootEnv \<Rightarrow> crinitArgs \<Rightarrow> setupState \<Rightarrow> (bool \<times> setupState) run" where
  "boot_system e a s =
     (case (if sysMounts a then crinitMountDevtmpfs (bSetup e) s else (0, s)) of (r, s) \<Rightarrow>
        if r \<noteq> 0 then Ret (False, s)
        else bind_run (boot_reaper e a) (\<lambda>ok.
          if \<not> ok then Ret (False, s)
          else case (if sysMounts a then crinitSetupSystemFs (bSetup e) s else (0, s)) of (r, s) \<Rightarrow> Ret (r \<noteq> -1, s)))"

text \<open>The keys, if signatures are in use; \<open>None\<close> is failure.\<close>

definition boot_keys :: "bootEnv \<Rightarrow> crinitGlobOptStore \<Rightarrow> (crinitSigCtx option \<times> crinitGlobOptStore) run" where
  "boot_keys e g =
     bind_run (crinitGlobOptGetBoolean Signatures g) (\<lambda>(r, signatures, g).
       if r = -1 then Ret (None, g)
       else if \<not> signatures then Ret (Some (bSigCtx e), g)
       else bind_run (crinitSigSubsysInit (cfSig (bConf e 0)) CRINIT_SIGNATURE_DEFAULT_ROOT_KEY_DESC (bSigCtx e)) (\<lambda>(r, ctx).
         if r = -1 then Ret (None, g)
         else bind_run (crinitGlobOptGetString (bMem e 0 0) SigKeyDir g) (\<lambda>(r, sigKeyDir, g).
           if r = -1 then Ret (None, g)
           else bind_run (crinitLoadAndVerifySignedKeys (cfSig (bConf e 0)) (the sigKeyDir) ctx) (\<lambda>(r, ctx).
             Ret (if r = -1 then None else Some ctx, g)))))"

text \<open>The environment of the configuration once the keys are loaded.\<close>

definition keyed :: "crinitSigCtx \<Rightarrow> confEnv \<Rightarrow> confEnv" where
  "keyed ctx c = c\<lparr>cfSigCtx := ctx\<rparr>"

text \<open>The loop over the task files; whether to go on. A missing directory is a null pointer.\<close>

fun boot_tasks :: "bootEnv \<Rightarrow> crinitSigCtx \<Rightarrow> string option \<Rightarrow> nat \<Rightarrow> string option list \<Rightarrow> world \<Rightarrow> (bool \<times> world) run" where
  "boot_tasks e k dir n [] w = Ret (True, w)"
| "boot_tasks e k dir n (None # fs) w = Undef"
| "boot_tasks e k dir n (Some f # fs) w =
     (if \<not> crinitIsAbsPath f \<and> dir = None then Undef
      else if \<not> crinitIsAbsPath f \<and> \<not> bPathOk e n then Ret (False, w)
      else bind_run (crinitParseConf (keyed k (bConf e (Suc n))) (bMem e (n + 4) 0) (globOpts w)
                       (if crinitIsAbsPath f then f else the dir @ ''/'' @ f)) (\<lambda>(c, g).
        let w = w\<lparr>globOpts := g\<rparr> in
        case c of
          None \<Rightarrow> Ret (False, w)
        | Some c \<Rightarrow>
            bind_run (crinitTaskCreateFromConfKvList (keyed k (bConf e (Suc n))) (\<lambda>i. bMem e (n + 4) (Suc i)) c w) (\<lambda>(d, w). case d of
              None \<Rightarrow> Ret (False, w)
            | Some d \<Rightarrow>
                bind_run (crinitTaskDBInsert (bGrowOk e n) (bCopyFault e n) w (crinitTask.truncate d) False) (\<lambda>(r, t, w).
                  if innerPtr d \<or> (r \<noteq> -1 \<and> gapPtr d) then Undef
                  else bind_run (crinitFreeTask t) (\<lambda>_.
                    if r = -1 then Ret (False, w) else boot_tasks e k dir (Suc n) fs w)))))"

text \<open>The results of the two initialisations are not looked at; their structures are used in any case.\<close>

definition boot_databases :: "bootEnv \<Rightarrow> world \<Rightarrow> world run" where
  "boot_databases e w =
     (case (crinitTaskDBInitWithSize (fst (bTdbOk e)) (fst (snd (bTdbOk e))) (snd (snd (bTdbOk e))) (Some (bSpawn e)) CRINIT_TASKDB_INITIAL_SIZE,
            crinitTimerDBInit (fst (bTimerOk e)) (fst (snd (bTimerOk e))) (fst (snd (snd (bTimerOk e)))) (snd (snd (snd (bTimerOk e))))) of
        ((_, Some tdb), (_, Some tmr)) \<Rightarrow> Ret (w\<lparr>taskDB := tdb, timerPool := tmr\<rparr>)
      | _ \<Rightarrow> Undef)"

definition boot_fail :: "world \<Rightarrow> (bootEnd \<times> world) run" where
  "boot_fail w = map_ret (\<lambda>g. (Exit 1, w\<lparr>globOpts := g\<rparr>)) (crinitGlobOptDestroy (globOpts w))"

definition boot_fail_db :: "world \<Rightarrow> (bootEnd \<times> world) run" where
  "boot_fail_db w = bind_run (crinitTaskDBDestroy (taskDB w)) (\<lambda>(_, ctx). boot_fail (w\<lparr>taskDB := ctx\<rparr>))"

text \<open>From the list of task files to the loop of the scheduler.\<close>

definition boot_run :: "bootEnv \<Rightarrow> crinitSigCtx \<Rightarrow> crinitFileSeries \<Rightarrow> world \<Rightarrow> (bootEnd \<times> world) run" where
  "boot_run e k taskSeries w =
     bind_run (boot_databases e w) (\<lambda>w.
     bind_run (boot_tasks e k (baseDir taskSeries) 0 (fnames taskSeries) w) (\<lambda>(ok, w).
       if \<not> ok then boot_fail_db w
       else bind_run (crinitTimerDBSpawn (timerPool w)) (\<lambda>(r, tmr).
         let w = w\<lparr>timerPool := tmr\<rparr> in
         if r \<noteq> 0 then boot_fail_db w
         else bind_run (crinitStartInterfaceServer (bStart e) (case bSockEnv e of None \<Rightarrow> bSockFile e | Some f \<Rightarrow> f)) (\<lambda>(r, _, _, pool).
           if r = -1 then boot_fail_db w else Ret (MainLoop pool, w)))))"

text \<open>From the options to the list of task files.\<close>

definition boot_config :: "bootEnv \<Rightarrow> string \<Rightarrow> world \<Rightarrow> (bootEnd \<times> world) run" where
  "boot_config e seriesFname w =
     bind_run (crinitGlobOptInitDefault (bDefaults e) (bInitFault e) (globOpts w)) (\<lambda>(r, g).
     let w = w\<lparr>globOpts := g\<rparr> in
     if r = -1 then Ret (Exit 1, w)
     else bind_run (crinitKernelCmdlineParse (bConf e 0) (bMem e 1) ''/proc/cmdline'' w) (\<lambda>(r, w).
     if r = -1 then boot_fail w
     else bind_run (boot_keys e (globOpts w)) (\<lambda>(k, g).
     let w = w\<lparr>globOpts := g\<rparr> in
     case k of
       None \<Rightarrow> boot_fail w
     | Some k \<Rightarrow>
         bind_run (crinitLoadSeriesConf (keyed k (bConf e 0)) (bMem e 2) seriesFname w) (\<lambda>(r, w).
         if r = -1 then boot_fail w
         else bind_run (crinitFeatureHook (globOpts w) (sysLog w) None CRINIT_HOOK_INIT) (\<lambda>(r, g, sl).
         let w = w\<lparr>globOpts := g, sysLog := sl\<rparr> in
         if r = -1 then boot_fail w
         else bind_run (crinitCreateGlobalCGroups (bCg e) (globOpts w)) (\<lambda>(r, g, _).
         let w = w\<lparr>globOpts := g\<rparr> in
         if r \<noteq> 0 then boot_fail w
         else bind_run (crinitLoadTasks (keyed k (bConf e 0)) (bMem e 3) (globOpts w)) (\<lambda>(ser, g).
         let w = w\<lparr>globOpts := g\<rparr> in
         case ser of
           None \<Rightarrow> boot_fail w
         | Some ser \<Rightarrow> boot_run e k ser w)))))))"

definition crinit_main :: "bootEnv \<Rightarrow> string list \<Rightarrow> setupState \<Rightarrow> world \<Rightarrow> (bootEnd \<times> setupState \<times> world) run" where
  "crinit_main e as s w =
     (case getopt_long optDef ''hV'' as of (evs, operands) \<Rightarrow>
      case boot_options evs \<lparr>subReaper = SUBREAPER_FLAG_UNCHANGED, sysMounts = bPidOne e, useKmsg = bUseKmsg e\<rparr> of
        None \<Rightarrow> Ret (Exit 1, s, w)
      | Some a \<Rightarrow>
          if operands \<noteq> [] \<and> \<not> crinitIsAbsPath (hd operands) then Ret (Exit 1, s, w)
          else bind_run (boot_system e a s) (\<lambda>(ok, s).
            if \<not> ok then Ret (Exit 1, s, w)
            else map_ret (\<lambda>(r, w). (r, s, w)) (boot_config e (if operands = [] then bSeries e else hd operands) w)))"

section \<open>The loop of the scheduler\<close>

text \<open>
  Where the main thread is, and the other threads in between, of which only the fulfilling of a dependency is taken.
  \<open>Waiting c\<close> waits for the condition variable, which had been signalled \<open>c\<close> times; it does not wake up without a signal.
\<close>

datatype mainPhase = Scanning | Scanned | Waiting nat

inductive main_step :: "mainPhase \<times> world \<Rightarrow> mainPhase \<times> world \<Rightarrow> bool" where
  scan: "crinitTaskDBSpawnReady (taskDB w) CRINIT_DISPATCH_THREAD_MODE_START = Ret (r, ctx, spawned) \<Longrightarrow>
     main_step (Scanning, w) (Scanned, w\<lparr>taskDB := ctx\<rparr>)"
| wait: "main_step (Scanned, w) (Waiting (changed (taskDB w)), w)"
| wake: "changed (taskDB w) \<noteq> c \<Longrightarrow> main_step (Waiting c, w) (Scanning, w)"
| other: "crinitTaskDBFulfillDep w d None = Ret (r, w') \<Longrightarrow> main_step (ph, w) (ph, w')"

inductive_cases main_waitE: "main_step (Waiting c, w) (ph, w')"

end
