(* ===== verification/BootSpec.thy ===== *)
theory BootSpec
  imports Boot RtimCmdSpec
begin

text \<open>
  What the daemon does with its task files when it starts, up to the first scheduling step, and how its main loop
  can miss that a task has become ready.
\<close>

section \<open>Installing tasks\<close>

abbreviation same_spawn :: "crinitTaskDB \<Rightarrow> crinitTaskDB \<Rightarrow> bool" where
  "same_spawn ctx ctx' \<equiv> spawnInhibit ctx' = spawnInhibit ctx \<and> spawnFunc ctx' = spawnFunc ctx"

lemma db_lock_spawn: "db_lock ctx = Ret (e, ctx') \<Longrightarrow> same_spawn ctx ctx'"
  by (auto simp: db_lock_def map_ret_eq_Ret_iff)

lemma insert_slot_spawn: "insert_slot g ov ctx t = Ret (r, ctx') \<Longrightarrow> same_spawn ctx ctx'"
  by (auto simp: insert_slot_def upd_task_def Let_def elim!: bind_RetE split: if_split_asm option.split_asm prod.split_asm)

lemma Insert_frame:
  "crinitTaskDBInsert g f w t ov = Ret (r, t', w') \<Longrightarrow> globOpts w' = globOpts w \<and> same_spawn (taskDB w) (taskDB w')"
  by (auto simp: crinitTaskDBInsert_def crinitFeatureHook_def upd_task_def db_unlock_def pthread_cond_broadcast_def Let_def
      elim!: bind_RetE split: if_split_asm option.split_asm prod.split_asm dest!: db_lock_spawn insert_slot_spawn)

text \<open>Inserting the task a plain file describes; its own copy is released.\<close>

lemma plain_inserted:
  fixes c m ass w
  defines "t \<equiv> crinitTask.truncate (plain_task c (globOpts w) m ass)"
  assumes "world_ok w" "env_wf (globEnv (globOpts w))" "env_wf (globFilters (globOpts w))" "list_all2 reads_as vs ass"
    and "task_map (taskDB w) m = None"
  obtains w' where "crinitTaskDBInsert True NoFault w t False = Ret (0, t, w')" "crinitFreeTask t = Ret ()"
    "world_ok w'" "globOpts w' = globOpts w" "task_map (taskDB w') = (task_map (taskDB w))(m \<mapsto> t)"
    "name t = m" "map argv (cmds t) = ass" "crinitTaskIsReady t"
    "spawnInhibit (taskDB w') = spawnInhibit (taskDB w)" "spawnFunc (taskDB w') = spawnFunc (taskDB w)"
proof -
  have t: "name t = m" "map argv (cmds t) = ass" "crinitTaskIsReady t" "deps t = []"
    by (simp_all add: t_def plain_task_def new_draft_def Let_def crinitTask.defs crinitTaskIsReady_def comp_def)
  have wf: "task_wf t" unfolding t_def by (rule plain_task_wf [OF assms(3-5)])
  obtain w' where w': "crinitTaskDBInsert True NoFault w t False = Ret (0, t, w')" "world_ok w'"
    "task_map (taskDB w') = (task_map (taskDB w))(m \<mapsto> t)"
    using Insert_ok [OF assms(2) wf, of False] t(1,4) assms(6) by (auto elim!: ret_satE)
  have "crinitFreeTask t = Ret ()" by (rule DestroyTask_wf [OF wf]) (simp add: crinitFreeTask_def)
  with that [OF w'(1) _ w'(2) _ w'(3) t(1-3)] Insert_frame [OF w'(1)] show thesis by blast
qed

text \<open>
  A task file: its path, the name and the command texts it contains, and the commands they stand for. It can be read
  as the \<open>i\<close>-th file.
\<close>

type_synonym bootFile = "string \<times> string \<times> string list \<times> string list list"

definition boot_path :: "string option \<Rightarrow> string \<Rightarrow> string" where
  "boot_path dir f = (if crinitIsAbsPath f then f else the dir @ ''/'' @ f)"

definition boot_file :: "bootEnv \<Rightarrow> crinitSigCtx \<Rightarrow> crinitGlobOptStore \<Rightarrow> string option \<Rightarrow> nat \<Rightarrow> bootFile \<Rightarrow> bool" where
  "boot_file e k g dir i bf =
     (case bf of (f, n, vs, ass) \<Rightarrow>
        let c = keyed k (bConf e (Suc i)); body = concat (map ini_text (task_file n vs)) in
        (crinitIsAbsPath f \<or> (dir \<noteq> None \<and> bPathOk e i)) \<and> (\<forall>kv \<in> set (task_file n vs). conf_entry kv) \<and> list_all2 reads_as vs ass \<and> vs \<noteq> [] \<and>
        binFile (cfSig c) (boot_path dir f) = Some body \<and> sig_accepted c g (boot_path dir f) body \<and> cfMem c = (\<lambda>_ _. True) \<and>
        bMem e (i + 4) = (\<lambda>_. True) \<and> bGrowOk e i \<and> bCopyFault e i = NoFault)"

definition boot_name :: "bootFile \<Rightarrow> string" where
  "boot_name bf = (case bf of (f, n, vs, ass) \<Rightarrow> snd (crinitMatchQuotedConfig n))"

definition installed :: "world \<Rightarrow> bootFile \<Rightarrow> bool" where
  "installed w bf \<longleftrightarrow> (\<exists>t. task_map (taskDB w) (boot_name bf) = Some t \<and> map argv (cmds t) = snd (snd (snd bf)) \<and> crinitTaskIsReady t)"

lemma boot_tasks_step:
  assumes "world_ok w" "env_wf (globEnv (globOpts w))" "env_wf (globFilters (globOpts w))"
    and "boot_file e k (globOpts w) dir i bf" "task_map (taskDB w) (boot_name bf) = None"
  obtains t w' where "boot_tasks e k dir i (Some (fst bf) # fs) w = boot_tasks e k dir (Suc i) fs w'"
    "world_ok w'" "globOpts w' = globOpts w" "task_map (taskDB w') = (task_map (taskDB w))(boot_name bf \<mapsto> t)"
    "map argv (cmds t) = snd (snd (snd bf))" "crinitTaskIsReady t"
    "spawnInhibit (taskDB w') = spawnInhibit (taskDB w)" "spawnFunc (taskDB w') = spawnFunc (taskDB w)"
proof -
  obtain f n vs ass where bf: "bf = (f, n, vs, ass)" by (cases bf)
  let ?c = "keyed k (bConf e (Suc i))" and ?m = "snd (crinitMatchQuotedConfig n)" and ?body = "concat (map ini_text (task_file n vs))"
  have f: "crinitIsAbsPath f \<or> (dir \<noteq> None \<and> bPathOk e i)" "\<forall>kv \<in> set (task_file n vs). conf_entry kv" "list_all2 reads_as vs ass" "vs \<noteq> []"
    "binFile (cfSig ?c) (boot_path dir f) = Some ?body" "sig_accepted ?c (globOpts w) (boot_path dir f) ?body" "cfMem ?c = (\<lambda>_ _. True)"
    "bMem e (i + 4) = (\<lambda>_. True)" "bGrowOk e i" "bCopyFault e i = NoFault"
    using assms(4) by (simp_all add: boot_file_def bf Let_def)
  have lock: "optLock (globOpts w) = Unlocked" using assms(1) by (simp add: world_ok_def)
  have "task_file n vs \<noteq> []" by (simp add: task_file_def)
  note parsed = ParseConf_entries [OF f(2) this f(5) lock f(6)]
  note created = plain_task_created [OF lock assms(2,3) f(3,4,7), of n]
  have "task_map (taskDB w) ?m = None" using assms(5) by (simp add: boot_name_def bf)
  then obtain w' where w': "crinitTaskDBInsert True NoFault w (crinitTask.truncate (plain_task ?c (globOpts w) ?m ass)) False =
      Ret (0, crinitTask.truncate (plain_task ?c (globOpts w) ?m ass), w')"
    "crinitFreeTask (crinitTask.truncate (plain_task ?c (globOpts w) ?m ass)) = Ret ()"
    "world_ok w'" "globOpts w' = globOpts w"
    "task_map (taskDB w') = (task_map (taskDB w))(?m \<mapsto> crinitTask.truncate (plain_task ?c (globOpts w) ?m ass))"
    "map argv (cmds (crinitTask.truncate (plain_task ?c (globOpts w) ?m ass))) = ass"
    "crinitTaskIsReady (crinitTask.truncate (plain_task ?c (globOpts w) ?m ass))"
    "spawnInhibit (taskDB w') = spawnInhibit (taskDB w)" "spawnFunc (taskDB w') = spawnFunc (taskDB w)"
    by (rule plain_inserted [OF assms(1-3) f(3), where c = ?c])
  have "\<not> innerPtr (plain_task ?c (globOpts w) ?m ass)" "\<not> gapPtr (plain_task ?c (globOpts w) ?m ass)"
    by (simp_all add: plain_task_def new_draft_def Let_def)
  then have "boot_tasks e k dir i (Some f # fs) w = boot_tasks e k dir (Suc i) fs w'"
    using w'(1,2) f(1,8-10) parsed created by (auto simp: boot_path_def Let_def)
  then show thesis using that [of w'] w' by (simp add: bf boot_name_def)
qed

lemma boot_tasks_all:
  assumes "world_ok w" "env_wf (globEnv (globOpts w))" "env_wf (globFilters (globOpts w))"
    and "distinct (map boot_name bfs)" "\<forall>bf \<in> set bfs. task_map (taskDB w) (boot_name bf) = None"
    and "\<forall>j < length bfs. boot_file e k (globOpts w) dir (i + j) (bfs ! j)"
  shows "\<exists>w'. boot_tasks e k dir i (map (\<lambda>bf. Some (fst bf)) bfs) w = Ret (True, w') \<and> world_ok w' \<and> globOpts w' = globOpts w \<and>
    same_spawn (taskDB w) (taskDB w') \<and> (\<forall>bf \<in> set bfs. installed w' bf) \<and>
    (\<forall>n. n \<notin> boot_name ` set bfs \<longrightarrow> task_map (taskDB w') n = task_map (taskDB w) n)"
  using assms
proof (induction bfs arbitrary: i w)
  case (Cons bf bfs)
  have bf: "boot_file e k (globOpts w) dir i bf" "task_map (taskDB w) (boot_name bf) = None"
    using Cons.prems(5) Cons.prems(6) [rule_format, of 0] by simp_all
  obtain t w1 where w1: "boot_tasks e k dir i (Some (fst bf) # map (\<lambda>bf. Some (fst bf)) bfs) w =
      boot_tasks e k dir (Suc i) (map (\<lambda>bf. Some (fst bf)) bfs) w1"
    "world_ok w1" "globOpts w1 = globOpts w" "task_map (taskDB w1) = (task_map (taskDB w))(boot_name bf \<mapsto> t)"
    "map argv (cmds t) = snd (snd (snd bf))" "crinitTaskIsReady t"
    "spawnInhibit (taskDB w1) = spawnInhibit (taskDB w)" "spawnFunc (taskDB w1) = spawnFunc (taskDB w)"
    by (rule boot_tasks_step [OF Cons.prems(1-3) bf])
  have rest: "distinct (map boot_name bfs)" "\<forall>x \<in> set bfs. task_map (taskDB w1) (boot_name x) = None"
    "\<forall>j < length bfs. boot_file e k (globOpts w1) dir (Suc i + j) (bfs ! j)" "boot_name bf \<notin> boot_name ` set bfs"
    using Cons.prems(4,5) Cons.prems(6) w1(3,4) by (auto simp: image_iff)
  obtain w' where w': "boot_tasks e k dir (Suc i) (map (\<lambda>bf. Some (fst bf)) bfs) w1 = Ret (True, w')" "world_ok w'" "globOpts w' = globOpts w1"
    "same_spawn (taskDB w1) (taskDB w')" "\<forall>x \<in> set bfs. installed w' x"
    "\<forall>n. n \<notin> boot_name ` set bfs \<longrightarrow> task_map (taskDB w') n = task_map (taskDB w1) n"
    using Cons.IH [OF w1(2) _ _ rest(1-3)] Cons.prems(2,3) w1(3) by auto
  have "installed w' bf" using w'(6) rest(4) w1(4-6) by (simp add: installed_def)
  then show ?case using w1 w' by auto
qed simp

text \<open>What the start needs besides its task files.\<close>

definition boot_ready :: "bootEnv \<Rightarrow> crinitGlobOptStore \<Rightarrow> crinitThreadPool \<Rightarrow> bool" where
  "boot_ready e g pool \<longleftrightarrow>
     optLock g = Unlocked \<and> env_wf (globEnv g) \<and> env_wf (globFilters g) \<and>
     bTdbOk e = (True, True, True) \<and> bTimerOk e = (True, True, True, True) \<and>
     (\<exists>bound um. crinitStartInterfaceServer (bStart e) (case bSockEnv e of None \<Rightarrow> bSockFile e | Some f \<Rightarrow> f) = Ret (0, bound, um, Some pool))"

lemma boot_run_all:
  assumes "boot_ready e (globOpts w) pool" "fnames ser = map (\<lambda>bf. Some (fst bf)) bfs" "distinct (map boot_name bfs)"
    and "\<forall>j < length bfs. boot_file e k (globOpts w) (baseDir ser) j (bfs ! j)"
  obtains w' where "boot_run e k ser w = Ret (MainLoop (Some pool), w')" "world_ok w'" "globOpts w' = globOpts w"
    "spawnInhibit (taskDB w') = False" "spawnFunc (taskDB w') = Some (bSpawn e)"
    "\<forall>bf \<in> set bfs. installed w' bf" "dom (task_map (taskDB w')) = boot_name ` set bfs"
proof -
  let ?w = "w\<lparr>taskDB := \<lparr>taskSet = [], taskSetSize = 256, spawnFunc = Some (bSpawn e), spawnInhibit = False, lock = Unlocked, changed = 0\<rparr>,
      timerPool := \<lparr>cap = TIMER_DB_INITIAL_CAP, slots = [], poolLock = Unlocked\<rparr>\<rparr>"
  obtain bound um where ready: "optLock (globOpts w) = Unlocked" "env_wf (globEnv (globOpts w))" "env_wf (globFilters (globOpts w))"
    "bTdbOk e = (True, True, True)" "bTimerOk e = (True, True, True, True)"
    "crinitStartInterfaceServer (bStart e) (case bSockEnv e of None \<Rightarrow> bSockFile e | Some f \<Rightarrow> f) = Ret (0, bound, um, Some pool)"
    using assms(1) unfolding boot_ready_def by blast
  have db: "boot_databases e w = Ret ?w"
    using ready(4,5) by (simp add: boot_databases_def crinitTaskDBInitWithSize_def crinitTimerDBInit_def)
  have ok: "world_ok ?w" "task_map (taskDB ?w) = Map.empty" "globOpts ?w = globOpts w"
    using ready(1) by (simp_all add: world_ok_def db_ok_def db_wf_def pool_ok_def task_map_def)
  obtain w' where w': "boot_tasks e k (baseDir ser) 0 (fnames ser) ?w = Ret (True, w')" "world_ok w'" "globOpts w' = globOpts w"
    "same_spawn (taskDB ?w) (taskDB w')" "\<forall>bf \<in> set bfs. installed w' bf"
    "\<forall>n. n \<notin> boot_name ` set bfs \<longrightarrow> task_map (taskDB w') n = None"
    using boot_tasks_all [OF ok(1) _ _ assms(3), of e k "baseDir ser" 0] ready(2,3) assms(2,4) ok(2,3) by auto
  have "poolLock (timerPool w') = Unlocked" using w'(2) by (simp add: world_ok_def pool_ok_def)
  then have "boot_run e k ser w = Ret (MainLoop (Some pool), w')"
    using db w'(1) ready(6) by (cases w') (simp add: boot_run_def crinitTimerDBSpawn_def Let_def)
  moreover have "dom (task_map (taskDB w')) = boot_name ` set bfs"
    using w'(5,6) by (auto simp: installed_def dom_def)
  ultimately show thesis using that [of w'] w' by simp
qed

text \<open>
  C7: a daemon whose task files are readable and have a line with the name of the task and lines with its commands and nothing else
  (see \<open>boot_file\<close>: neither \<open>DEPENDS\<close> nor \<open>TRIGGER\<close> nor any other key), each with a name of its own, installs exactly their tasks, with their
  commands; and since such a task waits for nothing, the first scheduling step dispatches all of them.
\<close>

theorem boot_starts_tasks:
  assumes "boot_ready e (globOpts w) pool" "\<forall>t m. bSpawn e t m \<noteq> -1"
    and "fnames ser = map (\<lambda>bf. Some (fst bf)) bfs" "distinct (map boot_name bfs)"
    and "\<forall>j < length bfs. boot_file e k (globOpts w) (baseDir ser) j (bfs ! j)"
  shows "\<exists>w' ctx' r spawned. boot_run e k ser w = Ret (MainLoop (Some pool), w') \<and> world_ok w' \<and>
    (\<forall>bf \<in> set bfs. installed w' bf) \<and> dom (task_map (taskDB w')) = boot_name ` set bfs \<and>
    crinitTaskDBSpawnReady (taskDB w') CRINIT_DISPATCH_THREAD_MODE_START = Ret (r, ctx', spawned) \<and>
    name ` set spawned = boot_name ` set bfs"
proof -
  obtain w' where w': "boot_run e k ser w = Ret (MainLoop (Some pool), w')" "world_ok w'" "globOpts w' = globOpts w"
    "spawnInhibit (taskDB w') = False" "spawnFunc (taskDB w') = Some (bSpawn e)"
    "\<forall>bf \<in> set bfs. installed w' bf" "dom (task_map (taskDB w')) = boot_name ` set bfs"
    by (rule boot_run_all [OF assms(1,3-5)])
  have db: "db_ok (taskDB w')" "db_wf (taskDB w')" using w'(2) by (simp_all add: world_ok_def db_ok_def)
  have ready: "crinitTaskIsReady u" if "u \<in> set (taskSet (taskDB w'))" for u
    using set_task_map [OF db(2) that] w'(6,7) by (force simp: installed_def dom_def)
  have "name ` set (taskSet (taskDB w')) = dom (task_map (taskDB w'))" by (simp add: task_map_def dom_map_of_conv_image_fst image_image)
  moreover have "filter crinitTaskIsReady (taskSet (taskDB w')) = taskSet (taskDB w')" using ready by simp
  ultimately have "ret_sat (\<lambda>(r, ctx', spawned). name ` set spawned = boot_name ` set bfs)
      (crinitTaskDBSpawnReady (taskDB w') CRINIT_DISPATCH_THREAD_MODE_START)"
    using SpawnReady_all [of "taskDB w'" "bSpawn e" CRINIT_DISPATCH_THREAD_MODE_START] db(1) w'(4,5,7) assms(2)
    by (simp add: image_image)
  then show ?thesis using w'(1,2,6,7) by (elim ret_satE) auto
qed

definition sampleBootEnv :: bootEnv where
  "sampleBootEnv =
     \<lparr>bPidOne = False, bUseKmsg = False, bSeries = ''/s'', bSetup = \<lparr>suMkdir = (\<lambda>_. 0), suMount = (\<lambda>_. 0)\<rparr>, bPrctlSet = True,
      bPrctlGet = Some 0, bFork = Some 0,
      bDefaults = \<lparr>dfltInclDir = [], dfltTaskDir = [], dfltSigKeyDir = [], dfltLauncherCmd = [], dfltElosPoll = 0\<rparr>, bInitFault = None, bConf = (\<lambda>_. sampleConfEnv sampleTaskFile),
      bMem = (\<lambda>_ _. True), bSigCtx = sigCtx0, bCg = sampleCgroupEnv, bTdbOk = (True, True, True), bTimerOk = (True, True, True, True),
      bSpawn = (\<lambda>_ _. 0), bPathOk = (\<lambda>_. True), bGrowOk = (\<lambda>_. True), bCopyFault = (\<lambda>_. NoFault), bSockEnv = None,
      bSockFile = ''/run/c'',
      bStart = \<lparr>stDup = True, stMkdir = (\<lambda>_. 0), stSocket = True, stBind = (\<lambda>_. True), stListen = True, stMutex = True,
        stMalloc = True, stWatchdog = True, stThr = \<lparr>attrOk = True, createOk = (\<lambda>_. True)\<rparr>\<rparr>\<rparr>"

theorem boot_starts_tasks_witness:
  "\<exists>w' ctx' r spawned pool. boot_run sampleBootEnv sigCtx0 \<lparr>fnames = [Some ''/c''], baseDir = None\<rparr> (sampleConfWorld False) =
       Ret (MainLoop (Some pool), w') \<and>
     crinitTaskDBSpawnReady (taskDB w') CRINIT_DISPATCH_THREAD_MODE_START = Ret (r, ctx', spawned) \<and> name ` set spawned = {''c''}"
proof -
  let ?w = "sampleConfWorld False" and ?bf = "(''/c'', ''c'', [''/b''], [[''/b'']]) :: bootFile"
  have w: "optLock (globOpts ?w) = Unlocked" "env_wf (globEnv (globOpts ?w))" "env_wf (globFilters (globOpts ?w))"
    using sampleEnv_wf by (simp_all add: sampleConfWorld_def crinitGlobOpts_def Let_def)
  have n: "snd (crinitMatchQuotedConfig ''c'') = ''c''" by (simp add: crinitMatchQuotedConfig_def)
  have kv: "\<forall>kv \<in> set (task_file ''c'' [''/b'']). conf_entry kv"
    by (simp add: task_file_def conf_entry_def ini_entry_def trimmed_def c_isspace_def)
  have r: "list_all2 reads_as [''/b''] [[''/b'']]" by (simp add: reads_as_def crinitMatchQuotedConfig_def sample_words)
  have f: "\<forall>j < length [?bf]. boot_file sampleBootEnv sigCtx0 (globOpts ?w) None j ([?bf] ! j)"
    using kv r by (simp add: boot_file_def sampleBootEnv_def keyed_def boot_path_def crinitIsAbsPath_def sig_accepted_def Let_def)
  have start: "crinitStartInterfaceServer (bStart sampleBootEnv) ''/run/c'' =
      Ret (0, Some ''/run/c'', Some 18, Some \<lparr>tpSize = 8, tpSizeIncrement = 8, threadAvail = 8, tpLock = Unlocked\<rparr>)"
    by code_simp
  then have ready: "boot_ready sampleBootEnv (globOpts ?w) \<lparr>tpSize = 8, tpSizeIncrement = 8, threadAvail = 8, tpLock = Unlocked\<rparr>"
    using w by (simp add: boot_ready_def) (simp add: sampleBootEnv_def)
  show ?thesis
    using boot_starts_tasks [OF ready, of "\<lparr>fnames = [Some ''/c''], baseDir = None\<rparr>" "[?bf]" sigCtx0] f
    by (fastforce simp: sampleBootEnv_def boot_name_def n)
qed

section \<open>A lost wakeup\<close>

text \<open>
  C22: the main loop can miss that a task has become ready. If the last dependency of a task is fulfilled between
  the scheduling step and the wait, the signal is gone when the main thread waits: it waits with a task that is ready,
  until something else signals the condition variable.
\<close>

theorem lost_wakeup:
  assumes "world_ok w" "t \<in> set (taskSet (taskDB w))" "deps t = [d]" "triggered t" "state t = CRINIT_TASK_STATE_LOADED"
    "\<not> inhibitRespawn t" "\<forall>u \<in> set (taskSet (taskDB w)). \<not> crinitTaskIsReady u"
    "\<not> spawnInhibit (taskDB w)" "spawnFunc (taskDB w) = Some f" "\<forall>t m. f t m \<noteq> -1"
  shows "\<exists>w' c. main_step\<^sup>*\<^sup>* (Scanning, w) (Waiting c, w') \<and>
    (\<exists>t' \<in> set (taskSet (taskDB w')). name t' = name t \<and> crinitTaskIsReady t') \<and>
    (\<nexists>w''. main_step (Waiting c, w') (Scanning, w''))"
proof -
  have "db_ok (taskDB w)" using assms(1) by (simp add: world_ok_def)
  moreover have "started (taskSet (taskDB w)) = taskSet (taskDB w)"
    using assms(7) by (simp add: started_def map_idI)
  ultimately have "main_step (Scanning, w) (Scanned, w)"
    using scan [of w 0 "taskDB w" "[]"] SpawnReady_all [OF _ assms(8-10), of CRINIT_DISPATCH_THREAD_MODE_START] assms(7)
    by (simp add: filter_empty_conv)
  moreover obtain w' where w': "crinitTaskDBFulfillDep w d None = Ret (0, w')" "list_all2 (fulfilled d) (taskSet (taskDB w)) (taskSet (taskDB w'))"
    using FulfillDep_ok [OF assms(1), of d] by (auto elim!: ret_satE)
  moreover have "main_step (Scanned, w) (Scanned, w')" by (rule other [OF w'(1)])
  moreover have "main_step (Scanned, w') (Waiting (changed (taskDB w')), w')" by (rule wait)
  ultimately have "main_step\<^sup>*\<^sup>* (Scanning, w) (Waiting (changed (taskDB w')), w')" by (meson converse_rtranclp_into_rtranclp rtranclp.rtrancl_refl)
  moreover obtain t' where t': "t' \<in> set (taskSet (taskDB w'))" "fulfilled d t t'"
    using list_all2_in_set1 [OF w'(2) assms(2)] by blast
  moreover have "crinitTaskIsReady t'"
    using assms(3-6) fulfilled_frame [OF t'(2)] fulfilled_deps [OF t'(2)] by (auto simp: crinitTaskIsReady_def)
  moreover have "name t' = name t" using fulfilled_frame(1) [OF t'(2)] by simp
  moreover have "\<nexists>w''. main_step (Waiting (changed (taskDB w')), w') (Scanning, w'')" by (auto elim: main_waitE)
  ultimately show ?thesis by blast
qed

theorem lost_wakeup_witness:
  "\<exists>w' c. main_step\<^sup>*\<^sup>* (Scanning, sampleWorld [(sampleTask ''b'')\<lparr>deps := [\<lparr>depName = ''a'', event = ''wait''\<rparr>]\<rparr>]) (Waiting c, w') \<and>
    (\<exists>t' \<in> set (taskSet (taskDB w')). name t' = ''b'' \<and> crinitTaskIsReady t') \<and> (\<nexists>w''. main_step (Waiting c, w') (Scanning, w''))"
  using lost_wakeup [of "sampleWorld [(sampleTask ''b'')\<lparr>deps := [\<lparr>depName = ''a'', event = ''wait''\<rparr>]\<rparr>]"
      "(sampleTask ''b'')\<lparr>deps := [\<lparr>depName = ''a'', event = ''wait''\<rparr>]\<rparr>" "\<lparr>depName = ''a'', event = ''wait''\<rparr>" "\<lambda>t m. 0"]
  by (simp add: crinitTaskIsReady_def)

end
