(* ===== verification/BootSig.thy ===== *)
theory BootSig
  imports BootSpec
begin

text \<open>
  The chain of trust of a start: which files the tasks of a daemon come from that checks signatures.
\<close>

section \<open>Frame\<close>

lemma ParseConf_unlocked: "crinitParseConf e ok g f = Ret (Some c, g') \<Longrightarrow> optLock g = Unlocked"
  by (cases "optLock g") (auto simp: crinitParseConf_def crinitGlobOptGetBoolean_def crinitGlobOptBorrow_def remit_with_def
      crinitGlobOptRemit_def Let_def split: option.split_asm if_split_asm)

lemma GetBoolean_unlocked: "crinitGlobOptGetBoolean m g = Ret (r, b, g') \<Longrightarrow> r \<noteq> -1 \<Longrightarrow> optLock g = Unlocked"
  by (cases "optLock g") (auto simp: crinitGlobOptGetBoolean_def crinitGlobOptBorrow_def remit_with_def crinitGlobOptRemit_def)

lemma FeatureHook_sig: "crinitFeatureHook g sl n ty = Ret (r, g', sl') \<Longrightarrow> sig_opts g' = sig_opts g"
  by (auto simp: crinitFeatureHook_def elim!: bind_RetE split: if_split_asm dest!: GetBoolean_sig)

lemma CreateGlobalCGroups_sig: "crinitCreateGlobalCGroups e g = Ret (r, g', ops) \<Longrightarrow> sig_opts g' = sig_opts g"
  by (auto simp: crinitCreateGlobalCGroups_def Let_def sig_opts_def crinitGlobOptBorrow_def crinitGlobOptRemit_def map_ret_eq_Ret_iff
      elim!: bind_RetE split: if_split_asm option.split_asm prod.split_asm)

lemma LoadTasks_sig: "crinitLoadTasks e mem g = Ret (ser, g') \<Longrightarrow> sig_opts g' = sig_opts g"
  by (auto simp: crinitLoadTasks_def Let_def crinitGlobOptRemit_def elim!: bind_RetE
      split: if_split_asm option.split_asm prod.split_asm dest!: GetString_sig GetBoolean_sig Borrow_sig) (auto simp: sig_opts_def)

lemma boot_keys_sig: "boot_keys e g = Ret (k, g') \<Longrightarrow> sig_opts g' = sig_opts g"
  by (auto simp: boot_keys_def elim!: bind_RetE split: if_split_asm dest!: GetString_sig GetBoolean_sig)

lemma copy_cmds_Some: "copy_cmds cs = Some cs' \<Longrightarrow> cs' = cs"
  by (induction cs arbitrary: cs') (auto split: if_split_asm)

lemma TaskCopy_cmds: "crinitTaskCopy f t = Ret (r, u, t') \<Longrightarrow> r \<noteq> -1 \<Longrightarrow> name u = name t \<and> cmds u = cmds t"
  by (auto simp: crinitTaskCopy_def copy_fail_def crinitCopyCommandBlock_def elim!: bind_RetE
      split: if_split_asm option.split_asm prod.split_asm dest!: copy_cmds_Some)

lemma inserted_only:
  assumes "crinitTaskDBInsert g f w t False = Ret (r, t', w')" "r \<noteq> -1" "u \<in> set (taskSet (taskDB w'))"
  shows "u \<in> set (taskSet (taskDB w)) \<or> (name u = name t \<and> cmds u = cmds t)"
  using assms
  by (auto simp: crinitTaskDBInsert_def insert_slot_def upd_task_def db_unlock_def pthread_cond_broadcast_def db_lock_def map_ret_eq_Ret_iff list_update_append Let_def
      elim!: bind_RetE split: if_split_asm option.split_asm prod.split_asm dest!: TaskCopy_cmds)

section \<open>Tasks of verified files\<close>

text \<open>A task that a verified file describes.\<close>

definition from_verified :: "bootEnv \<Rightarrow> crinitSigCtx \<Rightarrow> string \<Rightarrow> crinitTask \<Rightarrow> bool" where
  "from_verified e k root t \<longleftrightarrow>
     (\<exists>i f c d w1 w2. verified_file (keyed k (bConf e (Suc i))) root f \<and>
        crinitParseConf (keyed k (bConf e (Suc i))) (bMem e (i + 4) 0) (globOpts w1) f = Ret (Some c, globOpts w1) \<and>
        crinitTaskCreateFromConfKvList (keyed k (bConf e (Suc i))) (\<lambda>j. bMem e (i + 4) (Suc j)) c w1 = Ret (Some d, w2) \<and>
        name t = name d \<and> cmds t = cmds d)"

lemma boot_tasks_verified:
  assumes "boot_tasks e k dir n fs w = Ret (True, w')" "signatures (globOpts w)" "sig_ready root k"
    and "\<forall>t \<in> set (taskSet (taskDB w)). from_verified e k root t"
  shows "\<forall>t \<in> set (taskSet (taskDB w')). from_verified e k root t"
  using assms(1,2,4)
proof (induction fs arbitrary: n w)
  case (Cons x fs)
  then obtain f where x: "x = Some f" by (cases x) simp_all
  let ?c = "keyed k (bConf e (Suc n))" and ?p = "if crinitIsAbsPath f then f else the dir @ ''/'' @ f"
  obtain c g d w1 r t w2 where steps: "crinitParseConf ?c (bMem e (n + 4) 0) (globOpts w) ?p = Ret (Some c, g)"
    "crinitTaskCreateFromConfKvList ?c (\<lambda>j. bMem e (n + 4) (Suc j)) c (w\<lparr>globOpts := g\<rparr>) = Ret (Some d, w1)"
    "crinitTaskDBInsert (bGrowOk e n) (bCopyFault e n) w1 (crinitTask.truncate d) False = Ret (r, t, w2)" "r \<noteq> -1"
    "boot_tasks e k dir (Suc n) fs w2 = Ret (True, w')"
    using Cons.prems(1) by (auto simp: x Let_def elim!: bind_RetE split: if_split_asm option.split_asm)
  have g: "g = globOpts w" "optLock (globOpts w) = Unlocked"
    using ParseConf_globOpts ParseConf_unlocked steps(1) by blast+
  have d: "name (crinitTask.truncate d) = name d" "cmds (crinitTask.truncate d) = cmds d" by (simp_all add: crinitTask.defs)
  have "verified_file ?c root ?p"
    using ParseConf_verified_file [OF steps(1) g(2) Cons.prems(2)] assms(3) by (simp add: keyed_def)
  then have new: "from_verified e k root u" if "name u = name d" "cmds u = cmds d" for u
    unfolding from_verified_def using steps(1,2) g(1) that by (intro exI [of _ n] exI [of _ ?p] exI [of _ c] exI [of _ d] exI [of _ w] exI [of _ w1]) simp
  have "taskDB w1 = taskDB w" "sig_opts (globOpts w2) = sig_opts (globOpts w)"
    using conf_db.CreateFromConfKvList_frame [OF steps(2)] conf_sig.CreateFromConfKvList_frame [OF steps(2)] Insert_frame [OF steps(3)] g(1)
    by simp_all
  then have "\<forall>u \<in> set (taskSet (taskDB w2)). from_verified e k root u"
    using inserted_only [OF steps(3,4)] d new Cons.prems(3) by auto
  then show ?case
    using Cons.IH [OF steps(5)] Cons.prems(2) \<open>sig_opts (globOpts w2) = _\<close> by (simp add: sig_opts_def)
qed simp

section \<open>The keys\<close>

text \<open>The root key is in the keyring under its name, and all other keys are signed with it.\<close>

definition trusted :: "sigEnv \<Rightarrow> string \<Rightarrow> crinitSigCtx \<Rightarrow> bool" where
  "trusted e root k \<longleftrightarrow> sig_ready root k \<and>
     (\<exists>i. keySearch e CRINIT_SIGNATURE_DEFAULT_ROOT_KEY_DESC = Some i \<and> keyRead e i = Some root) \<and> parsePk e root = PkRsa \<and>
     (\<forall>q \<in> set (signedKeys k). \<exists>path pem. signed_key e root pem path q)"

lemma LoadAndVerifySignedKeys_result: "crinitLoadAndVerifySignedKeys e dir ctx = Ret (r, ctx') \<Longrightarrow> r = 0 \<or> r = -1"
  by (auto simp: crinitLoadAndVerifySignedKeys_def Let_def elim!: bind_RetE split: option.split_asm if_split_asm)

lemma boot_keys_trusted:
  assumes "boot_keys e g = Ret (Some k, g')" "signatures g"
  shows "\<exists>root. trusted (cfSig (bConf e 0)) root k"
proof -
  have "optLock g = Unlocked"
    using assms(1) by (auto simp: boot_keys_def elim!: bind_RetE split: if_split_asm dest: GetBoolean_unlocked)
  then obtain r1 ctx dir r2 where s: "crinitSigSubsysInit (cfSig (bConf e 0)) CRINIT_SIGNATURE_DEFAULT_ROOT_KEY_DESC (bSigCtx e) = Ret (r1, ctx)" "r1 \<noteq> -1"
    "crinitLoadAndVerifySignedKeys (cfSig (bConf e 0)) dir ctx = Ret (r2, k)" "r2 \<noteq> -1"
    using assms by (auto simp: boot_keys_def GetBoolean_ready elim!: bind_RetE split: if_split_asm)
  obtain i root where root: "keySearch (cfSig (bConf e 0)) CRINIT_SIGNATURE_DEFAULT_ROOT_KEY_DESC = Some i" "keyRead (cfSig (bConf e 0)) i = Some root"
    "parsePk (cfSig (bConf e 0)) root = PkRsa" "sig_ready root ctx" "signedKeys ctx = []"
    using s(1,2) by (auto simp: crinitSigSubsysInit_def sig_ready_def Let_def split: option.splits if_splits)
  moreover have "r2 = 0" using LoadAndVerifySignedKeys_result [OF s(3)] s(4) by blast
  ultimately show ?thesis
    using LoadAndVerifySignedKeys_trust [OF root(4,5)] s(3) unfolding trusted_def by blast
qed

section \<open>The start\<close>

lemma LoadSeriesConf_read:
  assumes "crinitLoadSeriesConf e mem f w = Ret (r, w')" "r \<noteq> -1"
  obtains c g where "crinitParseConf e (mem 0) (globOpts w) f = Ret (Some c, g)"
  using assms by (auto simp: crinitLoadSeriesConf_def Let_def elim!: bind_RetE split: if_split_asm option.split_asm)

lemma boot_tasks_sig: "boot_tasks e k dir n fs w = Ret (True, w') \<Longrightarrow> sig_opts (globOpts w') = sig_opts (globOpts w)"
proof (induction fs arbitrary: dir n w)
  case (Cons x fs)
  show ?case
    using Cons.prems
    by (cases x) (auto simp: Let_def elim!: bind_RetE split: if_split_asm option.split_asm
        dest!: ParseConf_sig conf_sig.CreateFromConfKvList_frame Insert_frame Cons.IH)
qed simp

lemma boot_fail_exits [simp]: "boot_fail w \<noteq> Ret (MainLoop p, w')" "boot_fail_db w \<noteq> Ret (MainLoop p, w')"
  by (auto simp: boot_fail_def boot_fail_db_def map_ret_eq_Ret_iff elim!: bind_RetE)

lemma boot_run_tasks:
  assumes "boot_run e k ser w = Ret (MainLoop p, w')"
  obtains w1 w2 where "boot_tasks e k (baseDir ser) 0 (fnames ser) w1 = Ret (True, w2)" "taskSet (taskDB w1) = []"
    "globOpts w1 = globOpts w" "taskDB w' = taskDB w2" "globOpts w' = globOpts w2"
  using assms
  by (auto simp: boot_run_def boot_databases_def crinitTaskDBInitWithSize_def Let_def elim!: bind_RetE
      split: if_split_asm option.split_asm prod.split_asm)

lemma boot_config_steps:
  assumes "boot_config e f w = Ret (MainLoop p, w')"
  obtains w1 k g w2 r g1 sl r1 g2 ops ser g3 where "boot_keys e (globOpts w1) = Ret (Some k, g)"
    "crinitLoadSeriesConf (keyed k (bConf e 0)) (bMem e 2) f (w1\<lparr>globOpts := g\<rparr>) = Ret (r, w2)" "r \<noteq> -1"
    "crinitFeatureHook (globOpts w2) (sysLog w2) None CRINIT_HOOK_INIT = Ret (r1, g1, sl)"
    "crinitCreateGlobalCGroups (bCg e) g1 = Ret (0, g2, ops)"
    "crinitLoadTasks (keyed k (bConf e 0)) (bMem e 3) g2 = Ret (Some ser, g3)"
    "boot_run e k ser (w2\<lparr>sysLog := sl, globOpts := g3\<rparr>) = Ret (MainLoop p, w')"
  using assms
  by (auto simp: boot_config_def Let_def elim!: bind_RetE split: if_split_asm option.split_asm)

subsection \<open>A sample start\<close>

definition verifiedFiles :: "string \<Rightarrow> string option" where
  "verifiedFiles =
     map_of [(''/proc/cmdline'', ''crinit.signatures=YES''), (''/s'', ini_text (''DEBUG'', ''YES'')), (''/s.sig'', ''RD''),
       (''/t/c.crinit'', concat (map ini_text (task_file ''c'' [''/b'']))), (''/t/c.crinit.sig'', ''RN'')]"

definition verifiedConfEnv :: confEnv where
  "verifiedConfEnv =
     (sampleConfEnv verifiedFiles)\<lparr>cfSig := sampleSigEnv\<lparr>binFile := verifiedFiles,
        keySearch := (\<lambda>n. if n = CRINIT_SIGNATURE_DEFAULT_ROOT_KEY_DESC then Some 1 else None),
        scanDir := (\<lambda>d. if d = ''/t'' then Some [\<lparr>d_name = ''c.crinit'', linkReg = Some True, targetReg = Some True\<rparr>] else Some [])\<rparr>\<rparr>"

definition verifiedBootEnv :: bootEnv where
  "verifiedBootEnv = sampleBootEnv\<lparr>bConf := (\<lambda>_. verifiedConfEnv),
     bDefaults := \<lparr>dfltInclDir = ''/i'', dfltTaskDir = ''/t'', dfltSigKeyDir = ''/k'', dfltLauncherCmd = ''/l'', dfltElosPoll = 0\<rparr>\<rparr>"

lemma EnvSetInit_wf:
  assumes "0 < n"
  shows "env_wf (snd (crinitEnvSetInit True es n m))"
proof -
  have "env_entries (replicate n None) = []" by (cases n) simp_all
  then show ?thesis using assms by (simp add: crinitEnvSetInit_def env_wf_def)
qed

lemma InitDefault_ok:
  assumes "optLock g = Unlocked"
  obtains g' where "crinitGlobOptInitDefault b None g = Ret (0, g')" "optLock g' = Unlocked" "\<not> signatures g'"
    "sigKeyDir g' = Some (dfltSigKeyDir b)" "taskDir g' = Some (dfltTaskDir b)" "taskFileSuffix g' = Some ''.crinit''"
    "tasks g' = None" "taskDirFollowSl g'" "rootCgroup g' = None" "globCgroups g' = []" "env_wf (globEnv g')" "env_wf (globFilters g')"
  using assms EnvSetInit_wf [of 128 "globEnv g" 64] EnvSetInit_wf [of 128 "globFilters g" 64]
  by (simp add: crinitGlobOptInitDefault_def crinitEnvSetInit_def init_members_def default_strings_def remit_with_def crinitGlobOptRemit_def Let_def)

lemma verifiedBootEnv_sel [simp]:
  "bConf verifiedBootEnv = (\<lambda>_. verifiedConfEnv)" "bMem verifiedBootEnv = (\<lambda>_ _. True)" "bInitFault verifiedBootEnv = None"
  "bSigCtx verifiedBootEnv = sigCtx0" "bCg verifiedBootEnv = sampleCgroupEnv" "dfltTaskDir (bDefaults verifiedBootEnv) = ''/t''"
  "dfltSigKeyDir (bDefaults verifiedBootEnv) = ''/k''" "bPathOk verifiedBootEnv = (\<lambda>_. True)" "bGrowOk verifiedBootEnv = (\<lambda>_. True)"
  "bCopyFault verifiedBootEnv = (\<lambda>_. NoFault)"
  by (simp_all add: verifiedBootEnv_def sampleBootEnv_def)

lemma verifiedFiles_sel [simp]:
  "verifiedFiles ''/proc/cmdline'' = Some ''crinit.signatures=YES''" "verifiedFiles ''/s'' = Some (ini_text (''DEBUG'', ''YES''))"
  "verifiedFiles ''/s.sig'' = Some ''RD''" "verifiedFiles ''/t/c.crinit'' = Some (concat (map ini_text (task_file ''c'' [''/b''])))"
  "verifiedFiles ''/t/c.crinit.sig'' = Some ''RN''"
  by (simp_all add: verifiedFiles_def)

lemma signatures_key:
  "crinitFindConfigMapping crinitKCmdlineCfgMap ''signatures'' =
     Some (cfg_map CRINIT_CONFIG_SIGNATURES ''signatures'' False False crinitCfgSignaturesHandler)"
  by (simp add: bsearch_find [OF kcmdline_keys_sorted]) (simp add: crinitKCmdlineCfgMap_def)

lemma verified_cmdline:
  assumes "optLock (globOpts w) = Unlocked"
  shows "crinitKernelCmdlineParse verifiedConfEnv (\<lambda>_. True) ''/proc/cmdline'' w = Ret (0, w\<lparr>globOpts := (globOpts w)\<lparr>signatures := True\<rparr>\<rparr>)"
proof -
  have l: "crinitKernelCmdlineLex ''crinit.signatures=YES'' = (CRINIT_TK_VAR, ''signatures'', Some ''YES'', [])"
    "fst (crinitKernelCmdlineLex []) = CRINIT_TK_END" by code_simp+
  have "fst (read_line 4095 ''crinit.signatures=YES'') = ''crinit.signatures=YES''" by code_simp
  then show ?thesis
    using assms l signatures_key
    by (simp add: crinitKernelCmdlineParse_def verifiedConfEnv_def kcmdline_loop.simps [of _ _ _ _ "''crinit.signatures=YES''"])
      (simp add: kcmdline_loop.simps [of _ _ _ _ "[]"] case_prod_beta call_handler_def crinitCfgSignaturesHandler_def glob_handler_def set_bool_opt_def
       crinitConfConvToBool_def upper_case_def crinitGlobOptSetBoolean_def remit_with_def crinitGlobOptRemit_def)
qed

definition verifiedKeys :: crinitSigCtx where
  "verifiedKeys = \<lparr>rootKey = Some ''R'', signedKeys = [], sigLock = Unlocked\<rparr>"

lemma verified_keys:
  assumes "optLock g = Unlocked" "signatures g" "sigKeyDir g = Some ''/k''"
  shows "boot_keys verifiedBootEnv g = Ret (Some verifiedKeys, g)"
  using assms
  by (simp add: boot_keys_def GetBoolean_ready crinitSigSubsysInit_def verifiedConfEnv_def sampleSigEnv_def crinitGlobOptGetString_def
      crinitLoadAndVerifySignedKeys_def crinitFileSeriesFromDir_def scandir_def crinitInitFileSeries_def
      crinitResizeFileSeries_def verifiedKeys_def remit_with_def crinitGlobOptRemit_def)

lemma verified_cgroups:
  assumes "optLock g = Unlocked" "rootCgroup g = None" "globCgroups g = []"
  obtains ops where "crinitCreateGlobalCGroups sampleCgroupEnv g = Ret (0, g, ops)"
proof -
  have "(case crinitReadAvailableCgroupControllers sampleCgroupEnv ''cgroup.controllers'' of
      Some (Some cs) \<Rightarrow> fst (write_controllers sampleCgroupEnv [] cs) = 0 | _ \<Rightarrow> False)" "cgBase sampleCgroupEnv" by code_simp+
  with assms show thesis
    by (auto intro!: that simp: crinitCreateGlobalCGroups_def case_prod_beta Let_def split: option.split_asm)
qed

lemma verified_tasks:
  assumes "optLock g = Unlocked" "taskDir g = Some ''/t''" "taskFileSuffix g = Some ''.crinit''" "tasks g = None" "taskDirFollowSl g"
  shows "crinitLoadTasks (keyed k verifiedConfEnv) (\<lambda>_. True) g = Ret (Some \<lparr>fnames = [Some ''c.crinit''], baseDir = Some ''/t''\<rparr>, g)"
  using assms
  by (simp add: crinitLoadTasks_def GetBoolean_ready crinitGlobOptGetString_def remit_with_def crinitGlobOptRemit_def
      keyed_def verifiedConfEnv_def crinitFileSeriesFromDir_def scandir_def crinitScanDirFilter_def crinitStatFilter_def
      crinitSuffixFilter_def crinitInitFileSeries_def crinitResizeFileSeries_def)

lemma verified_series:
  assumes "optLock (globOpts w) = Unlocked" "signatures (globOpts w)" "taskDir (globOpts w) = Some ''/t''"
  shows "crinitLoadSeriesConf (keyed verifiedKeys verifiedConfEnv) (\<lambda>_. True) ''/s'' w =
    Ret (0, w\<lparr>globOpts := (globOpts w)\<lparr>debug := True, inclDir := Some ''/t''\<rparr>\<rparr>)"
proof -
  have "\<forall>kv \<in> set [(''DEBUG'', ''YES'')]. conf_entry kv" by (simp add: conf_entry_def ini_entry_def trimmed_def c_isspace_def)
  from ParseConf_entries [OF this, of "keyed verifiedKeys verifiedConfEnv" "''/s''" "globOpts w"]
  have "crinitParseConf (keyed verifiedKeys verifiedConfEnv) True (globOpts w) ''/s'' = Ret (Some [(''DEBUG'', Some ''YES'')], globOpts w)"
    using assms by (simp add: crinitMatchQuotedConfig_def sig_accepted_def read_signature_def crinitBinReadAll_def keyed_def verifiedConfEnv_def
        verifiedKeys_def crinitVerifySignature_def crinitGenerateHash_def sampleSigEnv_def ini_text_def)
  with assms show ?thesis
    by (simp add: crinitLoadSeriesConf_def crinitIsAbsPath_def keyed_def verifiedConfEnv_def
      call_handler_def crinitCfgDebugHandler_def glob_handler_def set_bool_opt_def crinitConfConvToBool_def upper_case_def
      crinitGlobOptSetBoolean_def crinitGlobOptBorrow_def remit_with_def crinitGlobOptRemit_def crinitGlobOptGetString_def
      crinitCfgInclDirHandler_def crinitDirExists_def crinitGlobOptSetString_def Let_def)
qed

lemma verified_task_file:
  "boot_file verifiedBootEnv verifiedKeys g (Some ''/t'') i (''c.crinit'', ''c'', [''/b''], [[''/b'']])"
proof -
  have "\<forall>kv \<in> set (task_file ''c'' [''/b'']). conf_entry kv"
    by (simp add: task_file_def conf_entry_def ini_entry_def trimmed_def c_isspace_def)
  moreover have "list_all2 reads_as [''/b''] [[''/b'']]" by (simp add: reads_as_def crinitMatchQuotedConfig_def sample_words)
  ultimately show ?thesis
    by (simp add: boot_file_def boot_path_def crinitIsAbsPath_def keyed_def verifiedConfEnv_def sig_accepted_def read_signature_def
        crinitBinReadAll_def verifiedKeys_def crinitVerifySignature_def crinitGenerateHash_def sampleSigEnv_def task_file_def ini_text_def Let_def)
qed

lemma verified_boot_ready:
  assumes "optLock g = Unlocked" "env_wf (globEnv g)" "env_wf (globFilters g)"
  shows "boot_ready verifiedBootEnv g \<lparr>tpSize = 8, tpSizeIncrement = 8, threadAvail = 8, tpLock = Unlocked\<rparr>"
proof -
  have "crinitStartInterfaceServer (bStart verifiedBootEnv) ''/run/c'' =
      Ret (0, Some ''/run/c'', Some 18, Some \<lparr>tpSize = 8, tpSizeIncrement = 8, threadAvail = 8, tpLock = Unlocked\<rparr>)"
    by code_simp
  then show ?thesis using assms by (simp add: boot_ready_def) (simp add: verifiedBootEnv_def sampleBootEnv_def)
qed

lemma verified_start:
  obtains p w' where "boot_config verifiedBootEnv ''/s'' (sampleWorld []) = Ret (MainLoop p, w')" "signatures (globOpts w')"
    "task_map (taskDB w') ''c'' \<noteq> None"
proof -
  let ?bf = "(''c.crinit'', ''c'', [''/b''], [[''/b'']]) :: bootFile" and ?ser = "\<lparr>fnames = [Some ''c.crinit''], baseDir = Some ''/t''\<rparr>"
  obtain g where g: "crinitGlobOptInitDefault (bDefaults verifiedBootEnv) None (globOpts (sampleWorld [])) = Ret (0, g)" "optLock g = Unlocked"
    "\<not> signatures g" "sigKeyDir g = Some ''/k''" "taskDir g = Some ''/t''" "taskFileSuffix g = Some ''.crinit''"
    "tasks g = None" "taskDirFollowSl g" "rootCgroup g = None" "globCgroups g = []" "env_wf (globEnv g)" "env_wf (globFilters g)"
    by (rule InitDefault_ok [of "globOpts (sampleWorld [])" "bDefaults verifiedBootEnv"]) simp_all
  let ?g = "g\<lparr>signatures := True\<rparr>" and ?g' = "g\<lparr>signatures := True, debug := True, inclDir := Some ''/t''\<rparr>"
  let ?w = "(sampleWorld [])\<lparr>globOpts := ?g'\<rparr>"
  obtain ops where cg: "crinitCreateGlobalCGroups sampleCgroupEnv ?g' = Ret (0, ?g', ops)"
    by (rule verified_cgroups [of ?g']) (use g in simp_all)
  obtain w' where w': "boot_run verifiedBootEnv verifiedKeys ?ser ?w = Ret (MainLoop (Some \<lparr>tpSize = 8, tpSizeIncrement = 8, threadAvail = 8, tpLock = Unlocked\<rparr>), w')"
    "globOpts w' = ?g'" "dom (task_map (taskDB w')) = boot_name ` set [?bf]"
    by (rule boot_run_all [OF verified_boot_ready, of ?w ?ser "[?bf]" verifiedKeys]) (use g verified_task_file in simp_all)
  have "boot_config verifiedBootEnv ''/s'' (sampleWorld []) = Ret (MainLoop (Some \<lparr>tpSize = 8, tpSizeIncrement = 8, threadAvail = 8, tpLock = Unlocked\<rparr>), w')"
    using g cg w'(1) verified_keys [of ?g] verified_tasks [of ?g' verifiedKeys]
      verified_series [of "(sampleWorld [])\<lparr>globOpts := ?g\<rparr>"] verified_cmdline [of "(sampleWorld [])\<lparr>globOpts := g\<rparr>"]
    by (simp add: boot_config_def crinitFeatureHook_def)
  moreover have "''c'' \<in> dom (task_map (taskDB w'))" using w'(3) by (simp add: boot_name_def crinitMatchQuotedConfig_def)
  ultimately show thesis using that w'(2) by (auto simp: domIff)
qed


text \<open>
  C8: a daemon that has started with signature checking on has loaded a verified series file, and every task in its
  database comes from a verified task file: one whose signature verifies under the root key of the keyring or under a
  key that is itself signed with the root key.
\<close>

theorem verified_boot:
  assumes "boot_config e f w = Ret (MainLoop p, w')" "signatures (globOpts w')"
  shows "\<exists>k root. trusted (cfSig (bConf e 0)) root k \<and> verified_file (keyed k (bConf e 0)) root f \<and>
    (\<forall>t \<in> set (taskSet (taskDB w')). from_verified e k root t)"
proof -
  obtain w1 k g w2 r g1 sl r1 g2 ops ser g3 where s: "boot_keys e (globOpts w1) = Ret (Some k, g)"
    "crinitLoadSeriesConf (keyed k (bConf e 0)) (bMem e 2) f (w1\<lparr>globOpts := g\<rparr>) = Ret (r, w2)" "r \<noteq> -1"
    "crinitFeatureHook (globOpts w2) (sysLog w2) None CRINIT_HOOK_INIT = Ret (r1, g1, sl)"
    "crinitCreateGlobalCGroups (bCg e) g1 = Ret (0, g2, ops)"
    "crinitLoadTasks (keyed k (bConf e 0)) (bMem e 3) g2 = Ret (Some ser, g3)"
    "boot_run e k ser (w2\<lparr>sysLog := sl, globOpts := g3\<rparr>) = Ret (MainLoop p, w')"
    by (rule boot_config_steps [OF assms(1)])
  obtain w3 w4 where t: "boot_tasks e k (baseDir ser) 0 (fnames ser) w3 = Ret (True, w4)" "taskSet (taskDB w3) = []"
    "globOpts w3 = g3" "taskDB w' = taskDB w4" "globOpts w' = globOpts w4"
    by (rule boot_run_tasks [OF s(7)]) simp
  have opts: "sig_opts g = sig_opts (globOpts w1)" "sig_opts (globOpts w4) = sig_opts g" "sig_opts g3 = sig_opts (globOpts w4)"
    using boot_keys_sig [OF s(1)] LoadSeriesConf_sig [OF s(2)] FeatureHook_sig [OF s(4)] CreateGlobalCGroups_sig [OF s(5)]
      LoadTasks_sig [OF s(6)] boot_tasks_sig [OF t(1)] t(3) by simp_all
  then have sig: "signatures (globOpts w1)" "signatures g" "signatures g3" using assms(2) t(5) by (auto simp: sig_opts_def)
  obtain root where root: "trusted (cfSig (bConf e 0)) root k" using boot_keys_trusted [OF s(1) sig(1)] by blast
  obtain c g' where c: "crinitParseConf (keyed k (bConf e 0)) (bMem e 2 0) g f = Ret (Some c, g')"
    using LoadSeriesConf_read [OF s(2,3)] by auto
  have "verified_file (keyed k (bConf e 0)) root f"
    using ParseConf_verified_file [OF c ParseConf_unlocked [OF c] sig(2)] root by (simp add: keyed_def trusted_def)
  then show ?thesis
    using boot_tasks_verified [OF t(1), of root] t(2-4) sig(3) root unfolding trusted_def by auto
qed

theorem verified_boot_witness:
  "\<exists>p w' k root. boot_config verifiedBootEnv ''/s'' (sampleWorld []) = Ret (MainLoop p, w') \<and>
     trusted (cfSig verifiedConfEnv) root k \<and> verified_file (keyed k verifiedConfEnv) root ''/s'' \<and>
     (\<exists>t \<in> set (taskSet (taskDB w')). name t = ''c'' \<and> from_verified verifiedBootEnv k root t)"
proof -
  obtain p w' where w': "boot_config verifiedBootEnv ''/s'' (sampleWorld []) = Ret (MainLoop p, w')" "signatures (globOpts w')"
    "task_map (taskDB w') ''c'' \<noteq> None" by (rule verified_start)
  have "\<exists>t \<in> set (taskSet (taskDB w')). name t = ''c''" 
    using w'(3) unfolding task_map_def map_of_eq_None_iff by (auto simp: image_image)
  then show ?thesis using verified_boot [OF w'(1,2)] w'(1) by fastforce
qed

end
