(* ===== verification/MachineId.thy ===== *)
theory MachineId
  imports ConfConv
begin

unbundle bit_operations_syntax

text \<open>
  The program that writes \<open>/etc/machine-id\<close>, \<open>src/src/machine-id-gen.c\<close>: the identity comes from the kernel
  command line or, on an S32G chip, from its unique number. The contents of files and of physical memory are arguments.
\<close>

abbreviation (input) MID_STR_LEN :: nat where "MID_STR_LEN \<equiv> 36"
abbreviation (input) KERNEL_CMDLINE_MAX_LEN :: nat where "KERNEL_CMDLINE_MAX_LEN \<equiv> 4096"

text \<open>\<open>KERNEL_CMDLINE_KEY\<close> with the equals sign, as it is searched for.\<close>

definition mid_key :: string where
  "mid_key = ''systemd.machine_id=''"

section \<open>Kernel command line\<close>

fun strstr :: "string \<Rightarrow> string \<Rightarrow> string option" where
  "strstr [] k = (if k = [] then Some [] else None)"
| "strstr (c # s) k = (if take (length k) (c # s) = k then Some (c # s) else strstr s k)"

text \<open>The copying loop: the characters it writes into a buffer with \<open>n\<close> bytes left.\<close>

fun copy_mid :: "nat \<Rightarrow> string \<Rightarrow> string" where
  "copy_mid n [] = []"
| "copy_mid n (c # s) =
     (if n = 0 then []
      else if c = CHR ''-'' then copy_mid n s
      else c # copy_mid (n - 1) s)"

text \<open>
  Result and identity. \<open>content\<close> is \<open>None\<close> if the file cannot be opened. The loop may fill all \<open>n\<close> bytes of the
  buffer; the terminating zero is then written behind it.
\<close>

definition crinitGetMidKernelCmdLine :: "string option \<Rightarrow> bool \<Rightarrow> nat \<Rightarrow> (int \<times> string) run" where
  "crinitGetMidKernelCmdLine content readOk n =
     (case content of
        None \<Rightarrow> Ret (-1, [])
      | Some txt1 \<Rightarrow>
          if \<not> readOk then Ret (-1, [])
          else case strstr (c_string (take (KERNEL_CMDLINE_MAX_LEN - 1) txt1)) mid_key of
            None \<Rightarrow> Ret (-2, [])
          | Some midPtr \<Rightarrow>
              let midPtr = tl (dropWhile (\<lambda>c. c \<noteq> CHR ''='') midPtr);
                  mid = copy_mid n (takeWhile (\<lambda>c. c \<noteq> CHR '' '' \<and> c \<noteq> CHR 0x0A) midPtr)
              in if length mid = n then Undef else Ret (0, mid))"

section \<open>S32G\<close>

abbreviation (input) S32G_OCOTP_BASE :: nat where "S32G_OCOTP_BASE \<equiv> 0x400a4000"
abbreviation (input) S32G_OCOTP_OFFSET_UID :: nat where "S32G_OCOTP_OFFSET_UID \<equiv> 0x210"
abbreviation (input) S32G_SIUL21_BASE :: nat where "S32G_SIUL21_BASE \<equiv> 0x44010000"
abbreviation (input) S32G_SIUL21_OFFSET_MIDR1 :: nat where "S32G_SIUL21_OFFSET_MIDR1 \<equiv> 4"
abbreviation (input) S32G_SIUL21_MCUID_VAL :: "32 word" where "S32G_SIUL21_MCUID_VAL \<equiv> 0x4C200000"
abbreviation (input) S32G_SIUL21_MCUID_MASK :: "32 word" where "S32G_SIUL21_MCUID_MASK \<equiv> 0xFFFF0000"

record physEnv =
  pageSize :: nat
  memOpen :: bool
  memMap :: "nat \<Rightarrow> bool"
  physMem :: "nat \<Rightarrow> char"

definition crinitReadPhysMem :: "physEnv \<Rightarrow> nat \<Rightarrow> nat \<Rightarrow> string option" where
  "crinitReadPhysMem e phyAddr len =
     (let pageBase = phyAddr div pageSize e * pageSize e; mapLen = phyAddr - pageBase + len in
      if \<not> memOpen e then None
      else if \<not> memMap e pageBase then None
      else let mem = map (\<lambda>i. physMem e (pageBase + i)) [0..<mapLen] in Some (take len (drop (phyAddr - pageBase) mem)))"

definition crinitCheckS32 :: "physEnv \<Rightarrow> bool option" where
  "crinitCheckS32 e =
     map_option (\<lambda>mcuIdReg. of_nat (size_of_bytes mcuIdReg) AND S32G_SIUL21_MCUID_MASK = S32G_SIUL21_MCUID_VAL)
       (crinitReadPhysMem e (S32G_SIUL21_BASE + S32G_SIUL21_OFFSET_MIDR1) 4)"

definition crinitReadS32Uid :: "physEnv \<Rightarrow> nat option" where
  "crinitReadS32Uid e = map_option size_of_bytes (crinitReadPhysMem e (S32G_OCOTP_BASE + S32G_OCOTP_OFFSET_UID) 8)"

text \<open>\<open>%02x\<close> of a byte.\<close>

definition show_hex2 :: "char \<Rightarrow> string" where
  "show_hex2 c = (let h = show_hex (of_char c) in replicate (2 - length h) (CHR ''0'') @ h)"

definition crinitS32UidToMid :: "nat \<Rightarrow> nat \<Rightarrow> string" where
  "crinitS32UidToMid n uid = (let hs = concat (map show_hex2 (bytes_of_size uid)) in take (n - 1) (hs @ hs))"

section \<open>The program\<close>

text \<open>The exit code and the text written into the file; \<open>aarch64\<close> says for which processor it is compiled.\<close>

definition mid_generate :: "bool \<Rightarrow> string option \<Rightarrow> bool \<Rightarrow> physEnv \<Rightarrow> string option run" where
  "mid_generate aarch64 content readOk e =
     bind_run (crinitGetMidKernelCmdLine content readOk (MID_STR_LEN + 1)) (\<lambda>(r, machId).
       if r = 0 then Ret (Some machId)
       else if \<not> aarch64 then Ret None
       else Ret (case crinitCheckS32 e of
         None \<Rightarrow> None
       | Some onS32 \<Rightarrow> if \<not> onS32 then None else map_option (crinitS32UidToMid (MID_STR_LEN + 1)) (crinitReadS32Uid e)))"

definition mid_main :: "bool \<Rightarrow> string list \<Rightarrow> string option \<Rightarrow> bool \<Rightarrow> physEnv \<Rightarrow> bool \<Rightarrow> bool \<Rightarrow> (int \<times> string option) run" where
  "mid_main aarch64 av content readOk e fopenOk printOk =
     (if length av \<noteq> 1 then Ret (0, None)
      else bind_run (mid_generate aarch64 content readOk e) (\<lambda>r. case r of
        None \<Rightarrow> Ret (1, None)
      | Some machId \<Rightarrow>
          if \<not> fopenOk then Ret (1, None)
          else if \<not> printOk then Ret (1, Some [])
          else Ret (0, Some (machId @ ''\<newline>''))))"

section \<open>Lemmas\<close>

lemma copy_mid_filter: "copy_mid n s = take n (filter (\<lambda>c. c \<noteq> CHR ''-'') s)"
  by (induction n s rule: copy_mid.induct) (auto simp: take_Cons')

lemma strstr_first:
  assumes "\<forall>i < length pre. take (length k) (drop i (pre @ k @ r)) \<noteq> k" "k \<noteq> []"
  shows "strstr (pre @ k @ r) k = Some (k @ r)"
  using assms
proof (induction pre)
  case Nil
  then show ?case by (cases k) simp_all
next
  case (Cons c pre)
  have "take (length k) (c # pre @ k @ r) \<noteq> k" using Cons.prems(1) [rule_format, of 0] by simp
  moreover have "\<forall>i < length pre. take (length k) (drop i (pre @ k @ r)) \<noteq> k"
    using Cons.prems(1) by (metis Suc_less_eq append_Cons drop_Suc_Cons length_Cons)
  ultimately show ?case using Cons.IH Cons.prems(2) by simp
qed

lemma ReadPhysMem_exact:
  assumes "memOpen e" "memMap e (addr div pageSize e * pageSize e)"
  shows "crinitReadPhysMem e addr len = Some (map (\<lambda>i. physMem e (addr + i)) [0..<len])"
proof -
  have window: "take len (drop (a - b) (map (\<lambda>i. physMem e (b + i)) [0..<a - b + len])) = map (\<lambda>i. physMem e (a + i)) [0..<len]"
    if "b \<le> a" for a b :: nat
    using that by (auto intro!: nth_equalityI simp: le_iff_add add.assoc)
  show ?thesis using assms window [of "addr div pageSize e * pageSize e" addr] by (simp add: crinitReadPhysMem_def Let_def)
qed

section \<open>Properties\<close>

text \<open>
  C39: a machine identity on the kernel command line is written to the file without its dashes if at most 36
  other characters are left of it; with more of them the program writes behind its buffer. The key is the first
  occurrence of its text, and the value ends at a blank, a newline or the end.
\<close>

theorem machine_id_from_cmdline:
  assumes "content = pre @ mid_key @ v @ r" "length content < 4096" "CHR 0x00 \<notin> set content"
    and "\<forall>i < length pre. take (length mid_key) (drop i content) \<noteq> mid_key"
    and "CHR '' '' \<notin> set v" "CHR 0x0A \<notin> set v" "r = [] \<or> hd r = CHR '' '' \<or> hd r = CHR 0x0A"
  shows "mid_main aarch64 [prg] (Some content) True e True True =
    (if length (filter (\<lambda>c. c \<noteq> CHR ''-'') v) \<le> 36
     then Ret (0, Some (filter (\<lambda>c. c \<noteq> CHR ''-'') v @ ''\<newline>'')) else Undef)"
proof -
  have content: "c_string (take (KERNEL_CMDLINE_MAX_LEN - 1) content) = content"
    using assms(2,3) by (auto simp: c_string_def takeWhile_eq_all_conv)
  have "strstr content mid_key = Some (mid_key @ v @ r)"
    using assms(4) unfolding assms(1) by (rule strstr_first) (simp add: mid_key_def)
  moreover have "tl (dropWhile (\<lambda>c. c \<noteq> CHR ''='') (mid_key @ v @ r)) = v @ r" by (simp add: mid_key_def)
  moreover have "takeWhile (\<lambda>c. c \<noteq> CHR '' '' \<and> c \<noteq> CHR 0x0A) (v @ r) = v"
    using assms(5-7) by (cases r) (auto simp: takeWhile_append takeWhile_eq_all_conv)
  ultimately have "crinitGetMidKernelCmdLine (Some content) True 37 =
      (if length (filter (\<lambda>c. c \<noteq> CHR ''-'') v) \<le> 36 then Ret (0, filter (\<lambda>c. c \<noteq> CHR ''-'') v) else Undef)"
    using content by (simp add: crinitGetMidKernelCmdLine_def copy_mid_filter Let_def min_def)
  then show ?thesis by (simp add: mid_main_def mid_generate_def)
qed

theorem machine_id_from_cmdline_witness:
  "mid_main True [''machine-id-gen''] (Some ''quiet systemd.machine_id=0-1f ro'') True
     \<lparr>pageSize = 4096, memOpen = False, memMap = (\<lambda>_. False), physMem = (\<lambda>_. CHR 0x00)\<rparr> True True = Ret (0, Some ''01f\<newline>'')"
proof -
  have "\<forall>i < 6. take (length mid_key) (drop i ''quiet systemd.machine_id=0-1f ro'') \<noteq> mid_key"
    by (simp add: mid_key_def eval_nat_numeral less_Suc_eq all_conj_distrib)
  then show ?thesis
    by (subst machine_id_from_cmdline [where pre = "''quiet ''" and v = "''0-1f''" and r = "'' ro''"])
      (simp_all add: mid_key_def)
qed

end
