(* ===== verification/LogIo.thy ===== *)
theory LogIo
  imports GlobOpt CLib
begin

text \<open>
  Printing, \<open>src/src/logio.c\<close>: where messages go, and the lock that keeps the lines of the threads apart. A message is
  the text its format and arguments give; the lines that were printed are kept with the state.
\<close>

datatype logStream = Stdout | Stderr | Kmsg | OtherStream nat

datatype logSink = ToStream logStream | ToSyslog nat

abbreviation (input) LOG_ERR :: nat where "LOG_ERR \<equiv> 3"
abbreviation (input) LOG_INFO :: nat where "LOG_INFO \<equiv> 6"
abbreviation (input) LOG_DEBUG :: nat where "LOG_DEBUG \<equiv> 7"
abbreviation (input) CRINIT_PRINT_PREFIX_MAX_LEN :: nat where "CRINIT_PRINT_PREFIX_MAX_LEN \<equiv> 32"
abbreviation (input) CRINIT_PRINT_PREFIX :: string where "CRINIT_PRINT_PREFIX \<equiv> ''[CRINIT] ''"

record crinitLog =
  crinitPrintPrefix :: string
  crinitInfoStream :: "logStream option"
  crinitErrStream :: "logStream option"
  crinitUseSyslog :: bool
  crinitLogLock :: mutex
  printed :: "(logSink \<times> string) list"

text \<open>The lock is taken and released without a look at the results.\<close>

definition with_log_lock :: "(crinitLog \<Rightarrow> crinitLog run) \<Rightarrow> crinitLog \<Rightarrow> crinitLog run" where
  "with_log_lock f l =
     bind_run (pthread_mutex_lock (crinitLogLock l)) (\<lambda>(_, m).
     bind_run (f (l\<lparr>crinitLogLock := m\<rparr>)) (\<lambda>l.
       Ret (l\<lparr>crinitLogLock := snd (pthread_mutex_unlock (crinitLogLock l))\<rparr>)))"

section \<open>Settings\<close>

text \<open>\<open>strncpy\<close> into the whole array: a prefix that fills it has no terminating zero.\<close>

definition crinitSetPrintPrefix :: "string option \<Rightarrow> crinitLog \<Rightarrow> crinitLog run" where
  "crinitSetPrintPrefix prefix =
     with_log_lock (\<lambda>l. Ret (l\<lparr>crinitPrintPrefix :=
       take CRINIT_PRINT_PREFIX_MAX_LEN (case prefix of None \<Rightarrow> CRINIT_PRINT_PREFIX | Some p \<Rightarrow> p)\<rparr>))"

definition crinitSetInfoStream :: "logStream option \<Rightarrow> crinitLog \<Rightarrow> crinitLog run" where
  "crinitSetInfoStream st = with_log_lock (\<lambda>l. Ret (l\<lparr>crinitInfoStream := Some (case st of None \<Rightarrow> Stdout | Some s \<Rightarrow> s)\<rparr>))"

definition crinitSetErrStream :: "logStream option \<Rightarrow> crinitLog \<Rightarrow> crinitLog run" where
  "crinitSetErrStream st = with_log_lock (\<lambda>l. Ret (l\<lparr>crinitErrStream := Some (case st of None \<Rightarrow> Stderr | Some s \<Rightarrow> s)\<rparr>))"

definition crinitSetUseSyslog :: "bool \<Rightarrow> crinitLog \<Rightarrow> crinitLog run" where
  "crinitSetUseSyslog sl = with_log_lock (\<lambda>l. Ret (l\<lparr>crinitUseSyslog := sl\<rparr>))"

section \<open>Printing\<close>

text \<open>A line on a stream, with the prefix, which is read up to its terminating zero.\<close>

definition stream_line :: "logStream \<Rightarrow> string \<Rightarrow> crinitLog \<Rightarrow> crinitLog run" where
  "stream_line st msg l =
     (if length (crinitPrintPrefix l) \<ge> CRINIT_PRINT_PREFIX_MAX_LEN then Undef
      else Ret (l\<lparr>printed := printed l @ [(ToStream st, crinitPrintPrefix l @ msg @ ''\<newline>'')]\<rparr>))"

definition syslog_line :: "nat \<Rightarrow> string \<Rightarrow> crinitLog \<Rightarrow> crinitLog run" where
  "syslog_line level msg l = Ret (l\<lparr>printed := printed l @ [(ToSyslog level, msg)]\<rparr>)"

definition info_line :: "nat \<Rightarrow> string \<Rightarrow> crinitLog \<Rightarrow> crinitLog run" where
  "info_line level msg =
     with_log_lock (\<lambda>l.
       let st = (case crinitInfoStream l of None \<Rightarrow> Stdout | Some s \<Rightarrow> s); l = l\<lparr>crinitInfoStream := Some st\<rparr> in
       if crinitUseSyslog l then syslog_line level msg l else stream_line st msg l)"

definition crinitInfoPrint :: "string \<Rightarrow> crinitLog \<Rightarrow> crinitLog run" where
  "crinitInfoPrint msg = info_line LOG_INFO msg"

definition ffl :: "string \<Rightarrow> string \<Rightarrow> nat \<Rightarrow> string" where
  "ffl file func line = ''('' @ file @ '':'' @ func @ '':'' @ digits_of line @ '') Error: ''"

text \<open>
  An error message with a suffix, which for an error number is its description by the C library (\<open>strerror\<close>, taken to be given; the code
  hands on a null pointer to the formatting where there is none). When the format for the system log cannot be allocated the function returns with
  the lock held.
\<close>

definition err_line :: "bool \<Rightarrow> string \<Rightarrow> crinitLog \<Rightarrow> crinitLog run" where
  "err_line mallocOk msg l =
     bind_run (pthread_mutex_lock (crinitLogLock l)) (\<lambda>(_, m).
       let st = (case crinitErrStream l of None \<Rightarrow> Stderr | Some s \<Rightarrow> s); l = l\<lparr>crinitLogLock := m, crinitErrStream := Some st\<rparr> in
       if crinitUseSyslog l \<and> \<not> mallocOk then Ret l
       else bind_run (if crinitUseSyslog l then syslog_line LOG_ERR msg l else stream_line st msg l) (\<lambda>l.
         Ret (l\<lparr>crinitLogLock := snd (pthread_mutex_unlock (crinitLogLock l))\<rparr>)))"

definition crinitErrPrintFFL :: "bool \<Rightarrow> string \<Rightarrow> string \<Rightarrow> nat \<Rightarrow> string \<Rightarrow> crinitLog \<Rightarrow> crinitLog run" where
  "crinitErrPrintFFL mallocOk file func line msg = err_line mallocOk (ffl file func line @ msg)"

definition crinitErrnoPrintFFL :: "bool \<Rightarrow> string \<Rightarrow> string \<Rightarrow> string \<Rightarrow> nat \<Rightarrow> string \<Rightarrow> crinitLog \<Rightarrow> crinitLog run" where
  "crinitErrnoPrintFFL mallocOk strerror file func line msg = err_line mallocOk (ffl file func line @ msg @ '' Errno: '' @ strerror)"

text \<open>A debug message depends on an option, which is read under the lock of the options; it is off by default.\<close>

definition crinitDbgInfoPrint :: "bool \<Rightarrow> nat \<Rightarrow> string \<Rightarrow> crinitGlobOptStore \<Rightarrow> crinitLog \<Rightarrow> (crinitGlobOptStore \<times> crinitLog) run" where
  "crinitDbgInfoPrint mallocOk line msg g l =
     bind_run (crinitGlobOptGetBoolean Debug g) (\<lambda>(r, globOptDbg, g).
       if r = -1 then
         map_ret (Pair g) (crinitErrPrintFFL mallocOk ''logio.c'' ''crinitDbgInfoPrint'' line
           (''Could not read value for '' @ [CHR 0x27] @ ''DEBUG'' @ [CHR 0x27] @ '' from global options, assuming default.'') l)
       else if \<not> globOptDbg then Ret (g, l)
       else map_ret (Pair g) (info_line LOG_DEBUG msg l))"

definition crinitInitKmsgLogging :: "bool \<Rightarrow> bool \<Rightarrow> string \<Rightarrow> nat \<Rightarrow> crinitLog \<Rightarrow> crinitLog run" where
  "crinitInitKmsgLogging fopenOk mallocOk strerror line l =
     (if \<not> fopenOk then
        bind_run (with_log_lock (\<lambda>l. Ret (l\<lparr>crinitInfoStream := Some Stdout, crinitErrStream := Some Stderr\<rparr>)) l)
          (crinitErrnoPrintFFL mallocOk strerror ''logio.c'' ''crinitInitKmsgLogging'' line ''Error openeing /dev/kmsg.'')
      else with_log_lock (\<lambda>l. Ret (l\<lparr>crinitInfoStream := Some Kmsg, crinitErrStream := Some Kmsg\<rparr>)) l)"

section \<open>Sequences of messages\<close>

datatype logCall =
  Info string
| Err bool string string nat string
| Errno bool string string string nat string

fun log_call :: "logCall \<Rightarrow> crinitLog \<Rightarrow> crinitLog run" where
  "log_call (Info m) l = crinitInfoPrint m l"
| "log_call (Err ok f fn n m) l = crinitErrPrintFFL ok f fn n m l"
| "log_call (Errno ok e f fn n m) l = crinitErrnoPrintFFL ok e f fn n m l"

fun log_calls :: "logCall list \<Rightarrow> crinitLog \<Rightarrow> crinitLog run" where
  "log_calls [] l = Ret l"
| "log_calls (c # cs) l = bind_run (log_call c l) (log_calls cs)"

text \<open>The line a call is to print.\<close>

fun call_line :: "logCall \<Rightarrow> string" where
  "call_line (Info m) = m"
| "call_line (Err ok f fn n m) = ffl f fn n @ m"
| "call_line (Errno ok e f fn n m) = ffl f fn n @ m @ '' Errno: '' @ e"

fun call_mem :: "logCall \<Rightarrow> bool" where
  "call_mem (Info m) \<longleftrightarrow> True"
| "call_mem (Err ok f fn n m) \<longleftrightarrow> ok"
| "call_mem (Errno ok e f fn n m) \<longleftrightarrow> ok"

definition log_ready :: "crinitLog \<Rightarrow> bool" where
  "log_ready l \<longleftrightarrow> crinitLogLock l = Unlocked \<and> length (crinitPrintPrefix l) < CRINIT_PRINT_PREFIX_MAX_LEN"

lemma log_call_ready:
  assumes "log_ready l" "call_mem c"
  shows "\<exists>l' sink. log_call c l = Ret l' \<and> log_ready l' \<and> crinitUseSyslog l' = crinitUseSyslog l \<and>
    crinitPrintPrefix l' = crinitPrintPrefix l \<and>
    printed l' = printed l @ [(sink, if crinitUseSyslog l then call_line c else crinitPrintPrefix l @ call_line c @ ''\<newline>'')]"
  using assms
  by (cases c) (auto simp: log_ready_def crinitInfoPrint_def info_line_def with_log_lock_def crinitErrPrintFFL_def
      crinitErrnoPrintFFL_def err_line_def stream_line_def syslog_line_def Let_def)

lemma log_calls_ready:
  assumes "log_ready l" "list_all call_mem cs"
  shows "\<exists>l'. log_calls cs l = Ret l' \<and> log_ready l' \<and> crinitUseSyslog l' = crinitUseSyslog l \<and> map snd (printed l') = map snd (printed l) @
    map (\<lambda>c. if crinitUseSyslog l then call_line c else crinitPrintPrefix l @ call_line c @ ''\<newline>'') cs"
  using assms
proof (induction cs arbitrary: l)
  case (Cons c cs)
  then have m: "call_mem c" "list_all call_mem cs" by simp_all
  obtain l1 sink where l1: "log_call c l = Ret l1" "log_ready l1" "crinitUseSyslog l1 = crinitUseSyslog l"
      "crinitPrintPrefix l1 = crinitPrintPrefix l"
      "printed l1 = printed l @ [(sink, if crinitUseSyslog l then call_line c else crinitPrintPrefix l @ call_line c @ ''\<newline>'')]"
    using log_call_ready [OF Cons.prems(1) m(1)] by blast
  show ?case using Cons.IH [OF l1(2) m(2)] l1 by auto
qed simp

lemma log_calls_append: "log_calls (as @ bs) l = bind_run (log_calls as l) (log_calls bs)"
proof (induction as arbitrary: l)
  case (Cons a as)
  then have "log_calls (as @ bs) = (\<lambda>l. bind_run (log_calls as l) (log_calls bs))" by (simp add: fun_eq_iff)
  then show ?case by (simp add: run_simps)
qed simp

lemma log_call_blocked: "crinitLogLock l = Locked \<Longrightarrow> log_call c l = Blocked"
  by (cases c) (simp_all add: crinitInfoPrint_def info_line_def with_log_lock_def crinitErrPrintFFL_def
      crinitErrnoPrintFFL_def err_line_def)

section \<open>Properties\<close>

text \<open>
  C38: messages that are printed one after the other appear completely and in their order as long as memory lasts.
  If an error message for the system log finds no memory, it returns with the lock held, and every message after it
  blocks its thread for ever.
\<close>

theorem log_lines:
  assumes "log_ready l" "list_all call_mem cs"
  shows "(\<exists>l'. log_calls cs l = Ret l' \<and> log_ready l' \<and> map snd (printed l') = map snd (printed l) @
      map (\<lambda>c. if crinitUseSyslog l then call_line c else crinitPrintPrefix l @ call_line c @ ''\<newline>'') cs) \<and>
    (crinitUseSyslog l \<longrightarrow> log_calls (cs @ Err False f fn n m # c # cs') l = Blocked)"
proof -
  obtain l' where l': "log_calls cs l = Ret l'" "log_ready l'" "crinitUseSyslog l' = crinitUseSyslog l"
      "map snd (printed l') = map snd (printed l) @
       map (\<lambda>c. if crinitUseSyslog l then call_line c else crinitPrintPrefix l @ call_line c @ ''\<newline>'') cs"
    using log_calls_ready [OF assms] by blast
  then have "crinitUseSyslog l \<longrightarrow> log_calls (cs @ Err False f fn n m # c # cs') l = Blocked"
    by (simp add: log_calls_append crinitErrPrintFFL_def err_line_def log_ready_def Let_def log_call_blocked)
  with l' show ?thesis by blast
qed

theorem log_lines_witness:
  "log_calls [Info ''up'', Err False ''taskdb.c'' ''f'' 7 ''no'', Info ''lost'']
     \<lparr>crinitPrintPrefix = ''[CRINIT] '', crinitInfoStream = None, crinitErrStream = None, crinitUseSyslog = True,
      crinitLogLock = Unlocked, printed = []\<rparr> = Blocked"
  using log_lines [of "\<lparr>crinitPrintPrefix = ''[CRINIT] '', crinitInfoStream = None, crinitErrStream = None,
      crinitUseSyslog = True, crinitLogLock = Unlocked, printed = []\<rparr>" "[Info ''up'']" "''taskdb.c''" "''f''" 7 "''no''" "Info ''lost''" "[]"]
  by (simp add: log_ready_def)

end
