(* ===== verification/DList.thy ===== *)
theory DList
  imports Prelude
begin

text \<open>
  The doubly linked lists of \<open>src/inc/list.h\<close>: circular, with the head as a node of its own, linked through nodes that
  are members of the entries. The nodes are in a store, so that the writes of an operation can meet each other; the
  operations are shown to implement lists.
\<close>

section \<open>Store\<close>

record crinitList =
  prevNode :: "nat option"
  nextNode :: "nat option"

type_synonym listHeap = "nat \<Rightarrow> crinitList option"

text \<open>Reading and writing a node; a null pointer or an address that is no node is undefined.\<close>

definition get_node :: "nat option \<Rightarrow> listHeap \<Rightarrow> crinitList run" where
  "get_node p h = (case p of None \<Rightarrow> Undef | Some a \<Rightarrow> (case h a of None \<Rightarrow> Undef | Some n \<Rightarrow> Ret n))"

definition set_next :: "nat option \<Rightarrow> nat option \<Rightarrow> listHeap \<Rightarrow> listHeap run" where
  "set_next p v h = bind_run (get_node p h) (\<lambda>n. Ret (h(the p := Some (n\<lparr>nextNode := v\<rparr>))))"

definition set_prev :: "nat option \<Rightarrow> nat option \<Rightarrow> listHeap \<Rightarrow> listHeap run" where
  "set_prev p v h = bind_run (get_node p h) (\<lambda>n. Ret (h(the p := Some (n\<lparr>prevNode := v\<rparr>))))"

section \<open>Operations\<close>

definition crinitListInit :: "nat \<Rightarrow> listHeap \<Rightarrow> listHeap run" where
  "crinitListInit lst h = bind_run (set_next (Some lst) (Some lst) h) (set_prev (Some lst) (Some lst))"

definition crinitListInsert :: "nat \<Rightarrow> nat option \<Rightarrow> nat option \<Rightarrow> listHeap \<Rightarrow> listHeap run" where
  "crinitListInsert entry prv nxt h =
     bind_run (set_next (Some entry) nxt h) (\<lambda>h.
     bind_run (set_prev (Some entry) prv h) (\<lambda>h.
     bind_run (set_prev nxt (Some entry) h) (\<lambda>h.
       set_next prv (Some entry) h)))"

definition crinitListPrepend :: "nat \<Rightarrow> nat \<Rightarrow> listHeap \<Rightarrow> listHeap run" where
  "crinitListPrepend lst entry h = bind_run (get_node (Some lst) h) (\<lambda>n. crinitListInsert entry (Some lst) (nextNode n) h)"

definition crinitListAppend :: "nat \<Rightarrow> nat \<Rightarrow> listHeap \<Rightarrow> listHeap run" where
  "crinitListAppend lst entry h =
     bind_run (get_node (Some lst) h) (\<lambda>n.
     bind_run (get_node (prevNode n) h) (\<lambda>m. crinitListInsert entry (prevNode n) (nextNode m) h))"

text \<open>
  The loop of the sorted insertion: the entry in front of which to insert, the head if there is none. The argument
  in front bounds the number of turns; a loop that takes more is taken not to return.
\<close>

fun sorted_loop :: "nat \<Rightarrow> (nat \<Rightarrow> nat \<Rightarrow> int) \<Rightarrow> nat \<Rightarrow> nat \<Rightarrow> nat option \<Rightarrow> listHeap \<Rightarrow> nat option run" where
  "sorted_loop 0 entryCmp lst entry cur h = Blocked"
| "sorted_loop (Suc k) entryCmp lst entry cur h =
     (if cur = Some lst then Ret cur
      else bind_run (get_node cur h) (\<lambda>n.
        if entryCmp (the cur) entry \<ge> 0 then Ret cur else sorted_loop k entryCmp lst entry (nextNode n) h))"

definition crinitListInsertSorted :: "nat \<Rightarrow> nat \<Rightarrow> nat \<Rightarrow> (nat \<Rightarrow> nat \<Rightarrow> int) \<Rightarrow> listHeap \<Rightarrow> listHeap run" where
  "crinitListInsertSorted fuel lst entry entryCmp h =
     bind_run (get_node (Some lst) h) (\<lambda>n.
     bind_run (sorted_loop fuel entryCmp lst entry (nextNode n) h) (\<lambda>cur.
       if cur = Some lst then crinitListAppend lst entry h
       else bind_run (get_node cur h) (\<lambda>m. crinitListInsert entry (prevNode m) cur h)))"

definition crinitListDelete :: "nat \<Rightarrow> listHeap \<Rightarrow> listHeap run" where
  "crinitListDelete entry h =
     bind_run (get_node (Some entry) h) (\<lambda>n.
     bind_run (set_prev (nextNode n) (prevNode n) h) (\<lambda>h.
     bind_run (get_node (Some entry) h) (\<lambda>n.
     bind_run (set_next (prevNode n) (nextNode n) h) (\<lambda>h.
     bind_run (set_next (Some entry) None h) (\<lambda>h.
       set_prev (Some entry) None h)))))"

definition crinitListIsEmpty :: "nat \<Rightarrow> listHeap \<Rightarrow> bool run" where
  "crinitListIsEmpty lst h = bind_run (get_node (Some lst) h) (\<lambda>n. Ret (nextNode n = Some lst))"

text \<open>\<open>crinitListForEachEntry\<close>: the entries the loop visits.\<close>

fun each_entry :: "nat \<Rightarrow> nat \<Rightarrow> nat option \<Rightarrow> listHeap \<Rightarrow> nat list run" where
  "each_entry 0 lst cur h = Blocked"
| "each_entry (Suc k) lst cur h =
     (if cur = Some lst then Ret []
      else bind_run (get_node cur h) (\<lambda>n. map_ret ((#) (the cur)) (each_entry k lst (nextNode n) h)))"

definition crinitListForEachEntry :: "nat \<Rightarrow> nat \<Rightarrow> listHeap \<Rightarrow> nat list run" where
  "crinitListForEachEntry fuel lst h = bind_run (get_node (Some lst) h) (\<lambda>n. each_entry fuel lst (nextNode n) h)"

section \<open>Lists in the store\<close>

definition nextOf :: "listHeap \<Rightarrow> nat \<Rightarrow> nat option option" where
  "nextOf h a = map_option nextNode (h a)"

definition prevOf :: "listHeap \<Rightarrow> nat \<Rightarrow> nat option option" where
  "prevOf h a = map_option prevNode (h a)"

definition linked :: "listHeap \<Rightarrow> nat \<Rightarrow> nat \<Rightarrow> bool" where
  "linked h a b \<longleftrightarrow> nextOf h a = Some (Some b) \<and> prevOf h b = Some (Some a)"

text \<open>The list at a head.\<close>

definition dlist :: "listHeap \<Rightarrow> nat \<Rightarrow> nat list \<Rightarrow> bool" where
  "dlist h lst xs \<longleftrightarrow> distinct (lst # xs) \<and> successively (linked h) (lst # xs @ [lst])"

definition node :: "listHeap \<Rightarrow> nat \<Rightarrow> bool" where
  "node h a \<longleftrightarrow> h a \<noteq> None"

lemma node_exists: "node h a \<longleftrightarrow> nextOf h a \<noteq> None" "node h a \<longleftrightarrow> prevOf h a \<noteq> None"
  by (simp_all add: node_def nextOf_def prevOf_def)

lemma get_node_ok:
  assumes "node h a"
  obtains n where "get_node (Some a) h = Ret n" "nextOf h a = Some (nextNode n)" "prevOf h a = Some (prevNode n)"
  using assms by (auto simp: node_def get_node_def nextOf_def prevOf_def)

lemma set_next_ok:
  assumes "node h a"
  obtains h' where "set_next (Some a) v h = Ret h'" "nextOf h' = (nextOf h)(a := Some v)" "prevOf h' = prevOf h"
proof -
  obtain n where n: "h a = Some n" using assms by (auto simp: node_def)
  show thesis by (rule that [of "h(a \<mapsto> n\<lparr>nextNode := v\<rparr>)"]) (auto simp: set_next_def get_node_def nextOf_def prevOf_def n)
qed

lemma set_prev_ok:
  assumes "node h a"
  obtains h' where "set_prev (Some a) v h = Ret h'" "nextOf h' = nextOf h" "prevOf h' = (prevOf h)(a := Some v)"
proof -
  obtain n where n: "h a = Some n" using assms by (auto simp: node_def)
  show thesis by (rule that [of "h(a \<mapsto> n\<lparr>prevNode := v\<rparr>)"]) (auto simp: set_prev_def get_node_def nextOf_def prevOf_def n)
qed

lemma successively_weaken:
  assumes "successively P xs" "\<And>x y. x \<in> set (butlast xs) \<Longrightarrow> y \<in> set (tl xs) \<Longrightarrow> P x y \<Longrightarrow> Q x y"
  shows "successively Q xs"
  using assms
proof (induction xs)
  case (Cons x xs)
  then show ?case
  proof (cases xs)
    case (Cons y ys)
    have "successively Q xs"
      by (rule Cons.IH) (use Cons.prems Cons in \<open>auto split: if_split_asm\<close>)
    then show ?thesis using Cons.prems Cons by simp
  qed simp
qed simp

lemma dlist_split:
  assumes "dlist h lst (xs @ ys)"
  shows "linked h (last (lst # xs)) (hd (ys @ [lst]))"
  using assms successively_append_iff [of "linked h" "lst # xs" "ys @ [lst]"] by (simp add: dlist_def)

text \<open>Joining two parts of a list anew, through a middle part.\<close>

lemma dlist_join:
  assumes "dlist h lst (xs @ zs @ ys)" "distinct (lst # xs @ ms @ ys)"
    and "\<And>x y. x \<in> set (lst # xs @ ys) \<Longrightarrow> y \<in> set (lst # xs @ ys) \<Longrightarrow> x \<noteq> last (lst # xs) \<Longrightarrow> y \<noteq> hd (ys @ [lst]) \<Longrightarrow>
      linked h x y \<Longrightarrow> linked h' x y"
    and "successively (linked h') (last (lst # xs) # ms @ [hd (ys @ [lst])])"
  shows "dlist h' lst (xs @ ms @ ys)"
proof -
  have d: "distinct (lst # xs @ zs @ ys)" and c: "successively (linked h) (lst # xs)" "successively (linked h) (ys @ [lst])"
    using assms(1) successively_append_iff [of "linked h" "lst # xs" "zs @ ys @ [lst]"]
      successively_append_iff [of "linked h" zs "ys @ [lst]"] by (auto simp: dlist_def)
  have p: "last (lst # xs) \<notin> set (butlast (lst # xs))" "last (lst # xs) \<notin> set ys"
    using d by (cases xs rule: rev_cases; auto)+
  have q: "hd (ys @ [lst]) \<notin> set xs" "hd (ys @ [lst]) \<notin> set (tl (ys @ [lst]))"
    using d by (cases ys; auto)+
  have "successively (linked h') (lst # xs)"
  proof (rule successively_weaken [OF c(1)])
    fix x y
    assume "x \<in> set (butlast (lst # xs))" "y \<in> set (tl (lst # xs))" "linked h x y"
    then show "linked h' x y" using p(1) q(1) d by (intro assms(3)) (auto split: if_split_asm dest: in_set_butlastD)
  qed
  moreover have "successively (linked h') (ys @ [lst])"
  proof (rule successively_weaken [OF c(2)])
    fix x y
    assume "x \<in> set (butlast (ys @ [lst]))" "y \<in> set (tl (ys @ [lst]))" "linked h x y"
    then show "linked h' x y" using p(2) q(2) d by (intro assms(3)) (auto split: if_split_asm dest: list.set_sel(2) [rotated])
  qed
  moreover have "successively (linked h') (ms @ ys @ [lst])" "linked h' (last (lst # xs)) (hd (ms @ ys @ [lst]))"
    using assms(4) calculation(2) by (cases ys; auto simp: successively_append_iff successively_Cons hd_append split: if_split_asm)+
  ultimately show ?thesis
    using assms(2) successively_append_iff [of "linked h'" "lst # xs" "ms @ ys @ [lst]"] by (simp add: dlist_def)
qed

section \<open>The operations on lists\<close>

text \<open>What each operation does to the links.\<close>

lemma Insert_links:
  assumes "node h p" "node h q" "node h e" "e \<noteq> p" "e \<noteq> q"
  obtains h' where "crinitListInsert e (Some p) (Some q) h = Ret h'"
    "nextOf h' = (nextOf h)(e := Some (Some q), p := Some (Some e))" "prevOf h' = (prevOf h)(e := Some (Some p), q := Some (Some e))"
proof -
  obtain h1 where h1: "set_next (Some e) (Some q) h = Ret h1" "nextOf h1 = (nextOf h)(e := Some (Some q))" "prevOf h1 = prevOf h"
    by (rule set_next_ok [OF assms(3)])
  then have "node h1 e" by (simp add: node_exists(1))
  then obtain h2 where h2: "set_prev (Some e) (Some p) h1 = Ret h2" "nextOf h2 = nextOf h1" "prevOf h2 = (prevOf h1)(e := Some (Some p))"
    by (rule set_prev_ok)
  have "node h2 q" using assms(2) by (simp add: node_exists(2) h2 h1)
  then obtain h3 where h3: "set_prev (Some q) (Some e) h2 = Ret h3" "nextOf h3 = nextOf h2" "prevOf h3 = (prevOf h2)(q := Some (Some e))"
    by (rule set_prev_ok)
  have "node h3 p" using assms(1) by (simp add: node_exists(1) h3 h2 h1)
  then obtain h4 where h4: "set_next (Some p) (Some e) h3 = Ret h4" "nextOf h4 = (nextOf h3)(p := Some (Some e))" "prevOf h4 = prevOf h3"
    by (rule set_next_ok)
  show thesis by (rule that [of h4]) (simp_all add: crinitListInsert_def h1 h2 h3 h4)
qed

lemma Delete_links:
  assumes "node h p" "node h q" "nextOf h e = Some (Some q)" "prevOf h e = Some (Some p)" "e \<noteq> p" "e \<noteq> q"
  obtains h' where "crinitListDelete e h = Ret h'"
    "nextOf h' = (nextOf h)(p := Some (Some q), e := Some None)" "prevOf h' = (prevOf h)(q := Some (Some p), e := Some None)"
proof -
  have e: "node h e" using assms(3) by (simp add: node_exists(1))
  obtain n where n: "get_node (Some e) h = Ret n" "nextOf h e = Some (nextNode n)" "prevOf h e = Some (prevNode n)"
    by (rule get_node_ok [OF e])
  obtain h1 where h1: "set_prev (Some q) (Some p) h = Ret h1" "nextOf h1 = nextOf h" "prevOf h1 = (prevOf h)(q := Some (Some p))"
    by (rule set_prev_ok [OF assms(2)])
  have "node h1 e" using e by (simp add: node_exists(1) h1)
  then obtain m where m: "get_node (Some e) h1 = Ret m" "nextOf h1 e = Some (nextNode m)" "prevOf h1 e = Some (prevNode m)"
    by (rule get_node_ok)
  have "node h1 p" using assms(1) by (simp add: node_exists(1) h1)
  then obtain h2 where h2: "set_next (Some p) (Some q) h1 = Ret h2" "nextOf h2 = (nextOf h1)(p := Some (Some q))" "prevOf h2 = prevOf h1"
    by (rule set_next_ok)
  have "node h2 e" using e assms(5) by (simp add: node_exists(1) h2 h1)
  then obtain h3 where h3: "set_next (Some e) None h2 = Ret h3" "nextOf h3 = (nextOf h2)(e := Some None)" "prevOf h3 = prevOf h2"
    by (rule set_next_ok)
  then have "node h3 e" by (simp add: node_exists(1))
  then obtain h4 where h4: "set_prev (Some e) None h3 = Ret h4" "nextOf h4 = nextOf h3" "prevOf h4 = (prevOf h3)(e := Some None)"
    by (rule set_prev_ok)
  have "nextNode n = Some q" "prevNode n = Some p" "nextNode m = Some q" "prevNode m = Some p"
    using n m assms(3-6) h1(2,3) by simp_all
  then show thesis by (intro that [of h4]) (simp_all add: crinitListDelete_def n m h1 h2 h3 h4)
qed

lemma dlist_nodes: "dlist h lst xs \<Longrightarrow> a \<in> set (lst # xs) \<Longrightarrow> node h a"
proof -
  assume d: "dlist h lst xs" and a: "a \<in> set (lst # xs)"
  obtain as bs where "lst # xs = as @ a # bs" using a by (meson split_list)
  then have "lst # xs @ [lst] = as @ a # bs @ [lst]" by (metis append_Cons append_assoc)
  then have "successively (linked h) (as @ a # bs @ [lst])" using d by (metis dlist_def)
  then have "linked h a (hd (bs @ [lst]))" by (cases bs) (auto simp: successively_append_iff successively_Cons)
  then show ?thesis by (simp add: linked_def node_exists(1))
qed

lemma insert_between:
  assumes "dlist h lst (xs @ ys)" "e \<notin> set (lst # xs @ ys)" "node h e"
  obtains h' where "crinitListInsert e (Some (last (lst # xs))) (Some (hd (ys @ [lst]))) h = Ret h'" "dlist h' lst (xs @ e # ys)"
    "\<And>c. c \<notin> set (lst # e # xs @ ys) \<Longrightarrow> nextOf h' c = nextOf h c \<and> prevOf h' c = prevOf h c"
proof -
  let ?p = "last (lst # xs)" and ?q = "hd (ys @ [lst])"
  have in_list: "?p \<in> set (lst # xs @ ys)" "?q \<in> set (lst # xs @ ys)" by (cases ys; auto)+
  then have ne: "node h ?p" "node h ?q" "e \<noteq> ?p" "e \<noteq> ?q" using dlist_nodes [OF assms(1)] assms(2) by blast+
  obtain h' where h': "crinitListInsert e (Some ?p) (Some ?q) h = Ret h'"
    "nextOf h' = (nextOf h)(e := Some (Some ?q), ?p := Some (Some e))" "prevOf h' = (prevOf h)(e := Some (Some ?p), ?q := Some (Some e))"
    by (rule Insert_links [OF ne(1,2) assms(3) ne(3,4)])
  have d': "dlist h' lst (xs @ [e] @ ys)"
  proof (rule dlist_join [where zs = "[]" and h = h])
    show "linked h' x y" if "x \<in> set (lst # xs @ ys)" "y \<in> set (lst # xs @ ys)" "x \<noteq> ?p" "y \<noteq> ?q" "linked h x y" for x y
      using that assms(2) h' by (auto simp: linked_def)
  qed (use assms h' ne in \<open>auto simp: linked_def dlist_def\<close>)
  have fr: "nextOf h' c = nextOf h c \<and> prevOf h' c = prevOf h c" if "c \<notin> set (lst # e # xs @ ys)" for c
  proof -
    have "c \<noteq> ?p" "c \<noteq> ?q" "c \<noteq> e" using that in_list by auto
    then show ?thesis by (simp add: h'(2,3))
  qed
  show thesis by (rule that [OF h'(1) _ fr]) (use d' in simp_all)
qed

lemma delete_between:
  assumes "dlist h lst (xs @ e # ys)"
  obtains h' where "crinitListDelete e h = Ret h'" "dlist h' lst (xs @ ys)" "nextOf h' e = Some None" "prevOf h' e = Some None"
    "\<And>c. c \<notin> set (lst # e # xs @ ys) \<Longrightarrow> nextOf h' c = nextOf h c \<and> prevOf h' c = prevOf h c"
proof -
  let ?p = "last (lst # xs)" and ?q = "hd (ys @ [lst])"
  have in_list: "?p \<in> set (lst # xs @ ys)" "?q \<in> set (lst # xs @ ys)" by (cases ys; auto)+
  have d: "distinct (lst # xs @ e # ys)" using assms by (simp add: dlist_def)
  have ne: "node h ?p" "node h ?q" "e \<noteq> ?p" "e \<noteq> ?q" using dlist_nodes [OF assms] in_list d by auto
  have l: "linked h ?p e" "linked h e ?q"
    using dlist_split [OF assms] dlist_split [of h lst "xs @ [e]" ys] assms by simp_all
  obtain h' where h': "crinitListDelete e h = Ret h'"
    "nextOf h' = (nextOf h)(?p := Some (Some ?q), e := Some None)" "prevOf h' = (prevOf h)(?q := Some (Some ?p), e := Some None)"
    by (rule Delete_links [OF ne(1,2) _ _ ne(3,4)]) (use l in \<open>simp_all add: linked_def\<close>)
  have d': "dlist h' lst (xs @ [] @ ys)"
  proof (rule dlist_join [where zs = "[e]" and h = h])
    show "linked h' x y" if "x \<in> set (lst # xs @ ys)" "y \<in> set (lst # xs @ ys)" "x \<noteq> ?p" "y \<noteq> ?q" "linked h x y" for x y
      using that d h' by (auto simp: linked_def)
  qed (use assms h' ne d in \<open>auto simp: linked_def\<close>)
  have fr: "nextOf h' c = nextOf h c \<and> prevOf h' c = prevOf h c" if "c \<notin> set (lst # e # xs @ ys)" for c
  proof -
    have "c \<noteq> ?p" "c \<noteq> ?q" "c \<noteq> e" using that in_list by auto
    then show ?thesis by (simp add: h'(2,3))
  qed
  show thesis by (rule that [OF h'(1) _ _ _ fr]) (use d' in \<open>simp_all add: h'(2,3)\<close>)
qed

lemma linked_node:
  assumes "linked h a b"
  obtains n where "get_node (Some a) h = Ret n" "nextNode n = Some b"
proof -
  obtain n where "h a = Some n" "nextNode n = Some b" using assms by (auto simp: linked_def nextOf_def)
  then show thesis using that [of n] by (simp add: get_node_def)
qed

lemma sorted_loop_finds:
  assumes "successively (linked h) (c # cs @ [lst])" "lst \<notin> set (c # cs)" "length cs + 2 \<le> k"
  shows "sorted_loop k f lst e (Some c) h = Ret (Some (hd (dropWhile (\<lambda>x. f x e < 0) (c # cs) @ [lst])))"
  using assms
proof (induction cs arbitrary: c k)
  case Nil
  then have k: "k = Suc (Suc (k - 2))" by simp
  have "linked h c lst" using Nil.prems(1) by simp
  then obtain n where n: "get_node (Some c) h = Ret n" "nextNode n = Some lst" by (rule linked_node)
  show ?case using Nil.prems(2) by (subst k) (auto simp: n)
next
  case (Cons d cs)
  then obtain k' where k: "k = Suc k'" by (cases k) auto
  have "linked h c d" using Cons.prems(1) by simp
  then obtain n where n: "get_node (Some c) h = Ret n" "nextNode n = Some d" by (rule linked_node)
  show ?case using Cons.prems Cons.IH [of d k'] by (auto simp: k n)
qed

lemma each_entry_visits:
  assumes "successively (linked h) (c # cs @ [lst])" "lst \<notin> set (c # cs)" "length cs + 2 \<le> k"
  shows "each_entry k lst (Some c) h = Ret (c # cs)"
  using assms
proof (induction cs arbitrary: c k)
  case Nil
  then have k: "k = Suc (Suc (k - 2))" by simp
  have "linked h c lst" using Nil.prems(1) by simp
  then obtain n where n: "get_node (Some c) h = Ret n" "nextNode n = Some lst" by (rule linked_node)
  show ?case using Nil.prems(2) by (subst k) (auto simp: n)
next
  case (Cons d cs)
  then obtain k' where k: "k = Suc k'" by (cases k) auto
  have "linked h c d" using Cons.prems(1) by simp
  then obtain n where n: "get_node (Some c) h = Ret n" "nextNode n = Some d" by (rule linked_node)
  show ?case using Cons.prems Cons.IH [of d k'] by (auto simp: k n)
qed

section \<open>Refinement\<close>

text \<open>The list at a head is \<open>ys\<close> now; nodes that are not in the list or the entry have been left alone.\<close>

definition list_step :: "listHeap \<Rightarrow> nat \<Rightarrow> nat \<Rightarrow> nat list \<Rightarrow> nat list \<Rightarrow> listHeap \<Rightarrow> bool" where
  "list_step h lst e xs ys h' \<longleftrightarrow> dlist h' lst ys \<and>
     (\<forall>c. c \<notin> set (lst # e # xs) \<longrightarrow> nextOf h' c = nextOf h c \<and> prevOf h' c = prevOf h c)"

lemma dlist_head:
  assumes "dlist h lst xs"
  obtains n where "get_node (Some lst) h = Ret n" "nextNode n = Some (hd (xs @ [lst]))" "prevNode n = Some (last (lst # xs))"
proof -
  obtain n where n: "get_node (Some lst) h = Ret n" "nextOf h lst = Some (nextNode n)" "prevOf h lst = Some (prevNode n)"
    by (rule get_node_ok [OF dlist_nodes [OF assms, of lst]]) simp_all
  have "linked h lst (hd (xs @ [lst]))" "linked h (last (lst # xs)) lst"
    using dlist_split [of h lst "[]" xs] dlist_split [of h lst xs "[]"] assms by simp_all
  then show thesis using that [OF n(1)] n(2,3) by (simp add: linked_def)
qed

lemma Append_refines:
  assumes "dlist h lst xs" "e \<notin> set (lst # xs)" "node h e"
  shows "ret_sat (list_step h lst e xs (xs @ [e])) (crinitListAppend lst e h)"
proof -
  obtain n where n: "get_node (Some lst) h = Ret n" "prevNode n = Some (last (lst # xs))" by (rule dlist_head [OF assms(1)])
  have "linked h (last (lst # xs)) lst" using dlist_split [of h lst xs "[]"] assms(1) by simp
  then obtain m where m: "get_node (Some (last (lst # xs))) h = Ret m" "nextNode m = Some lst" by (rule linked_node)
  obtain h' where h': "crinitListInsert e (Some (last (lst # xs))) (Some (hd ([] @ [lst]))) h = Ret h'" "dlist h' lst (xs @ e # [])"
    "\<And>c. c \<notin> set (lst # e # xs @ []) \<Longrightarrow> nextOf h' c = nextOf h c \<and> prevOf h' c = prevOf h c"
    by (rule insert_between [of h lst xs "[]" e]) (use assms in simp_all)
  then have "crinitListAppend lst e h = Ret h'" using n m by (simp add: crinitListAppend_def)
  then show ?thesis using h'(2,3) by (simp add: list_step_def)
qed

lemma Prepend_refines:
  assumes "dlist h lst xs" "e \<notin> set (lst # xs)" "node h e"
  shows "ret_sat (list_step h lst e xs (e # xs)) (crinitListPrepend lst e h)"
proof -
  obtain n where n: "get_node (Some lst) h = Ret n" "nextNode n = Some (hd (xs @ [lst]))" by (rule dlist_head [OF assms(1)])
  obtain h' where h': "crinitListInsert e (Some (last [lst])) (Some (hd (xs @ [lst]))) h = Ret h'" "dlist h' lst ([] @ e # xs)"
    "\<And>c. c \<notin> set (lst # e # [] @ xs) \<Longrightarrow> nextOf h' c = nextOf h c \<and> prevOf h' c = prevOf h c"
    by (rule insert_between [of h lst "[]" xs e]) (use assms in simp_all)
  then have "crinitListPrepend lst e h = Ret h'" using n by (simp add: crinitListPrepend_def)
  then show ?thesis using h'(2,3) by (simp add: list_step_def)
qed

lemma InsertSorted_refines:
  assumes "dlist h lst xs" "e \<notin> set (lst # xs)" "node h e" "length xs < k"
  shows "ret_sat (list_step h lst e xs (takeWhile (\<lambda>x. f x e < 0) xs @ e # dropWhile (\<lambda>x. f x e < 0) xs))
    (crinitListInsertSorted k lst e f h)"
proof -
  let ?as = "takeWhile (\<lambda>x. f x e < 0) xs" and ?bs = "dropWhile (\<lambda>x. f x e < 0) xs"
  obtain n where n: "get_node (Some lst) h = Ret n" "nextNode n = Some (hd (xs @ [lst]))" by (rule dlist_head [OF assms(1)])
  have d: "lst \<notin> set xs" "successively (linked h) (xs @ [lst])" using assms(1) by (auto simp: dlist_def successively_Cons)
  have loop: "sorted_loop k f lst e (Some (hd (xs @ [lst]))) h = Ret (Some (hd (?bs @ [lst])))"
  proof (cases xs)
    case Nil
    then show ?thesis using assms(4) by (cases k) simp_all
  next
    case (Cons c cs)
    then show ?thesis using sorted_loop_finds [of h c cs lst k f e] d assms(4) by simp
  qed
  show ?thesis
  proof (cases ?bs)
    case Nil
    then have "?as = xs" by (metis append_Nil2 takeWhile_dropWhile_id)
    then have "takeWhile (\<lambda>x. f x e < 0) xs @ e # ?bs = xs @ [e]" using Nil by (simp only:)
    moreover have "crinitListInsertSorted k lst e f h = crinitListAppend lst e h"
      using n loop unfolding Nil by (simp add: crinitListInsertSorted_def)
    ultimately show ?thesis using Append_refines [OF assms(1-3)] by (simp only:)
  next
    case (Cons b bs)
    have xs: "xs = ?as @ b # bs" using Cons by (metis takeWhile_dropWhile_id)
    then have b: "b \<noteq> lst" using d(1) by (metis in_set_conv_decomp)
    have "linked h (last (lst # ?as)) b" using dlist_split [of h lst ?as "b # bs"] assms(1) xs by simp
    then have l: "prevOf h b = Some (Some (last (lst # ?as)))" by (simp add: linked_def)
    then have "node h b" by (simp add: node_exists(2))
    then obtain m where m: "get_node (Some b) h = Ret m" "prevOf h b = Some (prevNode m)" by (rule get_node_ok)
    obtain h' where h': "crinitListInsert e (Some (last (lst # ?as))) (Some (hd ((b # bs) @ [lst]))) h = Ret h'" "dlist h' lst (?as @ e # b # bs)"
      "\<And>c. c \<notin> set (lst # e # ?as @ b # bs) \<Longrightarrow> nextOf h' c = nextOf h c \<and> prevOf h' c = prevOf h c"
      by (rule insert_between [of h lst ?as "b # bs" e]) (use assms xs in simp_all)
    have "crinitListInsertSorted k lst e f h = Ret h'"
      using n loop m l b h'(1) Cons by (simp add: crinitListInsertSorted_def)
    then show ?thesis using h'(2,3) xs Cons by (simp add: list_step_def)
  qed
qed

lemma Delete_refines:
  assumes "dlist h lst xs" "e \<in> set xs"
  shows "ret_sat (\<lambda>h'. list_step h lst e xs (remove1 e xs) h' \<and> nextOf h' e = Some None \<and> prevOf h' e = Some None) (crinitListDelete e h)"
proof -
  obtain as bs where xs: "xs = as @ e # bs" "e \<notin> set as" using assms(2) by (meson split_list_first)
  obtain h' where h': "crinitListDelete e h = Ret h'" "dlist h' lst (as @ bs)" "nextOf h' e = Some None" "prevOf h' e = Some None"
    "\<And>c. c \<notin> set (lst # e # as @ bs) \<Longrightarrow> nextOf h' c = nextOf h c \<and> prevOf h' c = prevOf h c"
    by (rule delete_between [of h lst as e bs]) (use assms(1) xs in simp_all)
  then show ?thesis using xs by (auto simp: list_step_def remove1_append)
qed

text \<open>
  C24: on a well-formed circular list, appending, prepending, sorted insertion and deletion give the corresponding
  well-formed list and leave all other nodes alone, the loop over the entries visits exactly them in order, and the test
  for emptiness is right; none of them follows a null pointer.
\<close>

theorem list_refines:
  assumes "dlist h lst xs" "e \<notin> set (lst # xs)" "node h e" "length xs < k"
  shows "ret_sat (list_step h lst e xs (xs @ [e])) (crinitListAppend lst e h) \<and>
    ret_sat (list_step h lst e xs (e # xs)) (crinitListPrepend lst e h) \<and>
    ret_sat (list_step h lst e xs (takeWhile (\<lambda>x. f x e < 0) xs @ e # dropWhile (\<lambda>x. f x e < 0) xs)) (crinitListInsertSorted k lst e f h) \<and>
    (\<forall>x \<in> set xs. ret_sat (list_step h lst x xs (remove1 x xs)) (crinitListDelete x h)) \<and>
    crinitListForEachEntry k lst h = Ret xs \<and> crinitListIsEmpty lst h = Ret (xs = [])"
proof -
  obtain n where n: "get_node (Some lst) h = Ret n" "nextNode n = Some (hd (xs @ [lst]))" by (rule dlist_head [OF assms(1)])
  have d: "lst \<notin> set xs" "successively (linked h) (xs @ [lst])" using assms(1) by (auto simp: dlist_def successively_Cons)
  have "crinitListForEachEntry k lst h = Ret xs"
  proof (cases xs)
    case Nil
    then show ?thesis using n assms(4) by (cases k) (simp_all add: crinitListForEachEntry_def)
  next
    case (Cons c cs)
    then show ?thesis using n each_entry_visits [of h c cs lst k] d assms(4) by (simp add: crinitListForEachEntry_def)
  qed
  moreover have "crinitListIsEmpty lst h = Ret (xs = [])" using n d(1) by (cases xs) (auto simp: crinitListIsEmpty_def)
  ultimately show ?thesis
    using Append_refines [OF assms(1-3)] Prepend_refines [OF assms(1-3)] InsertSorted_refines [OF assms] Delete_refines [OF assms(1)]
    by (auto intro: ret_sat_mono)
qed

theorem list_refines_witness:
  "ret_sat (list_step (map_of [(0, \<lparr>prevNode = Some 2, nextNode = Some 1\<rparr>), (1, \<lparr>prevNode = Some 0, nextNode = Some 2\<rparr>),
       (2, \<lparr>prevNode = Some 1, nextNode = Some 0\<rparr>), (3, \<lparr>prevNode = None, nextNode = None\<rparr>)]) 0 3 [1, 2] [1, 2, 3])
     (crinitListAppend 0 3 (map_of [(0, \<lparr>prevNode = Some 2, nextNode = Some 1\<rparr>), (1, \<lparr>prevNode = Some 0, nextNode = Some 2\<rparr>),
       (2, \<lparr>prevNode = Some 1, nextNode = Some 0\<rparr>), (3, \<lparr>prevNode = None, nextNode = None\<rparr>)]))"
  using list_refines [of "map_of [(0, \<lparr>prevNode = Some 2, nextNode = Some 1\<rparr>), (1, \<lparr>prevNode = Some 0, nextNode = Some 2\<rparr>),
       (2, \<lparr>prevNode = Some 1, nextNode = Some 0\<rparr>), (3, \<lparr>prevNode = None, nextNode = None\<rparr>)]" 0 "[1, 2]" 3 3 "\<lambda>x y. 0"]
  by (simp add: dlist_def linked_def nextOf_def prevOf_def node_def)

end
