(* ===== verification/Elos.thy ===== *)
theory Elos
  imports TaskDBProps
begin

unbundle bit_operations_syntax

text \<open>
  Dependencies on events of the elos daemon, \<open>src/src/elos-common.c\<close> and \<open>src/src/elosdep.c\<close>. The elos library is not
  part of the sources: what its functions answer is an argument. Lists are linked by \<open>src/inc/list.h\<close>.
\<close>

section \<open>The library\<close>

record elosEnv =
  elServerMem :: bool
  elDefaultMem :: bool
  elDlopen :: bool
  elSymbol :: "string \<Rightarrow> bool"
  elConnect :: "nat \<Rightarrow> bool"
  elVersion :: "int \<times> bool"
  elSubscribe :: "string \<Rightarrow> int \<times> bool \<times> nat"
  elUnsubscribe :: "nat \<Rightarrow> int \<times> bool"
  elRead :: "nat \<Rightarrow> int \<times> bool \<times> nat"
  elDisconnect :: int
  elTaskMem :: bool
  elTaskMutex :: bool
  elFilterMem :: bool
  elThread :: "bool \<times> bool \<times> bool \<times> bool \<times> bool"

text \<open>
  The table: how many of its functions have been found, and whether the library they are in is still open. Releasing the
  name of the server leaves the pointer to it.
\<close>

record crinitElosVirtualTable =
  vtServer :: "string option"
  vtServerFreed :: bool
  vtPort :: int
  vtLoaded :: nat
  vtOpen :: bool

definition elos_symbols :: "string list" where
  "elos_symbols =
     [''elosConnectTcpip'', ''elosGetVersion'', ''elosEventSubscribe'', ''elosEventUnsubscribe'', ''elosEventPublish'',
      ''elosEventQueueRead'', ''safuVecGetLast'', ''elosEventVectorDelete'', ''elosDisconnect'']"

text \<open>Fetching the functions up to the first that is missing, after which the library is closed.\<close>

definition fetch_symbols :: "elosEnv \<Rightarrow> crinitElosVirtualTable \<Rightarrow> bool \<times> crinitElosVirtualTable" where
  "fetch_symbols e vt =
     (let n = length (takeWhile (elSymbol e) elos_symbols); ok = (n = length elos_symbols) in
      (ok, vt\<lparr>vtLoaded := n, vtOpen := ok\<rparr>))"

text \<open>A missing function makes the result 0, which is also that of success.\<close>

definition crinitElosInit ::
  "elosEnv \<Rightarrow> crinitElosVirtualTable \<Rightarrow> mutex \<Rightarrow> crinitGlobOptStore \<Rightarrow> (int \<times> crinitElosVirtualTable \<times> mutex \<times> crinitGlobOptStore) run" where
  "crinitElosInit e vt l g =
     bind_run (pthread_mutex_lock l) (\<lambda>(err, l).
       if err \<noteq> 0 then Ret (-1, vt, l, g)
       else bind_run
         (if vtLoaded vt > 0 then Ret (0, vt, g)
          else bind_run (crinitGlobOptGetString (elServerMem e) ElosServer g) (\<lambda>(r, server, g).
            if r = -1 \<and> \<not> elDefaultMem e then Ret (-1, vt\<lparr>vtServer := None\<rparr>, g)
            else let vt = vt\<lparr>vtServer := (if r = -1 then Some ''127.0.0.1'' else server), vtServerFreed := False\<rparr> in
              bind_run (crinitGlobOptGetInteger g) (\<lambda>(r, port, g).
                let vt = vt\<lparr>vtPort := (if r = -1 then 54321 else port)\<rparr> in
                if \<not> elDlopen e then Ret (-1, vt\<lparr>vtServerFreed := True\<rparr>, g)
                else case fetch_symbols e vt of (ok, vt) \<Rightarrow>
                  Ret (0, if ok then vt else vt\<lparr>vtServerFreed := True\<rparr>, g))))
         (\<lambda>(res, vt, g). case pthread_mutex_unlock l of (err, l) \<Rightarrow> Ret (if err \<noteq> 0 then -1 else res, vt, l, g)))"

section \<open>Calls of the library\<close>

text \<open>A session, if there is one, and whether it is connected; its lock.\<close>

record elosConn =
  esSession :: "bool option"
  esLock :: mutex

abbreviation (input) CRINIT_ELOS_CONNECTION_RETRIES :: nat where "CRINIT_ELOS_CONNECTION_RETRIES \<equiv> 10"

primrec connect_tries :: "nat \<Rightarrow> nat \<Rightarrow> (nat \<Rightarrow> bool) \<Rightarrow> bool" where
  "connect_tries 0 i connects = connects i"
| "connect_tries (Suc k) i connects = (connects i \<or> connect_tries k (Suc i) connects)"

text \<open>
  \<open>crinitElosTryExec\<close> with the answer of the called function, and whether the session is connected after it. The
  library provides a session exactly when it reports a connection. Without a connection the lock is not released.
\<close>

definition crinitElosTryExec ::
  "elosEnv \<Rightarrow> crinitElosVirtualTable \<Rightarrow> int \<times> bool \<Rightarrow> elosConn \<Rightarrow> (int \<times> elosConn) run" where
  "crinitElosTryExec e vt answer s =
     bind_run (pthread_mutex_lock (esLock s)) (\<lambda>(err, m).
       let s = s\<lparr>esLock := m\<rparr> in
       if err \<noteq> 0 then Ret (-1, s)
       else let s = (if esSession s = Some False then s\<lparr>esSession := None\<rparr> else s) in
         bind_run
           (if esSession s \<noteq> None then Ret (0, s)
            else if vtServer vt = None then Ret (-1, s)
            else if vtServerFreed vt \<or> \<not> vtOpen vt then Undef
            else Ret (if connect_tries CRINIT_ELOS_CONNECTION_RETRIES 0 (elConnect e) then (0, s\<lparr>esSession := Some True\<rparr>) else (-1, s)))
           (\<lambda>(res, s).
             if res \<noteq> 0 then Ret (res, s)
             else if \<not> vtOpen vt then Undef
             else case pthread_mutex_unlock (esLock s) of (err, m) \<Rightarrow>
               Ret (if err \<noteq> 0 then -1 else fst answer, s\<lparr>esSession := Some (snd answer), esLock := m\<rparr>)))"

definition crinitElosDisconnect :: "elosEnv \<Rightarrow> crinitElosVirtualTable \<Rightarrow> elosConn \<Rightarrow> (int \<times> elosConn) run" where
  "crinitElosDisconnect e vt s =
     (if esSession s = None then Ret (0, s)
      else bind_run (pthread_mutex_lock (esLock s)) (\<lambda>(err, m).
        if err \<noteq> 0 then Ret (-1, s\<lparr>esLock := m\<rparr>)
        else if \<not> vtOpen vt then Undef
        else case pthread_mutex_unlock m of (err, m) \<Rightarrow> Ret (if err \<noteq> 0 then -1 else elDisconnect e, s\<lparr>esLock := m\<rparr>)))"

section \<open>Filters\<close>

record crinitElosdepFilter =
  flName :: string
  flFilter :: string
  eventQueueId :: nat

text \<open>
  The task is kept as a pointer into the array of tasks: an index, and the size of the array at that time. Once the array
  has been reallocated the pointer is not valid any more.
\<close>

record crinitElosdepFilterTask =
  ftTask :: nat
  ftRoom :: nat
  filterList :: "crinitElosdepFilter list"
  filterLock :: mutex

record elosdep =
  edVTable :: crinitElosVirtualTable
  edVTableLock :: mutex
  crinitFilterTasks :: "crinitElosdepFilterTask list"
  crinitElosdepFilterTaskLock :: mutex
  edConn :: elosConn
  elosStarted :: bool
  crinitElosActivated :: bool
  crinitElosActivatedLock :: mutex

text \<open>Running an operation on the members of a filter task under its lock.\<close>

definition with_filter_lock ::
  "(crinitElosdepFilter list \<Rightarrow> crinitElosdepFilter list) \<Rightarrow> crinitElosdepFilterTask \<Rightarrow> (int \<times> crinitElosdepFilterTask) run" where
  "with_filter_lock f ft =
     bind_run (pthread_mutex_lock (filterLock ft)) (\<lambda>(err, m).
       if err \<noteq> 0 then Ret (-1, ft\<lparr>filterLock := m\<rparr>)
       else case pthread_mutex_unlock m of (err, m) \<Rightarrow>
         Ret (if err \<noteq> 0 then -1 else 0, ft\<lparr>filterList := f (filterList ft), filterLock := m\<rparr>))"

definition crinitElosdepFilterRegister :: "crinitElosdepFilter \<Rightarrow> crinitElosdepFilterTask \<Rightarrow> (int \<times> crinitElosdepFilterTask) run" where
  "crinitElosdepFilterRegister f = with_filter_lock (\<lambda>fs. fs @ [f])"

text \<open>The filter to be removed is given by its place in the list.\<close>

definition crinitElosdepFilterUnregister :: "nat \<Rightarrow> crinitElosdepFilterTask \<Rightarrow> (int \<times> crinitElosdepFilterTask) run" where
  "crinitElosdepFilterUnregister k = with_filter_lock (\<lambda>fs. take k fs @ drop (Suc k) fs)"

definition crinitElosdepFilterListClear :: "crinitElosdepFilterTask \<Rightarrow> (int \<times> crinitElosdepFilterTask) run" where
  "crinitElosdepFilterListClear = with_filter_lock (\<lambda>_. [])"

definition crinitElosdepFilterTaskDestroy :: "crinitElosdepFilterTask \<Rightarrow> int run" where
  "crinitElosdepFilterTaskDestroy ft = map_ret fst (crinitElosdepFilterListClear ft)"

text \<open>The loop over the tasks; one that cannot be destroyed has already been taken out.\<close>

fun clear_loop :: "crinitElosdepFilterTask list \<Rightarrow> (int \<times> crinitElosdepFilterTask list) run" where
  "clear_loop [] = Ret (0, [])"
| "clear_loop (ft # fts) =
     bind_run (crinitElosdepFilterTaskDestroy ft) (\<lambda>r. if r \<noteq> 0 then Ret (-1, fts) else clear_loop fts)"

definition crinitElosdepFilterTaskListClear :: "elosdep \<Rightarrow> (int \<times> elosdep) run" where
  "crinitElosdepFilterTaskListClear d =
     bind_run (pthread_mutex_lock (crinitElosdepFilterTaskLock d)) (\<lambda>(err, m).
       if err \<noteq> 0 then Ret (-1, d\<lparr>crinitElosdepFilterTaskLock := m\<rparr>)
       else bind_run (clear_loop (crinitFilterTasks d)) (\<lambda>(res, fts). case pthread_mutex_unlock m of (err, m) \<Rightarrow>
         Ret (if err \<noteq> 0 then -1 else res, d\<lparr>crinitFilterTasks := fts, crinitElosdepFilterTaskLock := m\<rparr>)))"

text \<open>
  The definition of a filter among the strings \<open>NAME=rule\<close> of a task. The two copies of its parts, whose results
  the code does not check, are taken to succeed.
\<close>

definition defines_filter :: "string \<Rightarrow> string \<Rightarrow> bool" where
  "defines_filter n s \<longleftrightarrow> take (length n) s = n \<and> drop (length n) s \<noteq> [] \<and> hd (drop (length n) s) = CHR ''=''"

fun filter_search :: "string \<Rightarrow> string option list \<Rightarrow> string option run" where
  "filter_search n [] = Undef"
| "filter_search n (None # xs) = Ret None"
| "filter_search n (Some s # xs) = (if defines_filter n s then Ret (Some s) else filter_search n xs)"

definition crinitElosdepFilterFromEnvSet :: "elosEnv \<Rightarrow> crinitTask \<Rightarrow> string \<Rightarrow> crinitElosdepFilter option run" where
  "crinitElosdepFilterFromEnvSet e t n =
     (if CHR ''='' \<in> set n then Ret None
      else case envp (elosFilters t) of
        None \<Rightarrow> Undef
      | Some xs \<Rightarrow> map_ret (\<lambda>r. case r of
            None \<Rightarrow> None
          | Some s \<Rightarrow> if elFilterMem e then Some \<lparr>flName = n, flFilter = drop (Suc (length n)) s, eventQueueId = 0\<rparr> else None)
          (filter_search n xs))"

definition crinitElosdepFilterSubscribe ::
  "elosEnv \<Rightarrow> crinitElosVirtualTable \<Rightarrow> crinitElosdepFilter \<Rightarrow> elosConn \<Rightarrow> (int \<times> crinitElosdepFilter \<times> elosConn) run" where
  "crinitElosdepFilterSubscribe e vt f s =
     (case elSubscribe e (flFilter f) of (r, c, q) \<Rightarrow>
        map_ret (\<lambda>(res, s). (res, if res = 0 then f\<lparr>eventQueueId := q\<rparr> else f, s)) (crinitElosTryExec e vt (r, c) s))"

definition crinitElosdepFilterUnsubscribe :: "elosEnv \<Rightarrow> crinitElosVirtualTable \<Rightarrow> crinitElosdepFilter \<Rightarrow> elosConn \<Rightarrow> (int \<times> elosConn) run" where
  "crinitElosdepFilterUnsubscribe e vt f s = crinitElosTryExec e vt (elUnsubscribe e (eventQueueId f)) s"

text \<open>The loops over all filters of all tasks.\<close>

fun subscribe_filters ::
  "elosEnv \<Rightarrow> crinitElosVirtualTable \<Rightarrow> crinitElosdepFilter list \<Rightarrow> elosConn \<Rightarrow> (int \<times> crinitElosdepFilter list \<times> elosConn) run" where
  "subscribe_filters e vt [] s = Ret (0, [], s)"
| "subscribe_filters e vt (f # fs) s =
     bind_run (crinitElosdepFilterSubscribe e vt f s) (\<lambda>(r, f, s).
       if r \<noteq> 0 then Ret (r, f # fs, s)
       else map_ret (\<lambda>(r, fs, s). (r, f # fs, s)) (subscribe_filters e vt fs s))"

fun subscribe_tasks ::
  "elosEnv \<Rightarrow> crinitElosVirtualTable \<Rightarrow> crinitElosdepFilterTask list \<Rightarrow> elosConn \<Rightarrow> (int \<times> crinitElosdepFilterTask list \<times> elosConn) run" where
  "subscribe_tasks e vt [] s = Ret (0, [], s)"
| "subscribe_tasks e vt (ft # fts) s =
     bind_run (subscribe_filters e vt (filterList ft) s) (\<lambda>(r, fs, s).
       if r \<noteq> 0 then Ret (r, ft\<lparr>filterList := fs\<rparr> # fts, s)
       else map_ret (\<lambda>(r, fts, s). (r, ft\<lparr>filterList := fs\<rparr> # fts, s)) (subscribe_tasks e vt fts s))"

definition crinitElosdepFilterListSubscribe :: "elosEnv \<Rightarrow> elosdep \<Rightarrow> (int \<times> elosdep) run" where
  "crinitElosdepFilterListSubscribe e d =
     bind_run (pthread_mutex_lock (crinitElosdepFilterTaskLock d)) (\<lambda>(err, m).
       if err \<noteq> 0 then Ret (-1, d\<lparr>crinitElosdepFilterTaskLock := m\<rparr>)
       else bind_run (subscribe_tasks e (edVTable d) (crinitFilterTasks d) (edConn d)) (\<lambda>(res, fts, s).
         case pthread_mutex_unlock m of (err, m) \<Rightarrow>
           Ret (if err \<noteq> 0 then -1 else res, d\<lparr>crinitFilterTasks := fts, edConn := s, crinitElosdepFilterTaskLock := m\<rparr>)))"

fun unsubscribe_filters :: "elosEnv \<Rightarrow> crinitElosVirtualTable \<Rightarrow> crinitElosdepFilter list \<Rightarrow> elosConn \<Rightarrow> (int \<times> elosConn) run" where
  "unsubscribe_filters e vt [] s = Ret (0, s)"
| "unsubscribe_filters e vt (f # fs) s =
     bind_run (crinitElosdepFilterUnsubscribe e vt f s) (\<lambda>(r, s). if r \<noteq> 0 then Ret (r, s) else unsubscribe_filters e vt fs s)"

definition crinitElosdepFilterListUnsubscribe :: "elosEnv \<Rightarrow> elosdep \<Rightarrow> (int \<times> elosdep) run" where
  "crinitElosdepFilterListUnsubscribe e d =
     bind_run (pthread_mutex_lock (crinitElosdepFilterTaskLock d)) (\<lambda>(err, m).
       if err \<noteq> 0 then Ret (-1, d\<lparr>crinitElosdepFilterTaskLock := m\<rparr>)
       else bind_run (unsubscribe_filters e (edVTable d) (concat (map filterList (crinitFilterTasks d))) (edConn d)) (\<lambda>(res, s).
         case pthread_mutex_unlock m of (err, m) \<Rightarrow>
           Ret (if err \<noteq> 0 then -1 else res, d\<lparr>edConn := s, crinitElosdepFilterTaskLock := m\<rparr>)))"

section \<open>New tasks\<close>

text \<open>
  The filter task of the task being added: none, one whose members are not initialised, one that is not in the list, or the
  place of one that is.
\<close>

datatype filterTaskPtr = FtNull | FtUninit | FtUnlisted crinitElosdepFilterTask | FtListed nat

definition with_filter_task ::
  "(crinitElosdepFilterTask \<Rightarrow> elosdep \<Rightarrow> (int \<times> crinitElosdepFilterTask \<times> elosdep) run) \<Rightarrow> filterTaskPtr \<Rightarrow> elosdep \<Rightarrow>
     (int \<times> filterTaskPtr \<times> elosdep) run" where
  "with_filter_task f p d =
     (case p of
        FtNull \<Rightarrow> Undef
      | FtUninit \<Rightarrow> Undef
      | FtUnlisted ft \<Rightarrow> map_ret (\<lambda>(r, ft, d). (r, FtUnlisted ft, d)) (f ft d)
      | FtListed k \<Rightarrow> map_ret (\<lambda>(r, ft, d). (r, FtListed k, d\<lparr>crinitFilterTasks := (crinitFilterTasks d)[k := ft]\<rparr>))
          (f (crinitFilterTasks d ! k) d))"

definition new_filter_task :: "elosEnv \<Rightarrow> nat \<Rightarrow> nat \<Rightarrow> elosdep \<Rightarrow> (int \<times> filterTaskPtr \<times> elosdep) run" where
  "new_filter_task e i room d =
     (if \<not> elTaskMem e then Ret (-1, FtNull, d)
      else if \<not> elTaskMutex e then Ret (-1, FtUninit, d)
      else let ft = \<lparr>ftTask = i, ftRoom = room, filterList = [], filterLock = Unlocked\<rparr> in
        bind_run (pthread_mutex_lock (crinitElosdepFilterTaskLock d)) (\<lambda>(err, m).
          if err \<noteq> 0 then Ret (-1, FtUnlisted ft, d\<lparr>crinitElosdepFilterTaskLock := m\<rparr>)
          else case pthread_mutex_unlock m of (err, m) \<Rightarrow>
            Ret (if err \<noteq> 0 then -1 else 0, FtListed (length (crinitFilterTasks d)),
                 d\<lparr>crinitFilterTasks := crinitFilterTasks d @ [ft], crinitElosdepFilterTaskLock := m\<rparr>)))"

definition add_filter :: "elosEnv \<Rightarrow> crinitElosdepFilter \<Rightarrow> crinitElosdepFilterTask \<Rightarrow> elosdep \<Rightarrow> (int \<times> crinitElosdepFilterTask \<times> elosdep) run" where
  "add_filter e f ft d =
     bind_run (crinitElosdepFilterRegister f ft) (\<lambda>(r, ft).
       if r \<noteq> 0 then Ret (r, ft, d)
       else if \<not> elosStarted d then Ret (0, ft, d)
       else bind_run (crinitElosdepFilterSubscribe e (edVTable d) f (edConn d)) (\<lambda>(r, f, s).
         Ret (r, ft\<lparr>filterList := butlast (filterList ft) @ [f]\<rparr>, d\<lparr>edConn := s\<rparr>)))"

text \<open>\<open>i\<close> is the place of the task \<open>t\<close> in an array of \<open>room\<close> tasks.\<close>

definition crinitElosdepRegisterFilterDep ::
  "elosEnv \<Rightarrow> nat \<Rightarrow> nat \<Rightarrow> crinitTask \<Rightarrow> crinitTaskDep \<Rightarrow> filterTaskPtr \<Rightarrow> elosdep \<Rightarrow> (int \<times> filterTaskPtr \<times> elosdep) run" where
  "crinitElosdepRegisterFilterDep e i room t dep p d =
     (if depName dep \<noteq> ''@elos'' then Ret (0, p, d)
      else bind_run (if p = FtNull then new_filter_task e i room d else Ret (0, p, d)) (\<lambda>(r, p, d).
        if r \<noteq> 0 then Ret (-1, p, d)
        else bind_run (crinitElosdepFilterFromEnvSet e t (event dep)) (\<lambda>x. case x of
            None \<Rightarrow> Ret (-1, p, d)
          | Some f \<Rightarrow> with_filter_task (add_filter e f) p d)))"

fun register_loop ::
  "elosEnv \<Rightarrow> nat \<Rightarrow> nat \<Rightarrow> crinitTask \<Rightarrow> crinitTaskDep list \<Rightarrow> int \<Rightarrow> filterTaskPtr \<Rightarrow> elosdep \<Rightarrow> (int \<times> filterTaskPtr \<times> elosdep) run" where
  "register_loop e i room t [] res p d = Ret (res, p, d)"
| "register_loop e i room t (dep # ds) res p d =
     bind_run (crinitElosdepRegisterFilterDep e i room t dep p d) (\<lambda>(r, p, d).
       if r \<noteq> 0 then Ret (r, p, d) else register_loop e i room t ds r p d)"

text \<open>An error among the dependencies is forgotten when the triggers are gone through.\<close>

definition crinitElosdepTaskAdded :: "elosEnv \<Rightarrow> nat \<Rightarrow> nat \<Rightarrow> crinitTask \<Rightarrow> elosdep \<Rightarrow> (int \<times> elosdep) run" where
  "crinitElosdepTaskAdded e i room t d =
     bind_run (register_loop e i room t (deps t) 0 FtNull d) (\<lambda>(res, p, d).
     map_ret (\<lambda>(res, p, d). (res, d)) (register_loop e i room t (trig t) res p d))"

section \<open>The listener\<close>

text \<open>
  One pass over the filters of a task from place \<open>k\<close> on. A pointer to a task in an array that has been reallocated since
  is not followed. The vector of events is one variable for all reads: a successful read stores a new one there, with
  the number of events that \<open>elRead\<close> gives, and after a read that failed it is not looked at.
\<close>

fun read_filters ::
  "elosEnv \<Rightarrow> crinitElosVirtualTable \<Rightarrow> nat \<Rightarrow> crinitElosdepFilter list \<Rightarrow> crinitElosdepFilterTask \<Rightarrow> elosConn \<Rightarrow> world \<Rightarrow>
     (int \<times> crinitElosdepFilterTask \<times> elosConn \<times> world) run" where
  "read_filters e vt k [] ft s w = Ret (0, ft, s, w)"
| "read_filters e vt k (f # fs) ft s w =
     (case elRead e (eventQueueId f) of (r, c, n) \<Rightarrow>
        bind_run (crinitElosTryExec e vt (r, c) s) (\<lambda>(err, s).
          if \<not> (err = 0 \<and> n > 0) then read_filters e vt (Suc k) fs ft s w
          else if ftRoom ft \<noteq> taskSetSize (taskDB w) \<or> ftTask ft \<ge> length (taskSet (taskDB w)) then Undef
          else bind_run (crinitTaskDBFulfillDep w \<lparr>depName = ''@elos'', event = flName f\<rparr> (Some (ftTask ft))) (\<lambda>(err, w).
            if err \<noteq> 0 then Ret (err, ft, s, w)
            else if opts (taskSet (taskDB w) ! ftTask ft) AND CRINIT_TASK_OPT_TRIGGER_REARM \<noteq> 0
            then read_filters e vt (Suc k) fs ft s w
            else bind_run (crinitElosdepFilterUnregister k ft) (\<lambda>(err, ft).
              if err \<noteq> 0 then Ret (err, ft, s, w) else read_filters e vt k fs ft s w))))"

fun read_tasks ::
  "elosEnv \<Rightarrow> crinitElosVirtualTable \<Rightarrow> crinitElosdepFilterTask list \<Rightarrow> elosConn \<Rightarrow> world \<Rightarrow>
     (int \<times> crinitElosdepFilterTask list \<times> elosConn \<times> world) run" where
  "read_tasks e vt [] s w = Ret (0, [], s, w)"
| "read_tasks e vt (ft # fts) s w =
     bind_run (read_filters e vt 0 (filterList ft) ft s w) (\<lambda>(err, ft, s, w).
       if err \<noteq> 0 then Ret (err, ft # fts, s, w)
       else map_ret (\<lambda>(err, fts, s, w). (err, ft # fts, s, w)) (read_tasks e vt fts s w))"

text \<open>How a part of the listener ends: going on, or at one of its two labels.\<close>

datatype listenerEnd = Goes_on | Connection_lost | Err_session

definition listener_start :: "elosEnv \<Rightarrow> elosdep \<Rightarrow> (listenerEnd \<times> elosdep) run" where
  "listener_start e d =
     bind_run (crinitElosTryExec e (edVTable d) (elVersion e) (edConn d)) (\<lambda>(err, s).
       let d = d\<lparr>elosStarted := True, edConn := s\<rparr> in
       if err \<noteq> 0 then Ret (Connection_lost, d)
       else map_ret (\<lambda>(err, d). (if err \<noteq> 0 then Connection_lost else Goes_on, d)) (crinitElosdepFilterListSubscribe e d))"

definition listener_round :: "elosEnv \<Rightarrow> elosdep \<Rightarrow> world \<Rightarrow> (listenerEnd \<times> elosdep \<times> world) run" where
  "listener_round e d w =
     bind_run (pthread_mutex_lock (crinitElosActivatedLock d)) (\<lambda>(err, m).
       if err \<noteq> 0 then Ret (Connection_lost, d\<lparr>crinitElosActivatedLock := m\<rparr>, w)
       else case pthread_mutex_unlock m of (err, m) \<Rightarrow>
         let d = d\<lparr>crinitElosActivatedLock := m\<rparr> in
         if \<not> crinitElosActivated d \<or> err \<noteq> 0 then Ret (Connection_lost, d, w)
         else bind_run (pthread_mutex_lock (crinitElosdepFilterTaskLock d)) (\<lambda>(err, m).
           if err \<noteq> 0 then Ret (Connection_lost, d\<lparr>crinitElosdepFilterTaskLock := m\<rparr>, w)
           else bind_run (read_tasks e (edVTable d) (crinitFilterTasks d) (edConn d) w) (\<lambda>(err, fts, s, w).
             let d = d\<lparr>crinitFilterTasks := fts, edConn := s, crinitElosdepFilterTaskLock := snd (pthread_mutex_unlock m)\<rparr> in
             if err \<noteq> 0 then Ret (Err_session, d, w)
             else map_ret (\<lambda>(r, _, g). (if r \<noteq> 0 then Connection_lost else Goes_on, d, w\<lparr>globOpts := g\<rparr>))
               (crinitGlobOptGetUnsignedLL ElosEventPollInterval (globOpts w)))))"

definition connection_lost :: "elosdep \<Rightarrow> elosdep run" where
  "connection_lost d =
     bind_run (crinitElosdepFilterTaskListClear d) (\<lambda>(_, d).
     bind_run (pthread_mutex_lock (esLock (edConn d))) (\<lambda>(err, m).
       if err \<noteq> 0 then Ret (d\<lparr>edConn := (edConn d)\<lparr>esLock := m\<rparr>\<rparr>)
       else Ret (d\<lparr>edConn := \<lparr>esSession = None, esLock = snd (pthread_mutex_unlock m)\<rparr>, elosStarted := False\<rparr>)))"

definition err_session :: "elosEnv \<Rightarrow> elosdep \<Rightarrow> elosdep run" where
  "err_session e d =
     bind_run (crinitElosdepFilterListUnsubscribe e d) (\<lambda>(_, d).
     bind_run (crinitElosdepFilterTaskListClear d) (\<lambda>(_, d).
     map_ret (\<lambda>(_, s). d\<lparr>edConn := s\<rparr>) (crinitElosDisconnect e (edVTable d) (edConn d))))"

text \<open>
  The thread with the answers of the library in its first rounds: whether it has ended after them.
\<close>

definition listener_exit :: "elosEnv \<Rightarrow> listenerEnd \<Rightarrow> elosdep \<Rightarrow> elosdep run" where
  "listener_exit e x d = (case x of Goes_on \<Rightarrow> Ret d | Connection_lost \<Rightarrow> connection_lost d | Err_session \<Rightarrow> err_session e d)"

fun listener_loop :: "elosEnv list \<Rightarrow> elosdep \<Rightarrow> world \<Rightarrow> (bool \<times> elosdep \<times> world) run" where
  "listener_loop [] d w = Ret (False, d, w)"
| "listener_loop (e # es) d w =
     bind_run (listener_round e d w) (\<lambda>(x, d, w).
       if x = Goes_on then listener_loop es d w
       else map_ret (\<lambda>d. (True, d, w)) (listener_exit e x d))"

definition crinitElosdepEventListener :: "elosEnv \<Rightarrow> elosEnv list \<Rightarrow> elosdep \<Rightarrow> world \<Rightarrow> (bool \<times> elosdep \<times> world) run" where
  "crinitElosdepEventListener e es d w =
     bind_run (listener_start e d) (\<lambda>(x, d).
       if x = Goes_on then listener_loop es d w
       else map_ret (\<lambda>d. (True, d, w)) (listener_exit e x d))"

section \<open>Activation\<close>

definition crinitElosdepInitThreadContext :: "elosEnv \<Rightarrow> elosdep \<Rightarrow> crinitGlobOptStore \<Rightarrow> (int \<times> elosdep \<times> crinitGlobOptStore) run" where
  "crinitElosdepInitThreadContext e d g =
     map_ret (\<lambda>(_, vt, l, g). (0, d\<lparr>edVTable := vt, edVTableLock := l\<rparr>, g)) (crinitElosInit e (edVTable d) (edVTableLock d) g)"

text \<open>
  The result, and whether the thread has been started. The outcomes of the five calls on thread attributes and threads are
  given in the order of the code; after a failure the lock is not released.
\<close>

definition crinitElosdepActivate ::
  "elosEnv \<Rightarrow> bool \<Rightarrow> elosdep \<Rightarrow> crinitGlobOptStore \<Rightarrow> (int \<times> bool \<times> elosdep \<times> crinitGlobOptStore) run" where
  "crinitElosdepActivate e en d g =
     bind_run (pthread_mutex_lock (crinitElosActivatedLock d)) (\<lambda>(err, m).
       let d = d\<lparr>crinitElosActivatedLock := m\<rparr> in
       if err \<noteq> 0 then Ret (-1, False, d, g)
       else bind_run
         (if en \<and> \<not> crinitElosActivated d then
            bind_run (crinitElosdepInitThreadContext e d g) (\<lambda>(r, d, g).
              if r \<noteq> 0 then Ret (-1, False, d, g)
              else case elThread e of (attrInit, detach, stack, create, attrDestroy) \<Rightarrow>
                if \<not> (attrInit \<and> detach \<and> stack \<and> create) then Ret (-1, False, d, g)
                else Ret (if attrDestroy then 0 else -1, True, d, g))
          else Ret (0, False, d, g))
         (\<lambda>(r, thread, d, g).
           if r \<noteq> 0 then Ret (-1, thread, d, g)
           else case pthread_mutex_unlock (crinitElosActivatedLock d) of (err, m) \<Rightarrow>
             Ret (if err \<noteq> 0 then -1 else 0, thread, d\<lparr>crinitElosActivated := en, crinitElosActivatedLock := m\<rparr>, g)))"

end
