(* ===== verification/ElosSpec.thy ===== *)
theory ElosSpec
  imports Elos Samples
begin

unbundle bit_operations_syntax

text \<open>
  What the listener for events of elos does: one round with a daemon that answers, and what happens when the daemon cannot be
  reached or the library is not the expected one.
\<close>

section \<open>A round\<close>

text \<open>An event has arrived for a filter.\<close>

definition occurred :: "elosEnv \<Rightarrow> crinitElosdepFilter \<Rightarrow> bool" where
  "occurred e f \<longleftrightarrow> fst (elRead e (eventQueueId f)) = 0 \<and> snd (snd (elRead e (eventQueueId f))) > 0"

definition elos_dep :: "crinitElosdepFilter \<Rightarrow> crinitTaskDep" where
  "elos_dep f = \<lparr>depName = ''@elos'', event = flName f\<rparr>"

text \<open>The dependencies that the events fulfil for the task at place \<open>i\<close>.\<close>

definition event_deps :: "elosEnv \<Rightarrow> crinitElosdepFilterTask list \<Rightarrow> nat \<Rightarrow> crinitTaskDep set" where
  "event_deps e fts i = {elos_dep f | f ft. ft \<in> set fts \<and> ftTask ft = i \<and> f \<in> set (filterList ft) \<and> occurred e f}"

definition all_fulfilled :: "crinitTaskDep set \<Rightarrow> crinitTask \<Rightarrow> crinitTask \<Rightarrow> bool" where
  "all_fulfilled D t t' \<longleftrightarrow> set (deps t') = set (deps t) - D \<and>
     t' = t\<lparr>deps := deps t', triggered := triggered t \<or> D \<inter> set (trig t) \<noteq> {}\<rparr>"

text \<open>The filters that are kept: those without an event, or all if the task is to be triggered again.\<close>

definition kept_filters :: "elosEnv \<Rightarrow> world \<Rightarrow> crinitElosdepFilterTask \<Rightarrow> crinitElosdepFilterTask" where
  "kept_filters e w ft =
     (if opts (taskSet (taskDB w) ! ftTask ft) AND CRINIT_TASK_OPT_TRIGGER_REARM \<noteq> 0 then ft
      else ft\<lparr>filterList := filter (\<lambda>f. \<not> occurred e f) (filterList ft)\<rparr>)"

definition conn_ok :: "crinitElosVirtualTable \<Rightarrow> elosConn \<Rightarrow> bool" where
  "conn_ok vt s \<longleftrightarrow> vtOpen vt \<and> s = \<lparr>esSession = Some True, esLock = Unlocked\<rparr>"

definition filter_task_ok :: "world \<Rightarrow> crinitElosdepFilterTask \<Rightarrow> bool" where
  "filter_task_ok w ft \<longleftrightarrow> filterLock ft = Unlocked \<and> ftRoom ft = taskSetSize (taskDB w) \<and> ftTask ft < length (taskSet (taskDB w))"

definition listening :: "elosdep \<Rightarrow> world \<Rightarrow> bool" where
  "listening d w \<longleftrightarrow> crinitElosActivated d \<and> crinitElosActivatedLock d = Unlocked \<and> crinitElosdepFilterTaskLock d = Unlocked \<and>
     conn_ok (edVTable d) (edConn d) \<and> (\<forall>ft \<in> set (crinitFilterTasks d). filter_task_ok w ft)"

text \<open>Reading keeps the connection.\<close>

definition stays_connected :: "elosEnv \<Rightarrow> bool" where
  "stays_connected e \<longleftrightarrow> (\<forall>q. fst (snd (elRead e q)))"

text \<open>What events leave as it is.\<close>

definition tasks_only :: "world \<Rightarrow> world \<Rightarrow> bool" where
  "tasks_only w w' \<longleftrightarrow> world_ok w' \<and> same_env w w' \<and> taskSetSize (taskDB w') = taskSetSize (taskDB w) \<and>
     length (taskSet (taskDB w')) = length (taskSet (taskDB w))"

lemma tasks_only_refl: "world_ok w \<Longrightarrow> tasks_only w w"
  by (simp add: tasks_only_def same_env_def)

lemma tasks_only_trans: "tasks_only w w' \<Longrightarrow> tasks_only w' w'' \<Longrightarrow> tasks_only w w''"
  by (simp add: tasks_only_def same_env_def)

lemma all_fulfilled_none [simp]: "all_fulfilled {} t t"
  by (simp add: all_fulfilled_def)

lemma all_fulfilled_trans:
  assumes "all_fulfilled D t t'" "all_fulfilled E t' t''"
  shows "all_fulfilled (D \<union> E) t t''"
proof -
  have "t' = t\<lparr>deps := deps t', triggered := triggered t \<or> D \<inter> set (trig t) \<noteq> {}\<rparr>"
    "t'' = t'\<lparr>deps := deps t'', triggered := triggered t' \<or> E \<inter> set (trig t') \<noteq> {}\<rparr>"
    "set (deps t') = set (deps t) - D" "set (deps t'') = set (deps t') - E"
    using assms by (simp_all only: all_fulfilled_def)
  then show ?thesis unfolding all_fulfilled_def
    by (cases t; cases t'; cases t'') (simp add: Un_Diff Int_Un_distrib2 Diff_Un, blast)
qed

lemma all_fulfilled_deps: "all_fulfilled D t t' \<Longrightarrow> set (deps t') = set (deps t) - D"
  by (simp only: all_fulfilled_def)

lemma all_fulfilled_opts: "all_fulfilled D t t' \<Longrightarrow> opts t' = opts t"
  by (cases t; cases t') (simp add: all_fulfilled_def)

text \<open>The dependency is fulfilled for one task.\<close>

lemma FulfillDep_one:
  assumes "world_ok w" "i < length (taskSet (taskDB w))"
  obtains w' t' where "crinitTaskDBFulfillDep w dep (Some i) = Ret (0, w')" "tasks_only w w'"
    "taskSet (taskDB w') = (taskSet (taskDB w))[i := t']" "all_fulfilled {dep} (taskSet (taskDB w) ! i) t'"
proof -
  let ?ts = "taskSet (taskDB w)"
  have ok: "db_ok (taskDB w)" "pool_ok (timerPool w)" "optLock (globOpts w) = Unlocked" "\<forall>t \<in> set ?ts. distinct (deps t)"
    using assms(1) by (auto simp: world_ok_def)
  have "?ts ! i \<in> set ?ts" using assms(2) by simp
  then have t: "task_wf (?ts ! i)" "distinct (deps (?ts ! i))" using ok by (auto simp: db_ok_def db_wf_def)
  then have nf: "\<not> freed (?ts ! i)" by (simp add: task_wf_def)
  obtain t' p' where r: "crinitTaskDBRemoveDepFromTaskStruct (?ts ! i) dep (timerPool w) = Ret (t', p')" "pool_ok p'"
    "fulfilled dep (?ts ! i) t'"
    using RemoveDep_ok [OF nf t(2) ok(2), of dep] by (auto elim!: ret_satE simp: fulfilled_def)
  let ?w = "w\<lparr>taskDB := (taskDB w)\<lparr>taskSet := ?ts[i := t'], changed := Suc (changed (taskDB w))\<rparr>, timerPool := p'\<rparr>"
  have n: "map name (?ts[i := t']) = map name ?ts"
    using assms(2) fulfilled_frame(1) [OF r(3)] by (simp add: map_update list_update_same_conv)
  have "\<forall>u \<in> set (?ts[i := t']). task_wf u \<and> distinct (deps u)"
    using ok t fulfilled_frame(2) [OF r(3)] fulfilled_deps(1) [OF r(3)] set_update_subset_insert [of ?ts i t']
    by (auto simp: db_ok_def db_wf_def)
  then have "world_ok ?w" using ok n r(2) by (simp add: world_ok_def db_ok_def db_wf_def)
  then have "tasks_only w ?w" by (simp add: tasks_only_def same_env_def)
  moreover have "crinitTaskDBFulfillDep w dep (Some i) = Ret (0, ?w)"
    using ok(1) r(1) by (auto simp: crinitTaskDBFulfillDep_def db_ok_def pthread_cond_broadcast_def db_lock_def db_unlock_def)
  moreover have "all_fulfilled {dep} (?ts ! i) t'" using r(3) by (simp add: fulfilled_def all_fulfilled_def)
  ultimately show ?thesis using that by simp
qed

lemma TryExec_connected: "conn_ok vt s \<Longrightarrow> crinitElosTryExec e vt (r, True) s = Ret (r, s)"
  by (auto simp: crinitElosTryExec_def conn_ok_def Let_def)

lemma read_silent:
  assumes "conn_ok vt s" "stays_connected e" "\<not> occurred e f"
  shows "read_filters e vt k (f # fs) ft s w = read_filters e vt (Suc k) fs ft s w"
  using assms(2,3) by (cases "elRead e (eventQueueId f)")
    (auto simp: stays_connected_def occurred_def TryExec_connected [OF assms(1)] dest!: spec [of _ "eventQueueId f"])

lemma read_event:
  assumes "conn_ok vt s" "stays_connected e" "occurred e f" "filter_task_ok w ft" "world_ok w"
  obtains w' t' where "tasks_only w w'" "taskSet (taskDB w') = (taskSet (taskDB w))[ftTask ft := t']"
    "all_fulfilled {elos_dep f} (taskSet (taskDB w) ! ftTask ft) t'"
    "read_filters e vt k (f # fs) ft s w =
       (if opts t' AND CRINIT_TASK_OPT_TRIGGER_REARM \<noteq> 0 then read_filters e vt (Suc k) fs ft s w'
        else read_filters e vt k fs (ft\<lparr>filterList := take k (filterList ft) @ drop (Suc k) (filterList ft)\<rparr>) s w')"
proof -
  obtain n where n: "elRead e (eventQueueId f) = (0, True, n)" "n > 0"
    using assms(2,3) by (cases "elRead e (eventQueueId f)") (auto simp: stays_connected_def occurred_def dest!: spec [of _ "eventQueueId f"])
  obtain w' t' where w': "crinitTaskDBFulfillDep w (elos_dep f) (Some (ftTask ft)) = Ret (0, w')" "tasks_only w w'"
    "taskSet (taskDB w') = (taskSet (taskDB w))[ftTask ft := t']" "all_fulfilled {elos_dep f} (taskSet (taskDB w) ! ftTask ft) t'"
    using FulfillDep_one [OF assms(5), of "ftTask ft" "elos_dep f"] assms(4) by (auto simp: filter_task_ok_def)
  have "crinitElosdepFilterUnregister k ft = Ret (0, ft\<lparr>filterList := take k (filterList ft) @ drop (Suc k) (filterList ft)\<rparr>)"
    using assms(4) by (cases ft) (simp add: crinitElosdepFilterUnregister_def with_filter_lock_def filter_task_ok_def)
  then show ?thesis
    using n w' assms(4) TryExec_connected [OF assms(1), of e 0] that [OF w'(2-4)]
    by (auto simp: elos_dep_def filter_task_ok_def)
qed

declare read_filters.simps(2) [simp del]

text \<open>What the events of some filters of the task at place \<open>i\<close> do.\<close>

definition one_task :: "crinitTaskDep set \<Rightarrow> nat \<Rightarrow> world \<Rightarrow> world \<Rightarrow> bool" where
  "one_task D i w w' \<longleftrightarrow> tasks_only w w' \<and>
     (\<exists>t'. taskSet (taskDB w') = (taskSet (taskDB w))[i := t'] \<and> all_fulfilled D (taskSet (taskDB w) ! i) t')"

lemma one_task_trans:
  assumes "one_task D i w w'" "one_task E i w' w''" "i < length (taskSet (taskDB w))"
  shows "one_task (D \<union> E) i w w''"
  using assms by (auto simp: one_task_def intro!: exI intro: tasks_only_trans all_fulfilled_trans)

lemma one_task_refl: "world_ok w \<Longrightarrow> one_task {} i w w"
  unfolding one_task_def by (metis tasks_only_refl list_update_id all_fulfilled_none)

lemma one_task_opts:
  assumes "one_task D i w w'" "i < length (taskSet (taskDB w))"
  shows "opts (taskSet (taskDB w') ! j) = opts (taskSet (taskDB w) ! j)"
  using assms by (cases "j = i") (auto simp: one_task_def dest: all_fulfilled_opts)

lemma filter_task_ok_frame: "tasks_only w w' \<Longrightarrow> filter_task_ok w' ft = filter_task_ok w ft"
  by (simp add: tasks_only_def filter_task_ok_def)

lemma read_filters_ok:
  assumes "conn_ok vt s" "stays_connected e" "filter_task_ok w ft" "world_ok w" "filterList ft = pre @ fs"
  shows "ret_sat (\<lambda>(r, ft', s', w'). r = 0 \<and> s' = s \<and> one_task (elos_dep ` {f \<in> set fs. occurred e f}) (ftTask ft) w w' \<and>
           ft' = (if opts (taskSet (taskDB w) ! ftTask ft) AND CRINIT_TASK_OPT_TRIGGER_REARM \<noteq> 0 then ft
                  else ft\<lparr>filterList := pre @ filter (\<lambda>f. \<not> occurred e f) fs\<rparr>))
         (read_filters e vt (length pre) fs ft s w)"
  using assms(3-5)
proof (induction fs arbitrary: pre ft w)
  case Nil
  then show ?case using one_task_refl by (cases ft) simp
next
  case (Cons f fs)
  show ?case
  proof (cases "occurred e f")
    case False
    then show ?thesis
      using Cons.IH [of w ft "pre @ [f]"] Cons.prems read_silent [OF assms(1,2) False]
      by (auto elim!: ret_sat_mono [rotated] simp: conj_disj_distribR Collect_disj_eq cong: conj_cong)
  next
    case True
    let ?ft = "ft\<lparr>filterList := pre @ fs\<rparr>" and ?i = "ftTask ft"
    have cut: "take (length pre) (filterList ft) @ drop (Suc (length pre)) (filterList ft) = pre @ fs" using Cons.prems(3) by simp
    obtain w1 t1 where w1: "tasks_only w w1" "taskSet (taskDB w1) = (taskSet (taskDB w))[?i := t1]"
      "all_fulfilled {elos_dep f} (taskSet (taskDB w) ! ?i) t1"
      "read_filters e vt (length pre) (f # fs) ft s w =
         (if opts t1 AND CRINIT_TASK_OPT_TRIGGER_REARM \<noteq> 0 then read_filters e vt (Suc (length pre)) fs ft s w1
          else read_filters e vt (length pre) fs ?ft s w1)"
      by (rule read_event [OF assms(1,2) True Cons.prems(1,2), where k = "length pre" and fs = fs, unfolded cut])
    have one: "one_task {elos_dep f} ?i w w1" using w1 by (auto simp: one_task_def)
    have i: "?i < length (taskSet (taskDB w))" using Cons.prems(1) by (simp add: filter_task_ok_def)
    have ok: "world_ok w1" "filter_task_ok w1 ft" "filter_task_ok w1 ?ft"
      using w1(1) Cons.prems(1) filter_task_ok_frame [OF w1(1)] by (auto simp: tasks_only_def filter_task_ok_def)
    have o: "opts (taskSet (taskDB w1) ! ?i) = opts (taskSet (taskDB w) ! ?i)" "opts t1 = opts (taskSet (taskDB w) ! ?i)"
      using one_task_opts [OF one i] all_fulfilled_opts [OF w1(3)] by auto
    have D: "elos_dep ` {g \<in> set (f # fs). occurred e g} = {elos_dep f} \<union> elos_dep ` {g \<in> set fs. occurred e g}"
      using True by auto
    note t = one_task_trans [OF one _ i, simplified]
    show ?thesis
      using Cons.IH [OF ok(2,1), of "pre @ [f]"] Cons.IH [OF ok(3,1), of pre] Cons.prems(3) w1(4) True unfolding D
      by (auto elim!: ret_satE simp: o intro: t split: if_splits)
  qed
qed

text \<open>Tasks one by one.\<close>

definition each_task :: "(nat \<Rightarrow> crinitTaskDep set) \<Rightarrow> world \<Rightarrow> world \<Rightarrow> bool" where
  "each_task D w w' \<longleftrightarrow> tasks_only w w' \<and>
     (\<forall>i < length (taskSet (taskDB w)). all_fulfilled (D i) (taskSet (taskDB w) ! i) (taskSet (taskDB w') ! i))"

lemma one_each_task:
  assumes "one_task D i w w'" "each_task E w' w''"
  shows "each_task (\<lambda>j. (if j = i then D else {}) \<union> E j) w w''"
proof -
  obtain t' where t': "tasks_only w w'" "taskSet (taskDB w') = (taskSet (taskDB w))[i := t']" "all_fulfilled D (taskSet (taskDB w) ! i) t'"
    using assms(1) by (auto simp: one_task_def)
  have "all_fulfilled ((if j = i then D else {}) \<union> E j) (taskSet (taskDB w) ! j) (taskSet (taskDB w'') ! j)"
    if j: "j < length (taskSet (taskDB w))" for j
  proof (rule all_fulfilled_trans)
    show "all_fulfilled (if j = i then D else {}) (taskSet (taskDB w) ! j) (taskSet (taskDB w') ! j)" using t' j by simp
    show "all_fulfilled (E j) (taskSet (taskDB w') ! j) (taskSet (taskDB w'') ! j)"
      using assms(2) t'(1) j by (simp add: each_task_def tasks_only_def)
  qed
  then show ?thesis using assms(2) t'(1) tasks_only_trans unfolding each_task_def by blast
qed

lemma read_tasks_ok:
  assumes "conn_ok vt s" "stays_connected e" "\<forall>ft \<in> set fts. filter_task_ok w ft" "world_ok w"
  shows "ret_sat (\<lambda>(r, fts', s', w'). r = 0 \<and> s' = s \<and> fts' = map (kept_filters e w) fts \<and> each_task (event_deps e fts) w w')
         (read_tasks e vt fts s w)"
  using assms(3,4)
proof (induction fts arbitrary: w)
  case Nil
  then show ?case by (simp add: each_task_def event_deps_def tasks_only_refl)
next
  case (Cons ft fts)
  have ft: "filter_task_ok w ft" using Cons.prems(1) by simp
  then have i: "ftTask ft < length (taskSet (taskDB w))" by (simp add: filter_task_ok_def)
  obtain w1 where w1: "read_filters e vt 0 (filterList ft) ft s w = Ret (0, kept_filters e w ft, s, w1)"
    "one_task (elos_dep ` {f \<in> set (filterList ft). occurred e f}) (ftTask ft) w w1"
    using read_filters_ok [OF assms(1,2) ft Cons.prems(2), of "[]"] by (auto elim!: ret_satE simp: kept_filters_def)
  then have t: "tasks_only w w1" by (simp add: one_task_def)
  have k: "kept_filters e w1 = kept_filters e w" by (simp add: fun_eq_iff kept_filters_def one_task_opts [OF w1(2) i])
  have D: "event_deps e (ft # fts) =
      (\<lambda>j. (if j = ftTask ft then elos_dep ` {f \<in> set (filterList ft). occurred e f} else {}) \<union> event_deps e fts j)"
    by (auto simp: event_deps_def fun_eq_iff)
  have "ret_sat (\<lambda>(r, fts', s', w'). r = 0 \<and> s' = s \<and> fts' = map (kept_filters e w) fts \<and> each_task (event_deps e fts) w1 w')
    (read_tasks e vt fts s w1)"
    using Cons.IH [of w1] Cons.prems(1) t filter_task_ok_frame [OF t] unfolding k by (simp add: tasks_only_def)
  then show ?case unfolding D using w1(1) one_each_task [OF w1(2)] by (auto elim!: ret_satE)
qed

text \<open>
  C21: A round of the listener while elosd answers ends normally, and then every task has exactly those of its dependencies left
  for which no event of one of its filters has arrived; the task is triggered if such an event is among its triggers, and
  nothing else of a task changes. The filters of the events that arrived are removed, but kept for a task that is to be
  triggered again; the listener is ready for the next round.
\<close>

theorem elos_events_fulfil:
  assumes "listening d w" "world_ok w" "stays_connected e"
  shows "ret_sat (\<lambda>(x, d', w'). x = Goes_on \<and> d' = d\<lparr>crinitFilterTasks := map (kept_filters e w) (crinitFilterTasks d)\<rparr> \<and>
           listening d' w' \<and> each_task (event_deps e (crinitFilterTasks d)) w w')
         (listener_round e d w)"
proof -
  have l: "crinitElosActivated d" "crinitElosActivatedLock d = Unlocked" "crinitElosdepFilterTaskLock d = Unlocked"
    "conn_ok (edVTable d) (edConn d)" "\<forall>ft \<in> set (crinitFilterTasks d). filter_task_ok w ft"
    using assms(1) by (simp_all add: listening_def)
  obtain w' where w': "read_tasks e (edVTable d) (crinitFilterTasks d) (edConn d) w =
      Ret (0, map (kept_filters e w) (crinitFilterTasks d), edConn d, w')" "each_task (event_deps e (crinitFilterTasks d)) w w'"
    using read_tasks_ok [OF l(4) assms(3) l(5) assms(2)] by (auto elim!: ret_satE)
  have t: "tasks_only w w'" using w'(2) by (simp add: each_task_def)
  then have "optLock (globOpts w') = Unlocked" by (simp add: tasks_only_def world_ok_def)
  moreover have "filter_task_ok w' (kept_filters e w ft)" if "ft \<in> set (crinitFilterTasks d)" for ft
    using l(5) that unfolding filter_task_ok_frame [OF t] by (auto simp: filter_task_ok_def kept_filters_def)
  ultimately show ?thesis
    using l w' by (cases d) (simp add: listener_round_def crinitGlobOptGetUnsignedLL_def listening_def)
qed

definition sampleElosEnv :: elosEnv where
  "sampleElosEnv =
     \<lparr>elServerMem = True, elDefaultMem = True, elDlopen = True, elSymbol = (\<lambda>n. n \<noteq> ''elosDisconnect''), elConnect = (\<lambda>k. False),
      elVersion = (0, True), elSubscribe = (\<lambda>f. (0, True, 3)), elUnsubscribe = (\<lambda>q. (0, True)),
      elRead = (\<lambda>q. (0, True, if q = 3 then 1 else 0)), elDisconnect = 0, elTaskMem = True, elTaskMutex = True, elFilterMem = True,
      elThread = (True, True, True, True, True)\<rparr>"

definition sampleElosdep :: "bool option \<Rightarrow> crinitElosdepFilterTask list \<Rightarrow> elosdep" where
  "sampleElosdep c fts =
     \<lparr>edVTable = \<lparr>vtServer = Some ''127.0.0.1'', vtServerFreed = False, vtPort = 54321, vtLoaded = 9, vtOpen = True\<rparr>,
      edVTableLock = Unlocked, crinitFilterTasks = fts, crinitElosdepFilterTaskLock = Unlocked,
      edConn = \<lparr>esSession = c, esLock = Unlocked\<rparr>, elosStarted = False, crinitElosActivated = True, crinitElosActivatedLock = Unlocked\<rparr>"

definition sampleFilterTask :: crinitElosdepFilterTask where
  "sampleFilterTask = \<lparr>ftTask = 0, ftRoom = 2, filterList = [\<lparr>flName = ''X'', flFilter = ''F'', eventQueueId = 3\<rparr>], filterLock = Unlocked\<rparr>"

definition sampleElosTask :: crinitTask where
  "sampleElosTask = (sampleTask ''a'')\<lparr>deps := [\<lparr>depName = ''@elos'', event = ''X''\<rparr>],
     elosFilters := sampleEnv\<lparr>envp := Some [Some ''X=F'', None]\<rparr>\<rparr>"

theorem elos_events_fulfil_witness:
  "ret_sat (\<lambda>(x, d', w'). x = Goes_on \<and> deps (taskSet (taskDB w') ! 0) = [] \<and> crinitFilterTasks d' = [sampleFilterTask\<lparr>filterList := []\<rparr>])
     (listener_round sampleElosEnv (sampleElosdep (Some True) [sampleFilterTask])
       (sampleWorld [(sampleTask ''a'')\<lparr>deps := [\<lparr>depName = ''@elos'', event = ''X''\<rparr>]\<rparr>]))"
proof -
  let ?d = "sampleElosdep (Some True) [sampleFilterTask]" and ?w = "sampleWorld [(sampleTask ''a'')\<lparr>deps := [\<lparr>depName = ''@elos'', event = ''X''\<rparr>]\<rparr>]"
  have h1: "listening ?d ?w" "stays_connected sampleElosEnv"
    by (simp_all add: listening_def sampleElosdep_def sampleFilterTask_def filter_task_ok_def conn_ok_def stays_connected_def sampleElosEnv_def
        sampleDB_def sampleWorld_def)
  have h2: "world_ok ?w" by simp
  have ev: "event_deps sampleElosEnv (crinitFilterTasks ?d) 0 = {\<lparr>depName = ''@elos'', event = ''X''\<rparr>}"
    by (auto simp: event_deps_def sampleElosdep_def sampleFilterTask_def occurred_def sampleElosEnv_def elos_dep_def)
  have kept: "map (kept_filters sampleElosEnv ?w) (crinitFilterTasks ?d) = [sampleFilterTask\<lparr>filterList := []\<rparr>]"
    by (simp add: sampleElosdep_def sampleFilterTask_def occurred_def sampleElosEnv_def kept_filters_def sampleWorld_def sampleDB_def sampleTask_def)
  obtain d' w' where r: "listener_round sampleElosEnv ?d ?w = Ret (Goes_on, d', w')" "crinitFilterTasks d' = [sampleFilterTask\<lparr>filterList := []\<rparr>]"
    "each_task (event_deps sampleElosEnv (crinitFilterTasks ?d)) ?w w'"
    using elos_events_fulfil [OF h1(1) h2 h1(2)] unfolding kept by (auto elim!: ret_satE)
  have "all_fulfilled {\<lparr>depName = ''@elos'', event = ''X''\<rparr>} (taskSet (taskDB ?w) ! 0) (taskSet (taskDB w') ! 0)"
    using r(3) unfolding each_task_def ev [symmetric] by (simp add: sampleWorld_def sampleDB_def)
  from all_fulfilled_deps [OF this] have "deps (taskSet (taskDB w') ! 0) = []" by (simp add: sampleWorld_def sampleDB_def)
  then show ?thesis using r(1,2) by simp
qed

section \<open>No connection\<close>

lemma connect_tries_refused: "\<forall>j \<in> {i..i + k}. \<not> c j \<Longrightarrow> \<not> connect_tries k i c"
  by (induction k arbitrary: i) auto

lemma TryExec_refused:
  assumes "vtServer vt \<noteq> None" "\<not> vtServerFreed vt" "vtOpen vt" "esSession s \<noteq> Some True" "esLock s = Unlocked" "\<forall>k \<le> 10. \<not> elConnect e k"
  shows "crinitElosTryExec e vt a s = Ret (-1, \<lparr>esSession = None, esLock = Locked\<rparr>)"
proof -
  have "\<not> connect_tries 10 0 (elConnect e)" using assms(6) by (intro connect_tries_refused) simp
  moreover have "esSession s = None \<or> esSession s = Some False" using assms(4) by (cases "esSession s") auto
  ultimately show ?thesis using assms(1-3,5) by (cases s) (auto simp: crinitElosTryExec_def Let_def)
qed

lemma TryExec_locked: "esLock s = Locked \<Longrightarrow> crinitElosTryExec e vt a s = Blocked"
  by (simp add: crinitElosTryExec_def)

lemma clear_loop_ok: "\<forall>ft \<in> set fts. filterLock ft = Unlocked \<Longrightarrow> clear_loop fts = Ret (0, [])"
  by (induction fts) (simp_all add: crinitElosdepFilterTaskDestroy_def crinitElosdepFilterListClear_def with_filter_lock_def)

text \<open>Once the listener runs, registering a filter waits for the lock of the session.\<close>

lemma TaskAdded_blocks:
  assumes "deps t = dep # ds" "depName dep = ''@elos''" "crinitElosdepFilterFromEnvSet e t (event dep) = Ret (Some f)"
    "elTaskMem e" "elTaskMutex e" "elosStarted d" "esLock (edConn d) = Locked" "crinitElosdepFilterTaskLock d = Unlocked"
  shows "crinitElosdepTaskAdded e i room t d = Blocked"
  using assms TryExec_locked [OF assms(7)]
  by (simp add: crinitElosdepTaskAdded_def crinitElosdepRegisterFilterDep_def new_filter_task_def with_filter_task_def add_filter_def
      crinitElosdepFilterRegister_def with_filter_lock_def crinitElosdepFilterSubscribe_def split_beta)

text \<open>
  C25: When elosd refuses all eleven attempts to connect, the listener gives up holding the lock of the session and then waits
  for that lock itself, so that the thread never ends. From then on adding a task that depends on an elos event does not
  return either.
\<close>

theorem elos_refused_deadlocks:
  assumes "vtServer (edVTable d) \<noteq> None" "\<not> vtServerFreed (edVTable d)" "vtOpen (edVTable d)" "esSession (edConn d) \<noteq> Some True"
    "esLock (edConn d) = Unlocked" "crinitElosdepFilterTaskLock d = Unlocked" "\<forall>ft \<in> set (crinitFilterTasks d). filterLock ft = Unlocked"
    "\<forall>k \<le> 10. \<not> elConnect e k"
    and "deps t = dep # ds" "depName dep = ''@elos''" "crinitElosdepFilterFromEnvSet e' t (event dep) = Ret (Some f)" "elTaskMem e'" "elTaskMutex e'"
  shows "crinitElosdepEventListener e es d w = Blocked \<and>
    (\<exists>d1 d2. listener_start e d = Ret (Connection_lost, d1) \<and> crinitElosdepFilterTaskListClear d1 = Ret (0, d2) \<and>
       crinitElosdepTaskAdded e' i room t d2 = Blocked)"
proof -
  let ?d1 = "d\<lparr>elosStarted := True, edConn := \<lparr>esSession = None, esLock = Locked\<rparr>\<rparr>"
  let ?d2 = "?d1\<lparr>crinitFilterTasks := []\<rparr>"
  have 1: "listener_start e d = Ret (Connection_lost, ?d1)"
    using TryExec_refused [OF assms(1-5,8)] by (simp add: listener_start_def)
  have 2: "crinitElosdepFilterTaskListClear ?d1 = Ret (0, ?d2)"
    using clear_loop_ok [OF assms(7)] assms(6) by (cases d) (simp add: crinitElosdepFilterTaskListClear_def)
  have "crinitElosdepTaskAdded e' i room t ?d2 = Blocked"
    by (rule TaskAdded_blocks [OF assms(9-13)]) (simp_all add: assms(6))
  moreover have "crinitElosdepEventListener e es d w = Blocked"
    by (simp add: crinitElosdepEventListener_def 1 listener_exit_def connection_lost_def 2)
  ultimately show ?thesis using 1 2 by blast
qed

theorem elos_refused_deadlocks_witness:
  "crinitElosdepEventListener sampleElosEnv [] (sampleElosdep None []) (sampleWorld []) = Blocked \<and>
   (\<exists>d1 d2. listener_start sampleElosEnv (sampleElosdep None []) = Ret (Connection_lost, d1) \<and>
      crinitElosdepFilterTaskListClear d1 = Ret (0, d2) \<and> crinitElosdepTaskAdded sampleElosEnv 0 2 sampleElosTask d2 = Blocked)"
  by (rule elos_refused_deadlocks [where dep = "\<lparr>depName = ''@elos'', event = ''X''\<rparr>" and ds = "[]"
        and f = "\<lparr>flName = ''X'', flFilter = ''F'', eventQueueId = 0\<rparr>"])
    (simp_all add: sampleElosdep_def sampleElosEnv_def sampleElosTask_def sampleTask_def crinitElosdepFilterFromEnvSet_def defines_filter_def)

section \<open>Another library\<close>

text \<open>
  When a function is missing in the library, \<open>crinitElosInit\<close> reports success. The library has been closed and the name of the
  server released, and the first call that has to connect uses both. A call of \<open>crinitElosInit\<close> after that reports
  success as well and changes nothing if the function to connect has been found.
\<close>

lemma elos_missing_function:
  assumes "optLock g = Unlocked" "get_str ElosServer g = Some server" "elServerMem e" "elDlopen e" "vtLoaded vt = 0"
    "symb \<in> set elos_symbols" "\<not> elSymbol e symb"
  shows "\<exists>vt'. crinitElosInit e vt Unlocked g = Ret (0, vt', Unlocked, g) \<and>
    (\<forall>a s. esLock s = Unlocked \<and> esSession s \<noteq> Some True \<longrightarrow> crinitElosTryExec e' vt' a s = Undef) \<and>
    (elSymbol e ''elosConnectTcpip'' \<longrightarrow> crinitElosInit e vt' Unlocked g = Ret (0, vt', Unlocked, g))"
proof -
  let ?n = "length (takeWhile (elSymbol e) elos_symbols)"
  have n: "?n \<noteq> length elos_symbols"
    using assms(6,7) takeWhile_eq_all_conv [of "elSymbol e" elos_symbols] takeWhile_eq_take [of "elSymbol e" elos_symbols] by auto
  let ?vt = "vt\<lparr>vtServer := Some server, vtServerFreed := True, vtPort := elosPort g, vtLoaded := ?n, vtOpen := False\<rparr>"
  have 1: "crinitElosInit e vt Unlocked g = Ret (0, ?vt, Unlocked, g)"
    using assms n by (cases vt) (simp add: crinitElosInit_def crinitGlobOptGetString_def crinitGlobOptGetInteger_def fetch_symbols_def Let_def)
  have 2: "crinitElosTryExec e' ?vt a s = Undef" if "esLock s = Unlocked" "esSession s \<noteq> Some True" for a s
    using that by (cases "esSession s") (auto simp: crinitElosTryExec_def Let_def)
  have 3: "crinitElosInit e ?vt Unlocked g = Ret (0, ?vt, Unlocked, g)" if "elSymbol e ''elosConnectTcpip''"
    using that by (simp add: crinitElosInit_def elos_symbols_def)
  show ?thesis using 1 2 3 by blast
qed

end
