(* ===== verification/Spec2Isabelle.thy ===== *)
theory Spec2Isabelle
  imports TaskDBSpec ShutdownSpec Launch Daemon PoolSpec ClientSpec CtlSpec BootSig MachineId LogIo DList ElosSpec
begin

text \<open>
  crinit, an init daemon for embedded Linux: a model of the daemon and its programs, and what makes them correct.

  \<^bold>\<open>The program.\<close> \<open>main\<close> (\<open>src/src/crinit.c\<close>) reads its command line, sets up the system, reads the series file and the task
  files, verifies their signatures if asked to, and fills the \<^emph>\<open>task database\<close>. From then on it starts, in a loop, a dispatch
  thread for every task that is ready. A dispatch thread runs the commands of its task and reports to the database, which
  fulfils the dependencies of other tasks. Timers and events of elos fulfil dependencies as well. An interface server hands
  the requests of clients (the control program uses the client library) to the handlers of runtime commands, which add,
  start, stop and query tasks or shut the system down.

  \<^bold>\<open>Conventions.\<close> The result of a call is a \<open>run\<close>: it returns, never returns (\<open>Blocked\<close>), or is undefined. A mutex that is held
  blocks a second lock. A struct is a record, an array with its size a list, a string a list of characters; integers keep
  their width where they can wrap around. What the operating system, an allocation or a library that is not part of the
  sources answers is an argument. The state of the daemon is the record \<open>world\<close>. The build is the one for 64 bits with
  capabilities, control groups and signatures, and without elos except in the theories on elos.

  \<^bold>\<open>Theories.\<close>
  \<^item> Shared: \<open>Prelude\<close> (\<open>run\<close>, mutexes, lists), \<open>CLib\<close> (\<open>strtol\<close>, \<open>printf\<close>, \<open>strtok_r\<close>), \<open>Getopt\<close> (\<open>getopt_long\<close>), \<open>DList\<close> (\<open>src/inc/list.h\<close>),
    \<open>Samples\<close> (concrete states).
  \<^item> Data: \<open>EnvSet\<close> (\<open>envset.c\<close>), \<open>Task\<close> (\<open>task.c\<close>, \<open>ioredir.c\<close>), \<open>Timer\<close>, \<open>TimerParser\<close> (\<open>timer.c\<close>, \<open>timer_parser.re\<close>), \<open>TimerDB\<close>, \<open>TimerPool\<close>
    (\<open>timerdb.c\<close>), \<open>GlobOpt\<close> (\<open>globopt.c\<close>, \<open>optfeat.c\<close>), \<open>Cgroup\<close>, \<open>Capabilities\<close> (the files of these names), \<open>FSeries\<close> (\<open>fseries.c\<close>).
  \<^item> Task database: \<open>TaskDB\<close> (\<open>taskdb.c\<close>), its contract \<open>TaskDBProps\<close>, its properties \<open>TaskDBSpec\<close>, and \<open>World\<close>, the operations as
    steps on the map of tasks.
  \<^item> Configuration: \<open>Ini\<close> (\<open>deps/inih/ini.c\<close>), \<open>Lexers\<close> (\<open>lexers.re\<close>), \<open>ConfConv\<close>, \<open>ConfHdl\<close>, \<open>ConfMap\<close>, \<open>ConfParse\<close> (\<open>confconv.c\<close>,
    \<open>confhdl.c\<close>, \<open>confmap.c\<close>, \<open>confparse.c\<close>), \<open>Sig\<close> (\<open>sig.c\<close>, \<open>common.c\<close>), \<open>TaskConf\<close> (tasks and options from files, \<open>kcmdline.c\<close>), \<open>ConfSpec\<close>.
  \<^item> Processes: \<open>ProcDip\<close>, \<open>ProcDipSpec\<close> (\<open>procdip.c\<close>), \<open>Launch\<close> (\<open>crinit-launch.c\<close>), \<open>Daemon\<close> (the threads of the
    daemon as a transition system: scheduling, reports and ends of the dispatch threads, insertions, whole runtime commands, shutdown).
  \<^item> Commands: \<open>RtimOpMap\<close>, \<open>RtimCmd\<close>, \<open>RtimMsg\<close>, \<open>RtimCmdSpec\<close>, \<open>ShutdownSpec\<close> (\<open>rtimopmap.c\<close>, \<open>rtimcmd.c\<close>), \<open>ThrPool\<close>, \<open>Server\<close>, \<open>ServerSpec\<close>,
    \<open>PoolSpec\<close> (\<open>thrpool.c\<close>, \<open>notiserv.c\<close>), \<open>Client\<close>, \<open>ClientSpec\<close> (\<open>sockcom.c\<close>, \<open>crinit-client.c\<close>), \<open>Ctl\<close>, \<open>CtlSpec\<close> (\<open>crinit-ctl.c\<close>).
  \<^item> Start and surroundings: \<open>MinSetup\<close> (\<open>minsetup.c\<close>), \<open>Boot\<close>, \<open>BootSpec\<close>, \<open>BootSig\<close> (\<open>crinit.c\<close>), \<open>MachineId\<close> (\<open>machine-id-gen.c\<close>),
    \<open>LogIo\<close> (\<open>logio.c\<close>).
  \<^item> Elos: \<open>Elos\<close> (\<open>elos-common.c\<close>, \<open>elosdep.c\<close>), \<open>ElosSpec\<close>.

  A definition has the name of the function it models; a loop or a part of a long function is a definition of its own.

  \<^bold>\<open>Interfaces.\<close> \<open>var_store\<close> is the contract of a store of variables, which the environment sets keep. \<open>task_update\<close> is the contract
  of an operation on one named task of the database, kept by five of its functions. \<open>config_frame\<close> says which part of the
  state a configuration file leaves alone, once for the options on signatures and once for the database.

  \<^bold>\<open>What is shown.\<close>
  \<^item> The database implements a finite map of tasks. A scheduling step starts exactly the tasks that are ready. No task
    has two threads that run it, whatever the order of the steps, unless one of the steps is of the kinds that disturb a running
    task: a task replaced by a new one, the commands \<open>ADDTASK\<close> and \<open>ADDSERIES\<close>, a notification with \<open>STOPPING\<close>, the end of stop commands, a
    trigger rearmed or a task reset late; after most of these there can be two (\<open>Daemon\<close>). Retries are bounded. Fulfilling the last
    dependency makes a task start. A dispatch thread brings its task to its end.
  \<^item> A start installs exactly the tasks of the files, shown for files with a name and commands; with signatures on, every task comes
    from a verified file.
  \<^item> A request travels from the command line of the control program to the handler and back. A client without permissions
    changes nothing, unless it announces a message of length zero. The status of a task arrives as it is.
  \<^item> A process is launched with the identity, arguments and environment its task asks for; the shutdown keeps its order.
  \<^item> Texts of configuration files and timers are read as written. A timer that is due triggers its tasks and is armed again; one
    whose first year is still to come is not armed at all.
  \<^item> A round of the elos listener fulfils exactly the dependencies whose events have arrived. The linked lists implement lists.
  \<^item> Error paths of the code that do not end well are stated as they are: calls that return with a lock held, so that a later
    one never returns, the wakeup the main loop can miss, the inhibition of waiting that a failed \<open>STOP\<close> leaves behind, and the write behind
    the buffer of the machine identifier.

  \<^bold>\<open>Bounds and fuel.\<close> Loops are structural recursions or have a termination proof. The loops over linked lists take fuel, as a
  store may hold a cycle without the head; more fuel than there are entries is enough (\<open>list_refines\<close>). Endless loops are single
  rounds, step relations, or run over a list of answers of the environment.

  \<^bold>\<open>Not modelled.\<close>
  \<^item> \<open>src/src/eloslog.c\<close>: its events pass through the ring buffer and vectors of the safu library, which is not part of the sources.
    The hooks of \<open>optfeat.c\<close> that call the elos functions are not connected either.
  \<^item> Debug output, usage texts and most error messages; the contents of the version templates beyond what is printed from them.
  \<^item> Mbed TLS, elos, safu, the kernel and the C library beyond the routines named above: they are arguments. Of the kernel's
    timers, whether and for when they are armed is part of the model.
  \<^item> Interleavings inside a function that holds a lock, and inside a runtime command but for the reset of \<open>RESTART\<close>, the memory layout of structs, and memory that is leaked but not used
    again.
  \<^item> Tests, examples, documentation and build files.
\<close>

end
